(* ===== verification/PCS_Xnames.thy ===== *)
theory PCS_Xnames
  imports PCS_Prelude
begin

section \<open>Component names and the runtime environment\<close>

text \<open>
  The service names hardware by xnames (\<^verbatim>\<open>x1000c0s0b0n0\<close>) and asks the package
  \<^verbatim>\<open>hms-xname/xnametypes\<close> for their type, their parent and their validity. That package is not
  part of the repository, so it is a record of functions the model takes as an argument. The
  component types the service distinguishes are constructors; every other type of the package is
  \<open>HMSTypeOther\<close>.

  The Go runtime the service relies on (clock, UUID generator, sleeping) is a record of calls on the
  outside state in the same way.
\<close>

datatype HMSType =
    HMSTypeInvalid | Chassis | ChassisBMC | ComputeModule | RouterModule | NodeBMC | RouterBMC
  | Node | MgmtSwitch | MgmtHLSwitch | CDUMgmtSwitch | CabinetPDUPowerConnector
  | HMSTypeOther string

record xnametypes =
  GetHMSType :: "xname \<Rightarrow> HMSType"
  GetHMSCompParent :: "xname \<Rightarrow> xname"
  IsHMSTypeController :: "HMSType \<Rightarrow> bool"
  HMSType_String :: "HMSType \<Rightarrow> string"
  IsHMSCompIDValid :: "xname \<Rightarrow> bool"

text \<open>
  The component types the service can control or monitor: the common case list of the type
  switches in the domain layer (\<^verbatim>\<open>setupTransitionTasks\<close>, \<^verbatim>\<open>GetPowerStatus\<close>, \<^verbatim>\<open>doTransition\<close>).
\<close>

definition power_comp_type :: "HMSType \<Rightarrow> bool" where
  "power_comp_type t \<longleftrightarrow> t \<in> {ChassisBMC, NodeBMC, RouterBMC, Node, Chassis, ComputeModule,
     RouterModule, MgmtSwitch, MgmtHLSwitch, CDUMgmtSwitch, CabinetPDUPowerConnector}"

text \<open>The components above one, by their number of levels.\<close>

definition ancestor :: "xnametypes \<Rightarrow> nat \<Rightarrow> xname \<Rightarrow> xname" where
  "ancestor X n i = (GetHMSCompParent X ^^ n) i"

record 'w runtime =
  uuid_New :: "('w, uuid) io"
  time_Now :: "('w, time) io"
  time_Sleep :: "duration \<Rightarrow> 'w \<Rightarrow> 'w"

lemma ancestor_0 [simp]: "ancestor X 0 i = i"
  by (simp add: ancestor_def)

lemma ancestor_Suc: "ancestor X (Suc n) i = ancestor X n (GetHMSCompParent X i)"
  by (simp add: ancestor_def funpow_swap1)

lemma power_comp_type_simps [simp]:
  "power_comp_type ChassisBMC" "power_comp_type NodeBMC" "power_comp_type RouterBMC"
  "power_comp_type Node" "power_comp_type Chassis" "power_comp_type ComputeModule"
  "power_comp_type RouterModule" "power_comp_type MgmtSwitch" "power_comp_type MgmtHLSwitch"
  "power_comp_type CDUMgmtSwitch" "power_comp_type CabinetPDUPowerConnector"
  "\<not> power_comp_type HMSTypeInvalid" "\<not> power_comp_type (HMSTypeOther s)"
  by (simp_all add: power_comp_type_def)

end
