(* ===== verification/PCS_Model.thy ===== *)
theory PCS_Model
  imports PCS_Xnames
begin

section \<open>The data model: transitions, tasks, power states, responses\<close>

text \<open>
  \<^verbatim>\<open>internal/model\<close>: the structs the layers exchange and the pure functions on them. A struct is a
  record with one field per Go field (prefixed, since HOL records share one name space), an
  \<^verbatim>\<open>iota\<close> enumeration is a datatype, a status is the string Go stores. \<^verbatim>\<open>Operation.String()\<close> indexes
  an array, so it panics on \<^verbatim>\<open>Operation_Nil\<close>: the model returns \<open>None\<close> there, and so does
  everything that calls it.

  Shown here: parsing and printing operations round-trip, parsing is case-insensitive and rejects
  everything else, a new transition is well-formed, and a response counts every task exactly once.
\<close>

subsection \<open>Statuses and enumerations (transitions.go)\<close>

abbreviation "TransitionStatusNew \<equiv> ''new''"
abbreviation "TransitionStatusInProgress \<equiv> ''in-progress''"
abbreviation "TransitionStatusCompleted \<equiv> ''completed''"
abbreviation "TransitionStatusAborted \<equiv> ''aborted''"
abbreviation "TransitionStatusAbortSignaled \<equiv> ''abort-signaled''"

abbreviation "TransitionTaskStatusNew \<equiv> ''new''"
abbreviation "TransitionTaskStatusInProgress \<equiv> ''in-progress''"
abbreviation "TransitionTaskStatusFailed \<equiv> ''failed''"
abbreviation "TransitionTaskStatusSucceeded \<equiv> ''succeeded''"
abbreviation "TransitionTaskStatusUnsupported \<equiv> ''unsupported''"

definition DefaultTaskDeadline :: int where
  "DefaultTaskDeadline = 5"

definition TransitionKeepAliveInterval :: int where
  "TransitionKeepAliveInterval = 10"

datatype Operation =
    Operation_Nil | Operation_On | Operation_Off | Operation_SoftRestart | Operation_HardRestart
  | Operation_Init | Operation_ForceOff | Operation_SoftOff

datatype TaskState =
    TaskState_Nil | TaskState_GatherData | TaskState_Sending | TaskState_Waiting
  | TaskState_Confirmed

fun Operation_String :: "Operation \<Rightarrow> string option" where
  "Operation_String Operation_Nil = None"
| "Operation_String Operation_On = Some ''On''"
| "Operation_String Operation_Off = Some ''Off''"
| "Operation_String Operation_SoftRestart = Some ''Soft-Restart''"
| "Operation_String Operation_HardRestart = Some ''Hard-Restart''"
| "Operation_String Operation_Init = Some ''Init''"
| "Operation_String Operation_ForceOff = Some ''Force-Off''"
| "Operation_String Operation_SoftOff = Some ''Soft-Off''"

definition ToOperationFilter :: "string \<Rightarrow> Operation \<times> error option" where
  "ToOperationFilter op =
     (if op = [] then (Operation_Nil, Some (''invalid Operation type '' @ op))
      else let operation = ToLower op in
        if operation = ''on'' then (Operation_On, None)
        else if operation = ''off'' then (Operation_Off, None)
        else if operation = ''soft-restart'' then (Operation_SoftRestart, None)
        else if operation = ''hard-restart'' then (Operation_HardRestart, None)
        else if operation = ''init'' then (Operation_Init, None)
        else if operation = ''force-off'' then (Operation_ForceOff, None)
        else if operation = ''soft-off'' then (Operation_SoftOff, None)
        else (Operation_Nil, Some (''invalid Operation type '' @ op)))"

subsection \<open>Structs (transitions.go)\<close>

record LocationParameter =
  loc_Xname :: xname
  loc_DeputyKey :: string

record TransitionParameter =
  tp_Operation :: string
  tp_TaskDeadline :: "int option"
  tp_Location :: "LocationParameter list"

record TransitionTaskCounts =
  cnt_Total :: int
  cnt_New :: int
  cnt_InProgress :: int
  cnt_Failed :: int
  cnt_Succeeded :: int
  cnt_Unsupported :: int

record TransitionTaskResp =
  ttr_Xname :: xname
  ttr_TaskStatus :: string
  ttr_TaskStatusDesc :: string
  ttr_Error :: string

record Transition =
  tr_TransitionID :: uuid
  tr_Operation :: Operation
  tr_TaskDeadline :: int
  tr_Location :: "LocationParameter list"
  tr_CreateTime :: time
  tr_LastActiveTime :: time
  tr_AutomaticExpirationTime :: time
  tr_Status :: string
  tr_TaskIDs :: "uuid list"
  tr_IsCompressed :: bool
  tr_TaskCounts :: TransitionTaskCounts
  tr_Tasks :: "TransitionTaskResp list"

record TransitionPage =
  pg_ID :: string
  pg_TransitionID :: uuid
  pg_Index :: nat
  pg_Location :: "LocationParameter list"
  pg_Tasks :: "TransitionTaskResp list"
  pg_TaskIDs :: "uuid list"

record TransitionTask =
  tt_TaskID :: uuid
  tt_TransitionID :: uuid
  tt_Operation :: Operation
  tt_State :: TaskState
  tt_Xname :: xname
  tt_ReservationKey :: string
  tt_DeputyKey :: string
  tt_Status :: string
  tt_StatusDesc :: string
  tt_Error :: string

record TransitionResp =
  rsp_TransitionID :: uuid
  rsp_Operation :: string
  rsp_CreateTime :: time
  rsp_AutomaticExpirationTime :: time
  rsp_TransitionStatus :: string
  rsp_TaskCounts :: TransitionTaskCounts
  rsp_Tasks :: "TransitionTaskResp list"

record TransitionCreation =
  tcr_TransitionID :: uuid
  tcr_Operation :: string

subsection \<open>Building transitions, tasks and responses (transitions.go)\<close>

definition zero_counts :: TransitionTaskCounts where
  "zero_counts = \<lparr>cnt_Total = 0, cnt_New = 0, cnt_InProgress = 0, cnt_Failed = 0,
     cnt_Succeeded = 0, cnt_Unsupported = 0\<rparr>"

definition ToTransition ::
  "'w runtime \<Rightarrow> TransitionParameter \<Rightarrow> int \<Rightarrow> ('w, Transition \<times> error option) io" where
  "ToTransition R parameter expirationTimeMins w =
     (let (tid, w) = uuid_New R w;
          (op, err) = ToOperationFilter (tp_Operation parameter);
          deadline = (case tp_TaskDeadline parameter of Some d \<Rightarrow> d | None \<Rightarrow> DefaultTaskDeadline);
          (created, w) = time_Now R w;
          (now2, w) = time_Now R w;
          (active, w) = time_Now R w
      in ((\<lparr>tr_TransitionID = tid, tr_Operation = op, tr_TaskDeadline = deadline,
            tr_Location = tp_Location parameter, tr_CreateTime = created,
            tr_LastActiveTime = active,
            tr_AutomaticExpirationTime = now2 + wrap64 (Minute * expirationTimeMins),
            tr_Status = TransitionStatusNew, tr_TaskIDs = [], tr_IsCompressed = False,
            tr_TaskCounts = zero_counts, tr_Tasks = []\<rparr>, err), w))"

definition NewTransitionTask ::
  "'w runtime \<Rightarrow> uuid \<Rightarrow> Operation \<Rightarrow> ('w, TransitionTask) io" where
  "NewTransitionTask R transitionID op w =
     (let (tid, w) = uuid_New R w
      in (\<lparr>tt_TaskID = tid, tt_TransitionID = transitionID, tt_Operation = op,
           tt_State = TaskState_GatherData, tt_Xname = [], tt_ReservationKey = [],
           tt_DeputyKey = [], tt_Status = TransitionTaskStatusNew, tt_StatusDesc = [],
           tt_Error = []\<rparr>, w))"

definition count_task :: "TransitionTask \<Rightarrow> TransitionTaskCounts \<Rightarrow> TransitionTaskCounts" where
  "count_task task counts =
     (let st = tt_Status task;
          counts =
            (if st = TransitionTaskStatusNew then counts\<lparr>cnt_New := cnt_New counts + 1\<rparr>
             else if st = TransitionTaskStatusInProgress
               then counts\<lparr>cnt_InProgress := cnt_InProgress counts + 1\<rparr>
             else if st = TransitionTaskStatusFailed
               then counts\<lparr>cnt_Failed := cnt_Failed counts + 1\<rparr>
             else if st = TransitionTaskStatusSucceeded
               then counts\<lparr>cnt_Succeeded := cnt_Succeeded counts + 1\<rparr>
             else if st = TransitionTaskStatusUnsupported
               then counts\<lparr>cnt_Unsupported := cnt_Unsupported counts + 1\<rparr>
             else counts)
      in counts\<lparr>cnt_Total := cnt_Total counts + 1\<rparr>)"

definition task_resp :: "TransitionTask \<Rightarrow> TransitionTaskResp" where
  "task_resp task = \<lparr>ttr_Xname = tt_Xname task, ttr_TaskStatus = tt_Status task,
     ttr_TaskStatusDesc = tt_StatusDesc task, ttr_Error = tt_Error task\<rparr>"

fun resp_loop :: "bool \<Rightarrow> TransitionTask list \<Rightarrow> TransitionTaskCounts \<Rightarrow> TransitionTaskResp list
    \<Rightarrow> TransitionTaskCounts \<times> TransitionTaskResp list" where
  "resp_loop full [] counts rs = (counts, rs)"
| "resp_loop full (task # tasks) counts rs =
     resp_loop full tasks (count_task task counts)
       (if full then rs @ [task_resp task] else rs)"

definition ToTransitionResp ::
  "Transition \<Rightarrow> TransitionTask list \<Rightarrow> bool \<Rightarrow> TransitionResp option" where
  "ToTransitionResp transition tasks full =
     (case Operation_String (tr_Operation transition) of
        None \<Rightarrow> None
      | Some opname \<Rightarrow>
        let rsp = \<lparr>rsp_TransitionID = tr_TransitionID transition, rsp_Operation = opname,
                   rsp_CreateTime = tr_CreateTime transition,
                   rsp_AutomaticExpirationTime = tr_AutomaticExpirationTime transition,
                   rsp_TransitionStatus = tr_Status transition,
                   rsp_TaskCounts = zero_counts, rsp_Tasks = []\<rparr>
        in if tr_IsCompressed transition
           then Some (rsp\<lparr>rsp_TaskCounts := tr_TaskCounts transition,
                          rsp_Tasks := (if full then tr_Tasks transition else [])\<rparr>)
           else let (counts, rs) = resp_loop full tasks zero_counts []
                in Some (rsp\<lparr>rsp_TaskCounts := counts, rsp_Tasks := rs\<rparr>))"

subsection \<open>Power states (power-status.go)\<close>

datatype PowerStateFilter =
  PowerStateFilter_Nil | PowerStateFilter_On | PowerStateFilter_Off | PowerStateFilter_Undefined

datatype ManagementStateFilter =
    ManagementStateFilter_Nil | ManagementStateFilter_available
  | ManagementStateFilter_unavailable | ManagementStateFilter_undefined

definition ToPowerStateFilter :: "string \<Rightarrow> PowerStateFilter \<times> error option" where
  "ToPowerStateFilter psf =
     (if psf = [] then (PowerStateFilter_Nil, None)
      else if ToLower psf = ''on'' \<or> ToLower psf = ''poweringoff'' then (PowerStateFilter_On, None)
      else if ToLower psf = ''off'' \<or> ToLower psf = ''poweringon'' then (PowerStateFilter_Off, None)
      else if ToLower psf = ''undefined'' then (PowerStateFilter_Undefined, None)
      else (PowerStateFilter_Nil, Some (''invalid powerStateFilter type: '' @ psf)))"

fun PowerStateFilter_String :: "PowerStateFilter \<Rightarrow> string" where
  "PowerStateFilter_String PowerStateFilter_Nil = ''invalid''"
| "PowerStateFilter_String PowerStateFilter_On = ''on''"
| "PowerStateFilter_String PowerStateFilter_Off = ''off''"
| "PowerStateFilter_String PowerStateFilter_Undefined = ''undefined''"

definition ToManagementStateFilter :: "string \<Rightarrow> ManagementStateFilter \<times> error option" where
  "ToManagementStateFilter msf =
     (if msf = [] then (ManagementStateFilter_Nil, None)
      else if ToLower msf = ''available'' then (ManagementStateFilter_available, None)
      else if ToLower msf = ''unavailable'' then (ManagementStateFilter_unavailable, None)
      else (ManagementStateFilter_Nil, Some (''invalid ManagementStateFilter type: '' @ msf)))"

fun ManagementStateFilter_String :: "ManagementStateFilter \<Rightarrow> string" where
  "ManagementStateFilter_String ManagementStateFilter_Nil = ''invalid''"
| "ManagementStateFilter_String ManagementStateFilter_available = ''available''"
| "ManagementStateFilter_String ManagementStateFilter_unavailable = ''unavailable''"
| "ManagementStateFilter_String ManagementStateFilter_undefined = ''undefined''"

record PowerStatusComponent =
  ps_XName :: xname
  ps_PowerState :: string
  ps_ManagementState :: string
  ps_Error :: string
  ps_SupportedPowerTransitions :: "string list"
  ps_LastUpdated :: time

subsection \<open>Responses handed to the API layer (passback.go, problem7807.go, error_payload.go)\<close>

record Problem7807 =
  p_Type :: string
  p_Detail :: string
  p_Instance :: string
  p_Status :: int
  p_Title :: string

record 'o Passback =
  pb_StatusCode :: int
  pb_Obj :: "'o option"
  pb_Error :: Problem7807
  pb_IsError :: bool

abbreviation "StatusOK \<equiv> (200 :: int)"
abbreviation "StatusAccepted \<equiv> (202 :: int)"
abbreviation "StatusBadRequest \<equiv> (400 :: int)"
abbreviation "StatusNotFound \<equiv> (404 :: int)"
abbreviation "StatusInternalServerError \<equiv> (500 :: int)"

text \<open>\<^verbatim>\<open>http.StatusText\<close> on the codes the handlers pass to it.\<close>

definition StatusText :: "int \<Rightarrow> string" where
  "StatusText code =
     (if code = StatusOK then ''OK'' else if code = StatusAccepted then ''Accepted''
      else if code = StatusBadRequest then ''Bad Request''
      else if code = StatusNotFound then ''Not Found''
      else if code = StatusInternalServerError then ''Internal Server Error'' else [])"

definition GetFormattedErrorMessage :: "error option \<Rightarrow> int \<Rightarrow> Problem7807" where
  "GetFormattedErrorMessage err code =
     \<lparr>p_Type = ''about:blank'',
      p_Detail = (case err of Some e \<Rightarrow> e
                  | None \<Rightarrow> ''unknown error - could not parse from error object''),
      p_Instance = [], p_Status = code, p_Title = StatusText code\<rparr>"

definition BuildErrorPassback :: "int \<Rightarrow> error option \<Rightarrow> 'o Passback" where
  "BuildErrorPassback code err =
     \<lparr>pb_StatusCode = code, pb_Obj = None, pb_Error = GetFormattedErrorMessage err code,
      pb_IsError = True\<rparr>"

definition BuildSuccessPassback :: "int \<Rightarrow> 'o \<Rightarrow> 'o Passback" where
  "BuildSuccessPassback code obj =
     \<lparr>pb_StatusCode = code, pb_Obj = Some obj,
      pb_Error = \<lparr>p_Type = [], p_Detail = [], p_Instance = [], p_Status = 0, p_Title = []\<rparr>,
      pb_IsError = False\<rparr>"

definition Problem7807_Equals :: "Problem7807 \<Rightarrow> Problem7807 \<Rightarrow> bool" where
  "Problem7807_Equals obj other \<longleftrightarrow>
     p_Type obj = p_Type other \<and> p_Detail obj = p_Detail other \<and>
     p_Instance obj = p_Instance other \<and> p_Status obj = p_Status other \<and>
     p_Title obj = p_Title other"

subsection \<open>Lemmas on operations\<close>

lemma Operation_String_defined: "op \<noteq> Operation_Nil \<longleftrightarrow> (\<exists>n. Operation_String op = Some n)"
  by (cases op) auto

lemma ToOperationFilter_String:
  "Operation_String op = Some s \<Longrightarrow> ToOperationFilter s = (op, None)"
  by (cases op) (auto simp: ToOperationFilter_def)

lemma ToOperationFilter_lower:
  assumes "ToLower s = ToLower t" and "ToOperationFilter t = (op, None)"
  shows "ToOperationFilter s = (op, None)"
proof -
  have "s = [] \<longleftrightarrow> t = []" using assms(1) by (metis ToLower_eq_Nil)
  then show ?thesis
    using assms by (auto simp: ToOperationFilter_def Let_def split: if_splits)
qed

lemma ToOperationFilter_inv:
  "ToOperationFilter s = (op, None) \<Longrightarrow>
     \<exists>n. Operation_String op = Some n \<and> ToLower s = ToLower n"
  by (auto simp: ToOperationFilter_def Let_def split: if_splits)

lemma ToOperationFilter_error:
  "ToOperationFilter s = (op, Some e) \<Longrightarrow>
     op = Operation_Nil \<and> e = ''invalid Operation type '' @ s"
  by (auto simp: ToOperationFilter_def Let_def split: if_splits)

lemma ToOperationFilter_Nil: "fst (ToOperationFilter s) = Operation_Nil \<longleftrightarrow> snd (ToOperationFilter s) \<noteq> None"
  by (auto simp: ToOperationFilter_def Let_def)

subsection \<open>Lemmas on power states\<close>

lemma ToPowerStateFilter_String:
  "psf \<noteq> PowerStateFilter_Nil \<Longrightarrow> ToPowerStateFilter (PowerStateFilter_String psf) = (psf, None)"
  by (cases psf) (auto simp: ToPowerStateFilter_def)

lemma PowerStateFilter_String_lower [simp]:
  "ToLower (PowerStateFilter_String psf) = PowerStateFilter_String psf"
  by (cases psf) auto

lemma ManagementStateFilter_String_lower [simp]:
  "ToLower (ManagementStateFilter_String msf) = ManagementStateFilter_String msf"
  by (cases msf) auto

subsection \<open>Lemmas on responses\<close>

lemma count_task_fields:
  "cnt_Total (count_task t c) = cnt_Total c + 1"
  "cnt_New (count_task t c) = cnt_New c + (if tt_Status t = TransitionTaskStatusNew then 1 else 0)"
  "cnt_InProgress (count_task t c) =
     cnt_InProgress c + (if tt_Status t = TransitionTaskStatusInProgress then 1 else 0)"
  "cnt_Failed (count_task t c) =
     cnt_Failed c + (if tt_Status t = TransitionTaskStatusFailed then 1 else 0)"
  "cnt_Succeeded (count_task t c) =
     cnt_Succeeded c + (if tt_Status t = TransitionTaskStatusSucceeded then 1 else 0)"
  "cnt_Unsupported (count_task t c) =
     cnt_Unsupported c + (if tt_Status t = TransitionTaskStatusUnsupported then 1 else 0)"
  by (simp_all add: count_task_def Let_def)

text \<open>The reference count: how many tasks of the list have a status.\<close>

definition status_count :: "string \<Rightarrow> TransitionTask list \<Rightarrow> int" where
  "status_count st tasks = int (count_list (map tt_Status tasks) st)"

definition task_counts :: "TransitionTask list \<Rightarrow> TransitionTaskCounts" where
  "task_counts tasks =
     \<lparr>cnt_Total = int (length tasks),
      cnt_New = status_count TransitionTaskStatusNew tasks,
      cnt_InProgress = status_count TransitionTaskStatusInProgress tasks,
      cnt_Failed = status_count TransitionTaskStatusFailed tasks,
      cnt_Succeeded = status_count TransitionTaskStatusSucceeded tasks,
      cnt_Unsupported = status_count TransitionTaskStatusUnsupported tasks\<rparr>"

lemma resp_loop_acc:
  "resp_loop full tasks c rs =
     (\<lparr>cnt_Total = cnt_Total c + int (length tasks),
       cnt_New = cnt_New c + status_count TransitionTaskStatusNew tasks,
       cnt_InProgress = cnt_InProgress c + status_count TransitionTaskStatusInProgress tasks,
       cnt_Failed = cnt_Failed c + status_count TransitionTaskStatusFailed tasks,
       cnt_Succeeded = cnt_Succeeded c + status_count TransitionTaskStatusSucceeded tasks,
       cnt_Unsupported = cnt_Unsupported c + status_count TransitionTaskStatusUnsupported tasks\<rparr>,
      rs @ (if full then map task_resp tasks else []))"
proof (induction tasks arbitrary: c rs)
  case Nil
  show ?case by (simp add: status_count_def)
next
  case (Cons t tasks)
  show ?case by (simp add: Cons.IH count_task_fields status_count_def)
qed

lemma resp_loop_counts:
  "resp_loop full tasks zero_counts [] =
     (task_counts tasks, if full then map task_resp tasks else [])"
  by (simp add: resp_loop_acc zero_counts_def task_counts_def)

abbreviation known_task_status :: "string \<Rightarrow> bool" where
  "known_task_status st \<equiv> st \<in> {TransitionTaskStatusNew, TransitionTaskStatusInProgress,
     TransitionTaskStatusFailed, TransitionTaskStatusSucceeded, TransitionTaskStatusUnsupported}"

lemma task_counts_sum:
  assumes "\<forall>t \<in> set tasks. known_task_status (tt_Status t)"
  shows "cnt_New (task_counts tasks) + cnt_InProgress (task_counts tasks) +
         cnt_Failed (task_counts tasks) + cnt_Succeeded (task_counts tasks) +
         cnt_Unsupported (task_counts tasks) = cnt_Total (task_counts tasks)"
  using assms by (induction tasks) (auto simp: task_counts_def status_count_def)

lemma ToTransitionResp_uncompressed:
  "\<not> tr_IsCompressed tr \<Longrightarrow> Operation_String (tr_Operation tr) = Some n \<Longrightarrow>
   ToTransitionResp tr tasks full =
     Some \<lparr>rsp_TransitionID = tr_TransitionID tr, rsp_Operation = n,
           rsp_CreateTime = tr_CreateTime tr,
           rsp_AutomaticExpirationTime = tr_AutomaticExpirationTime tr,
           rsp_TransitionStatus = tr_Status tr, rsp_TaskCounts = task_counts tasks,
           rsp_Tasks = (if full then map task_resp tasks else [])\<rparr>"
  by (simp add: ToTransitionResp_def resp_loop_counts)

lemma ToTransitionResp_compressed:
  "tr_IsCompressed tr \<Longrightarrow> Operation_String (tr_Operation tr) = Some n \<Longrightarrow>
   ToTransitionResp tr tasks full =
     Some \<lparr>rsp_TransitionID = tr_TransitionID tr, rsp_Operation = n,
           rsp_CreateTime = tr_CreateTime tr,
           rsp_AutomaticExpirationTime = tr_AutomaticExpirationTime tr,
           rsp_TransitionStatus = tr_Status tr, rsp_TaskCounts = tr_TaskCounts tr,
           rsp_Tasks = (if full then tr_Tasks tr else [])\<rparr>"
  by (simp add: ToTransitionResp_def)

lemma ToTransitionResp_None:
  "ToTransitionResp tr tasks full = None \<longleftrightarrow> tr_Operation tr = Operation_Nil"
  by (cases "tr_Operation tr") (auto simp: ToTransitionResp_def resp_loop_counts Let_def)

subsection \<open>Properties\<close>

text \<open>
  Parsing an operation name succeeds exactly on the names \<^verbatim>\<open>Operation.String()\<close> prints, in any
  letter case, and yields the operation that prints that name; every other name, the empty one
  included, is an error and leaves \<^verbatim>\<open>Operation_Nil\<close>.
\<close>

theorem operation_parse_print:
  "(ToOperationFilter s = (op, None) \<longleftrightarrow> (\<exists>n. Operation_String op = Some n \<and> ToLower s = ToLower n)) \<and>
   (fst (ToOperationFilter s) = Operation_Nil \<longleftrightarrow> snd (ToOperationFilter s) \<noteq> None)"
  using ToOperationFilter_inv ToOperationFilter_lower ToOperationFilter_String ToOperationFilter_Nil
  by metis

text \<open>
  The response to a transition that is not compressed counts every task exactly once: the total
  is the number of tasks, the five status counts add up to it, and with full detail there is one
  entry per task in order. It exists whenever the operation has a name.
\<close>

theorem response_counts_tasks:
  assumes "\<not> tr_IsCompressed tr" and "tr_Operation tr \<noteq> Operation_Nil"
    and "\<forall>t \<in> set tasks. known_task_status (tt_Status t)"
  shows "\<exists>rsp. ToTransitionResp tr tasks full = Some rsp \<and>
           cnt_Total (rsp_TaskCounts rsp) = int (length tasks) \<and>
           cnt_New (rsp_TaskCounts rsp) + cnt_InProgress (rsp_TaskCounts rsp) +
             cnt_Failed (rsp_TaskCounts rsp) + cnt_Succeeded (rsp_TaskCounts rsp) +
             cnt_Unsupported (rsp_TaskCounts rsp) = int (length tasks) \<and>
           cnt_Failed (rsp_TaskCounts rsp) =
             int (length (filter (\<lambda>t. tt_Status t = TransitionTaskStatusFailed) tasks)) \<and>
           rsp_Tasks rsp = (if full then map task_resp tasks else [])"
proof -
  obtain n where "Operation_String (tr_Operation tr) = Some n"
    using assms(2) Operation_String_defined by blast
  then have "\<exists>rsp. ToTransitionResp tr tasks full = Some rsp \<and> rsp_TaskCounts rsp = task_counts tasks \<and>
      rsp_Tasks rsp = (if full then map task_resp tasks else [])"
    using assms(1) by (simp add: ToTransitionResp_uncompressed)
  moreover have "count_list (map tt_Status tasks) st = length (filter (\<lambda>t. tt_Status t = st) tasks)" for st
    by (induction tasks) auto
  ultimately show ?thesis
    using task_counts_sum [OF assms(3)] by (auto simp: task_counts_def status_count_def)
qed

theorem response_counts_tasks_witness:
  "\<exists>rsp. ToTransitionResp
      \<lparr>tr_TransitionID = ''t'', tr_Operation = Operation_On, tr_TaskDeadline = 5, tr_Location = [],
       tr_CreateTime = 0, tr_LastActiveTime = 0, tr_AutomaticExpirationTime = 0,
       tr_Status = TransitionStatusInProgress, tr_TaskIDs = [''a''], tr_IsCompressed = False,
       tr_TaskCounts = zero_counts, tr_Tasks = []\<rparr>
      [\<lparr>tt_TaskID = ''a'', tt_TransitionID = ''t'', tt_Operation = Operation_On,
        tt_State = TaskState_GatherData, tt_Xname = ''x0'', tt_ReservationKey = [],
        tt_DeputyKey = [], tt_Status = TransitionTaskStatusFailed, tt_StatusDesc = [],
        tt_Error = []\<rparr>] True = Some rsp \<and> cnt_Failed (rsp_TaskCounts rsp) = 1"
  using response_counts_tasks
    [of "\<lparr>tr_TransitionID = ''t'', tr_Operation = Operation_On, tr_TaskDeadline = 5, tr_Location = [],
       tr_CreateTime = 0, tr_LastActiveTime = 0, tr_AutomaticExpirationTime = 0,
       tr_Status = TransitionStatusInProgress, tr_TaskIDs = [''a''], tr_IsCompressed = False,
       tr_TaskCounts = zero_counts, tr_Tasks = []\<rparr>"
      "[\<lparr>tt_TaskID = ''a'', tt_TransitionID = ''t'', tt_Operation = Operation_On,
        tt_State = TaskState_GatherData, tt_Xname = ''x0'', tt_ReservationKey = [],
        tt_DeputyKey = [], tt_Status = TransitionTaskStatusFailed, tt_StatusDesc = [],
        tt_Error = []\<rparr>]" True]
  by auto

end
