(* ===== verification/Power_Cap_Model.thy ===== *)
theory Power_Cap_Model
  imports PCS_Model
begin

section \<open>The data model: HSM data and power capping\<close>

text \<open>
  \<^verbatim>\<open>internal/hsm/models.go\<close> and \<^verbatim>\<open>internal/model/power-cap.go\<close>: what the service keeps of a
  component it read from the hardware state manager (HSM), the reservations it holds there, and the
  tasks and operations of power capping. A pointer that may be nil is an option. \<^verbatim>\<open>base.Component\<close>
  is a struct of the package \<^verbatim>\<open>hms-base\<close>; the fields the service reads are modelled.
\<close>

subsection \<open>HSM (models.go)\<close>

record ReservationData =
  rd_XName :: xname
  rd_ReservationOwner :: bool
  rd_ReservationKey :: string
  rd_ExpirationTime :: string
  rd_DeputyKey :: string
  rd_Error :: "error option"
  rd_needRsv :: bool

record PowerCap =
  pc_Name :: string
  pc_Path :: string
  pc_Min :: int
  pc_Max :: int
  pc_PwrCtlIndex :: nat

record base_Component =
  bc_ID :: xname
  bc_Type :: string
  bc_State :: string
  bc_Role :: string
  bc_Class :: string

record HsmData =
  hd_BaseData :: base_Component
  hd_RfFQDN :: string
  hd_PowerActionURI :: string
  hd_AllowableActions :: "string list"
  hd_PowerStatusURI :: string
  hd_Error :: "error option"
  hd_PowerCapURI :: string
  hd_PowerCapTargetURI :: string
  hd_PowerCapControlsCount :: nat
  hd_PowerCapCtlInfoCount :: nat
  hd_PowerCaps :: "(string, PowerCap) gomap"
  hd_PoweredBy :: "xname list"

subsection \<open>Power capping (power-cap.go)\<close>

abbreviation "PowerCapTaskTypeSnapshot \<equiv> ''snapshot''"
abbreviation "PowerCapTaskTypePatch \<equiv> ''patch''"
abbreviation "PowerCapTaskStatusNew \<equiv> ''new''"
abbreviation "PowerCapTaskStatusInProgress \<equiv> ''in-progress''"
abbreviation "PowerCapTaskStatusCompleted \<equiv> ''completed''"
abbreviation "PowerCapOpStatusNew \<equiv> ''new''"
abbreviation "PowerCapOpStatusInProgress \<equiv> ''in-progress''"
abbreviation "PowerCapOpStatusFailed \<equiv> ''failed''"
abbreviation "PowerCapOpStatusSucceeded \<equiv> ''Succeeded''"
abbreviation "PowerCapOpStatusUnsupported \<equiv> ''Unsupported''"

record PowerCapControlParameter =
  ccp_Name :: string
  ccp_Value :: int

record PowerCapComponentParameter =
  cmp_Xname :: xname
  cmp_Controls :: "PowerCapControlParameter list"

record PowerCapabilities =
  cap_HostLimitMax :: "int option"
  cap_HostLimitMin :: "int option"
  cap_PowerupPower :: "int option"

record PowerCapControls =
  ctl_Name :: string
  ctl_CurrentValue :: "int option"
  ctl_MaximumValue :: "int option"
  ctl_MinimumValue :: "int option"

record PowerCapComponent =
  pcc_Xname :: xname
  pcc_Error :: string
  pcc_Limits :: "PowerCapabilities option"
  pcc_PowerCapLimits :: "PowerCapControls list"

record PowerCapTaskCounts =
  pcn_Total :: int
  pcn_New :: int
  pcn_InProgress :: int
  pcn_Failed :: int
  pcn_Succeeded :: int
  pcn_Unsupported :: int

record PowerCapTask =
  pct_TaskID :: uuid
  pct_Type :: string
  pct_SnapshotParameters :: "xname list option"
  pct_PatchParameters :: "PowerCapComponentParameter list option"
  pct_TaskCreateTime :: time
  pct_AutomaticExpirationTime :: time
  pct_TaskStatus :: string
  pct_OperationIDs :: "uuid list"
  pct_IsCompressed :: bool
  pct_TaskCounts :: PowerCapTaskCounts
  pct_Components :: "PowerCapComponent list"

record PowerCapOperation =
  pco_OperationID :: uuid
  pco_TaskID :: uuid
  pco_Type :: string
  pco_Status :: string
  pco_Component :: PowerCapComponent
  pco_RfFQDN :: string
  pco_PowerCapURI :: string
  pco_PowerCapTargetURI :: string
  pco_PowerCapControlsCount :: nat
  pco_PowerCapCtlInfoCount :: nat
  pco_PowerCaps :: "(string, PowerCap) gomap"

definition zero_pc_counts :: PowerCapTaskCounts where
  "zero_pc_counts = \<lparr>pcn_Total = 0, pcn_New = 0, pcn_InProgress = 0, pcn_Failed = 0,
     pcn_Succeeded = 0, pcn_Unsupported = 0\<rparr>"

definition newPowerCapTask :: "'w runtime \<Rightarrow> int \<Rightarrow> ('w, PowerCapTask) io" where
  "newPowerCapTask R expirationTimeMins w =
     (let (tid, w) = uuid_New R w;
          (created, w) = time_Now R w;
          (now2, w) = time_Now R w
      in (\<lparr>pct_TaskID = tid, pct_Type = [], pct_SnapshotParameters = None,
           pct_PatchParameters = None, pct_TaskCreateTime = created,
           pct_AutomaticExpirationTime = now2 + wrap64 (Minute * expirationTimeMins),
           pct_TaskStatus = PowerCapTaskStatusNew, pct_OperationIDs = [],
           pct_IsCompressed = False, pct_TaskCounts = zero_pc_counts, pct_Components = []\<rparr>, w))"

definition NewPowerCapSnapshotTask ::
  "'w runtime \<Rightarrow> xname list \<Rightarrow> int \<Rightarrow> ('w, PowerCapTask) io" where
  "NewPowerCapSnapshotTask R parameters expirationTimeMins w =
     (let (task, w) = newPowerCapTask R expirationTimeMins w
      in (task\<lparr>pct_Type := PowerCapTaskTypeSnapshot,
               pct_SnapshotParameters := Some parameters\<rparr>, w))"

definition NewPowerCapPatchTask ::
  "'w runtime \<Rightarrow> PowerCapComponentParameter list \<Rightarrow> int \<Rightarrow> ('w, PowerCapTask) io" where
  "NewPowerCapPatchTask R parameters expirationTimeMins w =
     (let (task, w) = newPowerCapTask R expirationTimeMins w
      in (task\<lparr>pct_Type := PowerCapTaskTypePatch, pct_PatchParameters := Some parameters\<rparr>, w))"

definition NewPowerCapOperation ::
  "'w runtime \<Rightarrow> uuid \<Rightarrow> string \<Rightarrow> ('w, PowerCapOperation) io" where
  "NewPowerCapOperation R taskID operationType w =
     (let (oid, w) = uuid_New R w
      in (\<lparr>pco_OperationID = oid, pco_TaskID = taskID, pco_Type = operationType,
           pco_Status = PowerCapOpStatusNew,
           pco_Component = \<lparr>pcc_Xname = [], pcc_Error = [], pcc_Limits = None,
                            pcc_PowerCapLimits = []\<rparr>,
           pco_RfFQDN = [], pco_PowerCapURI = [], pco_PowerCapTargetURI = [],
           pco_PowerCapControlsCount = 0, pco_PowerCapCtlInfoCount = 0, pco_PowerCaps = []\<rparr>, w))"

end
