(* ===== verification/Storage_Provider.thy ===== *)
theory Storage_Provider
  imports Power_Cap_Model
begin

section \<open>The storage interface\<close>

text \<open>
  \<^verbatim>\<open>internal/storage/storage_interface.go\<close>: the Go interface is a record of operations on the outside
  state, one field per method with the results Go returns (a nil pointer is \<open>None\<close>, a nil error is
  \<open>None\<close>). The domain layer calls only these.

  The locale \<open>transition_store\<close> is the contract the domain layer relies on for transitions and their
  tasks, in terms of what the database holds: \<open>trans\<close> maps a transition ID to the stored record and
  \<open>tasks\<close> maps a transition ID and a task ID to the stored task. An operation that reports an error may
  have happened or not. \<open>strict_transition_store\<close> adds that a test-and-set never creates a record.
  Both are interpreted in the theories of the providers.
\<close>

record 'w StorageProvider =
  dsp_Ping :: "('w, error option) io"
  dsp_GetPowerStatusMaster :: "('w, time option \<times> error option) io"
  dsp_StorePowerStatusMaster :: "time \<Rightarrow> ('w, error option) io"
  dsp_TASPowerStatusMaster :: "time \<Rightarrow> time \<Rightarrow> ('w, bool \<times> error option) io"
  dsp_StorePowerStatus :: "PowerStatusComponent \<Rightarrow> ('w, error option) io"
  dsp_DeletePowerStatus :: "xname \<Rightarrow> ('w, error option) io"
  dsp_GetPowerStatus :: "xname \<Rightarrow> ('w, PowerStatusComponent option \<times> error option) io"
  dsp_GetAllPowerStatus :: "('w, PowerStatusComponent list \<times> error option) io"
  dsp_GetPowerStatusHierarchy :: "xname \<Rightarrow> ('w, PowerStatusComponent list \<times> error option) io"
  dsp_StorePowerCapTask :: "PowerCapTask \<Rightarrow> ('w, error option) io"
  dsp_StorePowerCapOperation :: "PowerCapOperation \<Rightarrow> ('w, error option) io"
  dsp_GetPowerCapTask :: "uuid \<Rightarrow> ('w, PowerCapTask option \<times> error option) io"
  dsp_GetPowerCapOperation :: "uuid \<Rightarrow> uuid \<Rightarrow> ('w, PowerCapOperation option \<times> error option) io"
  dsp_GetAllPowerCapOperationsForTask :: "uuid \<Rightarrow> ('w, PowerCapOperation list \<times> error option) io"
  dsp_GetAllPowerCapTasks :: "('w, PowerCapTask list \<times> error option) io"
  dsp_DeletePowerCapTask :: "uuid \<Rightarrow> ('w, error option) io"
  dsp_DeletePowerCapOperation :: "uuid \<Rightarrow> uuid \<Rightarrow> ('w, error option) io"
  dsp_StoreTransition :: "Transition \<Rightarrow> ('w, error option) io"
  dsp_StoreTransitionTask :: "TransitionTask \<Rightarrow> ('w, error option) io"
  dsp_GetTransition :: "uuid \<Rightarrow> ('w, Transition option \<times> Transition option \<times> error option) io"
  dsp_GetTransitionTask :: "uuid \<Rightarrow> uuid \<Rightarrow> ('w, TransitionTask option \<times> error option) io"
  dsp_GetAllTasksForTransition :: "uuid \<Rightarrow> ('w, TransitionTask list \<times> error option) io"
  dsp_GetAllTransitions :: "('w, Transition list \<times> error option) io"
  dsp_DeleteTransition :: "uuid \<Rightarrow> ('w, error option) io"
  dsp_DeleteTransitionTask :: "uuid \<Rightarrow> uuid \<Rightarrow> ('w, error option) io"
  dsp_TASTransition :: "Transition \<Rightarrow> Transition \<Rightarrow> ('w, bool \<times> error option) io"

subsection \<open>The contract for transitions\<close>

text \<open>
  The text of a UUID has 36 characters, hexadecimal digits and dashes; the keys of the key-value
  backends rely on that to tell one record from another.
\<close>

definition okid :: "uuid \<Rightarrow> bool" where
  "okid u \<longleftrightarrow> length u = 36 \<and> list_all (\<lambda>c. c \<in> set ''0123456789abcdef-'') u"

text \<open>
  What a reported result says about a map that an operation sets at one key: without an error it is
  set, with an error it may be.
\<close>

definition may_set :: "('k \<Rightarrow> 'v option) \<Rightarrow> 'k \<Rightarrow> 'v option \<Rightarrow> error option \<Rightarrow> ('k \<Rightarrow> 'v option) \<Rightarrow> bool" where
  "may_set m k v e m' \<longleftrightarrow> m' = m(k := v) \<or> (e \<noteq> None \<and> m' = m)"

locale transition_store =
  fixes D :: "'w StorageProvider"
    and inv :: "'w \<Rightarrow> bool"
    and trans :: "'w \<Rightarrow> uuid \<Rightarrow> Transition option"
    and tasks :: "'w \<Rightarrow> uuid \<times> uuid \<Rightarrow> TransitionTask option"
    and fits :: "Transition \<Rightarrow> bool"
  assumes trans_id: "\<And>w i t. inv w \<Longrightarrow> trans w i = Some t \<Longrightarrow> tr_TransitionID t = i \<and> okid i"
    and tasks_id: "\<And>w i j k. inv w \<Longrightarrow> tasks w (i, j) = Some k \<Longrightarrow>
      tt_TransitionID k = i \<and> tt_TaskID k = j \<and> okid i \<and> okid j"
    and get: "\<And>w i t p e w'. inv w \<Longrightarrow> dsp_GetTransition D i w = ((t, p, e), w') \<Longrightarrow>
      inv w' \<and> trans w' = trans w \<and> tasks w' = tasks w \<and>
      (if e = None then t = trans w i \<and> p = trans w i else t = None \<and> p = None)"
    and store: "\<And>w t e w'. inv w \<Longrightarrow> okid (tr_TransitionID t) \<Longrightarrow> fits t \<Longrightarrow>
      dsp_StoreTransition D t w = (e, w') \<Longrightarrow>
      inv w' \<and> tasks w' = tasks w \<and> may_set (trans w) (tr_TransitionID t) (Some t) e (trans w')"
    and delete: "\<And>w i e w'. inv w \<Longrightarrow> okid i \<Longrightarrow> dsp_DeleteTransition D i w = (e, w') \<Longrightarrow>
      inv w' \<and> tasks w' = tasks w \<and> may_set (trans w) i None e (trans w')"
    and tas: "\<And>w t old ok e w'. inv w \<Longrightarrow> okid (tr_TransitionID t) \<Longrightarrow> fits t \<Longrightarrow>
      dsp_TASTransition D t old w = ((ok, e), w') \<Longrightarrow>
      inv w' \<and> tasks w' = tasks w \<and>
      (trans w' = (trans w)(tr_TransitionID t \<mapsto> t) \<and>
         trans w (tr_TransitionID t) \<in> {None, Some old}
       \<or> trans w' = trans w \<and> \<not> ok) \<and>
      (\<not> ok \<and> e = None \<longrightarrow> trans w' = trans w)"
    and store_task: "\<And>w k e w'. inv w \<Longrightarrow> okid (tt_TransitionID k) \<Longrightarrow> okid (tt_TaskID k) \<Longrightarrow>
      dsp_StoreTransitionTask D k w = (e, w') \<Longrightarrow>
      inv w' \<and> trans w' = trans w \<and>
      may_set (tasks w) (tt_TransitionID k, tt_TaskID k) (Some k) e (tasks w')"
    and delete_task: "\<And>w i j e w'. inv w \<Longrightarrow> okid i \<Longrightarrow> okid j \<Longrightarrow> dsp_DeleteTransitionTask D i j w = (e, w') \<Longrightarrow>
      inv w' \<and> trans w' = trans w \<and> may_set (tasks w) (i, j) None e (tasks w')"
    and get_task: "\<And>w i j k e w'. inv w \<Longrightarrow> okid i \<Longrightarrow> dsp_GetTransitionTask D i j w = ((k, e), w') \<Longrightarrow>
      inv w' \<and> trans w' = trans w \<and> tasks w' = tasks w \<and>
      (if e = None then k = tasks w (i, j) else k = None)"
    and all_tasks: "\<And>w i ks e w'. inv w \<Longrightarrow> okid i \<Longrightarrow> dsp_GetAllTasksForTransition D i w = ((ks, e), w') \<Longrightarrow>
      inv w' \<and> trans w' = trans w \<and> tasks w' = tasks w \<and>
      (e = None \<longrightarrow> distinct (map tt_TaskID ks) \<and> (\<forall>k. k \<in> set ks \<longleftrightarrow> tasks w (i, tt_TaskID k) = Some k))"
    and all_trans: "\<And>w ts e w'. inv w \<Longrightarrow> dsp_GetAllTransitions D w = ((ts, e), w') \<Longrightarrow>
      inv w' \<and> trans w' = trans w \<and> tasks w' = tasks w \<and>
      (e = None \<longrightarrow> distinct (map tr_TransitionID ts) \<and>
         (\<forall>t. t \<in> set ts \<longleftrightarrow> trans w (tr_TransitionID t) = Some t))"

locale strict_transition_store = transition_store +
  assumes tas_exists: "\<And>w t old ok e w'. inv w \<Longrightarrow> okid (tr_TransitionID t) \<Longrightarrow> fits t \<Longrightarrow>
      dsp_TASTransition D t old w = ((ok, e), w') \<Longrightarrow>
      trans w (tr_TransitionID t) = None \<Longrightarrow> trans w' = trans w \<and> \<not> ok"

lemma may_set_other: "may_set m k v e m' \<Longrightarrow> k' \<noteq> k \<Longrightarrow> m' k' = m k'"
  by (auto simp: may_set_def)

lemma may_set_ok: "may_set m k v None m' \<Longrightarrow> m' = m(k := v)"
  by (simp add: may_set_def)

end
