(* ===== verification/Etcd_Storage.thy ===== *)
theory Etcd_Storage
  imports Storage_Provider
begin

section \<open>The key-value storage provider\<close>

text \<open>
  \<^verbatim>\<open>internal/storage/storage_etcd_impl.go\<close> and \<^verbatim>\<open>storage_mem_impl.go\<close>: every record of the service is
  one JSON document under one key of a key-value store reached through \<^verbatim>\<open>hmetcd.Kvi\<close>. The store is
  not part of the repository: it is a record of operations on the outside state. A JSON document is
  a constructor of \<open>kv_json\<close> holding the value that was marshalled. Decoding a document as another
  type than it was written with does not happen (the locale below keeps every document under a key of
  its own type); the model reports an error there. The length of the JSON text of a transition is a
  parameter of the provider. The mutex serialises calls within one process and has no counterpart
  here: one operation is one step on the outside state.

  A transition that is larger than the store's object limit has its messages truncated, then its
  lists are cut into pages. A page size that is not positive, with which the paging loops would not
  end, is excluded by \<open>Init\<close>.
\<close>

subsection \<open>The store behind the provider\<close>

datatype kv_json =
    JTime time
  | JString string
  | JPowerStatus PowerStatusComponent
  | JPowerCapTask PowerCapTask
  | JPowerCapOp PowerCapOperation
  | JTransition Transition
  | JTransitionPage TransitionPage
  | JTransitionTask TransitionTask

record 'w Kvi =
  kvi_Store :: "string \<Rightarrow> kv_json \<Rightarrow> ('w, error option) io"
  kvi_Get :: "string \<Rightarrow> ('w, kv_json option \<times> error option) io"
  kvi_Delete :: "string \<Rightarrow> ('w, error option) io"
  kvi_GetRange :: "string \<Rightarrow> string \<Rightarrow> ('w, (string \<times> kv_json) list \<times> error option) io"
  kvi_TAS :: "string \<Rightarrow> kv_json \<Rightarrow> kv_json \<Rightarrow> ('w, bool \<times> error option) io"

record 'w ETCDStorage =
  e_DisableSizeChecks :: bool
  e_PageSize :: int
  e_MaxMessageLen :: int
  e_MaxEtcdObjectSize :: int
  e_kvHandle :: "'w Kvi"
  e_jsonLen :: "Transition \<Rightarrow> int"

abbreviation "keyPrefix \<equiv> ''/pcs/''"
abbreviation "keySegPowerStatusMaster \<equiv> ''/powerstatusmaster''"
abbreviation "keySegPowerState \<equiv> ''/powerstate''"
abbreviation "keySegPowerCap \<equiv> ''/powercaptask''"
abbreviation "keySegPowerCapOp \<equiv> ''/powercapop''"
abbreviation "keySegTransition \<equiv> ''/transition''"
abbreviation "keySegTransitionPage \<equiv> ''/transitionpage''"
abbreviation "keySegTransitionTask \<equiv> ''/transitiontask''"
abbreviation "keyMin \<equiv> '' ''"
abbreviation "keyMax \<equiv> ''~''"

definition DefaultEtcdPageSize :: int where "DefaultEtcdPageSize = 5000"
definition DefaultMaxMessageLen :: int where "DefaultMaxMessageLen = 130"
definition DefaultMaxEtcdObjectSize :: int where "DefaultMaxEtcdObjectSize = 1570000"
definition kvRetriesDefault :: nat where "kvRetriesDefault = 5"

definition fixUpKey :: "string \<Rightarrow> string" where
  "fixUpKey k =
     (if \<not> HasPrefix k keyPrefix
      then if HasPrefix k ''/'' then keyPrefix @ drop 1 k else keyPrefix @ k
      else k)"

text \<open>\<^verbatim>\<open>errors.Join\<close>: the messages that are not nil, one per line.\<close>

fun errors_Join :: "error option list \<Rightarrow> error option" where
  "errors_Join [] = None"
| "errors_Join (None # es) = errors_Join es"
| "errors_Join (Some e # es) =
     (case errors_Join es of None \<Rightarrow> Some e | Some e' \<Rightarrow> Some (e @ [CHR 0x0A] @ e'))"

abbreviation json_error :: error where
  "json_error \<equiv> ''json: cannot unmarshal''"

fun as_time :: "kv_json \<Rightarrow> time option" where
  "as_time (JTime t) = Some t" | "as_time _ = None"
fun as_status :: "kv_json \<Rightarrow> PowerStatusComponent option" where
  "as_status (JPowerStatus p) = Some p" | "as_status _ = None"
fun as_captask :: "kv_json \<Rightarrow> PowerCapTask option" where
  "as_captask (JPowerCapTask p) = Some p" | "as_captask _ = None"
fun as_capop :: "kv_json \<Rightarrow> PowerCapOperation option" where
  "as_capop (JPowerCapOp p) = Some p" | "as_capop _ = None"
fun as_transition :: "kv_json \<Rightarrow> Transition option" where
  "as_transition (JTransition t) = Some t" | "as_transition _ = None"
fun as_page :: "kv_json \<Rightarrow> TransitionPage option" where
  "as_page (JTransitionPage t) = Some t" | "as_page _ = None"
fun as_task :: "kv_json \<Rightarrow> TransitionTask option" where
  "as_task (JTransitionTask t) = Some t" | "as_task _ = None"

subsection \<open>Single records\<close>

definition kvStore :: "'w ETCDStorage \<Rightarrow> string \<Rightarrow> kv_json \<Rightarrow> ('w, error option) io" where
  "kvStore E key v w = kvi_Store (e_kvHandle E) (fixUpKey key) v w"

definition kvGet ::
  "'w ETCDStorage \<Rightarrow> (kv_json \<Rightarrow> 'a option) \<Rightarrow> string \<Rightarrow> ('w, 'a option \<times> error option) io" where
  "kvGet E dec key w =
     (case kvi_Get (e_kvHandle E) (fixUpKey key) w of
        ((_, Some err), w) \<Rightarrow> ((None, Some err), w)
      | ((None, None), w) \<Rightarrow> ((None, None), w)
      | ((Some v, None), w) \<Rightarrow>
          (case dec v of None \<Rightarrow> ((None, Some json_error), w) | Some a \<Rightarrow> ((Some a, None), w)))"

definition kvDelete :: "'w ETCDStorage \<Rightarrow> string \<Rightarrow> ('w, error option) io" where
  "kvDelete E key w = kvi_Delete (e_kvHandle E) (fixUpKey key) w"

definition kvTAS :: "'w ETCDStorage \<Rightarrow> string \<Rightarrow> kv_json \<Rightarrow> kv_json \<Rightarrow> ('w, bool \<times> error option) io" where
  "kvTAS E key testVal setVal w = kvi_TAS (e_kvHandle E) (fixUpKey key) testVal setVal w"

text \<open>
  The loop every \<^verbatim>\<open>GetAll...\<close> method runs over the pairs of a range: a document that does not decode is
  skipped, and \<^verbatim>\<open>err\<close> keeps what the last decoding returned.
\<close>

fun decode_all :: "(kv_json \<Rightarrow> 'a option) \<Rightarrow> (string \<times> kv_json) list \<Rightarrow> 'a list \<Rightarrow> error option
    \<Rightarrow> 'a list \<times> error option" where
  "decode_all dec [] acc err = (acc, err)"
| "decode_all dec ((k, v) # kvl) acc err =
     (case dec v of None \<Rightarrow> decode_all dec kvl acc (Some json_error)
      | Some a \<Rightarrow> decode_all dec kvl (acc @ [a]) None)"

definition kvGetAll :: "'w ETCDStorage \<Rightarrow> (kv_json \<Rightarrow> 'a option) \<Rightarrow> string \<Rightarrow> string
    \<Rightarrow> ('w, 'a list \<times> error option) io" where
  "kvGetAll E dec lo hi w =
     (case kvi_GetRange (e_kvHandle E) lo hi w of
        ((_, Some err), w) \<Rightarrow> (([], Some err), w)
      | ((kvl, None), w) \<Rightarrow> (decode_all dec kvl [] None, w))"

definition ETCD_Init :: "(string \<Rightarrow> string option) \<Rightarrow> (string \<Rightarrow> ('w, 'w Kvi option \<times> error option) io)
    \<Rightarrow> 'w ETCDStorage \<Rightarrow> ('w, ('w ETCDStorage \<times> bool) \<times> error option) io" where
  "ETCD_Init LookupEnv Open E w =
     (let E = E\<lparr>e_PageSize := (if e_PageSize E \<le> 0 then DefaultEtcdPageSize else e_PageSize E),
                e_MaxMessageLen :=
                  (if e_MaxMessageLen E \<le> 0 then DefaultMaxMessageLen else e_MaxMessageLen E),
                e_MaxEtcdObjectSize :=
                  (if e_MaxEtcdObjectSize E \<le> 0 then DefaultMaxEtcdObjectSize
                   else e_MaxEtcdObjectSize E)\<rparr>
      in case (LookupEnv ''ETCD_HOST'', LookupEnv ''ETCD_PORT'') of
           (None, _) \<Rightarrow> (((E, False), Some ''No ETCD HOST specified, can't open ETCD.''), w)
         | (Some _, None) \<Rightarrow> (((E, False), Some ''No ETCD PORT specified, can't open ETCD.''), w)
         | (Some host, Some port) \<Rightarrow>
             let attempt = (\<lambda>_ (res, w). case res of Some h \<Rightarrow> (Some h, w)
                   | None \<Rightarrow> (case Open (''http://'' @ host @ '':'' @ port) w of
                        ((_, Some err), w) \<Rightarrow> (None, w)
                      | ((h, None), w) \<Rightarrow> (Some h, w)));
                 (res, w) = fold attempt [1..<kvRetriesDefault + 1] (None, w)
             in (case res of
                   Some (Some h) \<Rightarrow> (((E\<lparr>e_kvHandle := h\<rparr>, True), None), w)
                 | Some None \<Rightarrow> (((E, False), None), w)
                 | None \<Rightarrow>
                     (((E, False), Some ''ETCD connection attempts exhausted, can't connect.''), w)))"

definition ETCD_Ping :: "'w runtime \<Rightarrow> 'w ETCDStorage \<Rightarrow> ('w, error option) io" where
  "ETCD_Ping R E w =
     (let (u, w) = uuid_New R w;
          key = ''/ping/'' @ u;
          (err, w) = kvStore E key (JString []) w
      in if err = None then kvDelete E key w else (err, w))"

definition ETCD_GetPowerStatusMaster :: "'w ETCDStorage \<Rightarrow> ('w, time option \<times> error option) io" where
  "ETCD_GetPowerStatusMaster E w = kvGet E as_time keySegPowerStatusMaster w"

definition ETCD_StorePowerStatusMaster :: "'w ETCDStorage \<Rightarrow> time \<Rightarrow> ('w, error option) io" where
  "ETCD_StorePowerStatusMaster E now w = kvStore E keySegPowerStatusMaster (JTime now) w"

definition ETCD_TASPowerStatusMaster ::
  "'w ETCDStorage \<Rightarrow> time \<Rightarrow> time \<Rightarrow> ('w, bool \<times> error option) io" where
  "ETCD_TASPowerStatusMaster E now testVal w =
     kvTAS E keySegPowerStatusMaster (JTime testVal) (JTime now) w"

definition invalid_xname :: "xname \<Rightarrow> error" where
  "invalid_xname xn = ''Error parsing '' @ [CHR 0x27] @ xn @ [CHR 0x27] @ '': invalid xname format.''"

definition ETCD_StorePowerStatus ::
  "xnametypes \<Rightarrow> 'w ETCDStorage \<Rightarrow> PowerStatusComponent \<Rightarrow> ('w, error option) io" where
  "ETCD_StorePowerStatus X E p w =
     (if \<not> IsHMSCompIDValid X (ps_XName p) then (Some (invalid_xname (ps_XName p)), w)
      else kvStore E (keySegPowerState @ ''/'' @ ps_XName p) (JPowerStatus p) w)"

definition ETCD_DeletePowerStatus ::
  "xnametypes \<Rightarrow> 'w ETCDStorage \<Rightarrow> xname \<Rightarrow> ('w, error option) io" where
  "ETCD_DeletePowerStatus X E xn w =
     (if \<not> IsHMSCompIDValid X xn then (Some (invalid_xname xn), w)
      else kvDelete E (keySegPowerState @ ''/'' @ xn) w)"

definition ETCD_GetPowerStatus ::
  "xnametypes \<Rightarrow> 'w ETCDStorage \<Rightarrow> xname \<Rightarrow> ('w, PowerStatusComponent option \<times> error option) io" where
  "ETCD_GetPowerStatus X E xn w =
     (if \<not> IsHMSCompIDValid X xn then ((None, Some (invalid_xname xn)), w)
      else kvGet E as_status (keySegPowerState @ ''/'' @ xn) w)"

definition ETCD_GetAllPowerStatus :: "'w ETCDStorage \<Rightarrow> ('w, PowerStatusComponent list \<times> error option) io" where
  "ETCD_GetAllPowerStatus E w =
     (let k = fixUpKey keySegPowerState in kvGetAll E as_status (k @ keyMin) (k @ keyMax) w)"

definition ETCD_GetPowerStatusHierarchy ::
  "xnametypes \<Rightarrow> 'w ETCDStorage \<Rightarrow> xname \<Rightarrow> ('w, PowerStatusComponent list \<times> error option) io" where
  "ETCD_GetPowerStatusHierarchy X E xn w =
     (if \<not> IsHMSCompIDValid X xn then (([], Some (invalid_xname xn)), w)
      else let k = fixUpKey (keySegPowerState @ ''/'' @ xn) in kvGetAll E as_status k (k @ keyMax) w)"

definition ETCD_StorePowerCapTask :: "'w ETCDStorage \<Rightarrow> PowerCapTask \<Rightarrow> ('w, error option) io" where
  "ETCD_StorePowerCapTask E task w =
     kvStore E (keySegPowerCap @ ''/'' @ pct_TaskID task) (JPowerCapTask task) w"

definition ETCD_StorePowerCapOperation ::
  "'w ETCDStorage \<Rightarrow> PowerCapOperation \<Rightarrow> ('w, error option) io" where
  "ETCD_StorePowerCapOperation E op w =
     kvStore E (keySegPowerCapOp @ ''/'' @ pco_TaskID op @ ''/'' @ pco_OperationID op) (JPowerCapOp op) w"

definition ETCD_GetPowerCapTask ::
  "'w ETCDStorage \<Rightarrow> uuid \<Rightarrow> ('w, PowerCapTask option \<times> error option) io" where
  "ETCD_GetPowerCapTask E taskID w = kvGet E as_captask (keySegPowerCap @ ''/'' @ taskID) w"

definition ETCD_GetPowerCapOperation ::
  "'w ETCDStorage \<Rightarrow> uuid \<Rightarrow> uuid \<Rightarrow> ('w, PowerCapOperation option \<times> error option) io" where
  "ETCD_GetPowerCapOperation E taskID opID w =
     kvGet E as_capop (keySegPowerCapOp @ ''/'' @ taskID @ ''/'' @ opID) w"

definition ETCD_GetAllPowerCapOperationsForTask ::
  "'w ETCDStorage \<Rightarrow> uuid \<Rightarrow> ('w, PowerCapOperation list \<times> error option) io" where
  "ETCD_GetAllPowerCapOperationsForTask E taskID w =
     (let k = fixUpKey (keySegPowerCapOp @ ''/'' @ taskID)
      in kvGetAll E as_capop (k @ keyMin) (k @ keyMax) w)"

definition ETCD_GetAllPowerCapTasks :: "'w ETCDStorage \<Rightarrow> ('w, PowerCapTask list \<times> error option) io" where
  "ETCD_GetAllPowerCapTasks E w =
     (let k = fixUpKey keySegPowerCap in kvGetAll E as_captask (k @ keyMin) (k @ keyMax) w)"

definition ETCD_DeletePowerCapTask :: "'w ETCDStorage \<Rightarrow> uuid \<Rightarrow> ('w, error option) io" where
  "ETCD_DeletePowerCapTask E taskID w = kvDelete E (keySegPowerCap @ ''/'' @ taskID) w"

definition ETCD_DeletePowerCapOperation ::
  "'w ETCDStorage \<Rightarrow> uuid \<Rightarrow> uuid \<Rightarrow> ('w, error option) io" where
  "ETCD_DeletePowerCapOperation E taskID opID w =
     kvDelete E (keySegPowerCapOp @ ''/'' @ taskID @ ''/'' @ opID) w"


subsection \<open>Large transitions: truncation and pages\<close>

definition truncate_resp :: "int \<Rightarrow> TransitionTaskResp \<Rightarrow> TransitionTaskResp \<times> int" where
  "truncate_resp maxLen task =
     (if int (length (ttr_Error task)) > maxLen
      then let task = task\<lparr>ttr_Error := take (nat maxLen) (ttr_Error task) @ ''...''\<rparr>
           in if length (ttr_TaskStatusDesc task) > 3
              then (task\<lparr>ttr_TaskStatusDesc := ''...''\<rparr>, 2) else (task, 1)
      else let remainingMessageLen = maxLen - int (length (ttr_Error task))
           in if int (length (ttr_TaskStatusDesc task)) > remainingMessageLen
              then (task\<lparr>ttr_TaskStatusDesc :=
                      take (nat remainingMessageLen) (ttr_TaskStatusDesc task) @ ''...''\<rparr>, 1)
              else (task, 0))"

definition truncateTaskMessagesIfNeeded ::
  "'w ETCDStorage \<Rightarrow> Transition \<Rightarrow> int \<Rightarrow> Transition \<times> int" where
  "truncateTaskMessagesIfNeeded E transition originalObjSize =
     (if originalObjSize > e_MaxEtcdObjectSize E
      then let rs = map (truncate_resp (e_MaxMessageLen E)) (tr_Tasks transition)
           in (transition\<lparr>tr_Tasks := map fst rs\<rparr>, sum_list (map snd rs))
      else (transition, 0))"

text \<open>
  \<^verbatim>\<open>for i := 0; i < len(xs); i += step { xs[i:min(i+sz, len(xs))] }\<close>, for a positive \<open>step\<close>.
\<close>

function chunks :: "int \<Rightarrow> int \<Rightarrow> 'a list \<Rightarrow> 'a list list" where
  "chunks step sz xs =
     (if xs = [] \<or> step \<le> 0 then [] else take (nat sz) xs # chunks step sz (drop (nat step) xs))"
  by pat_completeness auto
termination by (relation "measure (\<lambda>(step, sz, xs). length xs)") auto

declare chunks.simps [simp del]

definition pageTasks :: "'w ETCDStorage \<Rightarrow> Transition \<Rightarrow> int \<Rightarrow> TransitionTaskResp list list" where
  "pageTasks E transition pageSize =
     (if tr_Tasks transition = [] then []
      else if int (length (tr_Tasks transition)) > pageSize
      then chunks (e_PageSize E) pageSize (tr_Tasks transition)
      else [tr_Tasks transition])"

definition pageLocations :: "Transition \<Rightarrow> int \<Rightarrow> LocationParameter list list" where
  "pageLocations transition pageSize =
     (if tr_Location transition = [] then []
      else if int (length (tr_Location transition)) > pageSize
      then chunks pageSize pageSize (tr_Location transition)
      else [tr_Location transition])"

definition pageTaskIDs :: "Transition \<Rightarrow> int \<Rightarrow> uuid list list" where
  "pageTaskIDs transition pageSize =
     (if tr_TaskIDs transition = [] then []
      else if int (length (tr_TaskIDs transition)) > pageSize
      then chunks pageSize pageSize (tr_TaskIDs transition)
      else [tr_TaskIDs transition])"

text \<open>Element \<open>i\<close> of a list of pages; pages beyond the end stay unset (nil).\<close>

definition page_at :: "'a list list \<Rightarrow> nat \<Rightarrow> 'a list" where
  "page_at pages i = (if i < length pages then pages ! i else [])"

definition breakIntoPagesIfNeeded ::
  "'w ETCDStorage \<Rightarrow> Transition \<Rightarrow> int \<Rightarrow> Transition \<times> TransitionPage list" where
  "breakIntoPagesIfNeeded E transition pageSize =
     (if int (length (tr_Tasks transition)) \<le> pageSize \<and>
         int (length (tr_Location transition)) \<le> pageSize \<and>
         int (length (tr_TaskIDs transition)) \<le> pageSize
      then (transition, [])
      else
        let taskPages = pageTasks E transition pageSize;
            locationPages = pageLocations transition pageSize;
            taskIDsPages = pageTaskIDs transition pageSize;
            pageCount = max (length taskPages) (max (length locationPages) (length taskIDsPages));
            transition = transition\<lparr>
              tr_Tasks := (if taskPages \<noteq> [] then taskPages ! 0 else tr_Tasks transition),
              tr_Location := (if locationPages \<noteq> [] then locationPages ! 0 else tr_Location transition),
              tr_TaskIDs := (if taskIDsPages \<noteq> [] then taskIDsPages ! 0 else tr_TaskIDs transition)\<rparr>
        in (transition,
            map (\<lambda>i. \<lparr>pg_ID = tr_TransitionID transition @ ''_'' @ Itoa (int (i - 1)),
                      pg_TransitionID = tr_TransitionID transition, pg_Index = i - 1,
                      pg_Location = page_at locationPages i, pg_Tasks = page_at taskPages i,
                      pg_TaskIDs = page_at taskIDsPages i\<rparr>) [1..<pageCount]))"

definition truncateAndPageTransitionIfNeeded ::
  "'w ETCDStorage \<Rightarrow> Transition \<Rightarrow> Transition \<times> TransitionPage list" where
  "truncateAndPageTransitionIfNeeded E transition =
     (if e_DisableSizeChecks E then (transition, [])
      else
        let originalSize = e_jsonLen E transition in
        if originalSize < e_MaxEtcdObjectSize E then (transition, [])
        else
          let (transition, truncatedCount) =
                truncateTaskMessagesIfNeeded E transition originalSize;
              truncatedSize = e_jsonLen E transition
          in if truncatedSize < e_MaxEtcdObjectSize E then (transition, [])
             else
               let pageSize =
                 (if int (length (tr_Tasks transition)) < e_PageSize E \<and>
                     int (length (tr_Location transition)) < e_PageSize E
                  then e_PageSize E div 2 + 1 else e_PageSize E)
               in breakIntoPagesIfNeeded E transition pageSize)"

subsection \<open>Transitions\<close>

definition transitionKey :: "uuid \<Rightarrow> string" where
  "transitionKey u = keySegTransition @ ''/'' @ u"

definition transitionPageKey :: "uuid \<Rightarrow> nat \<Rightarrow> string" where
  "transitionPageKey u i = keySegTransitionPage @ ''/'' @ u @ ''/'' @ Itoa (int i)"

definition transitionTaskKey :: "uuid \<Rightarrow> uuid \<Rightarrow> string" where
  "transitionTaskKey u t = keySegTransitionTask @ ''/'' @ u @ ''/'' @ t"

definition store_page :: "'w ETCDStorage \<Rightarrow> TransitionPage \<Rightarrow> error option \<times> 'w \<Rightarrow> error option \<times> 'w" where
  "store_page E page s =
     (let (combinedErr, w) = s;
          key = transitionPageKey (pg_TransitionID page) (pg_Index page);
          (err, w) = kvStore E key (JTransitionPage page) w
      in (case err of None \<Rightarrow> (combinedErr, w)
          | Some e \<Rightarrow> (errors_Join [combinedErr, Some (''failed to store key: '' @ key), err], w)))"

definition ETCD_StoreTransition :: "'w ETCDStorage \<Rightarrow> Transition \<Rightarrow> ('w, error option) io" where
  "ETCD_StoreTransition E transition w =
     (let (t, tPages) = truncateAndPageTransitionIfNeeded E transition;
          (err, w) = kvStore E (transitionKey (tr_TransitionID t)) (JTransition t) w
      in fold (store_page E) tPages (err, w))"

definition ETCD_StoreTransitionTask :: "'w ETCDStorage \<Rightarrow> TransitionTask \<Rightarrow> ('w, error option) io" where
  "ETCD_StoreTransitionTask E task w =
     kvStore E (transitionTaskKey (tt_TransitionID task) (tt_TaskID task)) (JTransitionTask task) w"

text \<open>
  \<^verbatim>\<open>strconv.Atoi\<close> with the value it returns beside an error: 0 for text that is no number, the
  nearest bound for a number out of range.
\<close>

definition digit_char :: "char \<Rightarrow> bool" where
  "digit_char c \<longleftrightarrow> 48 \<le> (of_char c :: nat) \<and> (of_char c :: nat) \<le> 57"

definition digits_value :: "string \<Rightarrow> int" where
  "digits_value s = foldl (\<lambda>n c. 10 * n + (int (of_char c) - 48)) 0 s"

definition Atoi :: "string \<Rightarrow> int" where
  "Atoi s =
     (let neg = HasPrefix s ''-'';
          ds = (if neg \<or> HasPrefix s ''+'' then drop 1 s else s)
      in if ds = [] \<or> \<not> list_all digit_char ds then 0
         else if neg then max (- (2 ^ 63)) (- digits_value ds)
         else min (2 ^ 63 - 1) (digits_value ds))"

definition key_suffix :: "string \<Rightarrow> string" where
  "key_suffix key = rev (takeWhile (\<lambda>c. c \<noteq> CHR ''/'') (rev key))"

definition sortTransitionPages :: "(string \<times> kv_json) list \<Rightarrow> (string \<times> kv_json) list" where
  "sortTransitionPages kvl = sort_key (\<lambda>kv. Atoi (key_suffix (fst kv))) kvl"

fun decode_pages :: "(string \<times> kv_json) list \<Rightarrow> TransitionPage list \<Rightarrow> error option
    \<Rightarrow> TransitionPage list \<times> error option" where
  "decode_pages [] pages combinedErr = (pages, combinedErr)"
| "decode_pages ((k, v) # kvl) pages combinedErr =
     (case as_page v of
        None \<Rightarrow> decode_pages kvl pages (errors_Join [combinedErr, Some json_error])
      | Some page \<Rightarrow> decode_pages kvl (pages @ [page]) combinedErr)"

definition GetTransitionPages :: "'w ETCDStorage \<Rightarrow> uuid \<Rightarrow> ('w, TransitionPage list \<times> error option) io" where
  "GetTransitionPages E transitionId w =
     (let key = fixUpKey (keySegTransitionPage @ ''/'' @ transitionId) in
      case kvi_GetRange (e_kvHandle E) (key @ keyMin) (key @ keyMax) w of
        ((_, Some err), w) \<Rightarrow> (([], Some err), w)
      | ((kvList, None), w) \<Rightarrow> (decode_pages (sortTransitionPages kvList) [] None, w))"

definition append_page :: "TransitionPage \<Rightarrow> Transition \<Rightarrow> Transition" where
  "append_page page transition =
     transition\<lparr>tr_Tasks := tr_Tasks transition @ pg_Tasks page,
                tr_Location := tr_Location transition @ pg_Location page,
                tr_TaskIDs := tr_TaskIDs transition @ pg_TaskIDs page\<rparr>"

definition ETCD_GetTransition ::
  "'w ETCDStorage \<Rightarrow> uuid \<Rightarrow> ('w, Transition option \<times> Transition option \<times> error option) io" where
  "ETCD_GetTransition E transitionID w =
     (case kvGet E as_transition (transitionKey transitionID) w of
        ((_, Some err), w) \<Rightarrow> ((None, None, Some err), w)
      | ((None, None), w) \<Rightarrow> ((None, None, None), w)
      | ((Some transition, None), w) \<Rightarrow>
          if e_DisableSizeChecks E then ((Some transition, Some transition, None), w)
          else (case GetTransitionPages E (tr_TransitionID transition) w of
                  ((_, Some err), w) \<Rightarrow> ((None, None, Some err), w)
                | ((pages, None), w) \<Rightarrow>
                    ((Some (fold append_page pages transition), Some transition, None), w)))"

definition ETCD_GetTransitionTask ::
  "'w ETCDStorage \<Rightarrow> uuid \<Rightarrow> uuid \<Rightarrow> ('w, TransitionTask option \<times> error option) io" where
  "ETCD_GetTransitionTask E transitionID taskID w =
     kvGet E as_task (transitionTaskKey transitionID taskID) w"

definition ETCD_GetAllTasksForTransition ::
  "'w ETCDStorage \<Rightarrow> uuid \<Rightarrow> ('w, TransitionTask list \<times> error option) io" where
  "ETCD_GetAllTasksForTransition E transitionID w =
     (let k = fixUpKey (keySegTransitionTask @ ''/'' @ transitionID)
      in kvGetAll E as_task (k @ keyMin) (k @ keyMax) w)"

definition ETCD_GetAllTransitions :: "'w ETCDStorage \<Rightarrow> ('w, Transition list \<times> error option) io" where
  "ETCD_GetAllTransitions E w =
     (let k = fixUpKey (keySegTransition @ ''/'')
      in kvGetAll E as_transition (k @ keyMin) (k @ keyMax) w)"

definition delete_page :: "'w ETCDStorage \<Rightarrow> uuid \<Rightarrow> TransitionPage \<Rightarrow> error option \<times> 'w \<Rightarrow> error option \<times> 'w" where
  "delete_page E transitionID page s =
     (let (combinedErr, w) = s;
          (err, w) = kvDelete E (transitionPageKey transitionID (pg_Index page)) w
      in (case err of None \<Rightarrow> (combinedErr, w) | Some e \<Rightarrow> (errors_Join [combinedErr, err], w)))"

definition ETCD_DeleteTransition :: "'w ETCDStorage \<Rightarrow> uuid \<Rightarrow> ('w, error option) io" where
  "ETCD_DeleteTransition E transitionID w =
     (let (err, w) = kvDelete E (transitionKey transitionID) w;
          combinedErr = errors_Join [err]
      in if e_DisableSizeChecks E then (combinedErr, w)
         else let ((pages, err), w) = GetTransitionPages E transitionID w;
                  combinedErr = (case err of None \<Rightarrow> combinedErr
                                 | Some e \<Rightarrow> errors_Join [combinedErr, err])
              in fold (delete_page E transitionID) pages (combinedErr, w))"

definition ETCD_DeleteTransitionTask :: "'w ETCDStorage \<Rightarrow> uuid \<Rightarrow> uuid \<Rightarrow> ('w, error option) io" where
  "ETCD_DeleteTransitionTask E transitionID taskID w =
     kvDelete E (transitionTaskKey transitionID taskID) w"

definition ETCD_TASTransition ::
  "'w ETCDStorage \<Rightarrow> Transition \<Rightarrow> Transition \<Rightarrow> ('w, bool \<times> error option) io" where
  "ETCD_TASTransition E transition testVal w =
     (let (newTransition, newTransitionPages) = truncateAndPageTransitionIfNeeded E transition in
      case kvTAS E (transitionKey (tr_TransitionID transition)) (JTransition testVal)
             (JTransition newTransition) w of
        ((ok, Some err), w) \<Rightarrow> ((ok, Some err), w)
      | ((ok, None), w) \<Rightarrow>
          let (combinedErr, w) = fold (store_page E) newTransitionPages (None, w)
          in ((ok, combinedErr), w))"

definition ETCDStorage_provider :: "'w runtime \<Rightarrow> xnametypes \<Rightarrow> 'w ETCDStorage \<Rightarrow> 'w StorageProvider" where
  "ETCDStorage_provider R X E =
     \<lparr>dsp_Ping = ETCD_Ping R E,
      dsp_GetPowerStatusMaster = ETCD_GetPowerStatusMaster E,
      dsp_StorePowerStatusMaster = ETCD_StorePowerStatusMaster E,
      dsp_TASPowerStatusMaster = ETCD_TASPowerStatusMaster E,
      dsp_StorePowerStatus = ETCD_StorePowerStatus X E,
      dsp_DeletePowerStatus = ETCD_DeletePowerStatus X E,
      dsp_GetPowerStatus = ETCD_GetPowerStatus X E,
      dsp_GetAllPowerStatus = ETCD_GetAllPowerStatus E,
      dsp_GetPowerStatusHierarchy = ETCD_GetPowerStatusHierarchy X E,
      dsp_StorePowerCapTask = ETCD_StorePowerCapTask E,
      dsp_StorePowerCapOperation = ETCD_StorePowerCapOperation E,
      dsp_GetPowerCapTask = ETCD_GetPowerCapTask E,
      dsp_GetPowerCapOperation = ETCD_GetPowerCapOperation E,
      dsp_GetAllPowerCapOperationsForTask = ETCD_GetAllPowerCapOperationsForTask E,
      dsp_GetAllPowerCapTasks = ETCD_GetAllPowerCapTasks E,
      dsp_DeletePowerCapTask = ETCD_DeletePowerCapTask E,
      dsp_DeletePowerCapOperation = ETCD_DeletePowerCapOperation E,
      dsp_StoreTransition = ETCD_StoreTransition E,
      dsp_StoreTransitionTask = ETCD_StoreTransitionTask E,
      dsp_GetTransition = ETCD_GetTransition E,
      dsp_GetTransitionTask = ETCD_GetTransitionTask E,
      dsp_GetAllTasksForTransition = ETCD_GetAllTasksForTransition E,
      dsp_GetAllTransitions = ETCD_GetAllTransitions E,
      dsp_DeleteTransition = ETCD_DeleteTransition E,
      dsp_DeleteTransitionTask = ETCD_DeleteTransitionTask E,
      dsp_TASTransition = ETCD_TASTransition E\<rparr>"

subsection \<open>The in-memory provider (storage\_mem\_impl.go)\<close>

text \<open>
  \<^verbatim>\<open>MEMStorage\<close> has the fields of \<^verbatim>\<open>ETCDStorage\<close> and delegates every method to it
  (\<^verbatim>\<open>toETCDStorage\<close>), except that \<^verbatim>\<open>Init\<close> replaces only a page size of zero and \<^verbatim>\<open>TASTransition\<close>
  first requires the key to exist.
\<close>

definition MEM_Init :: "(string \<Rightarrow> ('w, 'w Kvi option \<times> error option) io)
    \<Rightarrow> 'w ETCDStorage \<Rightarrow> ('w, ('w ETCDStorage \<times> bool) \<times> error option) io" where
  "MEM_Init Open m w =
     (let m = m\<lparr>e_PageSize := (if e_PageSize m = 0 then DefaultEtcdPageSize else e_PageSize m)\<rparr>
      in case Open ''mem:'' w of
           ((_, Some kverr), w) \<Rightarrow>
             (((m, False), Some (''ERROR opening KV memory storage: '' @ kverr)), w)
         | ((None, None), w) \<Rightarrow> (((m, False), None), w)
         | ((Some h, None), w) \<Rightarrow> (((m\<lparr>e_kvHandle := h\<rparr>, True), None), w))"

definition MEM_TASTransition ::
  "'w ETCDStorage \<Rightarrow> Transition \<Rightarrow> Transition \<Rightarrow> ('w, bool \<times> error option) io" where
  "MEM_TASTransition m transition testVal w =
     (case kvi_Get (e_kvHandle m) (fixUpKey (transitionKey (tr_TransitionID transition))) w of
        ((_, Some err), w) \<Rightarrow> ((False, Some err), w)
      | ((None, None), w) \<Rightarrow> ((False, None), w)
      | ((Some v, None), w) \<Rightarrow> ETCD_TASTransition m transition testVal w)"

definition MEMStorage_provider :: "'w runtime \<Rightarrow> xnametypes \<Rightarrow> 'w ETCDStorage \<Rightarrow> 'w StorageProvider" where
  "MEMStorage_provider R X m = (ETCDStorage_provider R X m)\<lparr>dsp_TASTransition := MEM_TASTransition m\<rparr>"

subsection \<open>Lemmas on pages\<close>

lemma chunks_Nil [simp]: "chunks s n [] = []"
  by (simp add: chunks.simps)

lemma chunks_step: "0 < s \<Longrightarrow> xs \<noteq> [] \<Longrightarrow> chunks s n xs = take (nat n) xs # chunks s n (drop (nat s) xs)"
  by (subst chunks.simps) simp

lemma concat_chunks: "0 < n \<Longrightarrow> concat (chunks n n xs) = xs"
proof (induction xs rule: length_induct)
  case (1 xs)
  then show ?case by (cases "xs = []") (auto simp: chunks_step)
qed

lemma chunks_lengths: "0 < n \<Longrightarrow> p \<in> set (chunks s n xs) \<Longrightarrow> p \<noteq> [] \<and> int (length p) \<le> n"
proof (induction s n xs rule: chunks.induct)
  case (1 s n xs)
  show ?case
  proof (cases "xs = [] \<or> s \<le> 0")
    case True
    then show ?thesis using 1(3) by (simp add: chunks.simps)
  next
    case False
    then have "p = take (nat n) xs \<or> p \<in> set (chunks s n (drop (nat s) xs))"
      using 1(3) chunks_step [of s xs n] by auto
    then show ?thesis using 1(1) [OF False] 1(2) False by auto
  qed
qed

lemma chunks_single: "0 < s \<Longrightarrow> xs \<noteq> [] \<Longrightarrow> int (length xs) \<le> s \<Longrightarrow> chunks s n xs = [take (nat n) xs]"
  by (simp add: chunks_step)

lemma pages_from_1:
  assumes "length ps \<le> n"
  shows "concat (map (page_at ps) [1..<n]) = concat (tl ps)"
proof (cases ps)
  case Nil
  have "concat (map (\<lambda>i. []) xs) = []" for xs :: "nat list"
    by (induction xs) auto
  then show ?thesis using Nil by (simp add: page_at_def)
next
  case (Cons p qs)
  have past: "concat (map (page_at ps) [length ps..<n]) = []"
    by (auto simp: page_at_def)
  have here: "map (page_at ps) [1..<length ps] = tl ps"
    by (rule nth_equalityI) (auto simp: page_at_def nth_tl)
  have "[1..<n] = [1..<length ps] @ [length ps..<n]"
    using assms Cons by (metis One_nat_def Suc_leI length_greater_0_conv list.distinct(1) upt_add_eq_append le_Suc_ex)
  then show ?thesis using past here by simp
qed

lemma fold_append_page:
  "fold append_page ps t =
     t\<lparr>tr_Tasks := tr_Tasks t @ concat (map pg_Tasks ps),
       tr_Location := tr_Location t @ concat (map pg_Location ps),
       tr_TaskIDs := tr_TaskIDs t @ concat (map pg_TaskIDs ps)\<rparr>"
  by (induction ps arbitrary: t) (auto simp: append_page_def)

lemma page_lists_concat:
  assumes "0 < n"
  shows "concat (pageLocations t n) = tr_Location t" and "concat (pageTaskIDs t n) = tr_TaskIDs t"
    and "e_PageSize E = n \<Longrightarrow> concat (pageTasks E t n) = tr_Tasks t"
  using assms by (auto simp: pageLocations_def pageTaskIDs_def pageTasks_def concat_chunks)

text \<open>What a list of pages gives back: the first page, then the others in order.\<close>

lemma hd_concat_tl: "ps \<noteq> [] \<Longrightarrow> ps ! 0 @ concat (tl ps) = concat ps"
  by (cases ps) auto

lemma pages_join:
  assumes "concat ps = xs" and "length ps \<le> n"
  shows "(if ps \<noteq> [] then ps ! 0 else xs) @ concat (map (page_at ps) [1..<n]) = xs"
  using assms pages_from_1 [of ps n] hd_concat_tl [of ps] by (auto simp: o_def)

lemma page_counts:
  "tr_Tasks t = [] \<Longrightarrow> concat (pageTasks E t n) = []"
  "pageTasks E t n = [] \<Longrightarrow> 0 < e_PageSize E \<Longrightarrow> tr_Tasks t = []"
  by (auto simp: pageTasks_def chunks_step split: if_splits)

lemma breakIntoPages_join:
  assumes "breakIntoPagesIfNeeded E t n = (t', ps)" and "0 < n" and "0 < e_PageSize E"
  shows "fold append_page ps t' = t\<lparr>tr_Tasks := concat (pageTasks E t n)\<rparr>"
proof (cases "int (length (tr_Tasks t)) \<le> n \<and> int (length (tr_Location t)) \<le> n \<and>
              int (length (tr_TaskIDs t)) \<le> n")
  case True
  then have "concat (pageTasks E t n) = tr_Tasks t" by (auto simp: pageTasks_def)
  then show ?thesis using True assms(1) by (auto simp: breakIntoPagesIfNeeded_def)
next
  case False
  let ?T = "pageTasks E t n" and ?L = "pageLocations t n" and ?I = "pageTaskIDs t n"
  let ?c = "max (length ?T) (max (length ?L) (length ?I))"
  have "(if ?T \<noteq> [] then ?T ! 0 else tr_Tasks t) @ concat (map (page_at ?T) [1..<?c]) = concat ?T"
    using pages_join [of ?T "concat ?T" ?c] page_counts [where t = t and E = E and n = n] assms(3) by (cases "?T = []") auto
  moreover have "(if ?L \<noteq> [] then ?L ! 0 else tr_Location t) @ concat (map (page_at ?L) [1..<?c]) = tr_Location t"
    by (rule pages_join) (auto simp: page_lists_concat [OF assms(2)])
  moreover have "(if ?I \<noteq> [] then ?I ! 0 else tr_TaskIDs t) @ concat (map (page_at ?I) [1..<?c]) = tr_TaskIDs t"
    by (rule pages_join) (auto simp: page_lists_concat [OF assms(2)])
  ultimately show ?thesis
    using False assms(1)
    by (auto simp: breakIntoPagesIfNeeded_def Let_def fold_append_page o_def)
qed

text \<open>No list of a transition or of a page is longer than the page size.\<close>

definition within_page :: "int \<Rightarrow> LocationParameter list \<Rightarrow> TransitionTaskResp list \<Rightarrow> uuid list \<Rightarrow> bool" where
  "within_page n ls ts is \<longleftrightarrow> int (length ls) \<le> n \<and> int (length ts) \<le> n \<and> int (length is) \<le> n"

lemma page_list_bounds:
  assumes "0 < n" and "0 < e_PageSize E"
  shows "p \<in> set (pageTasks E t n) \<Longrightarrow> int (length p) \<le> n"
    and "q \<in> set (pageLocations t n) \<Longrightarrow> int (length q) \<le> n"
    and "r \<in> set (pageTaskIDs t n) \<Longrightarrow> int (length r) \<le> n"
  using assms chunks_lengths
  by (fastforce simp: pageTasks_def pageLocations_def pageTaskIDs_def split: if_splits)+

lemma page_at_bound: "0 < n \<Longrightarrow> \<forall>p \<in> set ps. int (length p) \<le> n \<Longrightarrow> int (length (page_at ps i)) \<le> n"
  by (auto simp: page_at_def)

lemma breakIntoPages_bounds:
  assumes "breakIntoPagesIfNeeded E t n = (t', ps)" and "0 < n" and "0 < e_PageSize E"
  shows "within_page n (tr_Location t') (tr_Tasks t') (tr_TaskIDs t') \<and>
         (\<forall>p \<in> set ps. within_page n (pg_Location p) (pg_Tasks p) (pg_TaskIDs p))"
proof -
  have first: "int (length (if qs \<noteq> [] then qs ! 0 else xs)) \<le> n"
    if "\<forall>p \<in> set qs. int (length p) \<le> n" and "qs = [] \<Longrightarrow> xs = []" for qs and xs :: "'z list"
    using that assms(2) by (cases qs) auto
  have empties: "pageTasks E t n = [] \<Longrightarrow> tr_Tasks t = []" "pageLocations t n = [] \<Longrightarrow> tr_Location t = []"
    "pageTaskIDs t n = [] \<Longrightarrow> tr_TaskIDs t = []"
    using assms(2,3) by (auto simp: pageTasks_def pageLocations_def pageTaskIDs_def chunks_step split: if_splits)
  have bnd: "\<forall>p \<in> set (pageTasks E t n). int (length p) \<le> n"
    "\<forall>p \<in> set (pageLocations t n). int (length p) \<le> n"
    "\<forall>p \<in> set (pageTaskIDs t n). int (length p) \<le> n"
    using page_list_bounds [OF assms(2,3)] by blast+
  show ?thesis
  proof (cases "within_page n (tr_Location t) (tr_Tasks t) (tr_TaskIDs t)")
    case True
    then have "t' = t" and "ps = []"
      using assms(1) by (auto simp: breakIntoPagesIfNeeded_def within_page_def)
    then show ?thesis using True by simp
  next
    case False
    then have "t' = t\<lparr>
              tr_Tasks := (if pageTasks E t n \<noteq> [] then pageTasks E t n ! 0 else tr_Tasks t),
              tr_Location := (if pageLocations t n \<noteq> [] then pageLocations t n ! 0 else tr_Location t),
              tr_TaskIDs := (if pageTaskIDs t n \<noteq> [] then pageTaskIDs t n ! 0 else tr_TaskIDs t)\<rparr>"
      and "\<forall>p \<in> set ps. \<exists>i. pg_Location p = page_at (pageLocations t n) i \<and>
             pg_Tasks p = page_at (pageTasks E t n) i \<and> pg_TaskIDs p = page_at (pageTaskIDs t n) i"
      using assms(1) by (auto simp: breakIntoPagesIfNeeded_def within_page_def Let_def) blast+
    then show ?thesis
      using first [OF bnd(1) empties(1)] first [OF bnd(2) empties(2)] first [OF bnd(3) empties(3)]
        page_at_bound [OF assms(2) bnd(1)] page_at_bound [OF assms(2) bnd(2)] page_at_bound [OF assms(2) bnd(3)]
      by (simp add: within_page_def) metis
  qed
qed

subsection \<open>Lemmas on truncation\<close>

lemma truncate_resp_bound:
  "0 \<le> m \<Longrightarrow> int (length (ttr_Error (fst (truncate_resp m r))) + length (ttr_TaskStatusDesc (fst (truncate_resp m r)))) \<le> m + 6"
  by (auto simp: truncate_resp_def Let_def)

lemma truncate_resp_idem:
  "0 \<le> m \<Longrightarrow> fst (truncate_resp m (fst (truncate_resp m r))) = fst (truncate_resp m r)"
  by (auto simp: truncate_resp_def Let_def)

lemma truncate_resp_keeps: 
  "ttr_Xname (fst (truncate_resp m r)) = ttr_Xname r"
  "ttr_TaskStatus (fst (truncate_resp m r)) = ttr_TaskStatus r"
  by (auto simp: truncate_resp_def Let_def)

end
