(* ===== verification/Sim_World.thy ===== *)
theory Sim_World
  imports Etcd_Storage
begin

section \<open>An executable outside world\<close>

text \<open>
  A concrete state and concrete functions for the parameters that stand for code outside the
  repository: a key-value store held in memory whose calls can be scripted to fail, a clock that
  advances with every reading, and a generator of UUIDs. The contracts of the library are interpreted
  on it, and the witnesses of the properties run the model on it. \<open>sim_hw\<close> is the state of whatever
  else a scenario needs (HSM, the hardware).
\<close>

record 'h sim =
  sim_db :: "(string \<times> kv_json) list"
  sim_faults :: "bool list"
  sim_clock :: int
  sim_uuids :: nat
  sim_hw :: 'h

definition sim_start :: "'h \<Rightarrow> 'h sim" where
  "sim_start h = \<lparr>sim_db = [], sim_faults = [], sim_clock = 0, sim_uuids = 0, sim_hw = h\<rparr>"

definition sim_fault :: "'h sim \<Rightarrow> bool \<times> 'h sim" where
  "sim_fault w = (case sim_faults w of [] \<Rightarrow> (False, w) | b # bs \<Rightarrow> (b, w\<lparr>sim_faults := bs\<rparr>))"

definition sim_error :: error where
  "sim_error = ''store unavailable''"

definition sim_Store :: "string \<Rightarrow> kv_json \<Rightarrow> ('h sim, error option) io" where
  "sim_Store k v w =
     (let (f, w) = sim_fault w in
      if f then (Some sim_error, w) else (None, w\<lparr>sim_db := AList.update k v (sim_db w)\<rparr>))"

definition sim_Get :: "string \<Rightarrow> ('h sim, kv_json option \<times> error option) io" where
  "sim_Get k w =
     (let (f, w) = sim_fault w in
      if f then ((None, Some sim_error), w) else ((map_of (sim_db w) k, None), w))"

definition sim_Delete :: "string \<Rightarrow> ('h sim, error option) io" where
  "sim_Delete k w =
     (let (f, w) = sim_fault w in
      if f then (Some sim_error, w) else (None, w\<lparr>sim_db := AList.delete k (sim_db w)\<rparr>))"

definition sim_GetRange :: "string \<Rightarrow> string \<Rightarrow> ('h sim, (string \<times> kv_json) list \<times> error option) io" where
  "sim_GetRange lo hi w =
     (let (f, w) = sim_fault w in
      if f then (([], Some sim_error), w)
      else ((filter (\<lambda>(k, v). lo \<le> k \<and> k < hi) (AList.clearjunk (sim_db w)), None), w))"

definition sim_TAS :: "string \<Rightarrow> kv_json \<Rightarrow> kv_json \<Rightarrow> ('h sim, bool \<times> error option) io" where
  "sim_TAS k old new w =
     (let (f, w) = sim_fault w in
      if f then ((False, Some sim_error), w)
      else if map_of (sim_db w) k \<in> {None, Some old}
      then ((True, None), w\<lparr>sim_db := AList.update k new (sim_db w)\<rparr>)
      else ((False, None), w))"

definition sim_kvi :: "'h sim Kvi" where
  "sim_kvi = \<lparr>kvi_Store = sim_Store, kvi_Get = sim_Get, kvi_Delete = sim_Delete,
              kvi_GetRange = sim_GetRange, kvi_TAS = sim_TAS\<rparr>"

definition sim_uuid :: "nat \<Rightarrow> uuid" where
  "sim_uuid n = (let d = nat_digits n in replicate (36 - length d) CHR ''0'' @ d)"

definition sim_runtime :: "'h sim runtime" where
  "sim_runtime =
     \<lparr>uuid_New = (\<lambda>w. (sim_uuid (sim_uuids w), w\<lparr>sim_uuids := sim_uuids w + 1\<rparr>)),
      time_Now = (\<lambda>w. (sim_clock w, w\<lparr>sim_clock := sim_clock w + 1\<rparr>)),
      time_Sleep = (\<lambda>d w. w\<lparr>sim_clock := sim_clock w + d\<rparr>)\<rparr>"

lemmas sim_defs = sim_start_def sim_fault_def sim_Store_def sim_Get_def sim_Delete_def
  sim_GetRange_def sim_TAS_def sim_kvi_def sim_runtime_def

end
