(* ===== verification/Etcd_Refinement.thy ===== *)
theory Etcd_Refinement
  imports Sim_World
begin

section \<open>The key-value providers meet the storage contract\<close>

text \<open>
  The locale \<open>kvi\<close> states what \<^verbatim>\<open>hmetcd.Kvi\<close> documents of its operations: \<open>contents\<close> is the map the
  store holds, a call that reports an error may have happened or not, a range returns the keys
  between its bounds (the upper bound may be included), and a test-and-set writes only where the key
  is absent or holds the test value.

  From these laws alone the definitions of \<open>Etcd_Storage\<close> satisfy \<open>transition_store\<close> (the ETCD
  provider) and \<open>strict_transition_store\<close> (the in-memory provider): documents stay under keys of
  their own type, keys of different records never clash, and a range read returns exactly the records
  of its kind. The abstraction reads the records back from the keys.
\<close>

locale kvi =
  fixes K :: "'w Kvi"
    and contents :: "'w \<Rightarrow> string \<Rightarrow> kv_json option"
  assumes kv_store: "\<And>k v w e w'. kvi_Store K k v w = (e, w') \<Longrightarrow>
      may_set (contents w) k (Some v) e (contents w')"
    and kv_get: "\<And>k w v e w'. kvi_Get K k w = ((v, e), w') \<Longrightarrow>
      contents w' = contents w \<and> (e = None \<longrightarrow> v = contents w k)"
    and kv_delete: "\<And>k w e w'. kvi_Delete K k w = (e, w') \<Longrightarrow>
      may_set (contents w) k None e (contents w')"
    and kv_range: "\<And>lo hi w kvs e w'. kvi_GetRange K lo hi w = ((kvs, e), w') \<Longrightarrow>
      contents w' = contents w \<and>
      (e = None \<longrightarrow> distinct (map fst kvs) \<and>
         (\<forall>k v. (k, v) \<in> set kvs \<longrightarrow> contents w k = Some v \<and> lo \<le> k \<and> k \<le> hi) \<and>
         (\<forall>k v. contents w k = Some v \<and> lo \<le> k \<and> k < hi \<longrightarrow> (k, v) \<in> set kvs))"
    and kv_tas: "\<And>k old new w ok e w'. kvi_TAS K k old new w = ((ok, e), w') \<Longrightarrow>
      (contents w' = (contents w)(k \<mapsto> new) \<and> contents w k \<in> {None, Some old} \<or>
       contents w' = contents w \<and> \<not> ok) \<and>
      (\<not> ok \<and> e = None \<longrightarrow> contents w' = contents w)"

subsection \<open>Keys\<close>

lemma fixUpKey_idem: "fixUpKey (fixUpKey k) = fixUpKey k"
  by (auto simp: fixUpKey_def HasPrefix_def)

lemma fixUpKey_transition: "fixUpKey (transitionKey u) = ''/pcs/transition/'' @ u"
  by (simp add: fixUpKey_def HasPrefix_def transitionKey_def)

lemma fixUpKey_task: "fixUpKey (transitionTaskKey u t) = ''/pcs/transitiontask/'' @ u @ ''/'' @ t"
  by (simp add: fixUpKey_def HasPrefix_def transitionTaskKey_def)

lemma fixUpKey_page: "fixUpKey (transitionPageKey u i) = ''/pcs/transitionpage/'' @ u @ ''/'' @ Itoa (int i)"
  by (simp add: fixUpKey_def HasPrefix_def transitionPageKey_def)

lemma fixUpKey_segments:
  "fixUpKey (''/transition/'') = ''/pcs/transition/''"
  "fixUpKey (''/transitiontask/'' @ u) = ''/pcs/transitiontask/'' @ u"
  "fixUpKey (''/transitionpage/'' @ u) = ''/pcs/transitionpage/'' @ u"
  by (simp_all add: fixUpKey_def HasPrefix_def)

lemmas key_forms = fixUpKey_transition fixUpKey_task fixUpKey_page fixUpKey_segments

text \<open>A range from \<open>p\<close> followed by a space to \<open>p\<close> followed by a tilde holds only keys that extend \<open>p\<close>.\<close>

lemma range_prefix:
  fixes k :: string
  assumes "p @ a # s \<le> k" and "k \<le> p @ b # t"
  shows "\<exists>c r. k = p @ c # r \<and> a \<le> c \<and> c \<le> b"
  using assms
proof (induction p arbitrary: k)
  case Nil
  then show ?case by (cases k) auto
next
  case (Cons x p)
  then show ?case by (cases k) auto
qed

lemma in_range:
  fixes k :: string
  assumes "a < c" and "c < b"
  shows "p @ a # s \<le> p @ c # r \<and> p @ c # r < p @ b # t"
  using assms by (induction p) auto

subsection \<open>Documents under their keys\<close>

fun doc_at :: "string \<Rightarrow> kv_json \<Rightarrow> bool" where
  "doc_at k (JTransition t) \<longleftrightarrow> okid (tr_TransitionID t) \<and> k = ''/pcs/transition/'' @ tr_TransitionID t"
| "doc_at k (JTransitionTask t) \<longleftrightarrow> okid (tt_TransitionID t) \<and> okid (tt_TaskID t) \<and>
     k = ''/pcs/transitiontask/'' @ tt_TransitionID t @ ''/'' @ tt_TaskID t"
| "doc_at k (JTransitionPage p) \<longleftrightarrow> okid (pg_TransitionID p) \<and>
     k = ''/pcs/transitionpage/'' @ pg_TransitionID p @ ''/'' @ Itoa (int (pg_Index p))"
| "doc_at k (JPowerStatus p) \<longleftrightarrow> k = ''/pcs/powerstate/'' @ ps_XName p"
| "doc_at k (JPowerCapTask t) \<longleftrightarrow> okid (pct_TaskID t) \<and> k = ''/pcs/powercaptask/'' @ pct_TaskID t"
| "doc_at k (JPowerCapOp t) \<longleftrightarrow> okid (pco_TaskID t) \<and> okid (pco_OperationID t) \<and>
     k = ''/pcs/powercapop/'' @ pco_TaskID t @ ''/'' @ pco_OperationID t"
| "doc_at k (JTime t) \<longleftrightarrow> k = ''/pcs/powerstatusmaster''"
| "doc_at k (JString s) \<longleftrightarrow> HasPrefix k ''/pcs/ping/''"

definition typed_docs :: "(string \<Rightarrow> kv_json option) \<Rightarrow> bool" where
  "typed_docs c \<longleftrightarrow> (\<forall>k v. c k = Some v \<longrightarrow> doc_at k v)"

definition unpaged :: "(string \<Rightarrow> kv_json option) \<Rightarrow> bool" where
  "unpaged c \<longleftrightarrow> (\<forall>k p. c k \<noteq> Some (JTransitionPage p))"

definition db_trans :: "(string \<Rightarrow> kv_json option) \<Rightarrow> uuid \<Rightarrow> Transition option" where
  "db_trans c i = Option.bind (c (fixUpKey (transitionKey i))) as_transition"

definition db_tasks :: "(string \<Rightarrow> kv_json option) \<Rightarrow> uuid \<times> uuid \<Rightarrow> TransitionTask option" where
  "db_tasks c ij = (if okid (fst ij) then Option.bind (c (fixUpKey (transitionTaskKey (fst ij) (snd ij)))) as_task else None)"

definition fits_etcd :: "'w ETCDStorage \<Rightarrow> Transition \<Rightarrow> bool" where
  "fits_etcd E t \<longleftrightarrow> e_DisableSizeChecks E \<or> e_jsonLen E t < e_MaxEtcdObjectSize E"

definition etcd_inv :: "(string \<Rightarrow> kv_json option) \<Rightarrow> bool" where
  "etcd_inv c \<longleftrightarrow> typed_docs c \<and> unpaged c"

lemma etcd_inv_set: "etcd_inv c \<Longrightarrow> doc_at k v \<Longrightarrow> as_page v = None \<Longrightarrow> etcd_inv (c(k \<mapsto> v))"
  by (auto simp: etcd_inv_def typed_docs_def unpaged_def)

lemma etcd_inv_clear: "etcd_inv c \<Longrightarrow> etcd_inv (c(k := None))"
  by (auto simp: etcd_inv_def typed_docs_def unpaged_def)

lemma as_transition_iff [simp]: "as_transition v = Some t \<longleftrightarrow> v = JTransition t"
  by (cases v) auto

lemma as_task_iff [simp]: "as_task v = Some t \<longleftrightarrow> v = JTransitionTask t"
  by (cases v) auto

lemma as_page_iff [simp]: "as_page v = Some t \<longleftrightarrow> v = JTransitionPage t"
  by (cases v) auto

lemma okid_length: "okid i \<Longrightarrow> length i = 36"
  by (simp add: okid_def)

lemma okid_first: "okid i \<Longrightarrow> \<exists>c r. i = c # r \<and> CHR '' '' < c \<and> c < CHR ''~''"
  by (cases i) (auto simp: okid_def less_char_def)

lemma typed_docs_set: "typed_docs c \<Longrightarrow> doc_at k v \<Longrightarrow> typed_docs (c(k \<mapsto> v))"
  by (auto simp: typed_docs_def)

lemma typed_docs_clear: "typed_docs c \<Longrightarrow> typed_docs (c(k := None))"
  by (auto simp: typed_docs_def)

lemma doc_at_transition_key:
  "doc_at (fixUpKey (transitionKey i)) v \<Longrightarrow> \<exists>t. v = JTransition t \<and> tr_TransitionID t = i \<and> okid i"
  by (cases v) (auto simp: HasPrefix_def fixUpKey_transition)

lemma doc_at_task_key:
  "doc_at (''/pcs/transitiontask/'' @ s) v \<Longrightarrow>
     \<exists>t. v = JTransitionTask t \<and> s = tt_TransitionID t @ ''/'' @ tt_TaskID t \<and>
         okid (tt_TransitionID t) \<and> okid (tt_TaskID t)"
  by (cases v) (auto simp: HasPrefix_def)

lemma doc_at_page_key:
  "doc_at (''/pcs/transitionpage/'' @ s) v \<Longrightarrow>
     \<exists>p. v = JTransitionPage p \<and> s = pg_TransitionID p @ ''/'' @ Itoa (int (pg_Index p)) \<and>
         okid (pg_TransitionID p)"
  by (cases v) (auto simp: HasPrefix_def)

lemma db_trans_iff:
  "typed_docs c \<Longrightarrow> db_trans c i = Some t \<longleftrightarrow> c (fixUpKey (transitionKey i)) = Some (JTransition t)"
  by (auto simp: db_trans_def split: Option.bind_splits)

lemma db_trans_Some:
  "typed_docs c \<Longrightarrow> db_trans c i = Some t \<Longrightarrow> tr_TransitionID t = i \<and> okid i"
  using doc_at_transition_key by (fastforce simp: db_trans_iff typed_docs_def)

lemma db_trans_None:
  "typed_docs c \<Longrightarrow> db_trans c i = None \<longleftrightarrow> c (fixUpKey (transitionKey i)) = None"
  using doc_at_transition_key
  by (fastforce simp: db_trans_def typed_docs_def split: Option.bind_splits)

lemma db_tasks_Some:
  "typed_docs c \<Longrightarrow> db_tasks c (i, j) = Some k \<Longrightarrow>
     tt_TransitionID k = i \<and> tt_TaskID k = j \<and> okid i \<and> okid j"
  using doc_at_task_key [of "i @ ''/'' @ j" "JTransitionTask k"]
  by (fastforce simp: db_tasks_def typed_docs_def okid_def key_forms split: Option.bind_splits if_splits)

lemma db_trans_frame [simp]:
  "db_trans (c(fixUpKey (transitionTaskKey i j) := x)) = db_trans c"
  "db_tasks (c(fixUpKey (transitionKey i) := x)) = db_tasks c"
  by (auto simp: db_trans_def db_tasks_def fun_eq_iff key_forms)

lemma db_trans_set [simp]:
  "db_trans (c(fixUpKey (transitionKey i) \<mapsto> JTransition t)) = (db_trans c)(i \<mapsto> t)"
  "db_trans (c(fixUpKey (transitionKey i) := None)) = (db_trans c)(i := None)"
  by (auto simp: db_trans_def fun_eq_iff key_forms)

lemma db_tasks_set:
  "okid i \<Longrightarrow> db_tasks (c(fixUpKey (transitionTaskKey i j) \<mapsto> JTransitionTask k)) = (db_tasks c)((i, j) \<mapsto> k)"
  "okid i \<Longrightarrow> db_tasks (c(fixUpKey (transitionTaskKey i j) := None)) = (db_tasks c)((i, j) := None)"
  by (auto simp: db_tasks_def fun_eq_iff okid_def key_forms)


lemma etcd_inv_transition:
  "etcd_inv c \<Longrightarrow> okid (tr_TransitionID t) \<Longrightarrow>
     etcd_inv (c(fixUpKey (transitionKey (tr_TransitionID t)) \<mapsto> JTransition t))"
  by (rule etcd_inv_set) (simp_all add: fixUpKey_transition)

lemma etcd_inv_task:
  "etcd_inv c \<Longrightarrow> okid (tt_TransitionID k) \<Longrightarrow> okid (tt_TaskID k) \<Longrightarrow>
     etcd_inv (c(fixUpKey (transitionTaskKey (tt_TransitionID k) (tt_TaskID k)) \<mapsto> JTransitionTask k))"
  by (rule etcd_inv_set) (simp_all add: fixUpKey_task)

text \<open>What setting or clearing the key of a transition or a task does to the records.\<close>

lemma may_set_transition:
  assumes "may_set c (fixUpKey (transitionKey i)) v e c'" and "etcd_inv c"
    and "v = None \<or> v = Some (JTransition t) \<and> tr_TransitionID t = i \<and> okid i"
  shows "etcd_inv c' \<and> db_tasks c' = db_tasks c \<and>
    may_set (db_trans c) i (if v = None then None else Some t) e (db_trans c')"
  using assms by (auto simp: may_set_def intro: etcd_inv_clear etcd_inv_transition)

lemma may_set_task:
  assumes "may_set c (fixUpKey (transitionTaskKey i j)) v e c'" and "etcd_inv c" and "okid i"
    and "v = None \<or> v = Some (JTransitionTask k) \<and> tt_TransitionID k = i \<and> tt_TaskID k = j \<and> okid j"
  shows "etcd_inv c' \<and> db_trans c' = db_trans c \<and>
    may_set (db_tasks c) (i, j) (if v = None then None else Some k) e (db_tasks c')"
  using assms by (auto simp: may_set_def db_tasks_set intro: etcd_inv_clear etcd_inv_task)

lemma decode_all_ok:
  "\<forall>(k, v) \<in> set kvl. dec v \<noteq> None \<Longrightarrow>
     decode_all dec kvl acc None = (acc @ map (the \<circ> dec \<circ> snd) kvl, None)"
  by (induction kvl arbitrary: acc) auto

lemma decode_pages_ok:
  "\<forall>(k, v) \<in> set kvl. as_page v \<noteq> None \<Longrightarrow>
     decode_pages kvl acc None = (acc @ map (the \<circ> as_page \<circ> snd) kvl, None)"
  by (induction kvl arbitrary: acc) auto

lemma fits_no_pages: "fits_etcd E t \<Longrightarrow> truncateAndPageTransitionIfNeeded E t = (t, [])"
  by (auto simp: fits_etcd_def truncateAndPageTransitionIfNeeded_def Let_def)

subsection \<open>The provider on a store\<close>

locale etcd_kv = kvi "e_kvHandle E" contents
  for E :: "'w ETCDStorage" and contents :: "'w \<Rightarrow> string \<Rightarrow> kv_json option" +
  fixes R :: "'w runtime" and X :: xnametypes
begin

lemma kvGet_ok:
  assumes "kvGet E dec key w = ((a, e), w')"
  shows "contents w' = contents w \<and> (e = None \<longrightarrow> a = Option.bind (contents w (fixUpKey key)) dec)
    \<and> (e \<noteq> None \<longrightarrow> a = None) \<and> (e = None \<longrightarrow> contents w (fixUpKey key) = None \<or> a \<noteq> None)"
proof -
  obtain v e1 w1 where g: "kvi_Get (e_kvHandle E) (fixUpKey key) w = ((v, e1), w1)"
    by (rule pair2E)
  show ?thesis
    using assms g kv_get [OF g]
    by (cases "contents w (fixUpKey key)") (auto simp: kvGet_def split: option.splits, metis)
qed

text \<open>
  A range read over the keys that extend \<open>p\<close>, when every document there decodes and determines its
  key: it returns exactly those documents, each once.
\<close>

lemma kvGetAll_ok:
  assumes "kvGetAll E dec (p @ keyMin) (p @ keyMax) w = ((xs, e), w')"
    and "\<And>k v c r. contents w k = Some v \<Longrightarrow> k = p @ c # r \<Longrightarrow>
           CHR '' '' < c \<and> c < CHR ''~'' \<and> (\<exists>a. dec v = Some a \<and> mk a = k)"
  shows "contents w' = contents w \<and>
    (e = None \<longrightarrow> distinct (map mk xs) \<and>
       (\<forall>a. a \<in> set xs \<longleftrightarrow> (\<exists>k v. contents w k = Some v \<and> (\<exists>c r. k = p @ c # r) \<and> dec v = Some a)))"
proof -
  obtain kvs e1 w1 where g: "kvi_GetRange (e_kvHandle E) (p @ keyMin) (p @ keyMax) w = ((kvs, e1), w1)"
    by (rule pair2E)
  note law = kv_range [OF g]
  have same: "contents w1 = contents w" using law by simp
  show ?thesis
  proof (cases e1)
    case (Some err)
    then show ?thesis using assms(1) g same by (auto simp: kvGetAll_def)
  next
    case None
    have res: "decode_all dec kvs [] None = (xs, e)" "w' = w1"
      using assms(1) g None by (auto simp: kvGetAll_def)
    have mem: "(k, v) \<in> set kvs \<longleftrightarrow> contents w k = Some v \<and> (\<exists>c r. k = p @ c # r)" for k v
    proof
      assume "(k, v) \<in> set kvs"
      then have "contents w k = Some v" "p @ keyMin \<le> k" "k \<le> p @ keyMax" using law None by blast+
      then show "contents w k = Some v \<and> (\<exists>c r. k = p @ c # r)"
        using range_prefix [of p "CHR '' ''" "[]" k "CHR ''~''" "[]"] by auto
    next
      assume a: "contents w k = Some v \<and> (\<exists>c r. k = p @ c # r)"
      then obtain c r where k: "k = p @ c # r" by auto
      then have "p @ keyMin \<le> k \<and> k < p @ keyMax"
        using assms(2) [of k v c r] a in_range [of "CHR '' ''" c "CHR ''~''" p "[]" r "[]"] by auto
      then show "(k, v) \<in> set kvs" using law None a by blast
    qed
    have dec: "\<exists>a. dec v = Some a \<and> mk a = k" if "(k, v) \<in> set kvs" for k v
      using that mem assms(2) by blast
    then have xs: "xs = map (the \<circ> dec \<circ> snd) kvs" "e = None"
      using decode_all_ok [of kvs dec "[]"] res(1) by fastforce+
    have "map mk xs = map fst kvs"
      using dec by (fastforce simp: xs(1))
    then have "distinct (map mk xs)" using law None by metis
    moreover have "a \<in> set xs \<longleftrightarrow> (\<exists>k v. (k, v) \<in> set kvs \<and> dec v = Some a)" for a
      using dec by (force simp: xs(1) image_iff)
    ultimately show ?thesis using same res(2) mem by auto
  qed
qed

lemma pages_empty:
  assumes "typed_docs (contents w)" and "unpaged (contents w)" and "okid i"
    and "GetTransitionPages E i w = ((ps, e), w')"
  shows "contents w' = contents w \<and> ps = []"
proof -
  let ?p = "''/pcs/transitionpage/'' @ i"
  obtain kvs e1 w1 where g: "kvi_GetRange (e_kvHandle E) (?p @ keyMin) (?p @ keyMax) w = ((kvs, e1), w1)"
    by (rule pair2E)
  have "kvs = []" if "e1 = None"
  proof (rule ccontr)
    assume "kvs \<noteq> []"
    then obtain k v where "(k, v) \<in> set kvs" by (metis list.set_intros(1) neq_Nil_conv surj_pair)
    then have "contents w k = Some v" "?p @ keyMin \<le> k" "k \<le> ?p @ keyMax"
      using kv_range [OF g] that by blast+
    then have "contents w k = Some v" "\<exists>c r. k = ?p @ c # r"
      using range_prefix [of ?p "CHR '' ''" "[]" k "CHR ''~''" "[]"] by auto
    then show False
      using assms(1,2) doc_at_page_key by (fastforce simp: typed_docs_def unpaged_def)
  qed
  moreover have "contents w1 = contents w" using kv_range [OF g] by simp
  ultimately show ?thesis
    using assms(4) g
    by (cases e1) (auto simp: GetTransitionPages_def fixUpKey_def HasPrefix_def sortTransitionPages_def Let_def)
qed


lemma etcd_get:
  assumes "etcd_inv (contents w)" and "ETCD_GetTransition E i w = ((t, p, e), w')"
  shows "contents w' = contents w \<and>
    (if e = None then t = db_trans (contents w) i \<and> p = db_trans (contents w) i else t = None \<and> p = None)"
proof -
  obtain a e1 w1 where g: "kvGet E as_transition (transitionKey i) w = ((a, e1), w1)"
    by (rule pair2E)
  have a: "contents w1 = contents w" "e1 = None \<Longrightarrow> a = db_trans (contents w) i" "e1 \<noteq> None \<Longrightarrow> a = None"
    using kvGet_ok [OF g] by (auto simp: db_trans_def)
  show ?thesis
  proof (cases "e1 = None \<and> a \<noteq> None \<and> \<not> e_DisableSizeChecks E")
    case False
    then show ?thesis
      using assms(2) g a by (cases e1; cases a) (auto simp: ETCD_GetTransition_def)
  next
    case True
    then obtain tr where tr: "a = Some tr" "db_trans (contents w) i = Some tr" using a by auto
    then have id: "tr_TransitionID tr = i \<and> okid i"
      using assms(1) db_trans_Some by (auto simp: etcd_inv_def)
    obtain ps e2 w2 where p: "GetTransitionPages E i w1 = ((ps, e2), w2)"
      by (rule pair2E)
    have "contents w2 = contents w \<and> ps = []"
      using pages_empty [OF _ _ _ p] assms(1) id a by (simp add: etcd_inv_def)
    then show ?thesis
      using assms(2) g p True tr id by (cases e2) (auto simp: ETCD_GetTransition_def)
  qed
qed

lemma etcd_store:
  assumes "etcd_inv (contents w)" and "okid (tr_TransitionID t)" and "fits_etcd E t"
    and "ETCD_StoreTransition E t w = (e, w')"
  shows "etcd_inv (contents w') \<and> db_tasks (contents w') = db_tasks (contents w) \<and>
    may_set (db_trans (contents w)) (tr_TransitionID t) (Some t) e (db_trans (contents w'))"
proof -
  have "kvStore E (transitionKey (tr_TransitionID t)) (JTransition t) w = (e, w')"
    using assms(4) by (simp add: ETCD_StoreTransition_def fits_no_pages [OF assms(3)] split: prod.splits)
  then show ?thesis
    using may_set_transition [OF kv_store assms(1)] assms(2) by (simp add: kvStore_def)
qed

lemma etcd_delete:
  assumes "etcd_inv (contents w)" and "okid i" and "ETCD_DeleteTransition E i w = (e, w')"
  shows "etcd_inv (contents w') \<and> db_tasks (contents w') = db_tasks (contents w) \<and>
    may_set (db_trans (contents w)) i None e (db_trans (contents w'))"
proof -
  obtain e1 w1 where d: "kvDelete E (transitionKey i) w = (e1, w1)" by fastforce
  have one: "etcd_inv (contents w1) \<and> db_tasks (contents w1) = db_tasks (contents w) \<and>
      may_set (db_trans (contents w)) i None e1 (db_trans (contents w1))"
    using may_set_transition [OF kv_delete assms(1)] d by (simp add: kvDelete_def)
  obtain ps e2 w2 where p: "GetTransitionPages E i w1 = ((ps, e2), w2)"
    by (rule pair2E)
  have "contents w2 = contents w1 \<and> ps = []"
    using pages_empty [OF _ _ assms(2) p] one by (simp add: etcd_inv_def)
  then have "contents w' = contents w1 \<and> (e1 \<noteq> None \<longrightarrow> e \<noteq> None)"
    using assms(3) d p
    by (cases e1; cases e2) (auto simp: ETCD_DeleteTransition_def Let_def split: if_splits)
  then show ?thesis using one by (auto simp: may_set_def)
qed

lemma etcd_tas:
  assumes "etcd_inv (contents w)" and "okid (tr_TransitionID t)" and "fits_etcd E t"
    and "ETCD_TASTransition E t old w = ((ok, e), w')"
  shows "etcd_inv (contents w') \<and> db_tasks (contents w') = db_tasks (contents w) \<and>
      (db_trans (contents w') = (db_trans (contents w))(tr_TransitionID t \<mapsto> t) \<and>
         db_trans (contents w) (tr_TransitionID t) \<in> {None, Some old}
       \<or> db_trans (contents w') = db_trans (contents w) \<and> \<not> ok) \<and>
      (\<not> ok \<and> e = None \<longrightarrow> db_trans (contents w') = db_trans (contents w))"
proof -
  have "kvTAS E (transitionKey (tr_TransitionID t)) (JTransition old) (JTransition t) w = ((ok, e), w')"
    using assms(4)
    by (auto simp: ETCD_TASTransition_def fits_no_pages [OF assms(3)] split: prod.splits option.splits)
  then have law: "(contents w' = (contents w)(fixUpKey (transitionKey (tr_TransitionID t)) \<mapsto> JTransition t) \<and>
       contents w (fixUpKey (transitionKey (tr_TransitionID t))) \<in> {None, Some (JTransition old)} \<or>
       contents w' = contents w \<and> \<not> ok) \<and> (\<not> ok \<and> e = None \<longrightarrow> contents w' = contents w)"
    unfolding kvTAS_def by (rule kv_tas)
  have "db_trans (contents w) (tr_TransitionID t) \<in> {None, Some old}"
    if "contents w (fixUpKey (transitionKey (tr_TransitionID t))) \<in> {None, Some (JTransition old)}"
    using that by (auto simp: db_trans_def)
  then show ?thesis
    using law assms(1,2) etcd_inv_transition by (elim conjE disjE) auto
qed

lemma etcd_get_task:
  assumes "okid i" and "ETCD_GetTransitionTask E i j w = ((k, e), w')"
  shows "contents w' = contents w \<and> (if e = None then k = db_tasks (contents w) (i, j) else k = None)"
  using kvGet_ok [OF assms(2) [unfolded ETCD_GetTransitionTask_def]] assms(1) by (auto simp: db_tasks_def)

lemma etcd_all_tasks:
  assumes "etcd_inv (contents w)" and "okid i" and "ETCD_GetAllTasksForTransition E i w = ((ks, e), w')"
  shows "contents w' = contents w \<and>
    (e = None \<longrightarrow> distinct (map tt_TaskID ks) \<and>
       (\<forall>k. k \<in> set ks \<longleftrightarrow> db_tasks (contents w) (i, tt_TaskID k) = Some k))"
proof -
  let ?p = "''/pcs/transitiontask/'' @ i"
  let ?mk = "\<lambda>k. ?p @ ''/'' @ tt_TaskID k"
  have run: "kvGetAll E as_task (?p @ keyMin) (?p @ keyMax) w = ((ks, e), w')"
    using assms(3) by (simp add: ETCD_GetAllTasksForTransition_def fixUpKey_def HasPrefix_def)
  have doc: "\<exists>a. v = JTransitionTask a \<and> tt_TransitionID a = i \<and> c = CHR ''/'' \<and> r = tt_TaskID a"
    if "contents w (?p @ c # r) = Some v" for v c r
  proof -
    have "doc_at (''/pcs/transitiontask/'' @ (i @ c # r)) v"
      using assms(1) that by (simp add: etcd_inv_def typed_docs_def)
    then obtain a where "v = JTransitionTask a" "i @ c # r = tt_TransitionID a @ ''/'' @ tt_TaskID a"
      "okid (tt_TransitionID a)"
      using doc_at_task_key by blast
    then show ?thesis using assms(2) by (auto simp: okid_def)
  qed
  have res: "contents w' = contents w \<and> (e = None \<longrightarrow> distinct (map ?mk ks) \<and>
      (\<forall>a. a \<in> set ks \<longleftrightarrow> (\<exists>k v. contents w k = Some v \<and> (\<exists>c r. k = ?p @ c # r) \<and> as_task v = Some a)))"
    by (rule kvGetAll_ok [OF run]) (use doc in \<open>force simp: less_char_def\<close>)
  have "(\<exists>k v. contents w k = Some v \<and> (\<exists>c r. k = ?p @ c # r) \<and> as_task v = Some a) \<longleftrightarrow>
        db_tasks (contents w) (i, tt_TaskID a) = Some a" for a
  proof
    assume "\<exists>k v. contents w k = Some v \<and> (\<exists>c r. k = ?p @ c # r) \<and> as_task v = Some a"
    then obtain c r where "contents w (?p @ c # r) = Some (JTransitionTask a)" by auto
    then show "db_tasks (contents w) (i, tt_TaskID a) = Some a"
      using doc assms(2) by (fastforce simp: db_tasks_def fixUpKey_task)
  next
    assume "db_tasks (contents w) (i, tt_TaskID a) = Some a"
    then have "contents w (?p @ CHR ''/'' # tt_TaskID a) = Some (JTransitionTask a)"
      using assms(2) by (auto simp: db_tasks_def fixUpKey_task split: Option.bind_splits)
    then show "\<exists>k v. contents w k = Some v \<and> (\<exists>c r. k = ?p @ c # r) \<and> as_task v = Some a"
      by force
  qed
  moreover have "distinct (map ?mk ks) \<Longrightarrow> distinct (map tt_TaskID ks)"
    by (auto simp: distinct_map inj_on_def)
  ultimately show ?thesis using res by auto
qed

lemma etcd_all_trans:
  assumes "etcd_inv (contents w)" and "ETCD_GetAllTransitions E w = ((ts, e), w')"
  shows "contents w' = contents w \<and>
    (e = None \<longrightarrow> distinct (map tr_TransitionID ts) \<and>
       (\<forall>t. t \<in> set ts \<longleftrightarrow> db_trans (contents w) (tr_TransitionID t) = Some t))"
proof -
  let ?p = "''/pcs/transition/''"
  let ?mk = "\<lambda>t. ?p @ tr_TransitionID t"
  have run: "kvGetAll E as_transition (?p @ keyMin) (?p @ keyMax) w = ((ts, e), w')"
    using assms(2) by (simp add: ETCD_GetAllTransitions_def fixUpKey_def HasPrefix_def)
  have doc: "\<exists>a. v = JTransition a \<and> s = tr_TransitionID a \<and> okid s"
    if "contents w (?p @ s) = Some v" for v s
    using assms(1) that doc_at_transition_key [of s v]
    by (auto simp: etcd_inv_def typed_docs_def fixUpKey_transition)
  have res: "contents w' = contents w \<and> (e = None \<longrightarrow> distinct (map ?mk ts) \<and>
      (\<forall>a. a \<in> set ts \<longleftrightarrow> (\<exists>k v. contents w k = Some v \<and> (\<exists>c r. k = ?p @ c # r) \<and> as_transition v = Some a)))"
  proof (rule kvGetAll_ok [OF run])
    fix k v c r assume "contents w k = Some v" "k = ?p @ c # r"
    then show "CHR '' '' < c \<and> c < CHR ''~'' \<and> (\<exists>a. as_transition v = Some a \<and> ?mk a = k)"
      using doc [of "c # r" v] okid_first by fastforce
  qed
  have "(\<exists>k v. contents w k = Some v \<and> (\<exists>c r. k = ?p @ c # r) \<and> as_transition v = Some a) \<longleftrightarrow>
        db_trans (contents w) (tr_TransitionID a) = Some a" for a
    using doc okid_first
    by (auto simp: db_trans_def fixUpKey_transition split: Option.bind_splits) fastforce+
  moreover have "distinct (map ?mk ts) \<Longrightarrow> distinct (map tr_TransitionID ts)"
    by (auto simp: distinct_map inj_on_def)
  ultimately show ?thesis using res by auto
qed

end


lemmas provider_sel = ETCDStorage_provider_def MEMStorage_provider_def

sublocale etcd_kv \<subseteq> etcd: transition_store "ETCDStorage_provider R X E"
  "\<lambda>w. etcd_inv (contents w)" "\<lambda>w. db_trans (contents w)" "\<lambda>w. db_tasks (contents w)" "fits_etcd E"
proof (unfold_locales, goal_cases)
  case (1 w i t)
  then show ?case using db_trans_Some by (auto simp: etcd_inv_def)
next
  case (2 w i j k)
  then show ?case using db_tasks_Some by (auto simp: etcd_inv_def)
next
  case (3 w i t p e w')
  then show ?case using etcd_get [of w i t p e w'] by (simp add: provider_sel)
next
  case (4 w t e w')
  then show ?case using etcd_store by (simp add: provider_sel)
next
  case (5 w i e w')
  then show ?case using etcd_delete by (simp add: provider_sel)
next
  case (6 w t old ok e w')
  then show ?case using etcd_tas [of w t old ok e w'] by (simp add: provider_sel)
next
  case (7 w k e w')
  then have "may_set (contents w) (fixUpKey (transitionTaskKey (tt_TransitionID k) (tt_TaskID k)))
      (Some (JTransitionTask k)) e (contents w')"
    by (intro kv_store) (simp add: provider_sel ETCD_StoreTransitionTask_def kvStore_def)
  then show ?case using may_set_task 7 by fastforce
next
  case (8 w i j e w')
  then have "may_set (contents w) (fixUpKey (transitionTaskKey i j)) None e (contents w')"
    by (intro kv_delete) (simp add: provider_sel ETCD_DeleteTransitionTask_def kvDelete_def)
  then show ?case using may_set_task 8 by fastforce
next
  case (9 w i j k e w')
  then show ?case using etcd_get_task [of i j w k e w'] by (simp add: provider_sel)
next
  case (10 w i ks e w')
  then show ?case using etcd_all_tasks [of w i ks e w'] by (simp add: provider_sel)
next
  case (11 w ts e w')
  then show ?case using etcd_all_trans [of w ts e w'] by (simp add: provider_sel)
qed

context etcd_kv
begin

lemma mem_tas:
  assumes "etcd_inv (contents w)" and "okid (tr_TransitionID t)" and "fits_etcd E t"
    and "MEM_TASTransition E t old w = ((ok, e), w')"
  shows "(\<exists>w1. contents w1 = contents w \<and> ETCD_TASTransition E t old w1 = ((ok, e), w') \<and>
            db_trans (contents w) (tr_TransitionID t) \<noteq> None) \<or>
         contents w' = contents w \<and> \<not> ok"
proof -
  let ?k = "fixUpKey (transitionKey (tr_TransitionID t))"
  obtain v e1 w1 where g: "kvi_Get (e_kvHandle E) ?k w = ((v, e1), w1)"
    by (rule pair2E)
  then show ?thesis
    using assms(1,4) kv_get [OF g] db_trans_None [of "contents w" "tr_TransitionID t"]
    by (cases e1; cases v) (auto simp: MEM_TASTransition_def etcd_inv_def)
qed

end

sublocale etcd_kv \<subseteq> mem: strict_transition_store "MEMStorage_provider R X E"
  "\<lambda>w. etcd_inv (contents w)" "\<lambda>w. db_trans (contents w)" "\<lambda>w. db_tasks (contents w)" "fits_etcd E"
proof (unfold_locales, goal_cases)
  case (1 w i t)
  then show ?case by (rule etcd.trans_id)
next
  case (2 w i j k)
  then show ?case by (rule etcd.tasks_id)
next
  case (3 w i t p e w')
  then show ?case using etcd.get [of w i t p e w'] by (simp add: provider_sel)
next
  case (4 w t e w')
  then show ?case using etcd.store by (simp add: provider_sel)
next
  case (5 w i e w')
  then show ?case using etcd.delete by (simp add: provider_sel)
next
  case (6 w t old ok e w')
  then have run: "MEM_TASTransition E t old w = ((ok, e), w')" by (simp add: provider_sel)
  from mem_tas [OF 6(1-3) run] show ?case
  proof (elim disjE exE conjE)
    fix w1 assume c: "contents w1 = contents w" and r: "ETCD_TASTransition E t old w1 = ((ok, e), w')"
    show ?case using etcd_tas [OF _ 6(2,3) r] 6(1) by (simp add: c)
  qed (use 6(1) in simp)
next
  case (7 w k e w')
  then show ?case using etcd.store_task by (simp add: provider_sel)
next
  case (8 w i j e w')
  then show ?case using etcd.delete_task by (simp add: provider_sel)
next
  case (9 w i j k e w')
  then show ?case using etcd.get_task [of w i j k e w'] by (simp add: provider_sel)
next
  case (10 w i ks e w')
  then show ?case using etcd.all_tasks [of w i ks e w'] by (simp add: provider_sel)
next
  case (11 w ts e w')
  then show ?case using etcd.all_trans [of w ts e w'] by (simp add: provider_sel)
next
  case (12 w t old ok e w')
  then have run: "MEM_TASTransition E t old w = ((ok, e), w')" by (simp add: provider_sel)
  show ?case using mem_tas [OF 12(1-3) run] 12(5) by auto
qed

subsection \<open>The executable store\<close>

lemma sim_fault_db: "sim_fault w = (f, w') \<Longrightarrow> sim_db w' = sim_db w"
  by (auto simp: sim_fault_def split: list.splits)

interpretation sim: kvi sim_kvi "\<lambda>w. map_of (sim_db w)"
proof (unfold_locales, goal_cases)
  case (1 k v w e w')
  then show ?case
    by (auto simp: sim_kvi_def sim_Store_def may_set_def sim_fault_db split: prod.splits if_splits)
next
  case (2 k w v e w')
  then show ?case
    by (auto simp: sim_kvi_def sim_Get_def sim_fault_db split: prod.splits if_splits)
next
  case (3 k w e w')
  then show ?case
    by (auto simp: sim_kvi_def sim_Delete_def may_set_def sim_fault_db split: prod.splits if_splits)
next
  case (4 lo hi w kvs e w')
  have mem: "(k, v) \<in> set (AList.clearjunk m) \<longleftrightarrow> map_of m k = Some v" for k v and m :: "(string \<times> kv_json) list"
    using distinct_clearjunk [of m] map_of_clearjunk [of m] by (metis map_of_eq_Some_iff)
  show ?case using 4
    by (auto simp: sim_kvi_def sim_GetRange_def sim_fault_db mem distinct_map_filter
          split: prod.splits if_splits)
next
  case (5 k old new w ok e w')
  then show ?case
    by (auto simp: sim_kvi_def sim_TAS_def sim_fault_db split: prod.splits if_splits)
qed


definition sim_etcd :: "int \<Rightarrow> int \<Rightarrow> 'h sim ETCDStorage" where
  "sim_etcd pageSize maxSize =
     \<lparr>e_DisableSizeChecks = False, e_PageSize = pageSize, e_MaxMessageLen = 8,
      e_MaxEtcdObjectSize = maxSize, e_kvHandle = sim_kvi,
      e_jsonLen = (\<lambda>t. int (length (tr_Tasks t) + length (tr_Location t) + length (tr_TaskIDs t)))\<rparr>"

lemma sim_etcd_handle [simp]: "e_kvHandle (sim_etcd p m) = sim_kvi"
  by (simp add: sim_etcd_def)

interpretation sim_etcd: etcd_kv "sim_etcd p m" "\<lambda>w. map_of (sim_db w)" sim_runtime X for p m X
  unfolding etcd_kv_def by (simp add: sim.kvi_axioms)

lemma etcd_inv_empty [simp]: "etcd_inv (map_of [])"
  by (simp add: etcd_inv_def typed_docs_def unpaged_def)

end
