(* ===== verification/Etcd_Paging.thy ===== *)
theory Etcd_Paging
  imports Etcd_Refinement
begin

section \<open>Large transitions in the key-value providers\<close>

text \<open>
  What the key-value providers do with a transition whose JSON text exceeds the object limit: the
  pages written by \<^verbatim>\<open>StoreTransition\<close> are exactly those \<^verbatim>\<open>GetTransition\<close> reads, in order, and joining
  them restores the lists, except in one case: with the reduced page size the loop over the tasks
  advances by the full page size and drops the rest of the tasks. Also here: the bounds and the
  idempotence of message truncation, and the statement that both providers meet the storage contract.
\<close>

subsection \<open>Page numbers in keys\<close>

lemma digit_char_of: "m < 10 \<Longrightarrow> digit_char (char_of (48 + m :: nat)) \<and> (of_char (char_of (48 + m :: nat) :: char) :: nat) = 48 + m"
  by (simp add: digit_char_def)

lemma nat_digits_char: "list_all digit_char (nat_digits n)"
proof (induction n rule: nat_digits.induct)
  case (1 n)
  then show ?case
    using digit_char_of [of n] digit_char_of [of "n mod 10"] by (simp add: nat_digits.simps [of n])
qed

lemma nat_digits_nonempty: "nat_digits n \<noteq> []"
  by (simp add: nat_digits.simps [of n])

lemma digits_value_nat_digits: "digits_value (nat_digits n) = int n"
proof (induction n rule: nat_digits.induct)
  case (1 n)
  have "digits_value (s @ [c]) = 10 * digits_value s + (int (of_char c) - 48)" for s c
    by (simp add: digits_value_def)
  moreover have "10 * int (n div 10) + int (n mod 10) = int n"
    by (metis mult_div_mod_eq of_nat_add of_nat_mult of_nat_numeral)
  ultimately show ?case
    using 1 digit_char_of [of n] digit_char_of [of "n mod 10"]
    by (auto simp: nat_digits.simps [of n] digits_value_def)
qed

lemma digit_char_not [simp]: "\<not> digit_char CHR ''-''" "\<not> digit_char CHR ''+''" "\<not> digit_char CHR ''/''"
  by (simp_all add: digit_char_def)

lemma Atoi_Itoa: "int n < 2 ^ 63 \<Longrightarrow> Atoi (Itoa (int n)) = int n"
proof -
  assume "int n < 2 ^ 63"
  moreover obtain c r where d: "nat_digits n = c # r" using nat_digits_nonempty [of n] by (cases "nat_digits n") auto
  moreover have "digit_char c" using nat_digits_char [of n] d by simp
  then have "c \<noteq> CHR ''-'' \<and> c \<noteq> CHR ''+''" by auto
  ultimately show ?thesis
    using nat_digits_char [of n] digits_value_nat_digits [of n]
    by (simp add: Atoi_def Itoa_def HasPrefix_def)
qed

lemma key_suffix_page: "key_suffix (s @ ''/'' @ Itoa (int n)) = Itoa (int n)"
proof -
  have "list_all (\<lambda>c. c \<noteq> CHR ''/'') (nat_digits n)"
    using nat_digits_char [of n] by (auto simp: list_all_iff)
  then have "takeWhile (\<lambda>c. c \<noteq> CHR ''/'') (rev (nat_digits n) @ CHR ''/'' # rev s) = rev (nat_digits n)"
    by (subst takeWhile_append2) (auto simp: list_all_iff)
  then show ?thesis by (simp add: key_suffix_def Itoa_def)
qed

lemma Itoa_inj: "Itoa (int m) = Itoa (int n) \<Longrightarrow> m = n"
  by (metis Itoa_def digits_value_nat_digits nat_int of_nat_0_le_iff of_nat_eq_iff not_less)

subsection \<open>Storing and reading back pages\<close>

definition page_key :: "TransitionPage \<Rightarrow> string" where
  "page_key p = fixUpKey (transitionPageKey (pg_TransitionID p) (pg_Index p))"

lemma page_key_inj: "okid (pg_TransitionID p) \<Longrightarrow> okid (pg_TransitionID q) \<Longrightarrow> page_key p = page_key q \<Longrightarrow>
    pg_TransitionID p = pg_TransitionID q \<and> pg_Index p = pg_Index q"
  using Itoa_inj by (auto simp: page_key_def fixUpKey_page okid_def)

lemma sort_pages:
  assumes "set kvs = (\<lambda>p. (page_key p, JTransitionPage p)) ` set ps" and "distinct (map fst kvs)"
    and "map pg_Index ps = [0..<length ps]" and "int (length ps) < 2 ^ 63"
  shows "map snd (sortTransitionPages kvs) = map JTransitionPage ps"
proof -
  let ?f = "\<lambda>kv :: string \<times> kv_json. Atoi (key_suffix (fst kv))"
  let ?ys = "map (\<lambda>p. (page_key p, JTransitionPage p)) ps"
  have idx: "pg_Index p < length ps" if "p \<in> set ps" for p
    using that assms(3) by (metis atLeast0LessThan imageI lessThan_iff list.set_map set_upt)
  have f: "?f (page_key p, v) = int (pg_Index p)" if "p \<in> set ps" for p v
    using idx [OF that] assms(4) key_suffix_page [of "''/pcs/transitionpage/'' @ pg_TransitionID p" "pg_Index p"]
    by (simp add: page_key_def fixUpKey_page Atoi_Itoa)
  then have fy: "map ?f ?ys = map int (map pg_Index ps)" by simp
  have "distinct (map pg_Index ps)" using assms(3) by simp
  then have inj: "inj_on pg_Index (set ps)" by (simp add: distinct_map)
  have "inj_on ?f (set kvs)"
    using inj f by (auto simp: assms(1) inj_on_def)
  then have "distinct (map ?f (sortTransitionPages kvs))"
    using assms(2) by (simp add: sortTransitionPages_def distinct_map)
  moreover have "set (sortTransitionPages kvs) = set ?ys"
    by (simp add: sortTransitionPages_def assms(1))
  moreover have "sorted (map ?f (sortTransitionPages kvs))"
    by (simp add: sortTransitionPages_def)
  moreover have "distinct (map ?f ?ys)" "sorted (map ?f ?ys)"
    by (auto simp: fy assms(3) distinct_map sorted_map simp del: map_map)
  ultimately have "sortTransitionPages kvs = ?ys"
    using map_sorted_distinct_set_unique [of ?f "sortTransitionPages kvs" ?ys] \<open>inj_on ?f (set kvs)\<close>
    by (simp add: assms(1))
  then show ?thesis by simp
qed


lemma errors_Join_None: "errors_Join es = None \<longleftrightarrow> (\<forall>e \<in> set es. e = None)"
  by (induction es rule: errors_Join.induct) (auto split: option.splits)

definition put_pages :: "TransitionPage list \<Rightarrow> (string \<Rightarrow> kv_json option) \<Rightarrow> string \<Rightarrow> kv_json option" where
  "put_pages ps c = fold (\<lambda>p c. c(page_key p \<mapsto> JTransitionPage p)) ps c"

lemma put_pages_other: "k \<notin> page_key ` set ps \<Longrightarrow> put_pages ps c k = c k"
  unfolding put_pages_def by (induction ps arbitrary: c) auto

lemma put_pages_at: "distinct (map page_key ps) \<Longrightarrow> p \<in> set ps \<Longrightarrow> put_pages ps c (page_key p) = Some (JTransitionPage p)"
proof (induction ps arbitrary: c)
  case (Cons q ps)
  have "put_pages (q # ps) c = put_pages ps (c(page_key q \<mapsto> JTransitionPage q))" by (simp add: put_pages_def)
  then show ?case using Cons put_pages_other [of "page_key q" ps] by auto
qed simp

lemma breakIntoPages_index:
  assumes "breakIntoPagesIfNeeded E t n = (t', ps)"
  shows "map pg_Index ps = [0..<length ps] \<and> (\<forall>p \<in> set ps. pg_TransitionID p = tr_TransitionID t) \<and>
    tr_TransitionID t' = tr_TransitionID t"
proof -
  have "map (\<lambda>i. i - Suc 0) [Suc 0..<m] = [0..<m - 1]" for m
    by (rule nth_equalityI) auto
  then show ?thesis
    using assms by (auto simp: breakIntoPagesIfNeeded_def Let_def o_def split: if_splits)
qed

lemma truncateAndPage_index:
  assumes "truncateAndPageTransitionIfNeeded E t = (t', ps)"
  shows "map pg_Index ps = [0..<length ps] \<and> (\<forall>p \<in> set ps. pg_TransitionID p = tr_TransitionID t) \<and>
    tr_TransitionID t' = tr_TransitionID t"
proof -
  have same: "tr_TransitionID (fst (truncateTaskMessagesIfNeeded E t s)) = tr_TransitionID t" for s
    by (simp add: truncateTaskMessagesIfNeeded_def Let_def)
  have "ps = [] \<and> tr_TransitionID t' = tr_TransitionID t \<or>
      (\<exists>u n. tr_TransitionID u = tr_TransitionID t \<and> breakIntoPagesIfNeeded E u n = (t', ps))"
    using assms same [of "e_jsonLen E t"]
    by (auto simp: truncateAndPageTransitionIfNeeded_def Let_def split: if_splits prod.splits)
  then show ?thesis using breakIntoPages_index by (elim disjE exE conjE) force+
qed

context etcd_kv
begin

lemma store_pages:
  "fold (store_page E) ps (e, w) = (None, w') \<Longrightarrow> e = None \<and> contents w' = put_pages ps (contents w)"
proof (induction ps arbitrary: e w)
  case Nil
  then show ?case by (simp add: put_pages_def)
next
  case (Cons p ps)
  obtain e1 w1 where s: "kvStore E (transitionPageKey (pg_TransitionID p) (pg_Index p)) (JTransitionPage p) w = (e1, w1)"
    by fastforce
  obtain e2 where step: "store_page E p (e, w) = (e2, w1)" "e2 = None \<longrightarrow> e = None \<and> e1 = None"
    using s that by (cases e1; cases e) (auto simp: store_page_def)
  have "e2 = None \<and> contents w' = put_pages ps (contents w1)"
    using Cons.IH [of e2 w1] Cons.prems step(1) by simp
  moreover have "may_set (contents w) (page_key p) (Some (JTransitionPage p)) e1 (contents w1)"
    using s unfolding kvStore_def page_key_def by (rule kv_store)
  ultimately show ?case using step(2) by (auto simp: may_set_def put_pages_def)
qed

lemma get_pages:
  assumes "typed_docs (contents w)" and "okid i"
    and "\<forall>p. pg_TransitionID p = i \<and> contents w (page_key p) = Some (JTransitionPage p) \<longleftrightarrow> p \<in> set ps"
    and "map pg_Index ps = [0..<length ps]" and "int (length ps) < 2 ^ 63"
    and "GetTransitionPages E i w = ((qs, None), w')"
  shows "qs = ps \<and> contents w' = contents w"
proof -
  let ?p = "''/pcs/transitionpage/'' @ i"
  obtain kvs e1 w1 where g: "kvi_GetRange (e_kvHandle E) (?p @ keyMin) (?p @ keyMax) w = ((kvs, e1), w1)"
    by (rule pair2E)
  have e1: "e1 = None" and w': "w' = w1" and qs: "decode_pages (sortTransitionPages kvs) [] None = (qs, None)"
    using assms(6) g by (cases e1; auto simp: GetTransitionPages_def fixUpKey_def HasPrefix_def Let_def)+
  note law = kv_range [OF g]
  have mem: "(k, v) \<in> set kvs \<longleftrightarrow> (\<exists>p \<in> set ps. k = page_key p \<and> v = JTransitionPage p)" for k v
  proof
    assume "(k, v) \<in> set kvs"
    then have c: "contents w k = Some v" and "?p @ keyMin \<le> k" "k \<le> ?p @ keyMax" using law e1 by blast+
    then obtain c r where k: "k = ?p @ c # r"
      using range_prefix [of ?p "CHR '' ''" "[]" k "CHR ''~''" "[]"] by auto
    have "doc_at (''/pcs/transitionpage/'' @ (i @ c # r)) v" using assms(1) c k by (simp add: typed_docs_def)
    then obtain p where p: "v = JTransitionPage p" "i @ c # r = pg_TransitionID p @ ''/'' @ Itoa (int (pg_Index p))"
        "okid (pg_TransitionID p)"
      using doc_at_page_key by blast
    then have "pg_TransitionID p = i" using assms(2) by (auto simp: okid_def)
    moreover from this p have "k = page_key p" by (simp add: page_key_def fixUpKey_page k)
    ultimately show "\<exists>p \<in> set ps. k = page_key p \<and> v = JTransitionPage p"
      using assms(3) c p(1) by auto
  next
    assume "\<exists>p \<in> set ps. k = page_key p \<and> v = JTransitionPage p"
    then obtain p where p: "p \<in> set ps" "k = page_key p" "v = JTransitionPage p" by auto
    then have "contents w k = Some v" "pg_TransitionID p = i" using assms(3) by blast+
    moreover from this have "k = ?p @ CHR ''/'' # Itoa (int (pg_Index p))"
      using p(2) by (simp add: page_key_def fixUpKey_page)
    then have "?p @ keyMin \<le> k \<and> k < ?p @ keyMax"
      using in_range [of "CHR '' ''" "CHR ''/''" "CHR ''~''" ?p "[]" "Itoa (int (pg_Index p))" "[]"]
      by (simp add: less_char_def)
    ultimately show "(k, v) \<in> set kvs" using law e1 by blast
  qed
  then have "set kvs = (\<lambda>p. (page_key p, JTransitionPage p)) ` set ps" by auto
  moreover have "distinct (map fst kvs)" using law e1 by blast
  ultimately have srt: "map snd (sortTransitionPages kvs) = map JTransitionPage ps"
    by (rule sort_pages [OF _ _ assms(4,5)])
  have "as_page v \<noteq> None" if "(k, v) \<in> set (sortTransitionPages kvs)" for k v
  proof -
    have "v \<in> set (map snd (sortTransitionPages kvs))" using that by force
    then show ?thesis unfolding srt by auto
  qed
  then have "qs = map (the \<circ> as_page) (map snd (sortTransitionPages kvs))"
    using decode_pages_ok [of "sortTransitionPages kvs" "[]"] qs by (auto simp: o_def)
  then have "qs = ps" using srt by (simp add: map_idI)
  then show ?thesis using law w' by blast
qed

end


subsection \<open>What truncation and paging keep\<close>

definition truncated_tasks :: "'w ETCDStorage \<Rightarrow> Transition \<Rightarrow> TransitionTaskResp list" where
  "truncated_tasks E t = map (\<lambda>r. fst (truncate_resp (e_MaxMessageLen E) r)) (tr_Tasks t)"

lemma truncateTaskMessages_tasks:
  assumes "truncateTaskMessagesIfNeeded E t s = (t1, n)"
  shows "t1 = t \<or> t1 = t\<lparr>tr_Tasks := truncated_tasks E t\<rparr>"
  using assms by (auto simp: truncateTaskMessagesIfNeeded_def truncated_tasks_def Let_def o_def split: if_splits)

lemma pageTasks_concat:
  assumes "0 < e_PageSize E" and "int (length (tr_Tasks t)) \<le> n \<or> n = e_PageSize E"
  shows "concat (pageTasks E t n) = tr_Tasks t"
  using assms page_lists_concat(3) [of n E t] by (auto simp: pageTasks_def)

lemma truncateAndPage_join:
  assumes "truncateAndPageTransitionIfNeeded E t = (t', ps)" and "0 < e_PageSize E"
    and "int (length (tr_Tasks t)) \<le> e_PageSize E div 2 + 1 \<or> e_PageSize E \<le> int (length (tr_Tasks t)) \<or>
         e_PageSize E \<le> int (length (tr_Location t))"
  shows "\<exists>ts \<in> {tr_Tasks t, truncated_tasks E t}. fold append_page ps t' = t\<lparr>tr_Tasks := ts\<rparr>"
proof -
  obtain t1 n where tt: "truncateTaskMessagesIfNeeded E t (e_jsonLen E t) = (t1, n)" by fastforce
  have t1: "t1 = t \<or> t1 = t\<lparr>tr_Tasks := truncated_tasks E t\<rparr>" by (rule truncateTaskMessages_tasks [OF tt])
  then have len: "length (tr_Tasks t1) = length (tr_Tasks t)" "tr_Location t1 = tr_Location t"
    by (auto simp: truncated_tasks_def)
  let ?n = "if int (length (tr_Tasks t1)) < e_PageSize E \<and> int (length (tr_Location t1)) < e_PageSize E
            then e_PageSize E div 2 + 1 else e_PageSize E"
  have "t' = t \<and> ps = [] \<or> t' = t1 \<and> ps = [] \<or> breakIntoPagesIfNeeded E t1 ?n = (t', ps)"
    using assms(1) tt by (auto simp: truncateAndPageTransitionIfNeeded_def Let_def split: if_splits)
  moreover have "fold append_page ps t' = t1" if "breakIntoPagesIfNeeded E t1 ?n = (t', ps)"
  proof -
    have "0 < ?n" using assms(2) by auto
    moreover have "concat (pageTasks E t1 ?n) = tr_Tasks t1"
      by (rule pageTasks_concat [OF assms(2)]) (use assms(3) len in auto)
    ultimately show ?thesis
      using breakIntoPages_join [OF that _ assms(2)] by simp
  qed
  ultimately have "fold append_page ps t' \<in> {t, t1}" by auto
  then show ?thesis using t1 by fastforce
qed

lemma half_page_chunk:
  assumes "e_PageSize E div 2 + 1 < int (length (tr_Tasks t))" and "int (length (tr_Tasks t)) < e_PageSize E"
  shows "concat (pageTasks E t (e_PageSize E div 2 + 1)) = take (nat (e_PageSize E div 2 + 1)) (tr_Tasks t)"
proof -
  have "tr_Tasks t \<noteq> []" "0 < e_PageSize E" using assms by auto
  then show ?thesis using assms by (simp add: pageTasks_def chunks_single)
qed

lemma page_key_not_transition: "page_key p \<noteq> fixUpKey (transitionKey i)"
  by (simp add: page_key_def key_forms)

lemma typed_docs_put_pages:
  assumes "typed_docs c" and "\<forall>p \<in> set ps. okid (pg_TransitionID p)"
  shows "typed_docs (put_pages ps c)"
  unfolding put_pages_def
proof (rule fold_inv_rule [where I = typed_docs])
  fix p c assume "p \<in> set ps" and "typed_docs c"
  moreover have "doc_at (page_key p) (JTransitionPage p)"
    using \<open>p \<in> set ps\<close> assms(2) by (simp add: page_key_def fixUpKey_page)
  ultimately show "typed_docs (c(page_key p \<mapsto> JTransitionPage p))" by (intro typed_docs_set)
qed (rule assms(1))

lemma distinct_page_keys:
  assumes "map pg_Index ps = [0..<length ps]" and "\<forall>p \<in> set ps. pg_TransitionID p = i" and "okid i"
  shows "distinct (map page_key ps)"
proof -
  have "inj_on page_key (set ps)"
    using assms page_key_inj distinct_upt [of 0 "length ps"]
    by (metis (no_types, lifting) distinct_map inj_on_def)
  moreover have "distinct ps" using assms(1) by (metis distinct_map distinct_upt)
  ultimately show ?thesis by (simp add: distinct_map)
qed

context etcd_kv
begin

lemma paged_roundtrip:
  assumes "typed_docs (contents w)" and "okid (tr_TransitionID t)"
    and "\<forall>p. pg_TransitionID p = tr_TransitionID t \<longrightarrow> contents w (page_key p) = None"
    and "truncateAndPageTransitionIfNeeded E t = (t', ps)" and "int (length ps) < 2 ^ 63"
    and "ETCD_StoreTransition E t w = (None, w1)"
    and "ETCD_GetTransition E (tr_TransitionID t) w1 = ((r, p, None), w2)"
  shows "r = Some (fold append_page ps t') \<and> p = Some t'"
proof -
  let ?i = "tr_TransitionID t"
  let ?k = "fixUpKey (transitionKey ?i)"
  have idx: "map pg_Index ps = [0..<length ps]" "\<forall>p \<in> set ps. pg_TransitionID p = ?i" "tr_TransitionID t' = ?i"
    using truncateAndPage_index [OF assms(4)] by auto
  obtain e1 wa where st: "kvStore E (transitionKey ?i) (JTransition t') w = (e1, wa)" by fastforce
  have "fold (store_page E) ps (e1, wa) = (None, w1)"
    using assms(6) st idx(3) by (simp add: ETCD_StoreTransition_def assms(4))
  then have e1: "e1 = None" and c1: "contents w1 = put_pages ps (contents wa)" using store_pages by blast+
  have ca: "contents wa = (contents w)(?k \<mapsto> JTransition t')"
    using kv_store st e1 by (auto simp: kvStore_def intro: may_set_ok)
  have okps: "\<forall>p \<in> set ps. okid (pg_TransitionID p)" using idx(2) assms(2) by simp
  have "typed_docs (contents wa)"
    unfolding ca by (rule typed_docs_set [OF assms(1)]) (use assms(2) idx(3) in \<open>simp add: fixUpKey_transition\<close>)
  then have typed: "typed_docs (contents w1)" unfolding c1 using okps by (rule typed_docs_put_pages)
  have dk: "distinct (map page_key ps)" by (rule distinct_page_keys [OF idx(1,2) assms(2)])
  have main: "contents w1 ?k = Some (JTransition t')"
    unfolding c1 ca by (subst put_pages_other) (auto simp: image_iff page_key_not_transition [symmetric])
  have pages: "pg_TransitionID q = ?i \<and> contents w1 (page_key q) = Some (JTransitionPage q) \<longleftrightarrow> q \<in> set ps" for q
  proof (cases "page_key q \<in> page_key ` set ps")
    case True
    then obtain q' where "q' \<in> set ps" "page_key q = page_key q'" by auto
    then have "contents w1 (page_key q) = Some (JTransitionPage q')"
      unfolding c1 using put_pages_at [OF dk] by simp
    then show ?thesis using \<open>q' \<in> set ps\<close> idx(2) put_pages_at [OF dk] c1 by auto
  next
    case False
    then have "contents w1 (page_key q) = contents w (page_key q)"
      unfolding c1 ca by (simp add: put_pages_other page_key_not_transition)
    then show ?thesis using False assms(3) by auto
  qed
  obtain a e2 wb where g: "kvGet E as_transition (transitionKey ?i) w1 = ((a, e2), wb)"
    by (rule pair2E)
  have e2: "e2 = None" using assms(7) g by (cases e2; cases a) (auto simp: ETCD_GetTransition_def)
  then have a: "a = Some t'" and cb: "contents wb = contents w1"
    using kvGet_ok [OF g] main by auto
  show ?thesis
  proof (cases "e_DisableSizeChecks E")
    case True
    then have "ps = []" using assms(4) by (simp add: truncateAndPageTransitionIfNeeded_def)
    then show ?thesis using assms(7) g e2 a True by (auto simp: ETCD_GetTransition_def)
  next
    case False
    obtain qs e3 wc where pp: "GetTransitionPages E ?i wb = ((qs, e3), wc)" by (rule pair2E)
    have "e3 = None" using assms(7) g e2 a False pp idx(3) by (cases e3) (auto simp: ETCD_GetTransition_def)
    moreover from this have "qs = ps"
      using get_pages [OF _ assms(2) _ idx(1) assms(5), of wb qs wc] typed pages pp by (simp add: cb)
    ultimately show ?thesis
      using assms(7) g e2 a False pp idx(3) by (auto simp: ETCD_GetTransition_def)
  qed
qed

end


context etcd_kv
begin

lemma etcd_contract: "transition_store (ETCDStorage_provider R X E) (\<lambda>w. etcd_inv (contents w))
    (\<lambda>w. db_trans (contents w)) (\<lambda>w. db_tasks (contents w)) (fits_etcd E)"
  by (rule etcd.transition_store_axioms)

lemma mem_contract: "strict_transition_store (MEMStorage_provider R X E) (\<lambda>w. etcd_inv (contents w))
    (\<lambda>w. db_trans (contents w)) (\<lambda>w. db_tasks (contents w)) (fits_etcd E)"
  by (rule mem.strict_transition_store_axioms)

end

subsection \<open>Properties\<close>

definition sample_transition :: "nat \<Rightarrow> nat \<Rightarrow> Transition" where
  "sample_transition nloc ntask =
     \<lparr>tr_TransitionID = sim_uuid 7, tr_Operation = Operation_On, tr_TaskDeadline = 5,
      tr_Location = map (\<lambda>i. \<lparr>loc_Xname = ''x'' @ nat_digits i, loc_DeputyKey = []\<rparr>) [0..<nloc],
      tr_CreateTime = 0, tr_LastActiveTime = 0, tr_AutomaticExpirationTime = 100,
      tr_Status = TransitionStatusCompleted, tr_TaskIDs = [], tr_IsCompressed = True,
      tr_TaskCounts = zero_counts,
      tr_Tasks = map (\<lambda>i. \<lparr>ttr_Xname = ''x'' @ nat_digits i, ttr_TaskStatus = TransitionTaskStatusFailed,
                           ttr_TaskStatusDesc = ''Failed to send request'',
                           ttr_Error = ''connection refused''\<rparr>) [0..<ntask]\<rparr>"


lemma okid_sim: "okid (sim_uuid 7)"
  by code_simp


text \<open>
  C15: When the task list is longer than half a page plus one but shorter than a page, and the transition is
  still too large after truncation, what the provider stores joins to only the first half page plus
  one of the tasks: the others are lost.
\<close>

theorem half_page_drops_tasks:
  assumes "\<not> e_DisableSizeChecks E" and "e_MaxEtcdObjectSize E \<le> e_jsonLen E t"
    and "truncateTaskMessagesIfNeeded E t (e_jsonLen E t) = (t1, n)" and "e_MaxEtcdObjectSize E \<le> e_jsonLen E t1"
    and "e_PageSize E div 2 + 1 < int (length (tr_Tasks t))" and "int (length (tr_Tasks t)) < e_PageSize E"
    and "int (length (tr_Location t)) < e_PageSize E"
    and "truncateAndPageTransitionIfNeeded E t = (t', ps)"
  shows "tr_Tasks (fold append_page ps t') = take (nat (e_PageSize E div 2 + 1)) (tr_Tasks t1) \<and>
         length (tr_Tasks (fold append_page ps t')) < length (tr_Tasks t)"
proof -
  let ?n = "e_PageSize E div 2 + 1"
  have len: "length (tr_Tasks t1) = length (tr_Tasks t)" "tr_Location t1 = tr_Location t"
    using truncateTaskMessages_tasks [OF assms(3)] by (auto simp: truncated_tasks_def)
  then have "breakIntoPagesIfNeeded E t1 ?n = (t', ps)"
    using assms by (simp add: truncateAndPageTransitionIfNeeded_def)
  then have "fold append_page ps t' = t1\<lparr>tr_Tasks := concat (pageTasks E t1 ?n)\<rparr>"
    by (rule breakIntoPages_join) (use assms(6) in auto)
  moreover have "concat (pageTasks E t1 ?n) = take (nat ?n) (tr_Tasks t1)"
    by (rule half_page_chunk) (use assms(5,6) len in auto)
  moreover have "nat ?n < length (tr_Tasks t)" using assms(5,6) by linarith
  ultimately show ?thesis using len by simp
qed

theorem half_page_drops_tasks_witness:
  "\<exists>t' ps. truncateAndPageTransitionIfNeeded (sim_etcd 6 5 :: unit sim ETCDStorage) (sample_transition 1 5) = (t', ps) \<and>
     length (tr_Tasks (fold append_page ps t')) < 5"
proof -
  let ?E = "sim_etcd 6 5 :: unit sim ETCDStorage" and ?t = "sample_transition 1 5"
  obtain t' ps where tp: "truncateAndPageTransitionIfNeeded ?E ?t = (t', ps)" by fastforce
  obtain t1 n where tt: "truncateTaskMessagesIfNeeded ?E ?t (e_jsonLen ?E ?t) = (t1, n)" by fastforce
  have "e_MaxEtcdObjectSize ?E \<le> e_jsonLen ?E (fst (truncateTaskMessagesIfNeeded ?E ?t (e_jsonLen ?E ?t)))"
    by code_simp
  then have "length (tr_Tasks (fold append_page ps t')) < length (tr_Tasks ?t)"
    using half_page_drops_tasks [OF _ _ tt _ _ _ _ tp] tt by (simp add: sim_etcd_def sample_transition_def)
  then show ?thesis using tp by (auto simp: sample_transition_def)
qed

text \<open>
  Truncating the messages of a task leaves at most the configured length plus two ellipses of text,
  keeps the name and the status of the task, and truncating again changes nothing, so storing a
  stored transition again keeps its text.
\<close>

theorem truncation_bounded_idempotent:
  assumes "0 \<le> m"
  shows "int (length (ttr_Error (fst (truncate_resp m r))) + length (ttr_TaskStatusDesc (fst (truncate_resp m r)))) \<le> m + 6 \<and>
         ttr_Xname (fst (truncate_resp m r)) = ttr_Xname r \<and>
         ttr_TaskStatus (fst (truncate_resp m r)) = ttr_TaskStatus r \<and>
         fst (truncate_resp m (fst (truncate_resp m r))) = fst (truncate_resp m r)"
  using truncate_resp_bound [OF assms] truncate_resp_idem [OF assms] truncate_resp_keeps by blast

theorem truncation_bounded_idempotent_witness:
  "int (length (ttr_Error (fst (truncate_resp 8 (hd (tr_Tasks (sample_transition 1 1))))))) \<le> 14"
  using truncation_bounded_idempotent [of 8 "hd (tr_Tasks (sample_transition 1 1))"] by simp

text \<open>
  C12: Over any key-value store that behaves as documented, the ETCD provider implements the storage
  contract for transitions and tasks: every operation acts on the stored records as on a map from IDs
  to records, and keeps every document under a key of its own kind.
\<close>

theorem etcd_provider_refines_contract:
  assumes "kvi (e_kvHandle E) contents"
  shows "transition_store (ETCDStorage_provider R X E) (\<lambda>w. etcd_inv (contents w))
           (\<lambda>w. db_trans (contents w)) (\<lambda>w. db_tasks (contents w)) (fits_etcd E)"
  by (rule etcd_kv.etcd_contract) (simp add: etcd_kv_def assms)

theorem etcd_provider_refines_contract_witness:
  "transition_store (ETCDStorage_provider sim_runtime
       \<lparr>GetHMSType = (\<lambda>x. Node), GetHMSCompParent = (\<lambda>x. x), IsHMSTypeController = (\<lambda>t. False),
        HMSType_String = (\<lambda>t. ''Node''), IsHMSCompIDValid = (\<lambda>x. True)\<rparr> (sim_etcd 2 3 :: unit sim ETCDStorage))
     (\<lambda>w. etcd_inv (map_of (sim_db w))) (\<lambda>w. db_trans (map_of (sim_db w)))
     (\<lambda>w. db_tasks (map_of (sim_db w))) (fits_etcd (sim_etcd 2 3 :: unit sim ETCDStorage))"
  by (rule etcd_provider_refines_contract) (simp add: sim.kvi_axioms)

text \<open>
  C14: The in-memory provider implements the strict contract over any such store, also one whose
  test-and-set creates missing keys: a test-and-set of a transition that is not stored fails and
  stores nothing.
\<close>

theorem mem_provider_refines_contract:
  assumes "kvi (e_kvHandle E) contents"
  shows "strict_transition_store (MEMStorage_provider R X E) (\<lambda>w. etcd_inv (contents w))
           (\<lambda>w. db_trans (contents w)) (\<lambda>w. db_tasks (contents w)) (fits_etcd E)"
  by (rule etcd_kv.mem_contract) (simp add: etcd_kv_def assms)

theorem mem_provider_refines_contract_witness:
  "strict_transition_store (MEMStorage_provider sim_runtime
       \<lparr>GetHMSType = (\<lambda>x. Node), GetHMSCompParent = (\<lambda>x. x), IsHMSTypeController = (\<lambda>t. False),
        HMSType_String = (\<lambda>t. ''Node''), IsHMSCompIDValid = (\<lambda>x. True)\<rparr> (sim_etcd 2 3 :: unit sim ETCDStorage))
     (\<lambda>w. etcd_inv (map_of (sim_db w))) (\<lambda>w. db_trans (map_of (sim_db w)))
     (\<lambda>w. db_tasks (map_of (sim_db w))) (fits_etcd (sim_etcd 2 3 :: unit sim ETCDStorage))"
  by (rule mem_provider_refines_contract) (simp add: sim.kvi_axioms)

end
