(* ===== verification/Domain_Globals.thy ===== *)
theory Domain_Globals
  imports Storage_Provider
begin

section \<open>What the domain layer is connected to\<close>

text \<open>
  \<^verbatim>\<open>DOMAIN_GLOBALS\<close> (\<^verbatim>\<open>internal/domain/globals.go\<close>) and the interfaces behind it: the HSM provider
  (\<^verbatim>\<open>hsm/interface.go\<close>), the task runner (\<^verbatim>\<open>taskrun/trshttp_interface.go\<close>) and the credential store
  (\<^verbatim>\<open>credstore/interface.go\<close>). Methods that change their argument in place return the changed value.

  Redfish traffic goes through \<^verbatim>\<open>Launch\<close>, which hands back one finished task per request over a
  channel, in any order: here a list of replies. A channel that delivers fewer replies than the code
  waits for blocks it for ever, and a reply without error and without response makes it dereference
  nil; in both cases the model does not return (\<open>None\<close>).

  A \<^verbatim>\<open>go\<close> statement is a call on the outside state that records the start of the goroutine. The
  statements of one goroutine are one run of its model; what other goroutines and instances do
  between them is part of the outside state and of the calls on it.
\<close>

record 'w HSMProvider =
  hsm_ReserveComponents :: "ReservationData list \<Rightarrow>
    ('w, ReservationData list \<times> ReservationData list \<times> error option) io"
  hsm_ReleaseComponents :: "ReservationData list \<Rightarrow>
    ('w, ReservationData list \<times> ReservationData list \<times> error option) io"
  hsm_CheckDeputyKeys :: "ReservationData list \<Rightarrow> ('w, ReservationData list \<times> error option) io"
  hsm_FillPowerMapData :: "(xname, HsmData) gomap \<Rightarrow> ('w, (xname, HsmData) gomap \<times> error option) io"
  hsm_FillHSMData :: "xname list \<Rightarrow> ('w, (xname, HsmData) gomap \<times> error option) io"
  hsm_BulkComponentStateUpdate :: "xname list \<Rightarrow> string \<Rightarrow> ('w, error option) io"

record http_request =
  rq_ID :: uuid
  rq_Method :: string
  rq_URL :: string
  rq_Body :: string
  rq_BasicAuth :: "(string \<times> string) option"

datatype body = BodyNil | BodyRead string | BodyError error

record http_response =
  hr_StatusCode :: int
  hr_Status :: string
  hr_Body :: body

record http_task_done =
  td_ID :: uuid
  td_Err :: "error option"
  td_Response :: "http_response option"

record 'w TrsAPI =
  trs_CreateTaskList :: "nat \<Rightarrow> ('w, uuid list) io"
  trs_Launch :: "http_request list \<Rightarrow> ('w, http_task_done list \<times> error option) io"
  trs_Close :: "uuid list \<Rightarrow> 'w \<Rightarrow> 'w"

record 'w CredStoreProvider =
  cs_GetControllerCredentials :: "xname \<Rightarrow> ('w, string \<times> string \<times> error option) io"

text \<open>The distributed lock (\<^verbatim>\<open>storage_interface.go\<close>).\<close>

record 'w DistributedLockProvider =
  dl_DistributedTimedLock :: "duration \<Rightarrow> ('w, error option) io"
  dl_Unlock :: "('w, error option) io"

record 'w DOMAIN_GLOBALS =
  g_DSP :: "'w StorageProvider"
  g_HSM :: "'w HSMProvider"
  g_RFTloc :: "'w TrsAPI"
  g_CS :: "'w CredStoreProvider"
  g_VaultEnabled :: bool
  g_MaxNumCompleted :: int
  g_ExpireTimeMins :: int
  g_RT :: "'w runtime"
  g_XN :: xnametypes
  g_go_doTransition :: "uuid \<Rightarrow> 'w \<Rightarrow> 'w"
  g_go_keepAlive :: "uuid \<Rightarrow> 'w \<Rightarrow> 'w"
  g_cancel_keepAlive :: "uuid \<Rightarrow> 'w \<Rightarrow> 'w"

text \<open>Storing a task: the domain layer only logs an error.\<close>

definition store_task :: "'w DOMAIN_GLOBALS \<Rightarrow> TransitionTask \<Rightarrow> 'w \<Rightarrow> 'w" where
  "store_task G task w = snd (dsp_StoreTransitionTask (g_DSP G) task w)"

subsection \<open>Components of a transition (transitions.go)\<close>

text \<open>
  The code shares \<^verbatim>\<open>*TransitionComponent\<close> pointers between the map of components and the lists of
  the power sequence. Here the components live in one map from xnames and the lists hold xnames, so
  a change through one pointer is seen through the others.
\<close>

record PowerSupply =
  sup_ID :: xname
  sup_State :: PowerStateFilter

record TransitionComponent =
  comp_PState :: "PowerStatusComponent option"
  comp_HSMData :: "HsmData option"
  comp_PowerSupplies :: "PowerSupply list"
  comp_Task :: TransitionTask
  comp_Actions :: "(string, string) gomap"
  comp_ActionCount :: int

type_synonym xname_map = "(xname, TransitionComponent) gomap"

definition new_comp :: "TransitionTask \<Rightarrow> TransitionComponent" where
  "new_comp task = \<lparr>comp_PState = None, comp_HSMData = None, comp_PowerSupplies = [],
     comp_Task = task, comp_Actions = [], comp_ActionCount = 0\<rparr>"

text \<open>A task is unfinished while its status is new or in-progress.\<close>

definition unfinished :: "TransitionTask \<Rightarrow> bool" where
  "unfinished task \<longleftrightarrow> tt_Status task = TransitionTaskStatusNew \<or>
     tt_Status task = TransitionTaskStatusInProgress"

definition upd_task :: "(TransitionTask \<Rightarrow> TransitionTask) \<Rightarrow> TransitionComponent \<Rightarrow> TransitionComponent" where
  "upd_task f cmp = cmp\<lparr>comp_Task := f (comp_Task cmp)\<rparr>"

definition fail_task :: "error \<Rightarrow> string \<Rightarrow> TransitionTask \<Rightarrow> TransitionTask" where
  "fail_task err desc task = task\<lparr>tt_Status := TransitionTaskStatusFailed, tt_Error := err,
     tt_StatusDesc := desc\<rparr>"

lemma upd_task_sel [simp]:
  "comp_Task (upd_task f c) = f (comp_Task c)" "comp_PState (upd_task f c) = comp_PState c"
  "comp_HSMData (upd_task f c) = comp_HSMData c" "comp_PowerSupplies (upd_task f c) = comp_PowerSupplies c"
  "comp_Actions (upd_task f c) = comp_Actions c" "comp_ActionCount (upd_task f c) = comp_ActionCount c"
  by (simp_all add: upd_task_def)

lemma fail_task_sel [simp]:
  "tt_Status (fail_task e d t) = TransitionTaskStatusFailed" "tt_Error (fail_task e d t) = e"
  "tt_StatusDesc (fail_task e d t) = d" "tt_TaskID (fail_task e d t) = tt_TaskID t"
  "tt_TransitionID (fail_task e d t) = tt_TransitionID t" "tt_Xname (fail_task e d t) = tt_Xname t"
  "tt_Operation (fail_task e d t) = tt_Operation t" "tt_State (fail_task e d t) = tt_State t"
  "tt_ReservationKey (fail_task e d t) = tt_ReservationKey t" "tt_DeputyKey (fail_task e d t) = tt_DeputyKey t"
  by (simp_all add: fail_task_def)

lemma fail_task_finished [simp]: "\<not> unfinished (fail_task e d t)"
  by (simp add: unfinished_def)

end
