(* ===== verification/Sim_Domain.thy ===== *)
theory Sim_Domain
  imports Domain_Globals Etcd_Paging
begin

section \<open>The domain layer in the executable world\<close>

text \<open>
  The globals of the domain layer over the executable world: the ETCD provider on the in-memory
  store, an HSM that knows a given set of components and grants every reservation, a task runner that
  logs the requests, answers each with a scripted reply and lets it take effect on the stored power
  status, and a log of the goroutines started. The contracts of the domain theories are interpreted on
  it and their witnesses run on it.
\<close>

record hw =
  hw_started :: "uuid list"
  hw_keepalive :: "uuid list"
  hw_sent :: "http_request list"
  hw_hsm :: "(xname, HsmData) gomap"
  hw_effects :: "(string \<times> PowerStatusComponent) list"
  hw_held :: "xname list"

type_synonym world = "hw sim"

definition hw_empty :: hw where
  "hw_empty = \<lparr>hw_started = [], hw_keepalive = [], hw_sent = [], hw_hsm = [], hw_effects = [], hw_held = []\<rparr>"

definition on_hw :: "(hw \<Rightarrow> hw) \<Rightarrow> world \<Rightarrow> world" where
  "on_hw f w = w\<lparr>sim_hw := f (sim_hw w)\<rparr>"

definition simHSM :: "world HSMProvider" where
  "simHSM =
     \<lparr>hsm_ReserveComponents = (\<lambda>rs w.
        let rs' = map (\<lambda>r. r\<lparr>rd_ReservationOwner := True, rd_ReservationKey := ''rk'', rd_DeputyKey := ''dk''\<rparr>) rs
        in ((rs', rs', None), on_hw (\<lambda>h. h\<lparr>hw_held := hw_held h @ map rd_XName rs\<rparr>) w)),
      hsm_ReleaseComponents = (\<lambda>rs w.
        ((rs, [], None), on_hw (\<lambda>h. h\<lparr>hw_held := filter (\<lambda>x. x \<notin> set (map rd_XName rs)) (hw_held h)\<rparr>) w)),
      hsm_CheckDeputyKeys = (\<lambda>rs w. ((rs, None), w)),
      hsm_FillPowerMapData = (\<lambda>m w. ((m, None), w)),
      hsm_FillHSMData = (\<lambda>xs w. ((filter (\<lambda>(x, d). x \<in> set xs \<or> xs = [''all'']) (hw_hsm (sim_hw w)), None), w)),
      hsm_BulkComponentStateUpdate = (\<lambda>xs st w. (None, w))\<rparr>"

definition sim_send :: "http_request \<Rightarrow> world \<Rightarrow> world" where
  "sim_send rq w =
     (let w = on_hw (\<lambda>h. h\<lparr>hw_sent := hw_sent h @ [rq]\<rparr>) w in
      case map_of (hw_effects (sim_hw w)) (rq_URL rq @ rq_Body rq) of
        None \<Rightarrow> w
      | Some ps \<Rightarrow>
          w\<lparr>sim_db := AList.update (fixUpKey (keySegPowerState @ ''/'' @ ps_XName ps)) (JPowerStatus ps) (sim_db w)\<rparr>)"

definition simTRS :: "world TrsAPI" where
  "simTRS =
     \<lparr>trs_CreateTaskList = (\<lambda>n w.
        (map (\<lambda>i. sim_uuid (sim_uuids w + i)) [0..<n], w\<lparr>sim_uuids := sim_uuids w + n\<rparr>)),
      trs_Launch = (\<lambda>rqs w.
        ((map (\<lambda>rq. \<lparr>td_ID = rq_ID rq, td_Err = None,
            td_Response = Some \<lparr>hr_StatusCode = 204, hr_Status = ''204 No Content'', hr_Body = BodyRead []\<rparr>\<rparr>) rqs, None),
         fold sim_send rqs w)),
      trs_Close = (\<lambda>ids w. w)\<rparr>"

definition simXN :: xnametypes where
  "simXN =
     \<lparr>GetHMSType = (\<lambda>x. if x = ''x0c0s0b0n0'' \<or> x = ''x0c0s0b0n1'' then Node
                       else if x = ''x0c0s0b0'' then NodeBMC else if x = ''x0c0s0'' then ComputeModule
                       else if x = ''x0c0'' then Chassis else if x = ''x0c0r0'' then RouterModule
                       else if x = ''x0m0p0v1'' then CabinetPDUPowerConnector else HMSTypeInvalid),
      GetHMSCompParent = (\<lambda>x. if x = ''x0c0s0b0n0'' \<or> x = ''x0c0s0b0n1'' then ''x0c0s0b0''
                             else if x = ''x0c0s0b0'' then ''x0c0s0''
                             else if x = ''x0c0s0'' \<or> x = ''x0c0r0'' then ''x0c0'' else []),
      IsHMSTypeController = (\<lambda>t. t = NodeBMC \<or> t = RouterBMC \<or> t = ChassisBMC),
      HMSType_String = (\<lambda>t. ''Invalid''), IsHMSCompIDValid = (\<lambda>x. True)\<rparr>"

definition simG :: "int \<Rightarrow> world DOMAIN_GLOBALS" where
  "simG maxNum =
     \<lparr>g_DSP = ETCDStorage_provider sim_runtime simXN (sim_etcd 100 1000), g_HSM = simHSM, g_RFTloc = simTRS,
      g_CS = \<lparr>cs_GetControllerCredentials = (\<lambda>x w. ((''user'', ''pw'', None), w))\<rparr>,
      g_VaultEnabled = True, g_MaxNumCompleted = maxNum, g_ExpireTimeMins = 1440,
      g_RT = sim_runtime, g_XN = simXN,
      g_go_doTransition = (\<lambda>i. on_hw (\<lambda>h. h\<lparr>hw_started := hw_started h @ [i]\<rparr>)),
      g_go_keepAlive = (\<lambda>i. on_hw (\<lambda>h. h\<lparr>hw_keepalive := hw_keepalive h @ [i]\<rparr>)),
      g_cancel_keepAlive = (\<lambda>i. on_hw (\<lambda>h. h\<lparr>hw_keepalive := remove1 i (hw_keepalive h)\<rparr>))\<rparr>"

abbreviation sim_inv :: "world \<Rightarrow> bool" where
  "sim_inv w \<equiv> etcd_inv (map_of (sim_db w))"

abbreviation sim_trans :: "world \<Rightarrow> uuid \<Rightarrow> Transition option" where
  "sim_trans w \<equiv> db_trans (map_of (sim_db w))"

abbreviation sim_tasks :: "world \<Rightarrow> uuid \<times> uuid \<Rightarrow> TransitionTask option" where
  "sim_tasks w \<equiv> db_tasks (map_of (sim_db w))"

abbreviation sim_fits :: "Transition \<Rightarrow> bool" where
  "sim_fits \<equiv> fits_etcd (sim_etcd 100 1000 :: world ETCDStorage)"

text \<open>A world whose store holds the given transitions, tasks and power states.\<close>

definition sim_with :: "Transition list \<Rightarrow> TransitionTask list \<Rightarrow> PowerStatusComponent list \<Rightarrow> world" where
  "sim_with ts ks ps =
     (sim_start hw_empty)\<lparr>sim_db :=
        map (\<lambda>t. (fixUpKey (transitionKey (tr_TransitionID t)), JTransition t)) ts @
        map (\<lambda>k. (fixUpKey (transitionTaskKey (tt_TransitionID k) (tt_TaskID k)), JTransitionTask k)) ks @
        map (\<lambda>p. (fixUpKey (keySegPowerState @ ''/'' @ ps_XName p), JPowerStatus p)) ps,
        sim_uuids := 100\<rparr>"

lemma sim_with_inv:
  assumes "\<forall>t \<in> set ts. okid (tr_TransitionID t)"
    and "\<forall>k \<in> set ks. okid (tt_TransitionID k) \<and> okid (tt_TaskID k)"
  shows "sim_inv (sim_with ts ks ps)"
proof -
  have "doc_at k v \<and> as_page v = None" if "(k, v) \<in> set (sim_db (sim_with ts ks ps))" for k v
    using that assms
    by (auto simp: sim_with_def transitionKey_def transitionTaskKey_def fixUpKey_def HasPrefix_def)
  then show ?thesis
    by (fastforce simp: etcd_inv_def typed_docs_def unpaged_def dest: map_of_SomeD)
qed

text \<open>A small transition and a task of it.\<close>

definition sim_transition :: "nat \<Rightarrow> string \<Rightarrow> xname list \<Rightarrow> Operation \<Rightarrow> Transition" where
  "sim_transition n st xs op =
     \<lparr>tr_TransitionID = sim_uuid n, tr_Operation = op, tr_TaskDeadline = 5,
      tr_Location = map (\<lambda>x. \<lparr>loc_Xname = x, loc_DeputyKey = []\<rparr>) xs,
      tr_CreateTime = 0, tr_LastActiveTime = 0, tr_AutomaticExpirationTime = 1000000000000,
      tr_Status = st, tr_TaskIDs = [], tr_IsCompressed = False, tr_TaskCounts = zero_counts, tr_Tasks = []\<rparr>"

definition sim_task :: "nat \<Rightarrow> nat \<Rightarrow> xname \<Rightarrow> string \<Rightarrow> Operation \<Rightarrow> TransitionTask" where
  "sim_task n k x st op =
     \<lparr>tt_TaskID = sim_uuid k, tt_TransitionID = sim_uuid n, tt_Operation = op,
      tt_State = TaskState_GatherData, tt_Xname = x, tt_ReservationKey = [], tt_DeputyKey = [],
      tt_Status = st, tt_StatusDesc = ''Gathering data'', tt_Error = []\<rparr>"

lemma sim_transition_sel [simp]:
  "tr_TransitionID (sim_transition n st xs op) = sim_uuid n" "tr_Status (sim_transition n st xs op) = st"
  "tr_Operation (sim_transition n st xs op) = op" "\<not> tr_IsCompressed (sim_transition n st xs op)"
  by (simp_all add: sim_transition_def)

lemma simG_sel [simp]:
  "g_DSP (simG m) = ETCDStorage_provider sim_runtime simXN (sim_etcd 100 1000)"
  "g_RT (simG m) = sim_runtime" "g_XN (simG m) = simXN" "g_HSM (simG m) = simHSM" "g_RFTloc (simG m) = simTRS"
  by (simp_all add: simG_def)

text \<open>The executable world hands out different identifiers.\<close>

lemma digits_value_pad: "digits_value (replicate k CHR ''0'' @ s) = digits_value s"
proof (induction k)
  case (Suc k)
  have "digits_value (CHR ''0'' # t) = digits_value t" for t by (simp add: digits_value_def)
  then show ?case using Suc by simp
qed simp

lemma sim_uuid_inj: "sim_uuid m = sim_uuid n \<longleftrightarrow> m = n"
proof -
  have "digits_value (sim_uuid k) = int k" for k
    by (simp add: sim_uuid_def Let_def digits_value_pad digits_value_nat_digits)
  then show ?thesis by (metis of_nat_eq_iff)
qed

lemma sim_create_ids: "distinct (map (\<lambda>i. sim_uuid (n + i)) [0..<k])"
  by (simp add: distinct_map inj_on_def sim_uuid_inj)

end
