(* ===== verification/Transition_Lifecycle.thy ===== *)
theory Transition_Lifecycle
  imports Sim_Domain
begin

section \<open>The life of a transition record\<close>

text \<open>
  \<^verbatim>\<open>internal/domain/transitions.go\<close>, the parts that read and write transition records: the API entry
  points (get, list, abort, trigger), the guarded store used while a transition runs, the abort of a
  running transition, the keep-alive thread, the compression of a finished transition, and the reaper
  that deletes, aborts, restarts and compresses records.

  Shown here, under the storage contract: a signalled abort is never overwritten by a running
  transition, aborting reports what happened, compression keeps the response and removes the tasks,
  the keep-alive thread changes only the time stamp, and the reaper's choice of records to delete is
  the oldest ones.
\<close>

subsection \<open>API entry points\<close>

definition GetTransition :: "'w DOMAIN_GLOBALS \<Rightarrow> uuid \<Rightarrow> ('w, TransitionResp Passback) go" where
  "GetTransition G transitionID w =
     (case dsp_GetTransition (g_DSP G) transitionID w of
        ((_, _, Some err), w) \<Rightarrow> Some (BuildErrorPassback StatusInternalServerError (Some err), w)
      | ((None, _, None), w) \<Rightarrow>
          Some (BuildErrorPassback StatusNotFound (Some ''TransitionID does not exist''), w)
      | ((Some transition, _, None), w) \<Rightarrow>
          let ((tasks, err), w) =
            (if tr_IsCompressed transition then (([], None), w)
             else dsp_GetAllTasksForTransition (g_DSP G) transitionID w)
          in case err of
               Some e \<Rightarrow> Some (BuildErrorPassback StatusInternalServerError (Some e), w)
             | None \<Rightarrow>
                 (case ToTransitionResp transition tasks True of
                    None \<Rightarrow> None
                  | Some rsp \<Rightarrow> Some (BuildSuccessPassback StatusOK rsp, w)))"

fun statuses_loop :: "'w DOMAIN_GLOBALS \<Rightarrow> Transition list \<Rightarrow> TransitionResp list
    \<Rightarrow> ('w, TransitionResp list Passback) go" where
  "statuses_loop G [] rsps w = Some (BuildSuccessPassback StatusOK rsps, w)"
| "statuses_loop G (transition # ts) rsps w =
     (let ((tasks, err), w) =
        (if tr_IsCompressed transition then (([], None), w)
         else dsp_GetAllTasksForTransition (g_DSP G) (tr_TransitionID transition) w)
      in case err of
           Some e \<Rightarrow> Some (BuildErrorPassback StatusInternalServerError (Some e), w)
         | None \<Rightarrow>
             (case ToTransitionResp transition tasks False of
                None \<Rightarrow> None
              | Some rsp \<Rightarrow> statuses_loop G ts (rsps @ [rsp]) w))"

definition GetTransitionStatuses :: "'w DOMAIN_GLOBALS \<Rightarrow> ('w, TransitionResp list Passback) go" where
  "GetTransitionStatuses G w =
     (case dsp_GetAllTransitions (g_DSP G) w of
        ((_, Some err), w) \<Rightarrow> Some (BuildErrorPassback StatusInternalServerError (Some err), w)
      | ((transitions, None), w) \<Rightarrow> statuses_loop G transitions [] w)"

abbreviation "abort_accepted \<equiv> ''Accepted - abort initiated''"

fun abort_loop :: "'w DOMAIN_GLOBALS \<Rightarrow> nat \<Rightarrow> uuid \<Rightarrow> ('w, string Passback) go" where
  "abort_loop G 0 transitionID w =
     Some (BuildErrorPassback StatusInternalServerError (Some ''Failed to signal abort''), w)"
| "abort_loop G (Suc retries) transitionID w =
     (case dsp_GetTransition (g_DSP G) transitionID w of
        ((_, _, Some err), w) \<Rightarrow> Some (BuildErrorPassback StatusInternalServerError (Some err), w)
      | ((None, _, None), w) \<Rightarrow>
          Some (BuildErrorPassback StatusNotFound (Some ''TransitionID does not exist''), w)
      | ((Some transition, transitionFirstPage, None), w) \<Rightarrow>
          if tr_Status transition = TransitionStatusCompleted
          then Some (BuildErrorPassback StatusBadRequest
                  (Some ''Transition is already finished and cannot be aborted.''), w)
          else if tr_Status transition = TransitionStatusAborted
          then Some (BuildSuccessPassback StatusAccepted abort_accepted, w)
          else
            (case transitionFirstPage of
               None \<Rightarrow> None
             | Some firstPage \<Rightarrow>
                 (case dsp_TASTransition (g_DSP G)
                         (transition\<lparr>tr_Status := TransitionStatusAbortSignaled\<rparr>) firstPage w of
                    ((_, Some err), w) \<Rightarrow>
                      Some (BuildErrorPassback StatusInternalServerError (Some err), w)
                  | ((ok, None), w) \<Rightarrow>
                      if ok then Some (BuildSuccessPassback StatusAccepted abort_accepted, w)
                      else abort_loop G retries transitionID w)))"

definition AbortTransitionID :: "'w DOMAIN_GLOBALS \<Rightarrow> uuid \<Rightarrow> ('w, string Passback) go" where
  "AbortTransitionID G transitionID w = abort_loop G 3 transitionID w"

definition TriggerTransition :: "'w DOMAIN_GLOBALS \<Rightarrow> Transition \<Rightarrow> ('w, TransitionCreation Passback) go" where
  "TriggerTransition G transition w =
     (case dsp_StoreTransition (g_DSP G) transition w of
        (Some err, w) \<Rightarrow> Some (BuildErrorPassback StatusInternalServerError (Some err), w)
      | (None, w) \<Rightarrow>
          let w = g_go_doTransition G (tr_TransitionID transition) w
          in case Operation_String (tr_Operation transition) of
               None \<Rightarrow> None
             | Some opname \<Rightarrow>
                 Some (BuildSuccessPassback StatusOK
                   \<lparr>tcr_TransitionID = tr_TransitionID transition, tcr_Operation = opname\<rparr>, w))"

subsection \<open>Storing and aborting a running transition\<close>

fun storeTransition_loop :: "'w DOMAIN_GLOBALS \<Rightarrow> nat \<Rightarrow> Transition \<Rightarrow> bool \<Rightarrow> ('w, bool \<times> error option) io" where
  "storeTransition_loop G 0 tr abort w = ((abort, Some ''Retries expired storing transition''), w)"
| "storeTransition_loop G (Suc retries) tr abort w =
     (case dsp_GetTransition (g_DSP G) (tr_TransitionID tr) w of
        ((_, _, Some err), w) \<Rightarrow> ((abort, Some err), w)
      | ((_, trOld, None), w) \<Rightarrow>
          let (now, w) = time_Now (g_RT G) w;
              tr = tr\<lparr>tr_LastActiveTime := now\<rparr>
          in case trOld of
               None \<Rightarrow> let (err, w) = dsp_StoreTransition (g_DSP G) tr w in ((abort, err), w)
             | Some old \<Rightarrow>
                 let signaled = (tr_Status old = TransitionStatusAbortSignaled);
                     tr = (if signaled then tr\<lparr>tr_Status := TransitionStatusAbortSignaled\<rparr> else tr);
                     abort = (signaled \<or> abort);
                     ((ok, err), w) = dsp_TASTransition (g_DSP G) tr old w
                 in if ok then ((abort, None), w) else storeTransition_loop G retries tr abort w)"

definition storeTransition :: "'w DOMAIN_GLOBALS \<Rightarrow> Transition \<Rightarrow> ('w, bool \<times> error option) io" where
  "storeTransition G tr w = storeTransition_loop G 3 tr False w"

definition checkAbort :: "'w DOMAIN_GLOBALS \<Rightarrow> Transition \<Rightarrow> ('w, bool \<times> error option) io" where
  "checkAbort G tr w =
     (case dsp_GetTransition (g_DSP G) (tr_TransitionID tr) w of
        ((_, _, Some err), w) \<Rightarrow> ((False, Some err), w)
      | ((None, _, None), w) \<Rightarrow> ((False, None), w)
      | ((Some transition, _, None), w) \<Rightarrow>
          ((tr_Status transition = TransitionStatusAbortSignaled, None), w))"

definition compressAndCompleteTransition :: "'w DOMAIN_GLOBALS \<Rightarrow> Transition \<Rightarrow> string \<Rightarrow> 'w \<Rightarrow> 'w option" where
  "compressAndCompleteTransition G transition status w =
     (case dsp_GetAllTasksForTransition (g_DSP G) (tr_TransitionID transition) w of
        ((_, Some err), w) \<Rightarrow> Some w
      | ((tasks, None), w) \<Rightarrow>
          (case ToTransitionResp transition tasks True of
             None \<Rightarrow> None
           | Some rsp \<Rightarrow>
               let transition = transition\<lparr>tr_TaskCounts := rsp_TaskCounts rsp,
                     tr_Tasks := rsp_Tasks rsp, tr_Status := status, tr_IsCompressed := True\<rparr>
               in (case dsp_StoreTransition (g_DSP G) transition w of
                     (Some err, w) \<Rightarrow> Some w
                   | (None, w) \<Rightarrow>
                       Some (fold (\<lambda>task w. snd (dsp_DeleteTransitionTask (g_DSP G)
                                (tr_TransitionID transition) (tt_TaskID task) w)) tasks w))))"

text \<open>The task of a component that had not finished when the abort was noticed.\<close>

definition abort_task :: "TransitionTask \<Rightarrow> TransitionTask" where
  "abort_task task = task\<lparr>tt_Status := TransitionTaskStatusFailed, tt_Error := ''Transition aborted'',
     tt_StatusDesc := ''Aborted. Last status - '' @ tt_StatusDesc task\<rparr>"

definition abort_comp :: "'w DOMAIN_GLOBALS \<Rightarrow> xname \<times> TransitionComponent \<Rightarrow> xname_map \<times> 'w \<Rightarrow> xname_map \<times> 'w" where
  "abort_comp G xc s =
     (let (xn, cmp) = xc; (m, w) = s in
      if unfinished (comp_Task cmp)
      then let cmp = upd_task abort_task cmp
           in (m @ [(xn, cmp)], store_task G (comp_Task cmp) w)
      else (m @ [(xn, cmp)], w))"

definition doAbort :: "'w DOMAIN_GLOBALS \<Rightarrow> Transition \<Rightarrow> xname_map \<Rightarrow> ('w, xname_map) go" where
  "doAbort G tr xnameMap w =
     (let (xnameMap, w) = fold (abort_comp G) xnameMap ([], w)
      in Option.bind (compressAndCompleteTransition G tr TransitionStatusAborted w)
           (\<lambda>w. Some (xnameMap, w)))"

subsection \<open>Keep-alive\<close>

text \<open>
  The inner loop of a tick repeats until its test-and-set succeeds or the transition is gone or
  finished; it has no other bound. \<open>True\<close> means that the thread ends.
\<close>

partial_function (option) keepAlive_tick :: "'w DOMAIN_GLOBALS \<Rightarrow> uuid \<Rightarrow> 'w \<Rightarrow> (bool \<times> 'w) option" where
  "keepAlive_tick G transitionID w =
     (case dsp_GetTransition (g_DSP G) transitionID w of (res, w) \<Rightarrow>
        (case res of (transition, transitionOld, err) \<Rightarrow>
           if err \<noteq> None then keepAlive_tick G transitionID w
           else (case transition of
                   None \<Rightarrow> Some (True, w)
                 | Some t \<Rightarrow>
                     if tr_Status t = TransitionStatusAborted \<or> tr_Status t = TransitionStatusCompleted
                     then Some (True, w)
                     else (case time_Now (g_RT G) w of (now, w) \<Rightarrow>
                       (case transitionOld of
                          None \<Rightarrow> None
                        | Some old \<Rightarrow>
                            (case dsp_TASTransition (g_DSP G) (t\<lparr>tr_LastActiveTime := now\<rparr>) old w of
                               ((ok, err), w) \<Rightarrow>
                                 if err = None \<and> ok then Some (False, w)
                                 else keepAlive_tick G transitionID w))))))"

datatype keepAlive_event = KeepAliveCancel | KeepAliveTick

fun transitionKeepAlive :: "'w DOMAIN_GLOBALS \<Rightarrow> uuid \<Rightarrow> keepAlive_event list \<Rightarrow> 'w \<Rightarrow> (bool \<times> 'w) option" where
  "transitionKeepAlive G transitionID [] w = Some (False, w)"
| "transitionKeepAlive G transitionID (KeepAliveCancel # es) w = Some (True, w)"
| "transitionKeepAlive G transitionID (KeepAliveTick # es) w =
     Option.bind (keepAlive_tick G transitionID w)
       (\<lambda>(stop, w). if stop then Some (True, w) else transitionKeepAlive G transitionID es w)"

subsection \<open>Deleting and reaping records\<close>

fun delete_tasks :: "'w DOMAIN_GLOBALS \<Rightarrow> uuid \<Rightarrow> TransitionTask list \<Rightarrow> ('w, error option) io" where
  "delete_tasks G transitionID [] w = (None, w)"
| "delete_tasks G transitionID (task # tasks) w =
     (case dsp_DeleteTransitionTask (g_DSP G) transitionID (tt_TaskID task) w of
        (Some err, w) \<Rightarrow> (Some err, w)
      | (None, w) \<Rightarrow> delete_tasks G transitionID tasks w)"

definition deleteTransition :: "'w DOMAIN_GLOBALS \<Rightarrow> uuid \<Rightarrow> ('w, error option) io" where
  "deleteTransition G transitionID w =
     (case dsp_GetAllTasksForTransition (g_DSP G) transitionID w of
        ((_, Some err), w) \<Rightarrow> (Some err, w)
      | ((tasks, None), w) \<Rightarrow>
          (case delete_tasks G transitionID tasks w of
             (Some err, w) \<Rightarrow> (Some err, w)
           | (None, w) \<Rightarrow> dsp_DeleteTransition (g_DSP G) transitionID w))"

definition finished_status :: "string \<Rightarrow> bool" where
  "finished_status st \<longleftrightarrow> st = TransitionStatusAborted \<or> st = TransitionStatusCompleted"

text \<open>One record in the first loop of the reaper, with \<open>numComplete\<close> threaded through.\<close>

definition reap_one :: "'w DOMAIN_GLOBALS \<Rightarrow> Transition \<Rightarrow> int \<times> 'w \<Rightarrow> (int \<times> 'w) option" where
  "reap_one G transition s =
     (let (numComplete, w) = s;
          (now, w) = time_Now (g_RT G) w;
          expired = (tr_AutomaticExpirationTime transition < now);
          (now, w) = time_Now (g_RT G) w;
          abandoned = (tr_LastActiveTime transition < now + TransitionKeepAliveInterval * - 3 * Second)
      in if expired
         then if finished_status (tr_Status transition)
              then Some (numComplete, snd (deleteTransition G (tr_TransitionID transition) w))
              else
                let t' = transition\<lparr>tr_Status := TransitionStatusAbortSignaled\<rparr>;
                    (t', w) = (if abandoned
                               then let (now, w) = time_Now (g_RT G) w in (t'\<lparr>tr_LastActiveTime := now\<rparr>, w)
                               else (t', w));
                    ((ok, err), w) = dsp_TASTransition (g_DSP G) t' transition w
                in if err \<noteq> None then Some (numComplete, w)
                   else if ok \<and> abandoned
                   then Some (numComplete, g_go_doTransition G (tr_TransitionID transition) w)
                   else Some (numComplete, w)
         else if abandoned \<and> \<not> finished_status (tr_Status transition)
         then let (now, w) = time_Now (g_RT G) w;
                  ((ok, err), w) =
                    dsp_TASTransition (g_DSP G) (transition\<lparr>tr_LastActiveTime := now\<rparr>) transition w
              in if err \<noteq> None then Some (numComplete, w)
                 else if ok then Some (numComplete, g_go_doTransition G (tr_TransitionID transition) w)
                 else Some (numComplete, w)
         else if finished_status (tr_Status transition)
         then if tr_IsCompressed transition then Some (numComplete + 1, w)
              else Option.bind (compressAndCompleteTransition G transition (tr_Status transition) w)
                     (\<lambda>w. Some (numComplete + 1, w))
         else Some (numComplete, w))"

text \<open>
  The array of the oldest records found so far: its filled prefix as a list, its length as \<open>n\<close>.
  Scanning it for the first empty slot or the first younger record and shifting the rest by one,
  dropping what falls off the end, is an insertion.
\<close>

fun insert_oldest :: "nat \<Rightarrow> Transition \<Rightarrow> Transition list \<Rightarrow> Transition list" where
  "insert_oldest 0 t ts = ts"
| "insert_oldest (Suc n) t [] = [t]"
| "insert_oldest (Suc n) t (u # us) =
     (if tr_CreateTime u > tr_CreateTime t then t # take n (u # us) else u # insert_oldest n t us)"

definition oldest_records :: "nat \<Rightarrow> Transition list \<Rightarrow> Transition list" where
  "oldest_records n transitions =
     fold (\<lambda>t acc. if finished_status (tr_Status t) then insert_oldest n t acc else acc) transitions []"

text \<open>
  The last loop dereferences every slot of the array, so a slot that stayed empty would panic.
\<close>

definition transitionsReaper :: "'w DOMAIN_GLOBALS \<Rightarrow> 'w \<Rightarrow> 'w option" where
  "transitionsReaper G w =
     (case dsp_GetAllTransitions (g_DSP G) w of
        ((_, Some err), w) \<Rightarrow> Some w
      | ((transitions, None), w) \<Rightarrow>
          if transitions = [] then Some w
          else Option.bind (foldM (reap_one G) transitions (0, w)) (\<lambda>(numComplete, w).
            if g_MaxNumCompleted G \<le> 0 then Some w
            else let numDelete = numComplete - g_MaxNumCompleted G in
              if numDelete > 0
              then let tToDelete = oldest_records (nat numDelete) transitions in
                if length tToDelete < nat numDelete then None
                else Some (fold (\<lambda>t w. snd (deleteTransition G (tr_TransitionID t) w)) tToDelete w)
              else Some w))"

subsection \<open>The contract the proofs use\<close>

definition aborting :: "(uuid \<Rightarrow> Transition option) \<Rightarrow> uuid \<Rightarrow> bool" where
  "aborting m i \<longleftrightarrow> (\<exists>t. m i = Some t \<and> tr_Status t = TransitionStatusAbortSignaled)"

text \<open>Outcomes of an abort request, by status code.\<close>

definition abort_outcome :: "(uuid \<Rightarrow> Transition option) \<Rightarrow> uuid \<Rightarrow> int \<Rightarrow> (uuid \<Rightarrow> Transition option) \<Rightarrow> bool" where
  "abort_outcome m i code m' \<longleftrightarrow>
     code = StatusAccepted \<and> (aborting m' i \<or>
        m' = m \<and> (\<exists>t. m i = Some t \<and> tr_Status t = TransitionStatusAborted)) \<or>
     code = StatusBadRequest \<and> m' = m \<and>
        (\<exists>t. m i = Some t \<and> tr_Status t = TransitionStatusCompleted) \<or>
     code = StatusNotFound \<and> m' = m \<and> m i = None \<or>
     code = StatusInternalServerError"

lemma passback_sel [simp]:
  "pb_StatusCode (BuildErrorPassback c e) = c" "pb_StatusCode (BuildSuccessPassback c obj) = c"
  "pb_IsError (BuildErrorPassback c e)" "\<not> pb_IsError (BuildSuccessPassback c obj)"
  "pb_Obj (BuildSuccessPassback c obj) = Some obj" "pb_Obj (BuildErrorPassback c e) = None"
  by (simp_all add: BuildErrorPassback_def BuildSuccessPassback_def)

definition compressed :: "Transition \<Rightarrow> TransitionTask list \<Rightarrow> string \<Rightarrow> Transition" where
  "compressed t ks st =
     (case ToTransitionResp t ks True of None \<Rightarrow> t
      | Some rsp \<Rightarrow> t\<lparr>tr_TaskCounts := rsp_TaskCounts rsp, tr_Tasks := rsp_Tasks rsp, tr_Status := st,
                       tr_IsCompressed := True\<rparr>)"

locale domain_store = transition_store "g_DSP G" inv trans tasks fits
  for G :: "'w DOMAIN_GLOBALS" and inv :: "'w \<Rightarrow> bool" and trans :: "'w \<Rightarrow> uuid \<Rightarrow> Transition option"
    and tasks :: "'w \<Rightarrow> uuid \<times> uuid \<Rightarrow> TransitionTask option" and fits :: "Transition \<Rightarrow> bool"
begin

lemma get_cases:
  assumes "inv w"
  obtains e w' where "dsp_GetTransition (g_DSP G) i w = ((None, None, Some e), w')"
      "inv w'" "trans w' = trans w" "tasks w' = tasks w"
  | w' where "dsp_GetTransition (g_DSP G) i w = ((trans w i, trans w i, None), w')"
      "inv w'" "trans w' = trans w" "tasks w' = tasks w"
proof -
  obtain t p e w1 where g: "dsp_GetTransition (g_DSP G) i w = ((t, p, e), w1)" by (metis surj_pair)
  show thesis using get [OF assms g] g that by (cases e) auto
qed

lemma all_tasks_cases:
  assumes "inv w" and "okid i"
  obtains ks e w' where "dsp_GetAllTasksForTransition (g_DSP G) i w = ((ks, Some e), w')"
      "inv w'" "trans w' = trans w" "tasks w' = tasks w"
  | ks w' where "dsp_GetAllTasksForTransition (g_DSP G) i w = ((ks, None), w')"
      "inv w'" "trans w' = trans w" "tasks w' = tasks w" "distinct (map tt_TaskID ks)"
      "\<And>k. k \<in> set ks \<longleftrightarrow> tasks w (i, tt_TaskID k) = Some k"
proof -
  obtain ks e w1 where g: "dsp_GetAllTasksForTransition (g_DSP G) i w = ((ks, e), w1)" by (rule pair2E)
  show thesis using all_tasks [OF assms g] g that by (cases e) auto
qed

lemma abort_loop_outcome:
  assumes "inv w" and "okid i"
    and "\<And>t. trans w i = Some t \<Longrightarrow> fits (t\<lparr>tr_Status := TransitionStatusAbortSignaled\<rparr>)"
  shows "\<exists>pb w'. abort_loop G n i w = Some (pb, w') \<and> inv w' \<and> tasks w' = tasks w \<and>
    (\<forall>j. j \<noteq> i \<longrightarrow> trans w' j = trans w j) \<and> pb_IsError pb = (pb_StatusCode pb \<noteq> StatusAccepted) \<and>
    abort_outcome (trans w) i (pb_StatusCode pb) (trans w')"
  using assms
proof (induction n arbitrary: w)
  case 0
  then show ?case by (simp add: abort_outcome_def)
next
  case (Suc n)
  from Suc.prems(1) show ?case
  proof (cases rule: get_cases [where i = i])
    case (1 e w1)
    then show ?thesis by (simp add: abort_outcome_def)
  next
    case (2 w1)
    show ?thesis
    proof (cases "trans w i")
      case None
      then show ?thesis using 2 by (simp add: abort_outcome_def)
    next
      case (Some t)
      let ?t = "t\<lparr>tr_Status := TransitionStatusAbortSignaled\<rparr>"
      have id: "tr_TransitionID t = i" using trans_id [OF Suc.prems(1) Some] by simp
      obtain ok e2 w2 where ta: "dsp_TASTransition (g_DSP G) ?t t w1 = ((ok, e2), w2)" by (rule pair2E)
      have law: "inv w2" "tasks w2 = tasks w" "trans w2 = (trans w)(i \<mapsto> ?t) \<or> trans w2 = trans w \<and> \<not> ok"
        "\<not> ok \<and> e2 = None \<Longrightarrow> trans w2 = trans w"
        using tas [OF 2(2) _ Suc.prems(3) ta] Suc.prems(2) Some id 2(3,4) by auto
      show ?thesis
      proof (cases "tr_Status t = TransitionStatusCompleted \<or> tr_Status t = TransitionStatusAborted \<or> e2 \<noteq> None \<or> ok")
        case True
        then show ?thesis
          using 2 Some ta law by (cases e2) (auto simp: abort_outcome_def aborting_def)
      next
        case False
        then have same: "trans w2 = trans w" using law(4) by simp
        have "abort_loop G (Suc n) i w = abort_loop G n i w2"
          using 2 Some ta False by simp
        then show ?thesis
          using Suc.IH [OF law(1) Suc.prems(2)] Suc.prems(3) same law(2) by (simp only: same)
      qed
    qed
  qed
qed

text \<open>Deleting all tasks of a transition, stopping at the first error.\<close>

lemma delete_tasks_law:
  assumes "inv w" and "okid i" and "\<forall>k \<in> set ks. okid (tt_TaskID k)" and "delete_tasks G i ks w = (e, w')"
  shows "inv w' \<and> trans w' = trans w \<and> (\<forall>ij. ij \<notin> (\<lambda>k. (i, tt_TaskID k)) ` set ks \<longrightarrow> tasks w' ij = tasks w ij) \<and>
    (\<forall>ij. tasks w' ij = tasks w ij \<or> tasks w' ij = None) \<and>
    (e = None \<longrightarrow> (\<forall>k \<in> set ks. tasks w' (i, tt_TaskID k) = None))"
  using assms(1,3,4)
proof (induction ks arbitrary: w)
  case Nil
  then show ?case by simp
next
  case (Cons k ks)
  obtain e1 w1 where d: "dsp_DeleteTransitionTask (g_DSP G) i (tt_TaskID k) w = (e1, w1)" by fastforce
  have law: "inv w1" "trans w1 = trans w" "may_set (tasks w) (i, tt_TaskID k) None e1 (tasks w1)"
    using delete_task [OF Cons.prems(1) assms(2) _ d] Cons.prems(2) by auto
  show ?case
  proof (cases e1)
    case (Some x)
    then show ?thesis using Cons.prems(3) d law by (auto simp: may_set_def split: if_splits)
  next
    case None
    then have t1: "tasks w1 = (tasks w)((i, tt_TaskID k) := None)" using law(3) may_set_ok by simp
    have "delete_tasks G i ks w1 = (e, w')" using Cons.prems(3) d None by simp
    from Cons.IH [OF law(1) _ this] Cons.prems(2)
    have ih: "inv w'" "trans w' = trans w1"
      "\<And>ij. ij \<notin> (\<lambda>k. (i, tt_TaskID k)) ` set ks \<Longrightarrow> tasks w' ij = tasks w1 ij"
      "\<And>ij. tasks w' ij = tasks w1 ij \<or> tasks w' ij = None"
      "e = None \<Longrightarrow> \<forall>k \<in> set ks. tasks w' (i, tt_TaskID k) = None"
      by (simp_all del: split_paired_All)
    have "tasks w' ij = tasks w ij \<or> tasks w' ij = None" for ij
      using ih(4) [of ij] t1 by (auto split: if_splits)
    moreover have "tasks w' (i, tt_TaskID k) = None"
      using ih(4) [of "(i, tt_TaskID k)"] t1 by simp
    ultimately show ?thesis using ih(1,2,3,5) t1 law(2) by auto
  qed
qed

lemma deleteTransition_law:
  assumes "inv w" and "okid i" and "deleteTransition G i w = (e, w')"
  shows "inv w' \<and> (\<forall>j. j \<noteq> i \<longrightarrow> trans w' j = trans w j \<and> (\<forall>k. tasks w' (j, k) = tasks w (j, k))) \<and>
    (e = None \<longrightarrow> trans w' i = None \<and> (\<forall>k. tasks w' (i, k) = None)) \<and>
    (trans w' i \<noteq> trans w i \<longrightarrow> (\<forall>k. tasks w' (i, k) = None))"
  using assms(1,2)
proof (cases rule: all_tasks_cases)
  case (1 ks e1 w1)
  then show ?thesis using assms(3) by (auto simp: deleteTransition_def)
next
  case (2 ks w1)
  have okk: "\<forall>k \<in> set ks. okid (tt_TaskID k)"
    using 2(6) tasks_id [OF assms(1)] by blast
  obtain e2 w2 where d: "delete_tasks G i ks w1 = (e2, w2)" by fastforce
  note dl = delete_tasks_law [OF 2(2) assms(2) okk d]
  show ?thesis
  proof (cases e2)
    case (Some x)
    then show ?thesis using assms(3) 2 d dl by (auto simp: deleteTransition_def image_iff)
  next
    case None
    have gone: "tasks w2 (i, k) = None" for k
    proof (cases "\<exists>t. tasks w (i, k) = Some t")
      case True
      then obtain t where "tasks w (i, k) = Some t" by auto
      then have "t \<in> set ks" "tt_TaskID t = k" using 2(6) tasks_id [OF assms(1)] by fastforce+
      then show ?thesis using dl None by auto
    next
      case False
      then show ?thesis using dl 2(4) by (metis option.exhaust)
    qed
    have "dsp_DeleteTransition (g_DSP G) i w2 = (e, w')"
      using assms(3) 2 d None by (simp add: deleteTransition_def)
    from delete [OF _ assms(2) this] dl have "inv w' \<and> tasks w' = tasks w2 \<and> may_set (trans w2) i None e (trans w')"
      by simp
    then show ?thesis
      using dl 2(3,4) gone by (auto simp: may_set_def image_iff)
  qed
qed


text \<open>Compressing a finished transition.\<close>

lemma fold_delete_tasks:
  assumes "inv w" and "okid i" and "\<forall>k \<in> set ks. okid (tt_TaskID k)"
  shows "let w' = fold (\<lambda>k w. snd (dsp_DeleteTransitionTask (g_DSP G) i (tt_TaskID k) w)) ks w in
    inv w' \<and> trans w' = trans w \<and> (\<forall>ij. ij \<notin> (\<lambda>k. (i, tt_TaskID k)) ` set ks \<longrightarrow> tasks w' ij = tasks w ij)"
  using assms(1,3)
proof (induction ks arbitrary: w)
  case Nil
  then show ?case by simp
next
  case (Cons k ks)
  obtain e1 w1 where d: "dsp_DeleteTransitionTask (g_DSP G) i (tt_TaskID k) w = (e1, w1)" by fastforce
  have law: "inv w1" "trans w1 = trans w" "may_set (tasks w) (i, tt_TaskID k) None e1 (tasks w1)"
    using delete_task [OF Cons.prems(1) assms(2) _ d] Cons.prems(2) by auto
  then show ?case
    using Cons.IH [OF law(1)] Cons.prems(2) d may_set_other [OF law(3)] by (auto simp: Let_def)
qed


lemma compress_law:
  assumes "inv w" and "okid (tr_TransitionID t)" and "tr_Operation t \<noteq> Operation_Nil"
    and "\<And>ks. distinct (map tt_TaskID ks) \<Longrightarrow>
           (\<forall>k \<in> set ks. tasks w (tr_TransitionID t, tt_TaskID k) = Some k) \<Longrightarrow> fits (compressed t ks st)"
  shows "\<exists>w'. compressAndCompleteTransition G t st w = Some w' \<and> inv w' \<and>
    (\<forall>j. j \<noteq> tr_TransitionID t \<longrightarrow> trans w' j = trans w j) \<and>
    (\<forall>i j. i \<noteq> tr_TransitionID t \<longrightarrow> tasks w' (i, j) = tasks w (i, j)) \<and>
    (trans w' = trans w \<and> tasks w' = tasks w \<or>
     (\<exists>ks. distinct (map tt_TaskID ks) \<and>
        (\<forall>k. k \<in> set ks \<longleftrightarrow> tasks w (tr_TransitionID t, tt_TaskID k) = Some k) \<and>
        trans w' (tr_TransitionID t) = Some (compressed t ks st)))"
  using assms(1,2)
proof (cases rule: all_tasks_cases)
  case (1 ks e w1)
  then show ?thesis by (auto simp: compressAndCompleteTransition_def)
next
  case (2 ks w1)
  let ?i = "tr_TransitionID t"
  obtain rsp where rsp: "ToTransitionResp t ks True = Some rsp"
    using assms(3) ToTransitionResp_None [of t ks True] by (cases "ToTransitionResp t ks True") auto
  have cid: "tr_TransitionID (compressed t ks st) = ?i" by (simp add: compressed_def rsp)
  obtain e w2 where st: "dsp_StoreTransition (g_DSP G) (compressed t ks st) w1 = (e, w2)" by fastforce
  have law: "inv w2" "tasks w2 = tasks w" "may_set (trans w) ?i (Some (compressed t ks st)) e (trans w2)"
    using store [OF 2(2) _ assms(4) st] assms(2) cid 2(3,4,5,6) by auto
  show ?thesis
  proof (cases e)
    case (Some x)
    then have "compressAndCompleteTransition G t st w = Some w2"
      using 2(1) rsp st by (simp add: compressAndCompleteTransition_def compressed_def)
    then show ?thesis using law 2(5,6) by (auto simp: may_set_def)
  next
    case None
    let ?w3 = "fold (\<lambda>k w. snd (dsp_DeleteTransitionTask (g_DSP G) ?i (tt_TaskID k) w)) ks w2"
    have "compressAndCompleteTransition G t st w = Some ?w3"
      using 2(1) rsp st None by (simp add: compressAndCompleteTransition_def compressed_def)
    moreover have "\<forall>k \<in> set ks. okid (tt_TaskID k)" using 2(6) tasks_id [OF assms(1)] by blast
    then have "inv ?w3 \<and> trans ?w3 = trans w2 \<and>
        (\<forall>ij. ij \<notin> (\<lambda>k. (?i, tt_TaskID k)) ` set ks \<longrightarrow> tasks ?w3 ij = tasks w2 ij)"
      using fold_delete_tasks [OF law(1) assms(2)] by (simp add: Let_def)
    moreover have "trans w2 = (trans w)(?i \<mapsto> compressed t ks st)" using law(3) None may_set_ok by simp
    ultimately show ?thesis using law(2) 2(5,6) by (auto simp: image_iff)
  qed
qed

end

locale abort_rely = domain_store +
  assumes now_rely: "\<And>w n w' i. inv w \<Longrightarrow> time_Now (g_RT G) w = (n, w') \<Longrightarrow>
      inv w' \<and> (aborting (trans w) i \<longrightarrow> aborting (trans w') i)"
begin

lemma storeTransition_loop_abort:
  assumes "inv w" and "aborting (trans w) (tr_TransitionID tr)" and "okid (tr_TransitionID tr)"
    and "\<forall>now st. fits (tr\<lparr>tr_LastActiveTime := now, tr_Status := st\<rparr>)"
    and "storeTransition_loop G n tr abort w = ((a, e), w')"
  shows "inv w' \<and> aborting (trans w') (tr_TransitionID tr) \<and> (e = None \<longrightarrow> a)"
  using assms
proof (induction n arbitrary: tr abort w)
  case 0
  then show ?case by auto
next
  case (Suc n)
  let ?i = "tr_TransitionID tr"
  obtain t p e1 w1 where g: "dsp_GetTransition (g_DSP G) ?i w = ((t, p, e1), w1)"
    by (metis surj_pair)
  have gl: "inv w1" "trans w1 = trans w" "e1 = None \<Longrightarrow> p = trans w ?i"
    using get [OF Suc.prems(1) g] by (auto split: if_splits)
  show ?case
  proof (cases e1)
    case (Some x)
    then show ?thesis using Suc.prems(2,5) g gl by auto
  next
    case None
    obtain old where old: "p = Some old" "tr_Status old = TransitionStatusAbortSignaled" "trans w ?i = Some old"
      using gl(3) None Suc.prems(2) by (auto simp: aborting_def)
    obtain now w2 where nw: "time_Now (g_RT G) w1 = (now, w2)" by fastforce
    have r: "inv w2" "aborting (trans w2) ?i"
      using now_rely [OF gl(1) nw] Suc.prems(2) gl(2) by auto
    let ?tr = "tr\<lparr>tr_LastActiveTime := now, tr_Status := TransitionStatusAbortSignaled\<rparr>"
    obtain ok e2 w3 where ta: "dsp_TASTransition (g_DSP G) ?tr old w2 = ((ok, e2), w3)"
      by (metis surj_pair)
    have "inv w3 \<and> (trans w3 = (trans w2)(?i \<mapsto> ?tr) \<or> trans w3 = trans w2 \<and> \<not> ok)"
      using tas [OF r(1) _ _ ta] Suc.prems(3,4) by auto
    then have t3: "inv w3" "aborting (trans w3) ?i" using r(2) by (auto simp: aborting_def)
    have run: "(if ok then ((True, None), w3) else storeTransition_loop G n ?tr True w3) = ((a, e), w')"
      using Suc.prems(5) g None nw old ta by simp
    show ?thesis
    proof (cases ok)
      case True
      then show ?thesis using run t3 by simp
    next
      case False
      then show ?thesis using Suc.IH [of w3 ?tr True] t3 Suc.prems(3,4) run by simp
    qed
  qed
qed

end

locale quiet_store = domain_store +
  assumes now_quiet: "\<And>w n w'. inv w \<Longrightarrow> time_Now (g_RT G) w = (n, w') \<Longrightarrow>
      inv w' \<and> trans w' = trans w \<and> tasks w' = tasks w"

sublocale quiet_store \<subseteq> abort_rely
  by unfold_locales (simp add: now_quiet)



lemma compressed_response:
  "tr_Operation t \<noteq> Operation_Nil \<Longrightarrow>
     ToTransitionResp (compressed t ks st) [] True =
       map_option (\<lambda>r. r\<lparr>rsp_TransitionStatus := st\<rparr>) (ToTransitionResp t ks True)"
  by (cases "tr_Operation t"; cases "tr_IsCompressed t")
    (auto simp: compressed_def ToTransitionResp_def resp_loop_counts)

lemma compressed_tasks:
  "tr_Operation t \<noteq> Operation_Nil \<Longrightarrow> \<not> tr_IsCompressed t \<Longrightarrow>
     tr_Tasks (compressed t ks st) = map task_resp ks \<and> tr_IsCompressed (compressed t ks st) \<and>
     tr_Status (compressed t ks st) = st \<and> tr_TaskCounts (compressed t ks st) = task_counts ks"
  by (cases "tr_Operation t") (auto simp: compressed_def ToTransitionResp_uncompressed)

text \<open>At most the time of last activity of one record differs.\<close>

definition only_time :: "uuid \<Rightarrow> (uuid \<Rightarrow> Transition option) \<Rightarrow> (uuid \<Rightarrow> Transition option) \<Rightarrow> bool" where
  "only_time i m m' \<longleftrightarrow> (\<forall>j. j \<noteq> i \<longrightarrow> m' j = m j) \<and>
     (m' i = m i \<or> (\<exists>t n. m i = Some t \<and> m' i = Some (t\<lparr>tr_LastActiveTime := n\<rparr>)))"

lemma only_time_trans: "only_time i m m' \<Longrightarrow> only_time i m' m'' \<Longrightarrow> only_time i m m''"
  unfolding only_time_def by (elim conjE disjE exE) (force+)

context quiet_store
begin

lemma keepAlive_tick_law:
  assumes "keepAlive_tick G i w = Some y" and "inv w" and "okid i"
    and "\<forall>t n. trans w i = Some t \<longrightarrow> fits (t\<lparr>tr_LastActiveTime := n\<rparr>)"
  shows "inv (snd y) \<and> tasks (snd y) = tasks w \<and> only_time i (trans w) (trans (snd y))"
proof -
  let ?P = "\<lambda>G' i' w y. G' = G \<longrightarrow> i' = i \<longrightarrow> inv w \<longrightarrow>
      (\<forall>t n. trans w i = Some t \<longrightarrow> fits (t\<lparr>tr_LastActiveTime := n\<rparr>)) \<longrightarrow>
      inv (snd y) \<and> tasks (snd y) = tasks w \<and> only_time i (trans w) (trans (snd y))"
  have "?P G i w y"
    using assms(1)
  proof (rule keepAlive_tick.raw_induct [where P = ?P, rotated], intro impI)
    fix rec G' i' w and y :: "bool \<times> 'a"
    assume IH: "\<And>G' i' w y. rec G' i' w = Some y \<Longrightarrow> ?P G' i' w y"
      and run: "(case dsp_GetTransition (g_DSP G') i' w of (res, w) \<Rightarrow>
        (case res of (transition, transitionOld, err) \<Rightarrow>
           if err \<noteq> None then rec G' i' w
           else (case transition of
                   None \<Rightarrow> Some (True, w)
                 | Some t \<Rightarrow>
                     if tr_Status t = TransitionStatusAborted \<or> tr_Status t = TransitionStatusCompleted
                     then Some (True, w)
                     else (case time_Now (g_RT G') w of (now, w) \<Rightarrow>
                       (case transitionOld of
                          None \<Rightarrow> None
                        | Some old \<Rightarrow>
                            (case dsp_TASTransition (g_DSP G') (t\<lparr>tr_LastActiveTime := now\<rparr>) old w of
                               ((ok, err), w) \<Rightarrow>
                                 if err = None \<and> ok then Some (False, w)
                                 else rec G' i' w)))))) = Some y"
      and G': "G' = G" and i': "i' = i" and inv: "inv w"
      and fit: "\<forall>t n. trans w i = Some t \<longrightarrow> fits (t\<lparr>tr_LastActiveTime := n\<rparr>)"
    from inv show "inv (snd y) \<and> tasks (snd y) = tasks w \<and> only_time i (trans w) (trans (snd y))"
    proof (cases rule: get_cases [where i = i])
      case (1 e w1)
      then have "rec G i w1 = Some y" using run by (simp add: G' i')
      from IH [OF this] 1 fit show ?thesis by simp
    next
      case (2 w1)
      show ?thesis
      proof (cases "\<exists>t. trans w i = Some t \<and> \<not> finished_status (tr_Status t)")
        case False
        then have "y = (True, w1)"
          using run 2 by (auto simp: G' i' finished_status_def split: option.splits)
        then show ?thesis using 2 by (simp add: only_time_def)
      next
        case True
        then obtain t where t: "trans w i = Some t" "\<not> finished_status (tr_Status t)" by auto
        obtain now w2 where nw: "time_Now (g_RT G) w1 = (now, w2)" by fastforce
        have q: "inv w2" "trans w2 = trans w" "tasks w2 = tasks w"
          using now_quiet [OF 2(2) nw] 2 by auto
        let ?t = "t\<lparr>tr_LastActiveTime := now\<rparr>"
        obtain ok e2 w3 where ta: "dsp_TASTransition (g_DSP G) ?t t w2 = ((ok, e2), w3)" by (rule pair2E)
        have id: "tr_TransitionID t = i" using trans_id [OF inv t(1)] by simp
        have law: "inv w3" "tasks w3 = tasks w" "trans w3 = (trans w)(i \<mapsto> ?t) \<or> trans w3 = trans w"
          using tas [OF q(1) _ _ ta] assms(3) fit t(1) id q(2,3) by auto
        then have ot: "only_time i (trans w) (trans w3)" using t(1) by (auto simp: only_time_def)
        have fit3: "\<forall>t n. trans w3 i = Some t \<longrightarrow> fits (t\<lparr>tr_LastActiveTime := n\<rparr>)"
          using law(3) fit t(1) by auto
        have "(if e2 = None \<and> ok then Some (False, w3) else rec G i w3) = Some y"
          using run 2 t nw ta unfolding G' i' by (simp add: finished_status_def)
        then consider "y = (False, w3)" | "rec G i w3 = Some y" by (metis option.inject)
        then show ?thesis
        proof cases
          case 1
          then show ?thesis using law(1,2) ot by simp
        next
          case 2
          from IH [OF 2] have "inv (snd y) \<and> tasks (snd y) = tasks w3 \<and> only_time i (trans w3) (trans (snd y))"
            using law(1) fit3 by blast
          then show ?thesis using law(2) only_time_trans [OF ot] by simp
        qed
      qed
    qed
  qed
  then show ?thesis using assms by simp
qed

lemma keepAlive_tick_returns:
  assumes "inv w" and "okid i" and "\<And>w. snd (snd (fst (dsp_GetTransition (g_DSP G) i w))) = None"
    and "\<And>w t old. trans w i = Some old \<Longrightarrow> fst (dsp_TASTransition (g_DSP G) t old w) = (True, None)"
  shows "\<exists>stop w'. keepAlive_tick G i w = Some (stop, w')"
  using assms(1)
proof (cases rule: get_cases [where i = i])
  case (1 e w1)
  then show ?thesis using assms(3) [of w] by simp
next
  case (2 w1)
  obtain now w2 where nw: "time_Now (g_RT G) w1 = (now, w2)" by fastforce
  show ?thesis
  proof (cases "trans w i")
    case None
    then show ?thesis using 2 by (subst keepAlive_tick.simps) auto
  next
    case (Some t)
    have "trans w2 i = Some t" using now_quiet [OF 2(2) nw] 2 Some by simp
    then have "fst (dsp_TASTransition (g_DSP G) (t\<lparr>tr_LastActiveTime := now\<rparr>) t w2) = (True, None)"
      by (rule assms(4))
    then obtain w3 where "dsp_TASTransition (g_DSP G) (t\<lparr>tr_LastActiveTime := now\<rparr>) t w2 = ((True, None), w3)"
      by (metis prod.collapse)
    then show ?thesis using 2 Some nw by (subst keepAlive_tick.simps) auto
  qed
qed

end


subsection \<open>The oldest records\<close>

fun insert_after :: "('a \<Rightarrow> 'b :: linorder) \<Rightarrow> 'a \<Rightarrow> 'a list \<Rightarrow> 'a list" where
  "insert_after f x [] = [x]"
| "insert_after f x (y # ys) = (if f y > f x then x # y # ys else y # insert_after f x ys)"

lemma insort_insert_after: "insort_key f y (insert_after f x L) = insert_after f x (insort_key f y L)"
  by (induction L) auto

lemma sort_key_snoc: "sort_key f (xs @ [x]) = insert_after f x (sort_key f xs)"
proof -
  have "foldr (insort_key f) xs [x] = insert_after f x (foldr (insort_key f) xs [])"
    by (induction xs) (auto simp: insort_insert_after)
  then show ?thesis by (simp add: sort_key_def)
qed

lemma insert_oldest_take: "insert_oldest n t (take n L) = take n (insert_after tr_CreateTime t L)"
proof (induction n arbitrary: L)
  case (Suc n)
  then show ?case by (cases L) (auto simp: take_Cons' min_def)
qed simp

lemma oldest_records_sort:
  "oldest_records n ts = take n (sort_key tr_CreateTime (filter (\<lambda>t. finished_status (tr_Status t)) ts))"
  unfolding oldest_records_def
  by (induction ts rule: rev_induct) (auto simp: sort_key_snoc insert_oldest_take)

lemma reap_one_count:
  assumes "reap_one G t (n, w) = Some (n', w')"
  shows "n \<le> n' \<and> n' \<le> n + (if finished_status (tr_Status t) then 1 else 0)"
  using assms
  by (auto simp: reap_one_def Let_def split: prod.splits if_splits Option.bind_splits)

lemma compress_total:
  assumes "tr_Operation t \<noteq> Operation_Nil"
  shows "\<exists>w'. compressAndCompleteTransition G t st w = Some w'"
proof -
  obtain ks e w1 where g: "dsp_GetAllTasksForTransition (g_DSP G) (tr_TransitionID t) w = ((ks, e), w1)"
    by (rule pair2E)
  obtain r where r: "ToTransitionResp t ks True = Some r"
    using ToTransitionResp_None [of t ks True] assms by fastforce
  let ?t = "t\<lparr>tr_TaskCounts := rsp_TaskCounts r, tr_Tasks := rsp_Tasks r, tr_Status := st, tr_IsCompressed := True\<rparr>"
  obtain e2 w2 where "dsp_StoreTransition (g_DSP G) ?t w1 = (e2, w2)" by fastforce
  then show ?thesis
    using g r by (cases e; cases e2) (simp_all add: compressAndCompleteTransition_def)
qed

lemma reap_one_total:
  assumes "tr_Operation t \<noteq> Operation_Nil"
  shows "\<exists>n' w'. reap_one G t (n, w) = Some (n', w')"
proof -
  obtain f where "\<And>w. compressAndCompleteTransition G t (tr_Status t) w = Some (f w)"
    using compress_total [OF assms] by metis
  then show ?thesis by (auto simp: reap_one_def Let_def split: prod.splits)
qed

lemma reap_all:
  assumes "\<forall>t \<in> set ts. tr_Operation t \<noteq> Operation_Nil"
  shows "\<exists>n' w'. foldM (reap_one G) ts (n, w) = Some (n', w') \<and>
    n' \<le> n + int (length (filter (\<lambda>t. finished_status (tr_Status t)) ts))"
  using assms
proof (induction ts arbitrary: n w)
  case (Cons t ts)
  obtain n1 w1 where r: "reap_one G t (n, w) = Some (n1, w1)"
    using reap_one_total [of t G n w] Cons.prems by auto
  obtain n' w' where "foldM (reap_one G) ts (n1, w1) = Some (n', w')"
    "n' \<le> n1 + int (length (filter (\<lambda>t. finished_status (tr_Status t)) ts))"
    using Cons by fastforce
  then show ?case using r reap_one_count [OF r] by (auto split: if_splits)
qed simp


subsection \<open>The contracts on the executable world\<close>

lemma sim_now: "time_Now sim_runtime w = (n, w') \<Longrightarrow> sim_db w' = sim_db w"
  by (auto simp: sim_runtime_def)

interpretation simd: quiet_store "simG m" sim_inv sim_trans sim_tasks sim_fits for m
  by (unfold quiet_store_def domain_store_def quiet_store_axioms_def)
    (auto simp: sim_etcd.etcd.transition_store_axioms dest: sim_now)

lemma sim_ids [simp]: "okid (sim_uuid 7)" "okid (sim_uuid 8)" "okid (sim_uuid 9)"
  by code_simp+

lemma sim_fits_small: "length (tr_Tasks t) + length (tr_Location t) + length (tr_TaskIDs t) < 1000 \<Longrightarrow> sim_fits t"
  by (simp add: fits_etcd_def sim_etcd_def)

lemma sim_one_task_fits:
  assumes "distinct (map tt_TaskID ks)"
    and "\<forall>k \<in> set ks. sim_tasks (sim_with [] [sim_task 7 8 x st op] []) (sim_uuid 7, tt_TaskID k) = Some k"
  shows "sim_fits (compressed (sim_transition 7 st' [] Operation_On) ks st'')"
proof -
  let ?k = "sim_task 7 8 x st op"
  have "k = ?k" if "sim_tasks (sim_with [] [?k] []) (sim_uuid 7, tt_TaskID k) = Some k" for k
    using that by (auto simp: db_tasks_def sim_with_def split: if_splits)
  then have "set ks \<subseteq> {?k}" using assms(2) by blast
  then have "length ks \<le> 1" using assms(1) card_mono [of "{?k}" "set ks"]
    by (metis (no_types, lifting) card_1_singleton_iff distinct_card distinct_map finite.emptyI finite_insert One_nat_def)
  then show ?thesis
    by (intro sim_fits_small) (simp add: compressed_def ToTransitionResp_uncompressed sim_transition_def)
qed

subsection \<open>Properties\<close>





text \<open>
  C19: Completing a transition loses no task: the operation always returns, and each task that was
  stored before is still stored afterwards or its final state is an entry of the stored, compressed
  record, which carries the final status. A failing store leaves the tasks in place.
\<close>

theorem completion_loses_no_task:
  assumes "domain_store G Inv T K fits" and "Inv w" and "okid (tr_TransitionID t)"
    and "tr_Operation t \<noteq> Operation_Nil" and "\<not> tr_IsCompressed t"
    and "\<forall>ks. distinct (map tt_TaskID ks) \<and> (\<forall>k \<in> set ks. K w (tr_TransitionID t, tt_TaskID k) = Some k) \<longrightarrow>
           fits (compressed t ks st)"
  shows "\<exists>w'. compressAndCompleteTransition G t st w = Some w' \<and>
     (\<forall>j k. K w (tr_TransitionID t, j) = Some k \<longrightarrow>
        K w' (tr_TransitionID t, j) = Some k \<or>
        (\<exists>t'. T w' (tr_TransitionID t) = Some t' \<and> tr_IsCompressed t' \<and> tr_Status t' = st \<and>
              task_resp k \<in> set (tr_Tasks t')))"
proof -
  obtain w' where w': "compressAndCompleteTransition G t st w = Some w'"
    and "T w' = T w \<and> K w' = K w \<or>
     (\<exists>ks. distinct (map tt_TaskID ks) \<and>
        (\<forall>k. k \<in> set ks \<longleftrightarrow> K w (tr_TransitionID t, tt_TaskID k) = Some k) \<and>
        T w' (tr_TransitionID t) = Some (compressed t ks st))"
    using domain_store.compress_law [OF assms(1,2,3,4), of st] assms(6) by metis
  moreover have "tt_TaskID k = j" if "K w (tr_TransitionID t, j) = Some k" for j k
    using that transition_store.tasks_id [OF domain_store.axioms [OF assms(1)] assms(2)] by blast
  ultimately show ?thesis
    using compressed_tasks [OF assms(4,5)] by fastforce
qed

theorem completion_loses_no_task_witness:
  "\<exists>w' k. compressAndCompleteTransition (simG 0) (sim_transition 7 TransitionStatusInProgress [] Operation_On)
       TransitionStatusCompleted (sim_with [] [sim_task 7 8 ''x0'' TransitionTaskStatusSucceeded Operation_On] []) = Some w' \<and>
     (sim_tasks w' (sim_uuid 7, sim_uuid 8) = Some k \<or>
      (\<exists>t'. sim_trans w' (sim_uuid 7) = Some t' \<and> task_resp k \<in> set (tr_Tasks t')))"
proof -
  let ?k = "sim_task 7 8 ''x0'' TransitionTaskStatusSucceeded Operation_On"
  let ?w = "sim_with [] [?k] []"
  have inv: "sim_inv ?w" by (rule sim_with_inv) (simp_all add: sim_task_def)
  have k: "sim_tasks ?w (sim_uuid 7, sim_uuid 8) = Some ?k"
    by (simp add: db_tasks_def sim_with_def sim_task_def)
  show ?thesis
    using completion_loses_no_task [where G = "simG 0" and Inv = sim_inv and T = sim_trans and K = sim_tasks and fits = sim_fits and w = ?w
        and t = "sim_transition 7 TransitionStatusInProgress [] Operation_On" and st = TransitionStatusCompleted,
        OF simd.domain_store_axioms inv] k sim_one_task_fits
    by fastforce
qed


lemma keepAlive_one_round:
  assumes "dsp_GetTransition (g_DSP G) i w = ((t, t, None), w1)" and "time_Now (g_RT G) w1 = (now, w2)"
    and "\<forall>u. t = Some u \<longrightarrow> fst (dsp_TASTransition (g_DSP G) (u\<lparr>tr_LastActiveTime := now\<rparr>) u w2) = (True, None)"
  shows "\<exists>w'. keepAlive_tick G i w = Some (t = None \<or> (\<exists>u. t = Some u \<and> finished_status (tr_Status u)), w')"
proof (cases t)
  case None
  then show ?thesis using assms(1) by (subst keepAlive_tick.simps) simp
next
  case (Some u)
  then obtain w3 where "dsp_TASTransition (g_DSP G) (u\<lparr>tr_LastActiveTime := now\<rparr>) u w2 = ((True, None), w3)"
    using assms(3) by (metis prod.collapse)
  then show ?thesis using assms(1,2) Some by (subst keepAlive_tick.simps) (auto simp: finished_status_def)
qed

lemma sim_one_round:
  "\<exists>w'. keepAlive_tick (simG 0) (sim_uuid 7)
     (sim_with [sim_transition 7 TransitionStatusInProgress [] Operation_On] [] []) = Some (False, w')"
proof -
  let ?t = "sim_transition 7 TransitionStatusInProgress [] Operation_On"
  let ?w = "sim_with [?t] [] []"
  let ?g = "dsp_GetTransition (g_DSP (simG 0)) (sim_uuid 7) ?w"
  let ?n = "time_Now (g_RT (simG 0)) (snd ?g)"
  have g: "?g = ((Some ?t, Some ?t, None), snd ?g)" by code_simp
  have n: "?n = (fst ?n, snd ?n)" by simp
  have "fst (dsp_TASTransition (g_DSP (simG 0)) (?t\<lparr>tr_LastActiveTime := fst ?n\<rparr>) ?t (snd ?n)) = (True, None)"
    by code_simp
  then show ?thesis
    using keepAlive_one_round [OF g n] by (auto simp: finished_status_def)
qed

text \<open>
  A tick of the keep-alive thread that returns has changed at most the time of last activity of its
  own record: status, tasks and every other transition are as before, whatever errors and failed
  test-and-sets it went through.
\<close>

theorem keepAlive_changes_only_time:
  assumes "quiet_store G Inv T K fits" and "Inv w" and "okid i"
    and "\<forall>t n. T w i = Some t \<longrightarrow> fits (t\<lparr>tr_LastActiveTime := n\<rparr>)"
    and "keepAlive_tick G i w = Some (stop, w')"
  shows "K w' = K w \<and> (\<forall>j. j \<noteq> i \<longrightarrow> T w' j = T w j) \<and>
    (T w' i = T w i \<or> (\<exists>t n. T w i = Some t \<and> T w' i = Some (t\<lparr>tr_LastActiveTime := n\<rparr>)))"
  using quiet_store.keepAlive_tick_law [OF assms(1,5,2,3,4)] by (auto simp: only_time_def)

text \<open>
  A tick returns after one round when the read reports no error and the test-and-set of the record
  that was read succeeds; it ends the thread exactly when the record is gone or finished.
\<close>

theorem keepAlive_tick_progress:
  assumes "dsp_GetTransition (g_DSP G) i w = ((t, t, None), w1)" and "time_Now (g_RT G) w1 = (now, w2)"
    and "\<forall>u. t = Some u \<longrightarrow> fst (dsp_TASTransition (g_DSP G) (u\<lparr>tr_LastActiveTime := now\<rparr>) u w2) = (True, None)"
  shows "\<exists>w'. keepAlive_tick G i w = Some (t = None \<or> (\<exists>u. t = Some u \<and> finished_status (tr_Status u)), w')"
  by (rule keepAlive_one_round [OF assms])

theorem keepAlive_tick_progress_witness:
  "\<exists>w'. keepAlive_tick (simG 0) (sim_uuid 7)
     (sim_with [sim_transition 7 TransitionStatusInProgress [] Operation_On] [] []) = Some (False, w')"
proof -
  let ?t = "sim_transition 7 TransitionStatusInProgress [] Operation_On"
  let ?w = "sim_with [?t] [] []"
  let ?g = "dsp_GetTransition (g_DSP (simG 0)) (sim_uuid 7) ?w"
  let ?n = "time_Now (g_RT (simG 0)) (snd ?g)"
  have g: "?g = ((Some ?t, Some ?t, None), snd ?g)" by code_simp
  have n: "?n = (fst ?n, snd ?n)" by simp
  have "fst (dsp_TASTransition (g_DSP (simG 0)) (?t\<lparr>tr_LastActiveTime := fst ?n\<rparr>) ?t (snd ?n)) = (True, None)"
    by code_simp
  then show ?thesis
    using keepAlive_tick_progress [OF g n] by (auto simp: finished_status_def)
qed

theorem keepAlive_changes_only_time_witness:
  "\<exists>stop w'. keepAlive_tick (simG 0) (sim_uuid 7)
     (sim_with [sim_transition 7 TransitionStatusInProgress [] Operation_On] [] []) = Some (stop, w') \<and>
     sim_tasks w' = sim_tasks (sim_with [sim_transition 7 TransitionStatusInProgress [] Operation_On] [] [])"
proof -
  let ?w = "sim_with [sim_transition 7 TransitionStatusInProgress [] Operation_On] [] []"
  obtain w' where k: "keepAlive_tick (simG 0) (sim_uuid 7) ?w = Some (False, w')" using sim_one_round by auto
  have inv: "sim_inv ?w" by (rule sim_with_inv) simp_all
  have "sim_fits (t\<lparr>tr_LastActiveTime := n\<rparr>)" if "sim_trans ?w (sim_uuid 7) = Some t" for t n
    using that by (intro sim_fits_small) (auto simp: db_trans_def sim_with_def sim_transition_def split: if_splits)
  then have "sim_tasks w' = sim_tasks ?w"
    using keepAlive_changes_only_time [where G = "simG 0" and Inv = sim_inv and T = sim_trans and K = sim_tasks
        and fits = sim_fits and w = ?w and i = "sim_uuid 7", OF simd.quiet_store_axioms inv sim_ids(1) _ k] by blast
  then show ?thesis using k by blast
qed

text \<open>
  When too many finished transitions are kept, the records the reaper picks are exactly the oldest
  ones: the first \<open>n\<close> of the finished transitions in a stable sort by creation time.
\<close>

theorem reaper_picks_oldest:
  "oldest_records n ts = take n (sort_key tr_CreateTime (filter (\<lambda>t. finished_status (tr_Status t)) ts))"
  by (rule oldest_records_sort)

text \<open>
  The reaper returns: it never dereferences an empty slot of its array of oldest records, because
  there are at least as many finished transitions as it counted, provided every stored
  transition has an operation.
\<close>

theorem reaper_returns:
  assumes "dsp_GetAllTransitions (g_DSP G) w = ((ts, e), w1)"
    and "\<forall>t \<in> set ts. tr_Operation t \<noteq> Operation_Nil"
  shows "\<exists>w'. transitionsReaper G w = Some w'"
proof -
  obtain n w2 where r: "foldM (reap_one G) ts (0, w1) = Some (n, w2)"
    and n: "n \<le> int (length (filter (\<lambda>t. finished_status (tr_Status t)) ts))"
    using reap_all [OF assms(2), of G 0 w1] by auto
  have "length (oldest_records (nat (n - m)) ts) = nat (n - m)" if "m > 0" for m
    using n that by (simp add: oldest_records_sort)
  then show ?thesis
    using assms(1) r by (cases e) (auto simp: transitionsReaper_def Let_def)
qed

theorem reaper_returns_witness:
  "\<exists>w'. transitionsReaper (simG 1)
     (sim_with [sim_transition 7 TransitionStatusCompleted [] Operation_On,
                sim_transition 8 TransitionStatusCompleted [] Operation_Off] [] []) = Some w'"
proof -
  let ?w = "sim_with [sim_transition 7 TransitionStatusCompleted [] Operation_On,
                sim_transition 8 TransitionStatusCompleted [] Operation_Off] [] []"
  let ?g = "dsp_GetAllTransitions (g_DSP (simG 1)) ?w"
  have g: "?g = ((fst (fst ?g), snd (fst ?g)), snd ?g)" by simp
  have "list_all (\<lambda>t. tr_Operation t \<noteq> Operation_Nil) (fst (fst ?g))" by code_simp
  then show ?thesis using reaper_returns [OF g] by (simp add: list_all_iff)
qed

text \<open>
  C21: Deleting a transition that reports no error has removed the record and all its tasks and nothing
  else; if the record is gone although an error was reported, its tasks are gone too, so no task is
  left without its transition.
\<close>

theorem delete_leaves_no_orphans:
  assumes "domain_store G Inv T K fits" and "Inv w" and "okid i" and "deleteTransition G i w = (e, w')"
  shows "(\<forall>j. j \<noteq> i \<longrightarrow> T w' j = T w j \<and> (\<forall>k. K w' (j, k) = K w (j, k))) \<and>
    (e = None \<longrightarrow> T w' i = None \<and> (\<forall>k. K w' (i, k) = None)) \<and>
    (T w i \<noteq> None \<and> T w' i = None \<longrightarrow> (\<forall>k. K w' (i, k) = None))"
  using domain_store.deleteTransition_law [OF assms] by auto

theorem delete_leaves_no_orphans_witness:
  "\<exists>e w'. deleteTransition (simG 0) (sim_uuid 7)
      (sim_with [sim_transition 7 TransitionStatusCompleted [] Operation_On,
                 sim_transition 8 TransitionStatusCompleted [] Operation_Off]
         [sim_task 7 9 ''x0'' TransitionTaskStatusSucceeded Operation_On] []) = (e, w') \<and>
     sim_trans w' (sim_uuid 8) = Some (sim_transition 8 TransitionStatusCompleted [] Operation_Off)"
proof -
  let ?w = "sim_with [sim_transition 7 TransitionStatusCompleted [] Operation_On,
                 sim_transition 8 TransitionStatusCompleted [] Operation_Off]
         [sim_task 7 9 ''x0'' TransitionTaskStatusSucceeded Operation_On] []"
  obtain e w' where d: "deleteTransition (simG 0) (sim_uuid 7) ?w = (e, w')" by fastforce
  have inv: "sim_inv ?w" by (rule sim_with_inv) (simp_all add: sim_task_def)
  have "sim_uuid 8 \<noteq> sim_uuid 7" by code_simp
  moreover have "sim_trans ?w (sim_uuid 8) = Some (sim_transition 8 TransitionStatusCompleted [] Operation_Off)"
    using \<open>sim_uuid 8 \<noteq> sim_uuid 7\<close> by (simp add: db_trans_def sim_with_def fixUpKey_transition)
  ultimately show ?thesis
    using delete_leaves_no_orphans [where G = "simG 0" and Inv = sim_inv and T = sim_trans and K = sim_tasks
        and fits = sim_fits and w = ?w and i = "sim_uuid 7", OF simd.domain_store_axioms inv sim_ids(1) d] d
    by auto
qed

end
