(* ===== verification/Transition_Sequencing.thy ===== *)
theory Transition_Sequencing
  imports Sim_Domain
begin

section \<open>From a request to a power sequence\<close>

text \<open>
  \<^verbatim>\<open>internal/domain/transitions.go\<close>, the planning of a transition: the tasks of a request
  (\<^verbatim>\<open>setupTransitionTasks\<close>), the stored power states of its components (\<^verbatim>\<open>getPowerStateHierarchy\<close>), the
  decision which power actions each component needs, in a fresh run and after a restart
  (\<^verbatim>\<open>sequenceComponents\<close>), the Redfish payloads, and the failure of components that depend on a failed
  one. The order of the actions is the constant \<open>PowerSequenceFull\<close>.

  \<^verbatim>\<open>sequenceComponents\<close> dereferences the power state of every unfinished component and prints the
  operation, so it panics (\<open>None\<close>) if one is missing; and its search for a requested ancestor, which
  never moves on from one it has found, is a loop that may not end.
\<close>

subsection \<open>The power sequence\<close>

record PowerSeqElem =
  se_Action :: string
  se_CompTypes :: "HMSType list"

definition PowerSequenceFull :: "PowerSeqElem list" where
  "PowerSequenceFull =
    [\<lparr>se_Action = ''gracefulshutdown'', se_CompTypes = [Node]\<rparr>,
     \<lparr>se_Action = ''forceoff'', se_CompTypes = [Node]\<rparr>,
     \<lparr>se_Action = ''gracefulshutdown'', se_CompTypes = [RouterModule, ComputeModule]\<rparr>,
     \<lparr>se_Action = ''forceoff'', se_CompTypes = [RouterModule, ComputeModule]\<rparr>,
     \<lparr>se_Action = ''gracefulshutdown'', se_CompTypes = [Chassis]\<rparr>,
     \<lparr>se_Action = ''forceoff'', se_CompTypes = [Chassis]\<rparr>,
     \<lparr>se_Action = ''gracefulshutdown'', se_CompTypes = [CabinetPDUPowerConnector]\<rparr>,
     \<lparr>se_Action = ''forceoff'', se_CompTypes = [CabinetPDUPowerConnector]\<rparr>,
     \<lparr>se_Action = ''gracefulrestart'',
       se_CompTypes = [Node, RouterModule, ComputeModule, Chassis, CabinetPDUPowerConnector, MgmtSwitch,
                       MgmtHLSwitch, CDUMgmtSwitch]\<rparr>,
     \<lparr>se_Action = ''gracefulrestart'', se_CompTypes = [ChassisBMC, NodeBMC, RouterBMC]\<rparr>,
     \<lparr>se_Action = ''on'', se_CompTypes = [CabinetPDUPowerConnector]\<rparr>,
     \<lparr>se_Action = ''on'', se_CompTypes = [Chassis]\<rparr>,
     \<lparr>se_Action = ''on'', se_CompTypes = [RouterModule, ComputeModule]\<rparr>,
     \<lparr>se_Action = ''on'', se_CompTypes = [Node]\<rparr>]"

type_synonym seq_map = "string \<Rightarrow> HMSType \<Rightarrow> xname list"

definition seq_add :: "string \<Rightarrow> HMSType \<Rightarrow> xname \<Rightarrow> seq_map \<Rightarrow> seq_map" where
  "seq_add act ty xn seq = seq(act := (seq act)(ty := seq act ty @ [xn]))"

definition getOpForPowerAction :: "string \<Rightarrow> Operation" where
  "getOpForPowerAction powerAction =
     (if powerAction = ''gracefulshutdown'' then Operation_Off
      else if powerAction = ''gracefulrestart'' then Operation_SoftRestart
      else if powerAction = ''forceoff'' then Operation_ForceOff
      else if powerAction = ''forcerestart'' then Operation_HardRestart
      else if powerAction = ''on'' then Operation_On
      else Operation_Nil)"

subsection \<open>Tasks of a request\<close>

definition setup_old :: "TransitionTask list \<Rightarrow> Transition \<Rightarrow> xname_map \<times> xname list \<times> Transition" where
  "setup_old tasks tr =
     (let xnameMap = fold (\<lambda>task m. AList.update (tt_Xname task) (new_comp task) m) tasks [];
          ids = tr_TaskIDs tr
      in (xnameMap,
          map (\<lambda>(_, cmp). tt_Xname (comp_Task cmp)) (filter (\<lambda>(_, cmp). unfinished (comp_Task cmp)) xnameMap),
          tr\<lparr>tr_TaskIDs := ids @ map (\<lambda>(_, cmp). tt_TaskID (comp_Task cmp))
               (filter (\<lambda>(_, cmp). tt_TaskID (comp_Task cmp) \<notin> set ids) xnameMap)\<rparr>))"

definition vet_task :: "xnametypes \<Rightarrow> LocationParameter \<Rightarrow> TransitionTask \<Rightarrow> TransitionTask" where
  "vet_task X loc task =
     (let task = task\<lparr>tt_Xname := loc_Xname loc, tt_DeputyKey := loc_DeputyKey loc\<rparr>;
          compType = GetHMSType X (loc_Xname loc)
      in if power_comp_type compType then task\<lparr>tt_StatusDesc := ''Gathering data''\<rparr>
         else if compType = HMSTypeInvalid
         then task\<lparr>tt_Status := TransitionTaskStatusFailed, tt_Error := ''Invalid xname'',
                   tt_StatusDesc := ''Failed to achieve transition''\<rparr>
         else task\<lparr>tt_Status := TransitionTaskStatusUnsupported,
                   tt_Error := ''No power control for component type '' @ HMSType_String X compType,
                   tt_StatusDesc := ''Failed to achieve transition''\<rparr>)"

definition setup_loc :: "'w DOMAIN_GLOBALS \<Rightarrow> LocationParameter \<Rightarrow> xname_map \<times> xname list \<times> Transition \<times> 'w
    \<Rightarrow> xname_map \<times> xname list \<times> Transition \<times> 'w" where
  "setup_loc G loc s =
     (let (xnameMap, xnames, tr, w) = s in
      if map_of xnameMap (loc_Xname loc) \<noteq> None then s
      else
        let (task, w) = NewTransitionTask (g_RT G) (tr_TransitionID tr) (tr_Operation tr) w;
            task = vet_task (g_XN G) loc task;
            tr = tr\<lparr>tr_TaskIDs := tr_TaskIDs tr @ [tt_TaskID task]\<rparr>;
            w = store_task G task w
        in (AList.update (loc_Xname loc) (new_comp task) xnameMap,
            (if tt_Status task = TransitionTaskStatusNew then xnames @ [loc_Xname loc] else xnames), tr, w))"

definition setupTransitionTasks ::
  "'w DOMAIN_GLOBALS \<Rightarrow> Transition \<Rightarrow> ('w, xname_map \<times> xname list \<times> Transition) io" where
  "setupTransitionTasks G tr w =
     (let ((tasks, err), w) = dsp_GetAllTasksForTransition (g_DSP G) (tr_TransitionID tr) w;
          (xnameMap, xnames, tr) = setup_old tasks tr;
          (xnameMap, xnames, tr, w) = fold (setup_loc G) (tr_Location tr) (xnameMap, xnames, tr, w)
      in ((xnameMap, xnames, tr), w))"

subsection \<open>Stored power states\<close>

fun psh_loop :: "'w DOMAIN_GLOBALS \<Rightarrow> xname list \<Rightarrow> (xname, PowerStatusComponent) gomap \<Rightarrow> xname list
    \<Rightarrow> ('w, (xname, PowerStatusComponent) gomap \<times> xname list \<times> error option) io" where
  "psh_loop G [] m badList w = ((m, badList, None), w)"
| "psh_loop G (xn # xs) m badList w =
     (if map_of m xn \<noteq> None then psh_loop G xs m badList w
      else let ty = GetHMSType (g_XN G) xn in
        if power_comp_type ty \<and> ty \<noteq> RouterModule
        then (case dsp_GetPowerStatus (g_DSP G) xn w of
                ((_, Some err), w) \<Rightarrow> (([], [], Some err), w)
              | ((None, None), w) \<Rightarrow> psh_loop G xs m (badList @ [xn]) w
              | ((Some pState, None), w) \<Rightarrow> psh_loop G xs (AList.update xn pState m) badList w)
        else if ty = RouterModule
        then (case dsp_GetPowerStatusHierarchy (g_DSP G) xn w of
                ((_, Some err), w) \<Rightarrow> (([], [], Some err), w)
              | ((pStates, None), w) \<Rightarrow>
                  if pStates = [] then psh_loop G xs m (badList @ [xn]) w
                  else
                    let routers = filter (\<lambda>ps. GetHMSType (g_XN G) (ps_XName ps) = RouterModule) pStates;
                        m = fold (\<lambda>ps m. AList.update (ps_XName ps) ps m) routers m;
                        found = list_ex (\<lambda>ps. ps_XName ps = xn) routers
                    in psh_loop G xs m (if found then badList else badList @ [xn]) w)
        else psh_loop G xs m (badList @ [xn]) w)"

definition getPowerStateHierarchy :: "'w DOMAIN_GLOBALS \<Rightarrow> xname list
    \<Rightarrow> ('w, (xname, PowerStatusComponent) gomap \<times> xname list \<times> error option) io" where
  "getPowerStateHierarchy G xnames w = psh_loop G xnames [] [] w"

definition power_supply :: "'w DOMAIN_GLOBALS \<Rightarrow> xname \<Rightarrow> ('w, PowerSupply) io" where
  "power_supply G pConnector w =
     (let ((pState, err), w) = dsp_GetPowerStatus (g_DSP G) pConnector w
      in (\<lparr>sup_ID = pConnector,
           sup_State = (case (err, pState) of
             (None, Some p) \<Rightarrow> fst (ToPowerStateFilter (ps_PowerState p))
           | _ \<Rightarrow> PowerStateFilter_Undefined)\<rparr>, w))"

definition getPowerSupplies :: "'w DOMAIN_GLOBALS \<Rightarrow> HsmData \<Rightarrow> ('w, PowerSupply list) io" where
  "getPowerSupplies G hData w =
     fold (\<lambda>pc (sups, w). let (s, w) = power_supply G pc w in (sups @ [s], w)) (hd_PoweredBy hData) ([], w)"

subsection \<open>Which actions a component needs\<close>

text \<open>
  Each function below is one case of the \<^verbatim>\<open>switch operation\<close>: the changed component and the actions
  whose lists it is appended to, in order.
\<close>

definition succeed :: "string \<Rightarrow> TransitionComponent \<Rightarrow> TransitionComponent" where
  "succeed desc = upd_task (\<lambda>t. t\<lparr>tt_Status := TransitionTaskStatusSucceeded, tt_StatusDesc := desc\<rparr>)"

definition add_actions :: "int \<Rightarrow> TransitionComponent \<Rightarrow> TransitionComponent" where
  "add_actions n cmp = cmp\<lparr>comp_ActionCount := comp_ActionCount cmp + n\<rparr>"

definition already_desc :: "TransitionComponent \<Rightarrow> string \<Rightarrow> string" where
  "already_desc cmp confirmed =
     (if tt_State (comp_Task cmp) = TaskState_GatherData then ''Component already in desired state'' else confirmed)"

definition seq_On :: "TransitionComponent \<Rightarrow> PowerStateFilter \<Rightarrow> TransitionComponent \<times> string list" where
  "seq_On cmp psf =
     (if psf = PowerStateFilter_On then (succeed (already_desc cmp ''Transition confirmed, On'') cmp, [])
      else (add_actions 1 cmp, [''on'']))"

definition seq_Off :: "TransitionComponent \<Rightarrow> PowerStateFilter \<Rightarrow> TransitionComponent \<times> string list" where
  "seq_Off cmp psf =
     (if psf = PowerStateFilter_Off then (succeed (already_desc cmp ''Transition confirmed, Off'') cmp, [])
      else (add_actions 1 cmp, [''gracefulshutdown'']))"

definition seq_ForceOff :: "TransitionComponent \<Rightarrow> PowerStateFilter \<Rightarrow> TransitionComponent \<times> string list" where
  "seq_ForceOff cmp psf =
     (if psf = PowerStateFilter_Off
      then (succeed (already_desc cmp ''Transition confirmed, ForceOff'') cmp, [])
      else (add_actions 1 cmp, [''forceoff'']))"

text \<open>A restart that finds the component not on: powered off by us and to be powered on, or in the wrong state.\<close>

definition resume_on :: "TransitionComponent \<Rightarrow> (TransitionComponent \<times> string list) option" where
  "resume_on cmp =
     (let op = tt_Operation (comp_Task cmp) in
      if op = Operation_On then Some (add_actions 1 cmp, [''on''])
      else if op = Operation_Off \<or> op = Operation_ForceOff
      then Some (upd_task (\<lambda>t. t\<lparr>tt_State := TaskState_Confirmed\<rparr>) (add_actions 1 cmp), [''on''])
      else None)"

definition seq_HardRestart :: "TransitionComponent \<Rightarrow> PowerStateFilter \<Rightarrow> TransitionComponent \<times> string list" where
  "seq_HardRestart cmp psf =
     (if psf \<noteq> PowerStateFilter_On
      then if tt_State (comp_Task cmp) = TaskState_GatherData
           then (upd_task (fail_task ''Component is in the wrong power state''
                   ''Component must be in the On state for Hard-Restart'') cmp, [])
           else (case resume_on cmp of Some r \<Rightarrow> r | None \<Rightarrow> (cmp, []))
      else if tt_Operation (comp_Task cmp) = Operation_On then (succeed ''Transition confirmed, On'' cmp, [])
      else (add_actions 2 cmp, [''gracefulshutdown'', ''on'']))"

text \<open>
  The search for a requested ancestor that supports no restart. When an ancestor is in the map, \<^verbatim>\<open>id\<close>
  stays on it and the loop goes round for ever.
\<close>

partial_function (option) parent_loop :: "xnametypes \<Rightarrow> xname_map \<Rightarrow> xname \<Rightarrow> bool \<Rightarrow> bool option" where
  "parent_loop X xnameMap i parentSupportsRestart =
     (if GetHMSType X i = HMSTypeInvalid then Some parentSupportsRestart
      else (case map_of xnameMap i of
              Some parent \<Rightarrow>
                parent_loop X xnameMap i
                  (if map_of (comp_Actions parent) ''gracefulrestart'' = None \<and>
                      map_of (comp_Actions parent) ''forcerestart'' = None
                   then False else parentSupportsRestart)
            | None \<Rightarrow> parent_loop X xnameMap (GetHMSCompParent X i) parentSupportsRestart))"

declare parent_loop.simps [code]

definition has_action :: "TransitionComponent \<Rightarrow> string \<Rightarrow> bool" where
  "has_action cmp a \<longleftrightarrow> map_of (comp_Actions cmp) a \<noteq> None"

definition seq_SoftRestart :: "xnametypes \<Rightarrow> xname_map \<Rightarrow> xname \<Rightarrow> TransitionComponent \<Rightarrow> PowerStateFilter
    \<Rightarrow> (TransitionComponent \<times> string list) option" where
  "seq_SoftRestart X xnameMap xn cmp psf =
     (let isBMC = IsHMSTypeController X (GetHMSType X xn); task = comp_Task cmp in
      if psf \<noteq> PowerStateFilter_On
      then if tt_State task = TaskState_GatherData
           then Some (upd_task (fail_task ''Component is in the wrong power state''
                   ''Component must be in the On state for Soft-Restart'') cmp, [])
           else (case resume_on cmp of
                   Some r \<Rightarrow> Some r
                 | None \<Rightarrow> Some (upd_task (fail_task ''Unknown error''
                     (if tt_Operation task = Operation_SoftRestart
                      then ''Failed to apply transition, GracefulRestart''
                      else ''Failed to apply transition, ForceRestart'')) cmp, []))
      else
        let hasAction = has_action cmp ''gracefulrestart'' \<or> isBMC \<and> has_action cmp ''forcerestart'' in
        Option.bind (if hasAction then parent_loop X xnameMap (GetHMSCompParent X xn) True else Some True)
          (\<lambda>parentSupportsRestart.
            Some
              (if hasAction \<and> parentSupportsRestart
               then if tt_State task = TaskState_Waiting
                    then (succeed ''Transition confirmed, gracefulrestart'' cmp, [])
                    else (add_actions 1 cmp, [''gracefulrestart''])
               else if isBMC
               then (succeed ''Component will be reset as a result of its parent component getting powered off->on.'' cmp, [])
               else if tt_Operation task = Operation_On then (succeed ''Transition confirmed, On'' cmp, [])
               else (add_actions 2 cmp, [''gracefulshutdown'', ''on'']))))"

definition seq_Init :: "TransitionComponent \<Rightarrow> PowerStateFilter \<Rightarrow> TransitionComponent \<times> string list" where
  "seq_Init cmp psf =
     (let op = tt_Operation (comp_Task cmp); off = (op = Operation_Off \<or> op = Operation_ForceOff) in
      if psf = PowerStateFilter_On
      then if op = Operation_On \<or> off \<and> tt_State (comp_Task cmp) = TaskState_Confirmed
           then (succeed ''Transition confirmed, on'' cmp, [])
           else if op = Operation_ForceOff then (add_actions 2 cmp, [''forceoff'', ''on''])
           else (add_actions 2 cmp, [''gracefulshutdown'', ''on''])
      else
        let cmp = (if off
                   then upd_task (\<lambda>t. t\<lparr>tt_StatusDesc := ''Transition confirmed, off. Waiting for next transition'',
                                        tt_State := TaskState_Confirmed\<rparr>) cmp
                   else cmp)
        in (add_actions 1 cmp, [''on'']))"

definition seq_actions :: "xnametypes \<Rightarrow> xname_map \<Rightarrow> Operation \<Rightarrow> xname \<Rightarrow> TransitionComponent
    \<Rightarrow> PowerStateFilter \<Rightarrow> (TransitionComponent \<times> string list) option" where
  "seq_actions X xnameMap operation xn cmp psf =
     (case operation of
        Operation_Nil \<Rightarrow> Some (cmp, [])
      | Operation_On \<Rightarrow> Some (seq_On cmp psf)
      | Operation_Off \<Rightarrow> Some (seq_Off cmp psf)
      | Operation_SoftOff \<Rightarrow> Some (seq_Off cmp psf)
      | Operation_SoftRestart \<Rightarrow> seq_SoftRestart X xnameMap xn cmp psf
      | Operation_HardRestart \<Rightarrow> Some (seq_HardRestart cmp psf)
      | Operation_Init \<Rightarrow> Some (seq_Init cmp psf)
      | Operation_ForceOff \<Rightarrow> Some (seq_ForceOff cmp psf))"

definition new_reservation :: "xname \<Rightarrow> TransitionTask \<Rightarrow> ReservationData" where
  "new_reservation xn task = \<lparr>rd_XName = xn, rd_ReservationOwner = False,
     rd_ReservationKey = tt_ReservationKey task, rd_ExpirationTime = [], rd_DeputyKey = tt_DeputyKey task,
     rd_Error = None, rd_needRsv = False\<rparr>"

type_synonym 'w seq_state = "xname_map \<times> seq_map \<times> ReservationData list \<times> 'w"

definition sequence_comp :: "'w DOMAIN_GLOBALS \<Rightarrow> Operation \<Rightarrow> xname \<Rightarrow> 'w seq_state \<Rightarrow> 'w seq_state option" where
  "sequence_comp G operation xn s =
     (let (xnameMap, seqMap, resData, w) = s in
      case map_of xnameMap xn of
        None \<Rightarrow> Some s
      | Some cmp \<Rightarrow>
          if \<not> unfinished (comp_Task cmp)
          then Some (xnameMap, seqMap,
                     (if tt_ReservationKey (comp_Task cmp) \<noteq> []
                      then resData @ [new_reservation xn (comp_Task cmp)] else resData), w)
          else (case (comp_PState cmp, Operation_String operation) of
            (Some ps, Some opname) \<Rightarrow>
              if opname \<notin> set (ps_SupportedPowerTransitions ps)
              then let cmp = upd_task (\<lambda>t. t\<lparr>tt_Status := TransitionTaskStatusUnsupported,
                         tt_StatusDesc := ''Component does not support the specified transition operation, '' @ opname,
                         tt_Error := ''Unsupported for transition operation''\<rparr>) cmp
                   in Some (AList.update xn cmp xnameMap, seqMap, resData, store_task G (comp_Task cmp) w)
              else
                Option.bind (seq_actions (g_XN G) xnameMap operation xn cmp (fst (ToPowerStateFilter (ps_PowerState ps))))
                  (\<lambda>(cmp, acts).
                    let compType = GetHMSType (g_XN G) xn;
                        seqMap = fold (\<lambda>a. seq_add a compType xn) acts seqMap;
                        resData = (if unfinished (comp_Task cmp) \<or> tt_ReservationKey (comp_Task cmp) \<noteq> []
                                   then resData @ [new_reservation xn (comp_Task cmp)] else resData)
                    in Some (AList.update xn cmp xnameMap, seqMap, resData, store_task G (comp_Task cmp) w))
          | _ \<Rightarrow> None))"

definition sequenceComponents :: "'w DOMAIN_GLOBALS \<Rightarrow> Operation \<Rightarrow> xname_map \<Rightarrow> 'w \<Rightarrow> 'w seq_state option" where
  "sequenceComponents G operation xnameMap w =
     foldM (sequence_comp G operation) (map fst xnameMap) (xnameMap, (\<lambda>_ _. []), [], w)"

subsection \<open>Redfish payloads\<close>

abbreviation dq :: string where
  "dq \<equiv> [CHR 0x22]"

definition unsupported_action :: "xname \<Rightarrow> error" where
  "unsupported_action xn = ''Power action not supported for '' @ xn"

definition reset_type :: "TransitionComponent \<Rightarrow> string \<Rightarrow> string option" where
  "reset_type cmp action =
     (case map_of (comp_Actions cmp) action of
        Some r \<Rightarrow> Some r
      | None \<Rightarrow> if action = ''gracefulshutdown'' then map_of (comp_Actions cmp) ''off''
                else if action = ''gracefulrestart'' then map_of (comp_Actions cmp) ''forcerestart''
                else None)"

definition generateTransitionPayload ::
  "xnametypes \<Rightarrow> TransitionComponent \<Rightarrow> string \<Rightarrow> (string \<times> error option) option" where
  "generateTransitionPayload X cmp action =
     (case comp_PState cmp of
        None \<Rightarrow> None
      | Some ps \<Rightarrow>
          (case reset_type cmp action of
             None \<Rightarrow> Some ([], Some (unsupported_action (ps_XName ps)))
           | Some resetType \<Rightarrow>
               if GetHMSType X (ps_XName ps) = CabinetPDUPowerConnector
               then (case comp_HSMData cmp of
                       None \<Rightarrow> None
                     | Some hsm \<Rightarrow>
                         if \<not> Contains (hd_RfFQDN hsm) ''rts''
                         then let outlet = SplitChar (ps_XName ps) CHR ''v'' in
                           if length outlet < 2
                           then Some ([], Some (''Could not get outlet number from '' @ ps_XName ps))
                           else Some (''{'' @ dq @ ''OutletNumber'' @ dq @ '':'' @ outlet ! 1 @ '','' @ dq @ ''StartupState'' @ dq @
                                  '':'' @ dq @ ''on'' @ dq @ '','' @ dq @ ''Outletname'' @ dq @ '':'' @ dq @ ''OUTLET'' @ outlet ! 1 @
                                  dq @ '','' @ dq @ ''OnDelay'' @ dq @ '':0,'' @ dq @ ''OffDelay'' @ dq @ '':0,'' @ dq @
                                  ''RebootDelay'' @ dq @ '':5,'' @ dq @ ''OutletStatus'' @ dq @ '':'' @ dq @ ToLower resetType @
                                  dq @ ''}'', None)
                         else Some (''{'' @ dq @ ''PowerState'' @ dq @ '': '' @ dq @ resetType @ dq @ ''}'', None))
               else Some (''{'' @ dq @ ''ResetType'' @ dq @ '': '' @ dq @ resetType @ dq @ ''}'', None)))"

subsection \<open>Dependent components\<close>

text \<open>
  The scan of the power supplies: whether the component keeps power from outside the request, and
  otherwise the last supply of the request that is on (the empty name if none).
\<close>

fun scan_supplies :: "xname_map \<Rightarrow> PowerSupply list \<Rightarrow> xname \<Rightarrow> bool \<times> xname" where
  "scan_supplies xnameMap [] failSupplyXname = (False, failSupplyXname)"
| "scan_supplies xnameMap (supply # sups) failSupplyXname =
     (if map_of xnameMap (sup_ID supply) = None \<and> sup_State supply = PowerStateFilter_On
      then (True, failSupplyXname)
      else if sup_State supply = PowerStateFilter_On then scan_supplies xnameMap sups (sup_ID supply)
      else scan_supplies xnameMap sups failSupplyXname)"

definition dependents :: "xnametypes \<Rightarrow> xname_map \<Rightarrow> string \<Rightarrow> xname \<Rightarrow> xname list" where
  "dependents X xnameMap powerAction xn =
     (if powerAction = ''gracefulshutdown'' \<and> GetHMSType X xn = Node
      then let parent = GetHMSCompParent X (GetHMSCompParent X xn);
               supply = (case map_of xnameMap xn of
                 None \<Rightarrow> []
               | Some cmp \<Rightarrow>
                   let (willHavePower, failSupplyXname) = scan_supplies xnameMap (comp_PowerSupplies cmp) []
                   in if \<not> willHavePower \<and> failSupplyXname \<noteq> [] then [failSupplyXname] else [])
           in parent # supply
      else [])"

definition fail_dependent :: "'w DOMAIN_GLOBALS \<Rightarrow> string \<Rightarrow> xname \<Rightarrow> xname_map \<times> 'w \<Rightarrow> xname_map \<times> 'w" where
  "fail_dependent G errMsg parent s =
     (let (xnameMap, w) = s in
      case map_of xnameMap parent of
        None \<Rightarrow> s
      | Some pComp \<Rightarrow>
          let pComp = upd_task (fail_task errMsg errMsg) pComp
          in (AList.update parent pComp xnameMap, store_task G (comp_Task pComp) w))"

definition failDependentComps :: "'w DOMAIN_GLOBALS \<Rightarrow> xname_map \<Rightarrow> string \<Rightarrow> xname \<Rightarrow> string
    \<Rightarrow> ('w, xname_map) io" where
  "failDependentComps G xnameMap powerAction xn errMsg w =
     fold (fail_dependent G errMsg) (dependents (g_XN G) xnameMap powerAction xn) (xnameMap, w)"

subsection \<open>Well-formed component maps\<close>

definition wf_comps :: "xname_map \<Rightarrow> bool" where
  "wf_comps m \<longleftrightarrow> distinct (map fst m) \<and> (\<forall>x c. map_of m x = Some c \<longrightarrow> tt_Xname (comp_Task c) = x)"

lemma wf_comps_Nil [simp]: "wf_comps []"
  by (simp add: wf_comps_def)

lemma wf_comps_update: "wf_comps m \<Longrightarrow> tt_Xname (comp_Task c) = x \<Longrightarrow> wf_comps (AList.update x c m)"
  by (auto simp: wf_comps_def distinct_update)

lemma wf_comps_fold:
  "wf_comps m \<Longrightarrow> wf_comps (fold (\<lambda>task m. AList.update (tt_Xname task) (new_comp task) m) tasks m)"
  by (rule fold_inv_rule) (auto intro: wf_comps_update simp: new_comp_def)

lemma new_comp_sel [simp]: "comp_Task (new_comp t) = t" "comp_ActionCount (new_comp t) = 0" "comp_PState (new_comp t) = None"
  "comp_Actions (new_comp t) = []" "comp_HSMData (new_comp t) = None"
  by (simp_all add: new_comp_def)

lemma vet_task_sel [simp]:
  "tt_Xname (vet_task X loc t) = loc_Xname loc" "tt_TaskID (vet_task X loc t) = tt_TaskID t"
  "tt_TransitionID (vet_task X loc t) = tt_TransitionID t" "tt_Operation (vet_task X loc t) = tt_Operation t"
  "tt_DeputyKey (vet_task X loc t) = loc_DeputyKey loc" "tt_State (vet_task X loc t) = tt_State t"
  by (simp_all add: vet_task_def Let_def)

lemma vet_task_status:
  "tt_Status t = TransitionTaskStatusNew \<Longrightarrow>
     tt_Status (vet_task X loc t) =
       (if power_comp_type (GetHMSType X (loc_Xname loc)) then TransitionTaskStatusNew
        else if GetHMSType X (loc_Xname loc) = HMSTypeInvalid then TransitionTaskStatusFailed
        else TransitionTaskStatusUnsupported)"
  by (simp add: vet_task_def Let_def)

text \<open>
  What the loop over the locations keeps: the map is well-formed, the listed names are the unfinished
  components, and the transition lists the IDs of all tasks.
\<close>

definition setup_inv :: "xname_map \<times> xname list \<times> Transition \<Rightarrow> bool" where
  "setup_inv s \<longleftrightarrow> (case s of (m, xs, tr) \<Rightarrow>
     wf_comps m \<and> set xs = {x. \<exists>c. map_of m x = Some c \<and> unfinished (comp_Task c)} \<and> distinct xs \<and>
     (\<forall>x c. map_of m x = Some c \<longrightarrow> tt_TaskID (comp_Task c) \<in> set (tr_TaskIDs tr)))"

lemma setup_old_inv: "setup_inv (setup_old tasks tr)"
proof -
  define m where "m = fold (\<lambda>task m. AList.update (tt_Xname task) (new_comp task) m) tasks []"
  have wf: "wf_comps m" unfolding m_def by (rule wf_comps_fold) simp
  let ?xs = "map (\<lambda>(_, cmp). tt_Xname (comp_Task cmp)) (filter (\<lambda>(_, cmp). unfinished (comp_Task cmp)) m)"
  have dm: "distinct (map fst m)" using wf by (simp add: wf_comps_def)
  have key: "tt_Xname (comp_Task c) = x" if "(x, c) \<in> set m" for x c
    using that wf by (auto simp: wf_comps_def)
  then have xs: "?xs = map fst (filter (\<lambda>(_, cmp). unfinished (comp_Task cmp)) m)"
    by auto
  have mem: "(x, c) \<in> set m \<longleftrightarrow> map_of m x = Some c" for x c using dm by simp
  have "set ?xs = {x. \<exists>c. map_of m x = Some c \<and> unfinished (comp_Task c)}"
    unfolding xs by (force simp: mem [symmetric])
  moreover have "distinct ?xs" unfolding xs using dm by (simp add: distinct_map_filter)
  moreover have "tt_TaskID (comp_Task c) \<in> set (tr_TaskIDs tr @ map (\<lambda>(_, cmp). tt_TaskID (comp_Task cmp))
      (filter (\<lambda>(_, cmp). tt_TaskID (comp_Task cmp) \<notin> set (tr_TaskIDs tr)) m))" if "map_of m x = Some c" for x c
    using that by (force simp: mem [symmetric])
  ultimately show ?thesis
    using wf by (simp add: setup_inv_def setup_old_def Let_def m_def [symmetric])
qed

lemma setup_loc_inv:
  assumes "setup_inv (m, xs, tr)" and "setup_loc G loc (m, xs, tr, w) = (m', xs', tr', w')"
  shows "setup_inv (m', xs', tr') \<and> map_of m' (loc_Xname loc) \<noteq> None \<and>
    (\<forall>x c. map_of m x = Some c \<longrightarrow> map_of m' x = Some c) \<and> tr_TransitionID tr' = tr_TransitionID tr \<and>
    tr_Operation tr' = tr_Operation tr \<and> (\<forall>x. map_of m' x \<noteq> None \<longrightarrow> map_of m x \<noteq> None \<or> x = loc_Xname loc)"
proof (cases "map_of m (loc_Xname loc)")
  case (Some c)
  then show ?thesis using assms by (auto simp: setup_loc_def)
next
  case None
  obtain t w1 where n: "NewTransitionTask (g_RT G) (tr_TransitionID tr) (tr_Operation tr) w = (t, w1)" by fastforce
  then have new: "tt_Status t = TransitionTaskStatusNew" by (auto simp: NewTransitionTask_def Let_def split: prod.splits)
  have st: "tt_Status (vet_task (g_XN G) loc t) = TransitionTaskStatusNew \<longleftrightarrow> unfinished (vet_task (g_XN G) loc t)"
    using vet_task_status [OF new] by (simp add: unfinished_def)
  have "loc_Xname loc \<notin> set xs" using assms(1) None by (auto simp: setup_inv_def)
  then show ?thesis
    using assms None n st
    by (auto simp: setup_loc_def setup_inv_def Let_def intro!: wf_comps_update split: if_splits)
qed

lemma setup_locs:
  assumes "setup_inv (m, xs, tr)" and "fold (setup_loc G) locs (m, xs, tr, w) = (m', xs', tr', w')"
  shows "setup_inv (m', xs', tr') \<and> loc_Xname ` set locs \<subseteq> dom (map_of m') \<and>
    (\<forall>x c. map_of m x = Some c \<longrightarrow> map_of m' x = Some c) \<and> tr_TransitionID tr' = tr_TransitionID tr \<and>
    tr_Operation tr' = tr_Operation tr \<and> (\<forall>x. map_of m' x \<noteq> None \<longrightarrow> map_of m x \<noteq> None \<or> x \<in> loc_Xname ` set locs)"
  using assms
proof (induction locs arbitrary: m xs tr w)
  case Nil
  then show ?case by auto
next
  case (Cons loc locs)
  obtain m1 xs1 tr1 w1 where s: "setup_loc G loc (m, xs, tr, w) = (m1, xs1, tr1, w1)" by (metis surj_pair)
  note l = setup_loc_inv [OF Cons.prems(1) s]
  have "fold (setup_loc G) locs (m1, xs1, tr1, w1) = (m', xs', tr', w')" using Cons.prems(2) s by simp
  from Cons.IH [OF _ this] l have ih: "setup_inv (m', xs', tr')" "loc_Xname ` set locs \<subseteq> dom (map_of m')"
    "\<And>x c. map_of m1 x = Some c \<Longrightarrow> map_of m' x = Some c" "tr_TransitionID tr' = tr_TransitionID tr1"
    "tr_Operation tr' = tr_Operation tr1"
    "\<And>x. map_of m' x \<noteq> None \<Longrightarrow> map_of m1 x \<noteq> None \<or> x \<in> loc_Xname ` set locs" by blast+
  obtain c where "map_of m1 (loc_Xname loc) = Some c" using l by blast
  then have "loc_Xname loc \<in> dom (map_of m')" using ih(3) by blast
  moreover have "map_of m x \<noteq> None \<or> x \<in> loc_Xname ` set (loc # locs)" if "map_of m' x \<noteq> None" for x
    using ih(6) [OF that] l by auto
  ultimately show ?case using ih(1-5) l by simp
qed


subsection \<open>What the planned actions achieve\<close>

text \<open>The power state an action leaves behind, and the state each operation is to end in.\<close>

definition action_effect :: "string \<Rightarrow> PowerStateFilter \<Rightarrow> PowerStateFilter" where
  "action_effect a psf =
     (if a = ''gracefulshutdown'' \<or> a = ''forceoff'' then PowerStateFilter_Off
      else if a = ''on'' \<or> a = ''gracefulrestart'' then PowerStateFilter_On else psf)"

fun target_state :: "Operation \<Rightarrow> PowerStateFilter" where
  "target_state Operation_Nil = PowerStateFilter_Nil"
| "target_state Operation_On = PowerStateFilter_On"
| "target_state Operation_Off = PowerStateFilter_Off"
| "target_state Operation_SoftOff = PowerStateFilter_Off"
| "target_state Operation_ForceOff = PowerStateFilter_Off"
| "target_state Operation_SoftRestart = PowerStateFilter_On"
| "target_state Operation_HardRestart = PowerStateFilter_On"
| "target_state Operation_Init = PowerStateFilter_On"

lemmas seq_case_defs = seq_On_def seq_Off_def seq_ForceOff_def seq_HardRestart_def seq_SoftRestart_def
  seq_Init_def resume_on_def succeed_def add_actions_def

lemma task_update_sel [simp]:
  "comp_Task (add_actions n c) = comp_Task c" "comp_ActionCount (add_actions n c) = comp_ActionCount c + n"
  "comp_ActionCount (succeed d c) = comp_ActionCount c" "tt_Status (comp_Task (succeed d c)) = TransitionTaskStatusSucceeded"
  "\<not> unfinished (comp_Task (succeed d c))" "tt_Xname (comp_Task (succeed d c)) = tt_Xname (comp_Task c)"
  "tt_ReservationKey (comp_Task (succeed d c)) = tt_ReservationKey (comp_Task c)"
  by (simp_all add: add_actions_def succeed_def unfinished_def)

lemma unfinished_state [simp]: "unfinished (t\<lparr>tt_State := s\<rparr>) = unfinished t" "unfinished (t\<lparr>tt_StatusDesc := d\<rparr>) = unfinished t"
  by (simp_all add: unfinished_def)

text \<open>The four actions a component can be listed under.\<close>

abbreviation seq_action_names :: "string list" where
  "seq_action_names \<equiv> [''on'', ''gracefulshutdown'', ''forceoff'', ''gracefulrestart'']"

lemma seq_actions_count:
  assumes "seq_actions X m op xn cmp psf = Some (cmp', acts)"
  shows "comp_ActionCount cmp' = comp_ActionCount cmp + int (length acts) \<and> distinct acts \<and>
    set acts \<subseteq> set seq_action_names \<and> tt_Xname (comp_Task cmp') = tt_Xname (comp_Task cmp) \<and>
    (acts \<noteq> [] \<longrightarrow> unfinished (comp_Task cmp) \<longrightarrow> unfinished (comp_Task cmp'))"
  using assms
  by (cases op)
    (auto simp: seq_actions_def seq_On_def seq_Off_def seq_ForceOff_def seq_HardRestart_def seq_SoftRestart_def
       seq_Init_def resume_on_def Let_def split: if_splits Option.bind_splits)

lemma seq_actions_target:
  assumes "seq_actions X m op xn cmp psf = Some (cmp', acts)" and "op \<noteq> Operation_Nil"
    and "unfinished (comp_Task cmp)"
  shows "(acts \<noteq> [] \<longrightarrow> fold action_effect acts psf = target_state op) \<and>
    (tt_Status (comp_Task cmp') = TransitionTaskStatusSucceeded \<longrightarrow> psf = target_state op) \<and>
    (acts = [] \<and> unfinished (comp_Task cmp') \<longleftrightarrow>
       op = Operation_HardRestart \<and> psf \<noteq> PowerStateFilter_On \<and> tt_State (comp_Task cmp) \<noteq> TaskState_GatherData \<and>
       tt_Operation (comp_Task cmp) \<notin> {Operation_On, Operation_Off, Operation_ForceOff})"
  using assms
  by (cases op)
    (auto simp: seq_actions_def seq_On_def seq_Off_def seq_ForceOff_def seq_HardRestart_def seq_SoftRestart_def
       seq_Init_def resume_on_def Let_def action_effect_def unfinished_def split: if_splits Option.bind_splits)

subsection \<open>The plan as a whole\<close>

text \<open>
  How often a component is listed, over all actions; and what holds after the components \<open>D\<close> of the
  original map \<open>m0\<close> have been planned.
\<close>

definition listed :: "seq_map \<Rightarrow> HMSType \<Rightarrow> xname \<Rightarrow> nat" where
  "listed seq ty xn = sum_list (map (\<lambda>a. count_list (seq a ty) xn) seq_action_names)"

definition plan_inv :: "xnametypes \<Rightarrow> xname_map \<Rightarrow> xname set \<Rightarrow> xname_map \<times> seq_map \<times> ReservationData list \<Rightarrow> bool" where
  "plan_inv X m0 D s \<longleftrightarrow> (case s of (m, seq, res) \<Rightarrow>
     map fst m = map fst m0 \<and> wf_comps m \<and>
     (\<forall>xn. xn \<notin> D \<longrightarrow> map_of m xn = map_of m0 xn \<and> listed seq (GetHMSType X xn) xn = 0) \<and>
     (\<forall>a ty xn. xn \<in> set (seq a ty) \<longrightarrow> ty = GetHMSType X xn \<and> a \<in> set seq_action_names \<and> xn \<in> rd_XName ` set res \<and>
        (\<exists>c. map_of m xn = Some c \<and> unfinished (comp_Task c))) \<and>
     (\<forall>xn c0 c. xn \<in> D \<longrightarrow> map_of m0 xn = Some c0 \<longrightarrow> map_of m xn = Some c \<longrightarrow>
        comp_ActionCount c = comp_ActionCount c0 + int (listed seq (GetHMSType X xn) xn) \<and>
        (\<not> unfinished (comp_Task c0) \<longrightarrow> c = c0) \<and>
        (unfinished (comp_Task c) \<longrightarrow> unfinished (comp_Task c0) \<and> xn \<in> rd_XName ` set res)) \<and>
     distinct (map rd_XName res) \<and> rd_XName ` set res \<subseteq> D)"

lemma seq_add_apply: "seq_add a ty xn seq b ty' = seq b ty' @ (if b = a \<and> ty' = ty then [xn] else [])"
  by (simp add: seq_add_def)

lemma fold_seq_add:
  "distinct acts \<Longrightarrow> fold (\<lambda>a. seq_add a ty xn) acts seq b ty' = seq b ty' @ (if b \<in> set acts \<and> ty' = ty then [xn] else [])"
  by (induction acts arbitrary: seq) (auto simp: seq_add_apply)

lemma listed_add_other: "xn' \<noteq> xn \<Longrightarrow> distinct acts \<Longrightarrow> listed (fold (\<lambda>a. seq_add a ty xn) acts seq) ty' xn' = listed seq ty' xn'"
  by (simp add: listed_def fold_seq_add)

lemma listed_add:
  assumes "distinct acts" and "set acts \<subseteq> set seq_action_names"
  shows "listed (fold (\<lambda>a. seq_add a ty xn) acts seq) ty xn = listed seq ty xn + length acts"
proof -
  have "listed (fold (\<lambda>a. seq_add a ty xn) acts seq) ty xn =
      listed seq ty xn + sum_list (map (\<lambda>a. if a \<in> set acts then 1 else 0) seq_action_names)"
    by (simp add: listed_def fold_seq_add assms(1))
  also have "sum_list (map (\<lambda>a. if a \<in> set acts then 1 else 0) seq_action_names) = card (set acts \<inter> set seq_action_names)"
    by (simp add: Int_insert_right)
  also have "\<dots> = length acts" using assms by (simp add: Int_absorb2 distinct_card)
  finally show ?thesis .
qed

lemma plan_step:
  assumes I: "plan_inv X m0 D (m, seq, res)" and xn: "xn \<notin> D" "xn \<in> set (map fst m0)" "map_of m xn = Some c"
    and acts: "comp_ActionCount c' = comp_ActionCount c + int (length acts)" "distinct acts"
      "set acts \<subseteq> set seq_action_names" "acts \<noteq> [] \<longrightarrow> unfinished (comp_Task c')"
    and c': "tt_Xname (comp_Task c') = xn" "\<not> unfinished (comp_Task c) \<longrightarrow> c' = c"
      "unfinished (comp_Task c') \<longrightarrow> unfinished (comp_Task c) \<and> xn \<in> rd_XName ` set res'"
    and res': "res' = res \<or> (\<exists>r. rd_XName r = xn \<and> res' = res @ [r])"
  shows "plan_inv X m0 (insert xn D) (AList.update xn c' m, fold (\<lambda>a. seq_add a (GetHMSType X xn) xn) acts seq, res')"
proof -
  let ?seq = "fold (\<lambda>a. seq_add a (GetHMSType X xn) xn) acts seq" and ?m = "AList.update xn c' m"
  note J1 = I [unfolded plan_inv_def prod.case]
  note J2 = J1 [THEN conjunct2, THEN conjunct2]
  note J3 = J2 [THEN conjunct2, THEN conjunct2]
  note keys = J1 [THEN conjunct1] and wf = J1 [THEN conjunct2, THEN conjunct1]
    and notD = J2 [THEN conjunct1, rule_format] and mem = J2 [THEN conjunct2, THEN conjunct1, rule_format]
    and inD = J3 [THEN conjunct1, THEN spec, THEN spec, THEN spec, THEN mp, THEN mp, THEN mp]
    and dist = J3 [THEN conjunct2, THEN conjunct1] and sub = J3 [THEN conjunct2, THEN conjunct2]
  have more: "rd_XName ` set res \<subseteq> rd_XName ` set res'" using res' by auto
  have notin: "xn \<notin> set (seq a ty)" for a ty using mem [of xn a ty] sub xn(1) by blast
  have keys': "map fst ?m = map fst m0" using keys xn(2) update_same_keys [of xn m c'] by simp
  have wf': "wf_comps ?m" by (rule wf_comps_update [OF wf c'(1)])
  have other: "map_of ?m y = map_of m y \<and> listed ?seq ty y = listed seq ty y" if "y \<noteq> xn" for y ty
    using that acts(2) by (simp add: listed_add_other)
  have here: "listed ?seq (GetHMSType X xn) xn = length acts"
    using listed_add [OF acts(2,3)] notD [OF xn(1)] by simp
  have mem': "ty = GetHMSType X y \<and> a \<in> set seq_action_names \<and> y \<in> rd_XName ` set res' \<and>
      (\<exists>c. map_of ?m y = Some c \<and> unfinished (comp_Task c))" if "y \<in> set (?seq a ty)" for a ty y
  proof (cases "y = xn")
    case True
    then have "a \<in> set acts" "ty = GetHMSType X xn" using that notin acts(2) by (auto simp: fold_seq_add split: if_splits)
    then show ?thesis using True acts(3,4) c'(3) by auto
  next
    case False
    then have "y \<in> set (seq a ty)" using that acts(2) by (auto simp: fold_seq_add split: if_splits)
    then show ?thesis using mem [of y a ty] more False by auto
  qed
  have inD': "comp_ActionCount d = comp_ActionCount c0 + int (listed ?seq (GetHMSType X y) y) \<and>
      (\<not> unfinished (comp_Task c0) \<longrightarrow> d = c0) \<and>
      (unfinished (comp_Task d) \<longrightarrow> unfinished (comp_Task c0) \<and> y \<in> rd_XName ` set res')"
    if "y \<in> insert xn D" "map_of m0 y = Some c0" "map_of ?m y = Some d" for y c0 d
  proof (cases "y = xn")
    case True
    then have "d = c'" "c0 = c" using that notD [OF xn(1)] xn(3) by auto
    then show ?thesis using True here acts(1) c'(2,3) by simp
  next
    case False
    then show ?thesis using that inD [of y c0 d] other more by auto
  qed
  have notD': "map_of ?m y = map_of m0 y \<and> listed ?seq (GetHMSType X y) y = 0" if "y \<notin> insert xn D" for y
    using that notD [of y] other [of y] by simp
  have res: "distinct (map rd_XName res')" "rd_XName ` set res' \<subseteq> insert xn D"
    using res' dist sub xn(1) by (auto simp: image_subset_iff)
  show ?thesis
    unfolding plan_inv_def prod.case
    by (rule conjI, rule keys', rule conjI, rule wf', rule conjI, intro allI impI, erule notD',
        rule conjI, intro allI impI, erule mem', rule conjI, intro allI impI, erule (2) inD', intro conjI, (rule res)+)
qed

lemma new_reservation_name [simp]: "rd_XName (new_reservation xn t) = xn"
  by (simp add: new_reservation_def)

lemma sequence_comp_inv:
  assumes I: "plan_inv (g_XN G) m0 D (m, seq, res)" and xn: "xn \<notin> D" "xn \<in> set (map fst m0)"
    and run: "sequence_comp G op xn (m, seq, res, w) = Some (m', seq', res', w')"
  shows "plan_inv (g_XN G) m0 (insert xn D) (m', seq', res')"
proof -
  have keys: "map fst m = map fst m0" and wf: "wf_comps m" using I by (simp_all add: plan_inv_def)
  then have "map_of m xn \<noteq> None" using xn(2) by (simp add: map_of_None_keys)
  then obtain c where c: "map_of m xn = Some c" by auto
  have name: "tt_Xname (comp_Task c) = xn" using wf c by (simp add: wf_comps_def)
  note step = plan_step [OF I xn c]
  show ?thesis
  proof (cases "unfinished (comp_Task c)")
    case False
    have "plan_inv (g_XN G) m0 (insert xn D) (AList.update xn c m, fold (\<lambda>a. seq_add a (GetHMSType (g_XN G) xn) xn) [] seq, res')"
      by (rule step) (use run c False name in \<open>auto simp: sequence_comp_def split: if_splits\<close>)
    moreover have "AList.update xn c m = m"
      using c wf by (metis map_of_SomeD update_triv wf_comps_def) 
    ultimately show ?thesis using run c False by (simp add: sequence_comp_def)
  next
    case True
    then obtain ps opname where ps: "comp_PState c = Some ps" "Operation_String op = Some opname"
      using run c by (auto simp: sequence_comp_def split: option.splits)
    show ?thesis
    proof (cases "opname \<in> set (ps_SupportedPowerTransitions ps)")
      case False
      let ?c = "upd_task (\<lambda>t. t\<lparr>tt_Status := TransitionTaskStatusUnsupported,
                         tt_StatusDesc := ''Component does not support the specified transition operation, '' @ opname,
                         tt_Error := ''Unsupported for transition operation''\<rparr>) c"
      have "plan_inv (g_XN G) m0 (insert xn D) (AList.update xn ?c m, fold (\<lambda>a. seq_add a (GetHMSType (g_XN G) xn) xn) [] seq, res)"
        by (rule step) (use True name in \<open>auto simp: unfinished_def\<close>)
      then show ?thesis using run c True ps False by (simp add: sequence_comp_def Let_def)
    next
      case sup: True
      obtain c' acts where sa: "seq_actions (g_XN G) m op xn c (fst (ToPowerStateFilter (ps_PowerState ps))) = Some (c', acts)"
        and res': "res' = (if unfinished (comp_Task c') \<or> tt_ReservationKey (comp_Task c') \<noteq> []
                           then res @ [new_reservation xn (comp_Task c')] else res)"
        and out: "m' = AList.update xn c' m" "seq' = fold (\<lambda>a. seq_add a (GetHMSType (g_XN G) xn) xn) acts seq"
        using run c True ps sup by (auto simp: sequence_comp_def Let_def split: Option.bind_splits)
      note cnt = seq_actions_count [OF sa]
      show ?thesis unfolding out
        by (rule step) (use cnt True name res' in auto)
    qed
  qed
qed

lemma sequence_fold_inv:
  assumes "plan_inv (g_XN G) m0 D (m, seq, res)" and "distinct xs" and "set xs \<inter> D = {}" and "set xs \<subseteq> set (map fst m0)"
    and "foldM (sequence_comp G op) xs (m, seq, res, w) = Some (m', seq', res', w')"
  shows "plan_inv (g_XN G) m0 (D \<union> set xs) (m', seq', res')"
  using assms
proof (induction xs arbitrary: D m seq res w)
  case Nil
  then show ?case by simp
next
  case (Cons x xs)
  obtain m1 seq1 res1 w1 where s: "sequence_comp G op x (m, seq, res, w) = Some (m1, seq1, res1, w1)"
    and r: "foldM (sequence_comp G op) xs (m1, seq1, res1, w1) = Some (m', seq', res', w')"
    using Cons.prems(5) by (auto split: Option.bind_splits)
  have "plan_inv (g_XN G) m0 (insert x D) (m1, seq1, res1)"
    by (rule sequence_comp_inv [OF Cons.prems(1) _ _ s]) (use Cons.prems(3,4) in auto)
  from Cons.IH [OF this _ _ _ r] Cons.prems(2-4) show ?case by auto
qed

lemma plan_inv_start: "wf_comps m \<Longrightarrow> plan_inv X m {} (m, \<lambda>_ _. [], [])"
  by (simp add: plan_inv_def listed_def)

lemma sequenceComponents_inv:
  assumes "wf_comps m" and "sequenceComponents G op m w = Some (m', seq, res, w')"
  shows "plan_inv (g_XN G) m (set (map fst m)) (m', seq, res)"
  using sequence_fold_inv [OF plan_inv_start [OF assms(1)], of "map fst m" G op w m' seq res w'] assms
  by (simp add: sequenceComponents_def wf_comps_def)

subsection \<open>The search for a requested ancestor\<close>

text \<open>An ancestor that was requested too, reached through valid names.\<close>

definition requested_ancestor :: "xnametypes \<Rightarrow> xname_map \<Rightarrow> xname \<Rightarrow> bool" where
  "requested_ancestor X m i \<longleftrightarrow> (\<exists>n. map_of m (ancestor X n i) \<noteq> None \<and>
     (\<forall>k \<le> n. GetHMSType X (ancestor X k i) \<noteq> HMSTypeInvalid))"

lemma parent_loop_result:
  assumes "parent_loop X m i b = Some r"
  shows "r = b \<and> \<not> requested_ancestor X m i"
proof (induction rule: parent_loop.raw_induct [OF _ assms, of "\<lambda>X m i b r. r = b \<and> \<not> requested_ancestor X m i"])
  case (1 rec X m i b r)
  show ?case
  proof (cases "GetHMSType X i = HMSTypeInvalid")
    case True
    then have "\<not> requested_ancestor X m i"
      unfolding requested_ancestor_def using ancestor_0 by (metis le0)
    then show ?thesis using 1(2) True by simp
  next
    case valid: False
    show ?thesis
    proof (cases "map_of m i")
      case None
      then have "rec X m (GetHMSCompParent X i) b = Some r" using 1(2) valid by simp
      then have ih: "r = b" "\<not> requested_ancestor X m (GetHMSCompParent X i)" using 1(1) by blast+
      have "\<not> requested_ancestor X m i"
      proof
        assume "requested_ancestor X m i"
        then obtain n where n: "map_of m (ancestor X n i) \<noteq> None" "\<forall>k \<le> n. GetHMSType X (ancestor X k i) \<noteq> HMSTypeInvalid"
          by (auto simp: requested_ancestor_def)
        then obtain k where "n = Suc k" using None by (cases n) auto
        then have "requested_ancestor X m (GetHMSCompParent X i)"
          using n by (auto simp: requested_ancestor_def ancestor_Suc intro!: exI [of _ k])
        then show False using ih by simp
      qed
      then show ?thesis using ih by simp
    next
      case (Some p)
      then obtain b' where b': "rec X m i b' = Some r" using 1(2) valid by auto
      then have "\<not> requested_ancestor X m i" using 1(1) by blast
      moreover have "requested_ancestor X m i"
        using Some valid by (auto simp: requested_ancestor_def intro!: exI [of _ 0])
      ultimately show ?thesis by simp
    qed
  qed
qed

lemma parent_loop_returns:
  assumes "GetHMSType X (ancestor X n i) = HMSTypeInvalid" and "\<not> requested_ancestor X m i"
  shows "parent_loop X m i b = Some b"
  using assms
proof (induction n arbitrary: i)
  case 0
  then show ?case by (subst parent_loop.simps) simp
next
  case (Suc n)
  show ?case
  proof (cases "GetHMSType X i = HMSTypeInvalid")
    case True
    then show ?thesis by (subst parent_loop.simps) simp
  next
    case False
    have none: "map_of m i = None"
    proof (rule ccontr)
      assume "map_of m i \<noteq> None"
      then have "requested_ancestor X m i"
        using False by (auto simp: requested_ancestor_def intro!: exI [of _ 0])
      then show False using Suc.prems(2) by simp
    qed
    have "\<not> requested_ancestor X m (GetHMSCompParent X i)"
    proof
      assume "requested_ancestor X m (GetHMSCompParent X i)"
      then obtain k where k: "map_of m (ancestor X (Suc k) i) \<noteq> None"
        "\<forall>j \<le> k. GetHMSType X (ancestor X (Suc j) i) \<noteq> HMSTypeInvalid"
        by (auto simp: requested_ancestor_def ancestor_Suc)
      have "GetHMSType X (ancestor X j i) \<noteq> HMSTypeInvalid" if "j \<le> Suc k" for j
        using that k(2) False by (cases j) auto
      then show False using k(1) Suc.prems(2) unfolding requested_ancestor_def by blast
    qed
    then have "parent_loop X m (GetHMSCompParent X i) b = Some b"
      using Suc.IH Suc.prems(1) by (simp add: ancestor_Suc)
    then show ?thesis using False none by (subst parent_loop.simps) simp
  qed
qed

lemma seq_actions_total:
  assumes "op = Operation_SoftRestart \<longrightarrow>
      (\<exists>n. GetHMSType X (ancestor X n (GetHMSCompParent X xn)) = HMSTypeInvalid) \<and>
      \<not> requested_ancestor X m (GetHMSCompParent X xn)"
  shows "\<exists>r. seq_actions X m op xn cmp psf = Some r"
proof (cases "op = Operation_SoftRestart")
  case True
  then have "parent_loop X m (GetHMSCompParent X xn) True = Some True"
    using assms parent_loop_returns by blast
  then show ?thesis using True by (simp add: seq_actions_def seq_SoftRestart_def Let_def split: option.splits)
next
  case False
  then show ?thesis by (cases op) (simp_all add: seq_actions_def)
qed

lemma requested_ancestor_keys: "set (map fst m) = set (map fst m') \<Longrightarrow> requested_ancestor X m i = requested_ancestor X m' i"
  by (simp add: requested_ancestor_def map_of_None_keys)

lemma sequence_comp_total:
  assumes "op \<noteq> Operation_Nil"
    and "\<And>c. map_of m xn = Some c \<Longrightarrow> unfinished (comp_Task c) \<Longrightarrow> comp_PState c \<noteq> None"
    and "op = Operation_SoftRestart \<longrightarrow>
      (\<exists>n. GetHMSType (g_XN G) (ancestor (g_XN G) n (GetHMSCompParent (g_XN G) xn)) = HMSTypeInvalid) \<and>
      \<not> requested_ancestor (g_XN G) m (GetHMSCompParent (g_XN G) xn)"
  shows "\<exists>m' seq' res' w'. sequence_comp G op xn (m, seq, res, w) = Some (m', seq', res', w') \<and>
    (m' = m \<or> xn \<in> set (map fst m) \<and> (\<exists>c. m' = AList.update xn c m))"
proof (cases "map_of m xn")
  case None
  then show ?thesis by (auto simp: sequence_comp_def)
next
  case (Some c)
  then have mem: "xn \<in> set (map fst m)" by (rule map_of_mem_keys)
  show ?thesis
  proof (cases "unfinished (comp_Task c)")
    case False
    then show ?thesis using Some by (auto simp: sequence_comp_def)
  next
    case True
    obtain ps where ps: "comp_PState c = Some ps" using assms(2) Some True by auto
    obtain opname where opn: "Operation_String op = Some opname" using assms(1) Operation_String_defined by auto
    obtain c' acts where "seq_actions (g_XN G) m op xn c (fst (ToPowerStateFilter (ps_PowerState ps))) = Some (c', acts)"
      using seq_actions_total [OF assms(3)] by (metis surj_pair)
    then show ?thesis
      using Some True ps opn mem
      by (cases "opname \<in> set (ps_SupportedPowerTransitions ps)") (auto simp: sequence_comp_def Let_def)
  qed
qed


lemma sequence_fold_total:
  assumes "op \<noteq> Operation_Nil" and "distinct xs"
    and "\<And>xn c. xn \<in> set xs \<Longrightarrow> map_of m xn = Some c \<Longrightarrow> unfinished (comp_Task c) \<Longrightarrow> comp_PState c \<noteq> None"
    and "\<And>xn. xn \<in> set xs \<Longrightarrow> op = Operation_SoftRestart \<Longrightarrow>
      (\<exists>n. GetHMSType (g_XN G) (ancestor (g_XN G) n (GetHMSCompParent (g_XN G) xn)) = HMSTypeInvalid) \<and>
      \<not> requested_ancestor (g_XN G) m (GetHMSCompParent (g_XN G) xn)"
  shows "\<exists>s. foldM (sequence_comp G op) xs (m, seq, res, w) = Some s"
  using assms(2-4)
proof (induction xs arbitrary: m seq res w)
  case Nil
  then show ?case by simp
next
  case (Cons x xs)
  obtain m1 seq1 res1 w1 where s: "sequence_comp G op x (m, seq, res, w) = Some (m1, seq1, res1, w1)"
    and m1: "m1 = m \<or> x \<in> set (map fst m) \<and> (\<exists>c. m1 = AList.update x c m)"
    using sequence_comp_total [OF assms(1), of m x G seq res w] Cons.prems(2) [of x] Cons.prems(3) [of x]
    by (metis list.set_intros(1))
  have same: "map_of m1 y = map_of m y" if "y \<noteq> x" for y using m1 that by auto
  have "set (map fst m1) = set (map fst m)"
    using m1 by (elim disjE conjE exE) (simp_all only: keys_AList_update insert_absorb)
  then have anc: "requested_ancestor (g_XN G) m1 i = requested_ancestor (g_XN G) m i" for i
    by (rule requested_ancestor_keys)
  have "\<exists>s. foldM (sequence_comp G op) xs (m1, seq1, res1, w1) = Some s"
  proof (rule Cons.IH)
    show "distinct xs" using Cons.prems(1) by simp
    show "comp_PState c \<noteq> None" if "xn \<in> set xs" "map_of m1 xn = Some c" "unfinished (comp_Task c)" for xn c
      using Cons.prems(2) [of xn c] that same [of xn] Cons.prems(1) by (cases "xn = x") auto
    show "(\<exists>n. GetHMSType (g_XN G) (ancestor (g_XN G) n (GetHMSCompParent (g_XN G) xn)) = HMSTypeInvalid) \<and>
        \<not> requested_ancestor (g_XN G) m1 (GetHMSCompParent (g_XN G) xn)" if "xn \<in> set xs" "op = Operation_SoftRestart" for xn
      using Cons.prems(3) [of xn] that anc by auto
  qed
  then show ?case using s by simp
qed

subsection \<open>Failing dependent components\<close>

lemma fail_dependent_law:
  assumes "fail_dependent G err p (m, w) = (m', w')"
  shows "map fst m' = map fst m \<and> (\<forall>x. map_of m' x = (if x = p then map_option (upd_task (fail_task err err)) (map_of m x) else map_of m x))"
  using assms update_same_keys [of p m] map_of_mem_keys [of m p]
  by (auto simp: fail_dependent_def Let_def split: option.splits)

lemma fail_dependents_law:
  assumes "fold (fail_dependent G err) ps (m, w) = (m', w')"
  shows "map fst m' = map fst m \<and>
    (\<forall>x. if x \<in> set ps then map_of m' x = map_option (upd_task (fail_task err err)) (map_of m x) else map_of m' x = map_of m x)"
  using assms
proof (induction ps arbitrary: m w)
  case Nil
  then show ?case by simp
next
  case (Cons p ps)
  obtain m1 w1 where s: "fail_dependent G err p (m, w) = (m1, w1)" by fastforce
  have idem: "upd_task (fail_task err err) (upd_task (fail_task err err) c) = upd_task (fail_task err err) c" for c
    by (simp add: upd_task_def fail_task_def)
  have "fold (fail_dependent G err) ps (m1, w1) = (m', w')" using Cons.prems s by simp
  from Cons.IH [OF this] have ih: "map fst m' = map fst m1"
    "\<And>x. map_of m' x = (if x \<in> set ps then map_option (upd_task (fail_task err err)) (map_of m1 x) else map_of m1 x)"
    by metis+
  show ?case
    using fail_dependent_law [OF s] by (auto simp: ih option.map_comp o_def idem)
qed

lemma failDependentComps_law:
  assumes "failDependentComps G m act xn err w = (m', w')"
  shows "map fst m' = map fst m \<and>
    (\<forall>x. map_of m' x = (if x \<in> set (dependents (g_XN G) m act xn)
                        then map_option (upd_task (fail_task err err)) (map_of m x) else map_of m x))"
  using fail_dependents_law [OF assms [unfolded failDependentComps_def]] by metis

subsection \<open>A restart with a requested ancestor\<close>

lemma soft_restart_step_hangs:
  assumes "requested_ancestor (g_XN G) m (GetHMSCompParent (g_XN G) xn)"
    and "map_of m xn = Some c" and "unfinished (comp_Task c)" and "comp_PState c = Some ps"
    and "''Soft-Restart'' \<in> set (ps_SupportedPowerTransitions ps)"
    and "fst (ToPowerStateFilter (ps_PowerState ps)) = PowerStateFilter_On" and "has_action c ''gracefulrestart''"
  shows "sequence_comp G Operation_SoftRestart xn (m, seq, res, w) = None"
proof -
  have "parent_loop (g_XN G) m (GetHMSCompParent (g_XN G) xn) True = None"
    using parent_loop_result assms(1) by (metis option.exhaust)
  then show ?thesis
    using assms by (simp add: sequence_comp_def seq_actions_def seq_SoftRestart_def)
qed

lemma soft_restart_hangs:
  assumes "wf_comps m" and "requested_ancestor (g_XN G) m (GetHMSCompParent (g_XN G) xn)"
    and c: "map_of m xn = Some c" "unfinished (comp_Task c)" "comp_PState c = Some ps"
      "''Soft-Restart'' \<in> set (ps_SupportedPowerTransitions ps)"
      "fst (ToPowerStateFilter (ps_PowerState ps)) = PowerStateFilter_On" "has_action c ''gracefulrestart''"
  shows "sequenceComponents G Operation_SoftRestart m w = None"
proof (rule ccontr)
  assume "sequenceComponents G Operation_SoftRestart m w \<noteq> None"
  moreover obtain xs ys where xy: "map fst m = xs @ xn # ys"
    using map_of_mem_keys [OF c(1)] by (meson split_list)
  ultimately obtain m1 seq1 res1 w1 where pre:
      "foldM (sequence_comp G Operation_SoftRestart) xs (m, (\<lambda>_ _. []), [], w) = Some (m1, seq1, res1, w1)"
    and "sequence_comp G Operation_SoftRestart xn (m1, seq1, res1, w1) \<noteq> None"
    by (auto simp: sequenceComponents_def foldM_append split: Option.bind_splits)
  moreover have "plan_inv (g_XN G) m ({} \<union> set xs) (m1, seq1, res1)"
    by (rule sequence_fold_inv [OF plan_inv_start [OF assms(1)] _ _ _ pre])
      (use assms(1) in \<open>auto simp: wf_comps_def xy\<close>)
  then have keys: "map fst m1 = map fst m" and same: "map_of m1 xn = map_of m xn"
    using xy assms(1) by (auto simp: plan_inv_def wf_comps_def)
  have "requested_ancestor (g_XN G) m1 (GetHMSCompParent (g_XN G) xn)"
    using assms(2) requested_ancestor_keys [of m1 m] by (simp only: keys)
  from soft_restart_step_hangs [OF this, of c ps] same c
  have "sequence_comp G Operation_SoftRestart xn (m1, seq1, res1, w1) = None" by simp
  ultimately show False by simp
qed

subsection \<open>Sample components\<close>

definition sim_ps :: "xname \<Rightarrow> string \<Rightarrow> PowerStatusComponent" where
  "sim_ps x st = \<lparr>ps_XName = x, ps_PowerState = st, ps_ManagementState = ''available'', ps_Error = [],
     ps_SupportedPowerTransitions = [''On'', ''Off'', ''Soft-Restart'', ''Hard-Restart'', ''Init'', ''Force-Off'', ''Soft-Off''],
     ps_LastUpdated = 0\<rparr>"

definition sim_hsm :: "xname \<Rightarrow> HsmData" where
  "sim_hsm x = \<lparr>hd_BaseData = \<lparr>bc_ID = x, bc_Type = [], bc_State = [], bc_Role = [], bc_Class = ''Mountain''\<rparr>,
     hd_RfFQDN = x @ ''.local'', hd_PowerActionURI = ''/Reset'', hd_AllowableActions = [''On'', ''GracefulShutdown'', ''ForceOff''],
     hd_PowerStatusURI = [], hd_Error = None, hd_PowerCapURI = [], hd_PowerCapTargetURI = [], hd_PowerCapControlsCount = 0,
     hd_PowerCapCtlInfoCount = 0, hd_PowerCaps = [], hd_PoweredBy = []\<rparr>"

definition sim_comp :: "nat \<Rightarrow> xname \<Rightarrow> string \<Rightarrow> Operation \<Rightarrow> string list \<Rightarrow> xname \<times> TransitionComponent" where
  "sim_comp k x st op acts = (x, \<lparr>comp_PState = Some (sim_ps x st), comp_HSMData = Some (sim_hsm x),
     comp_PowerSupplies = [], comp_Task = sim_task 7 k x TransitionTaskStatusNew op,
     comp_Actions = map (\<lambda>a. (ToLower a, a)) acts, comp_ActionCount = 0\<rparr>)"

lemma wf_comps_Cons [simp]:
  "wf_comps ((x, c) # m) \<longleftrightarrow> x \<notin> set (map fst m) \<and> tt_Xname (comp_Task c) = x \<and> wf_comps m"
proof (cases "x \<in> set (map fst m)")
  case False
  then have "map_of m x = None" using map_of_mem_keys by (metis option.exhaust)
  then have "(\<forall>y d. map_of ((x, c) # m) y = Some d \<longrightarrow> P y d) \<longleftrightarrow> P x c \<and> (\<forall>y d. map_of m y = Some d \<longrightarrow> P y d)" for P
    by (metis map_of_Cons_code(2) option.distinct(1) option.inject)
  then show ?thesis using False unfolding wf_comps_def by (simp, blast)
qed (simp add: wf_comps_def)

lemma sim_comp_sel [simp]:
  "fst (sim_comp k x st op acts) = x"
  "wf_comps (sim_comp k x st op acts # m) \<longleftrightarrow> x \<notin> set (map fst m) \<and> wf_comps m"
  "map_of (sim_comp k x st op acts # m) y = (if y = x then Some (snd (sim_comp k x st op acts)) else map_of m y)"
  "unfinished (comp_Task (snd (sim_comp k x st op acts)))"
  by (auto simp: sim_comp_def sim_task_def unfinished_def)

subsection \<open>Properties of the plan\<close>

text \<open>How deep a component sits in the cabinet; the order of two elements of the power sequence.\<close>

definition hier_level :: "HMSType \<Rightarrow> nat" where
  "hier_level ty =
     (if ty = Node then 3 else if ty = RouterModule \<or> ty = ComputeModule then 2 else if ty = Chassis then 1 else 0)"

definition off_elem :: "PowerSeqElem \<Rightarrow> bool" where
  "off_elem e \<longleftrightarrow> se_Action e = ''gracefulshutdown'' \<or> se_Action e = ''forceoff''"

definition before :: "PowerSeqElem \<Rightarrow> PowerSeqElem \<Rightarrow> bool" where
  "before e f \<longleftrightarrow>
     (if off_elem e \<and> off_elem f
      then list_all (\<lambda>a. list_all (\<lambda>b. hier_level a > hier_level b \<or> se_CompTypes e = se_CompTypes f \<and>
             se_Action e = ''gracefulshutdown'' \<and> se_Action f = ''forceoff'') (se_CompTypes f)) (se_CompTypes e)
      else if se_Action e = ''on'' \<and> se_Action f = ''on''
      then list_all (\<lambda>a. list_all (\<lambda>b. hier_level a < hier_level b) (se_CompTypes f)) (se_CompTypes e)
      else se_Action e \<noteq> ''on'' \<and> \<not> off_elem f)"

text \<open>
  The power sequence respects the hierarchy. Of any two elements, the earlier one powers off a
  deeper level than the later one (nodes, then modules, chassis and power connectors) or is the graceful
  shutdown before the forced off of the same types; power-ons go the other way; everything is powered
  off before anything restarts, and restarts before anything is powered on; and no action is taken
  twice for a type.
\<close>

theorem power_sequence_order:
  "sorted_wrt before PowerSequenceFull \<and>
   distinct (concat (map (\<lambda>e. map (Pair (se_Action e)) (se_CompTypes e)) PowerSequenceFull))"
  by code_simp

text \<open>
  C6: The plan is sound. It leaves every finished component as it was and keeps the names; whatever is
  listed for an action is listed under its own type, is unfinished and is among the reservations to
  acquire; every component that is still unfinished is reserved exactly once; and the action count of a
  component, which decides when its task is done, goes up by the number of lists it was put in.
\<close>

theorem sequence_plan_sound:
  assumes "wf_comps m" and "sequenceComponents G op m w = Some (m', seqMap, resData, w')"
  shows "map fst m' = map fst m \<and> distinct (map rd_XName resData) \<and>
    (\<forall>a ty xn. xn \<in> set (seqMap a ty) \<longrightarrow> ty = GetHMSType (g_XN G) xn \<and> xn \<in> rd_XName ` set resData \<and>
       (\<exists>c. map_of m' xn = Some c \<and> unfinished (comp_Task c))) \<and>
    (\<forall>xn c c'. map_of m xn = Some c \<longrightarrow> map_of m' xn = Some c' \<longrightarrow>
       (\<not> unfinished (comp_Task c) \<longrightarrow> c' = c) \<and>
       (unfinished (comp_Task c') \<longrightarrow> xn \<in> rd_XName ` set resData) \<and>
       comp_ActionCount c' = comp_ActionCount c + int (listed seqMap (GetHMSType (g_XN G) xn) xn))"
proof -
  note I = sequenceComponents_inv [OF assms, unfolded plan_inv_def prod.case]
  note J2 = I [THEN conjunct2, THEN conjunct2]
  note J3 = J2 [THEN conjunct2, THEN conjunct2]
  note mem = J2 [THEN conjunct2, THEN conjunct1, rule_format]
    and inD = J3 [THEN conjunct1, THEN spec, THEN spec, THEN spec, THEN mp, THEN mp, THEN mp]
    and dist = J3 [THEN conjunct2, THEN conjunct1]
  have "ty = GetHMSType (g_XN G) xn \<and> xn \<in> rd_XName ` set resData \<and>
      (\<exists>c. map_of m' xn = Some c \<and> unfinished (comp_Task c))" if "xn \<in> set (seqMap a ty)" for a ty xn
    using mem [OF that] by simp
  moreover have "(\<not> unfinished (comp_Task c) \<longrightarrow> c' = c) \<and> (unfinished (comp_Task c') \<longrightarrow> xn \<in> rd_XName ` set resData) \<and>
      comp_ActionCount c' = comp_ActionCount c + int (listed seqMap (GetHMSType (g_XN G) xn) xn)"
    if "map_of m xn = Some c" "map_of m' xn = Some c'" for xn c c'
    using inD [OF map_of_mem_keys [OF that(1)] that] by simp
  ultimately show ?thesis using I [THEN conjunct1] dist by simp
qed

theorem sequence_plan_sound_witness:
  "\<exists>m' seqMap resData w'.
     sequenceComponents (simG 5) Operation_Init
       [sim_comp 1 ''x0c0s0b0n0'' ''on'' Operation_Init [], sim_comp 2 ''x0c0s0b0n1'' ''off'' Operation_Init []]
       (sim_with [] [] []) = Some (m', seqMap, resData, w') \<and>
     distinct (map rd_XName resData)"
proof -
  let ?m = "[sim_comp 1 ''x0c0s0b0n0'' ''on'' Operation_Init [], sim_comp 2 ''x0c0s0b0n1'' ''off'' Operation_Init []]"
  have "sequenceComponents (simG 5) Operation_Init ?m (sim_with [] [] []) \<noteq> None" by code_simp
  then obtain m' seqMap resData w' where
    run: "sequenceComponents (simG 5) Operation_Init ?m (sim_with [] [] []) = Some (m', seqMap, resData, w')" by auto
  show ?thesis using sequence_plan_sound [OF _ run] run by simp
qed

text \<open>
  C7: The actions planned for an unfinished component reach what was asked for: taken in the planned
  order they leave the component in the state the operation is to end in, and a component that is
  marked as succeeded at once is already in that state. Only one case leaves a task unfinished and
  without action: a Hard-Restart taken up again, of a component that is not on and whose last
  operation was neither on nor off.
\<close>

theorem planned_actions_reach_target:
  assumes "seq_actions X m op xn cmp psf = Some (cmp', acts)" and "op \<noteq> Operation_Nil"
    and "unfinished (comp_Task cmp)"
  shows "(acts \<noteq> [] \<longrightarrow> fold action_effect acts psf = target_state op) \<and>
    (tt_Status (comp_Task cmp') = TransitionTaskStatusSucceeded \<longrightarrow> psf = target_state op) \<and>
    (acts = [] \<and> unfinished (comp_Task cmp') \<longleftrightarrow>
       op = Operation_HardRestart \<and> psf \<noteq> PowerStateFilter_On \<and> tt_State (comp_Task cmp) \<noteq> TaskState_GatherData \<and>
       tt_Operation (comp_Task cmp) \<notin> {Operation_On, Operation_Off, Operation_ForceOff})"
  by (rule seq_actions_target [OF assms])

theorem planned_actions_reach_target_witness:
  "let c = snd (sim_comp 1 ''x0c0s0b0n0'' ''on'' Operation_Init []) in
   fold action_effect (snd (the (seq_actions simXN [] Operation_Init ''x0c0s0b0n0'' c PowerStateFilter_On)))
     PowerStateFilter_On = target_state Operation_Init"
proof -
  let ?c = "snd (sim_comp 1 ''x0c0s0b0n0'' ''on'' Operation_Init [])"
  have e: "seq_actions simXN [] Operation_Init ''x0c0s0b0n0'' ?c PowerStateFilter_On =
      Some (add_actions 2 ?c, [''gracefulshutdown'', ''on''])"
    by (simp add: seq_actions_def seq_Init_def sim_comp_def sim_task_def)
  show ?thesis using planned_actions_reach_target [OF e] e by (simp del: fold_simps)
qed

text \<open>
  C23: Planning returns: if the operation is a real one and the power state of every unfinished component
  is known, a plan is made, for a Soft-Restart provided that the chain of ancestors of each component
  ends and no ancestor of a component is part of the request.
\<close>

theorem sequence_returns:
  assumes "op \<noteq> Operation_Nil" and "wf_comps m"
    and "\<And>xn c. map_of m xn = Some c \<Longrightarrow> unfinished (comp_Task c) \<Longrightarrow> comp_PState c \<noteq> None"
    and "\<And>xn. xn \<in> set (map fst m) \<Longrightarrow> op = Operation_SoftRestart \<Longrightarrow>
      (\<exists>n. GetHMSType (g_XN G) (ancestor (g_XN G) n (GetHMSCompParent (g_XN G) xn)) = HMSTypeInvalid) \<and>
      \<not> requested_ancestor (g_XN G) m (GetHMSCompParent (g_XN G) xn)"
  shows "\<exists>m' seqMap resData w'. sequenceComponents G op m w = Some (m', seqMap, resData, w')"
  using sequence_fold_total [OF assms(1) _ assms(3) assms(4), of "map fst m"] assms(2)
  by (simp add: sequenceComponents_def wf_comps_def)

lemma sim_ancestor: "GetHMSType simXN (ancestor simXN 3 ''x0c0s0b0'') = HMSTypeInvalid"
  by code_simp

theorem sequence_returns_witness:
  "\<exists>m' seqMap resData w'. sequenceComponents (simG 5) Operation_SoftRestart
     [sim_comp 1 ''x0c0s0b0n0'' ''on'' Operation_SoftRestart [''GracefulRestart'']] (sim_with [] [] []) =
     Some (m', seqMap, resData, w')"
proof -
  let ?m = "[sim_comp 1 ''x0c0s0b0n0'' ''on'' Operation_SoftRestart [''GracefulRestart'']]"
  have p: "GetHMSCompParent simXN ''x0c0s0b0n0'' = ''x0c0s0b0''" by code_simp
  have "parent_loop simXN ?m ''x0c0s0b0'' True = Some True" by code_simp
  then have "\<not> requested_ancestor simXN ?m ''x0c0s0b0''" by (rule parent_loop_result [THEN conjunct2])
  then show ?thesis
    by (intro sequence_returns) (auto simp: p sim_comp_def sim_task_def split: if_splits intro: sim_ancestor)
qed

text \<open>
  C24: A Soft-Restart never gets past planning if a component that can restart is requested together
  with one of its ancestors: the search for the ancestor finds it and does not move on.
\<close>

theorem soft_restart_never_returns:
  assumes "wf_comps m" and "requested_ancestor (g_XN G) m (GetHMSCompParent (g_XN G) xn)"
    and "map_of m xn = Some c" and "unfinished (comp_Task c)" and "comp_PState c = Some ps"
    and "''Soft-Restart'' \<in> set (ps_SupportedPowerTransitions ps)"
    and "fst (ToPowerStateFilter (ps_PowerState ps)) = PowerStateFilter_On" and "has_action c ''gracefulrestart''"
  shows "sequenceComponents G Operation_SoftRestart m w = None"
  by (rule soft_restart_hangs [OF assms])

theorem soft_restart_never_returns_witness:
  "sequenceComponents (simG 5) Operation_SoftRestart
     [sim_comp 1 ''x0c0s0'' ''on'' Operation_SoftRestart [''On'', ''ForceOff''],
      sim_comp 2 ''x0c0s0b0n0'' ''on'' Operation_SoftRestart [''GracefulRestart'']] (sim_with [] [] []) = None"
proof -
  let ?m = "[sim_comp 1 ''x0c0s0'' ''on'' Operation_SoftRestart [''On'', ''ForceOff''],
      sim_comp 2 ''x0c0s0b0n0'' ''on'' Operation_SoftRestart [''GracefulRestart'']]"
  have a1: "ancestor simXN 1 ''x0c0s0b0'' = ''x0c0s0''" by code_simp
  have "map_of ?m ''x0c0s0'' \<noteq> None"
    "GetHMSType simXN (ancestor simXN 0 ''x0c0s0b0'') \<noteq> HMSTypeInvalid"
    "GetHMSType simXN ''x0c0s0'' \<noteq> HMSTypeInvalid"
    "GetHMSCompParent simXN ''x0c0s0b0n0'' = ''x0c0s0b0''" by code_simp+
  then have "requested_ancestor (g_XN (simG 5)) ?m (GetHMSCompParent (g_XN (simG 5)) ''x0c0s0b0n0'')"
    unfolding requested_ancestor_def using a1
    by (auto simp: le_Suc_eq intro!: exI [of _ 1])
  moreover have "has_action (snd (sim_comp 2 ''x0c0s0b0n0'' ''on'' Operation_SoftRestart [''GracefulRestart''])) ''gracefulrestart''"
    by code_simp
  moreover have "fst (ToPowerStateFilter ''on'') = PowerStateFilter_On" by code_simp
  ultimately show ?thesis
    by (intro soft_restart_never_returns [where xn = "''x0c0s0b0n0''" and ps = "sim_ps ''x0c0s0b0n0'' ''on''"
          and c = "snd (sim_comp 2 ''x0c0s0b0n0'' ''on'' Operation_SoftRestart [''GracefulRestart''])"])
      (simp_all add: sim_comp_def sim_ps_def sim_task_def unfinished_def)
qed

definition failed_with_node :: "xnametypes \<Rightarrow> xname_map \<Rightarrow> xname \<Rightarrow> xname set" where
  "failed_with_node X m xn =
     insert (GetHMSCompParent X (GetHMSCompParent X xn))
       (case map_of m xn of
          None \<Rightarrow> {}
        | Some c \<Rightarrow>
            let live = filter (\<lambda>s. sup_State s = PowerStateFilter_On) (comp_PowerSupplies c) in
            if live = [] \<or> \<not> sup_ID ` set live \<subseteq> dom (map_of m) \<or> sup_ID (last live) = [] then {} else {sup_ID (last live)})"

lemma scan_supplies_power:
  "fst (scan_supplies m sups f) \<longleftrightarrow> (\<exists>s \<in> set sups. sup_State s = PowerStateFilter_On \<and> map_of m (sup_ID s) = None)"
  by (induction sups arbitrary: f) auto

lemma scan_supplies_last:
  "\<not> fst (scan_supplies m sups f) \<Longrightarrow> snd (scan_supplies m sups f) =
     (let live = filter (\<lambda>s. sup_State s = PowerStateFilter_On) sups in if live = [] then f else sup_ID (last live))"
  by (induction sups arbitrary: f) (auto simp: Let_def split: if_splits)

lemma dependents_set:
  "set (dependents X m act xn) =
     (if act = ''gracefulshutdown'' \<and> GetHMSType X xn = Node then failed_with_node X m xn else {})"
proof (cases "map_of m xn")
  case None
  then show ?thesis by (simp add: dependents_def failed_with_node_def Let_def)
next
  case (Some c)
  let ?live = "filter (\<lambda>s. sup_State s = PowerStateFilter_On) (comp_PowerSupplies c)"
  have f: "fst (scan_supplies m (comp_PowerSupplies c) []) \<longleftrightarrow> \<not> sup_ID ` set ?live \<subseteq> dom (map_of m)"
    by (auto simp: scan_supplies_power dom_def)
  show ?thesis
  proof (cases "sup_ID ` set ?live \<subseteq> dom (map_of m)")
    case True
    then show ?thesis
      using Some f scan_supplies_last [of m "comp_PowerSupplies c" "[]"]
      by (auto simp: dependents_def failed_with_node_def Let_def prod.case_eq_if split: if_splits)
  next
    case False
    then show ?thesis using Some f by (simp add: dependents_def failed_with_node_def Let_def prod.case_eq_if)
  qed
qed

text \<open>
  C25: When a node cannot be shut down gracefully, what it depends on is not powered off under it: of the
  requested components, exactly the module two levels above it and, if no power supply outside the
  request is on, the last of its supplies that is on are failed with the given message. For other
  actions and other types nothing is failed.
\<close>

theorem failed_node_fails_supports:
  assumes "failDependentComps G m act xn err w = (m', w')"
  shows "map fst m' = map fst m \<and>
    (\<forall>x. map_of m' x =
       (if act = ''gracefulshutdown'' \<and> GetHMSType (g_XN G) xn = Node \<and> x \<in> failed_with_node (g_XN G) m xn
        then map_option (upd_task (fail_task err err)) (map_of m x) else map_of m x))"
  using failDependentComps_law [OF assms] by (auto simp: dependents_set)

theorem failed_node_fails_supports_witness:
  "let m = [sim_comp 1 ''x0c0s0'' ''on'' Operation_Off [], sim_comp 2 ''x0c0s0b0n0'' ''on'' Operation_Off []];
       m' = fst (failDependentComps (simG 5) m ''gracefulshutdown'' ''x0c0s0b0n0'' ''node is stuck'' (sim_with [] [] []))
   in map fst m' = map fst m \<and> \<not> unfinished (comp_Task (the (map_of m' ''x0c0s0'')))"
proof -
  let ?m = "[sim_comp 1 ''x0c0s0'' ''on'' Operation_Off [], sim_comp 2 ''x0c0s0b0n0'' ''on'' Operation_Off []]"
  obtain m' w' where run: "failDependentComps (simG 5) ?m ''gracefulshutdown'' ''x0c0s0b0n0'' ''node is stuck'' (sim_with [] [] []) = (m', w')"
    by fastforce
  have t: "GetHMSType simXN ''x0c0s0b0n0'' = Node"
    "GetHMSCompParent simXN (GetHMSCompParent simXN ''x0c0s0b0n0'') = ''x0c0s0''" by code_simp+
  then have "''x0c0s0'' \<in> failed_with_node simXN ?m ''x0c0s0b0n0''" unfolding failed_with_node_def by auto
  then show ?thesis using failed_node_fails_supports [OF run] run t by simp
qed

lemma setup_loc_new:
  assumes "setup_loc G loc (m, xs, tr, w) = (m', xs', tr', w')" and "map_of m' x = Some c" and "map_of m x = None"
  shows "tt_Operation (comp_Task c) = tr_Operation tr \<and> tt_State (comp_Task c) = TaskState_GatherData \<and>
    tt_Status (comp_Task c) =
      (if power_comp_type (GetHMSType (g_XN G) x) then TransitionTaskStatusNew
       else if GetHMSType (g_XN G) x = HMSTypeInvalid then TransitionTaskStatusFailed
       else TransitionTaskStatusUnsupported)"
proof -
  obtain t w1 where n: "NewTransitionTask (g_RT G) (tr_TransitionID tr) (tr_Operation tr) w = (t, w1)" by fastforce
  then have new: "tt_Status t = TransitionTaskStatusNew" "tt_State t = TaskState_GatherData" "tt_Operation t = tr_Operation tr"
    by (auto simp: NewTransitionTask_def Let_def split: prod.splits)
  then have "x = loc_Xname loc \<and> c = new_comp (vet_task (g_XN G) loc t)"
    using assms n by (auto simp: setup_loc_def Let_def split: if_splits)
  then show ?thesis using new vet_task_status [OF new(1), of "g_XN G" loc] by simp
qed

lemma setup_locs_new:
  assumes "setup_inv (m, xs, tr)" and "fold (setup_loc G) locs (m, xs, tr, w) = (m', xs', tr', w')"
    and "map_of m' x = Some c" and "map_of m x = None"
  shows "tt_Operation (comp_Task c) = tr_Operation tr \<and> tt_State (comp_Task c) = TaskState_GatherData \<and>
    tt_Status (comp_Task c) =
      (if power_comp_type (GetHMSType (g_XN G) x) then TransitionTaskStatusNew
       else if GetHMSType (g_XN G) x = HMSTypeInvalid then TransitionTaskStatusFailed
       else TransitionTaskStatusUnsupported)"
  using assms
proof (induction locs arbitrary: m xs tr w)
  case Nil
  then show ?case by simp
next
  case (Cons loc locs)
  obtain m1 xs1 tr1 w1 where s: "setup_loc G loc (m, xs, tr, w) = (m1, xs1, tr1, w1)" by (metis surj_pair)
  have f: "fold (setup_loc G) locs (m1, xs1, tr1, w1) = (m', xs', tr', w')" using Cons.prems(2) s by simp
  note l = setup_loc_inv [OF Cons.prems(1) s]
  show ?case
  proof (cases "map_of m1 x")
    case None
    then show ?thesis using Cons.IH [OF _ f Cons.prems(3)] l by simp
  next
    case (Some c1)
    then have "c1 = c" using setup_locs [OF _ f] l Cons.prems(3) by fastforce
    then show ?thesis using setup_loc_new [OF s _ Cons.prems(4)] Some by blast
  qed
qed

lemma setup_old_facts:
  assumes "setup_old tasks tr = (m, xs, tr')"
  shows "dom (map_of m) = tt_Xname ` set tasks \<and> tr_Operation tr' = tr_Operation tr \<and>
    tr_TransitionID tr' = tr_TransitionID tr \<and> tr_Location tr' = tr_Location tr \<and>
    (\<forall>x c. map_of m x = Some c \<longrightarrow> comp_Task c \<in> set tasks)"
proof -
  have "dom (map_of m') = tt_Xname ` set tasks \<union> dom (map_of m0) \<and>
      (\<forall>x c. map_of m' x = Some c \<longrightarrow> comp_Task c \<in> set tasks \<or> map_of m0 x = Some c)"
    if "m' = fold (\<lambda>task m. AList.update (tt_Xname task) (new_comp task) m) tasks m0" for m0 m' :: xname_map
    using that
  proof (induction tasks arbitrary: m0)
    case (Cons t ts)
    have ih: "dom (map_of m') = tt_Xname ` set ts \<union> dom (map_of (AList.update (tt_Xname t) (new_comp t) m0))"
      "\<And>x c. map_of m' x = Some c \<Longrightarrow> comp_Task c \<in> set ts \<or> map_of (AList.update (tt_Xname t) (new_comp t) m0) x = Some c"
      using Cons.IH [OF Cons.prems [unfolded fold.simps o_apply]] by blast+
    have "comp_Task c \<in> set (t # ts) \<or> map_of m0 x = Some c" if "map_of m' x = Some c" for x c
      using ih(2) [OF that] by (cases "x = tt_Xname t") auto
    moreover have "dom (map_of (AList.update (tt_Xname t) (new_comp t) m0)) = insert (tt_Xname t) (dom (map_of m0))"
      by (auto simp: dom_def)
    ultimately show ?case unfolding ih(1) by auto
  qed simp
  from this [of m "[]"] assms show ?thesis by (auto simp: setup_old_def Let_def)
qed

text \<open>
  C22: Setting up a transition covers the request. Exactly the requested locations and the components of
  the stored tasks of an earlier run take part; the names that go on are exactly those of the unfinished
  tasks, without repetition; the transition lists the ID of every task; a component with a stored task
  goes on with a stored task, and a location without one gets a new task, which fails at once for an
  invalid name and is unsupported for a type without power control.
\<close>

theorem setup_covers_request:
  assumes "dsp_GetAllTasksForTransition (g_DSP G) (tr_TransitionID tr) w = ((tasks, err), w1)"
    and "setupTransitionTasks G tr w = ((m, xnames, tr'), w')"
  shows "wf_comps m \<and> dom (map_of m) = tt_Xname ` set tasks \<union> loc_Xname ` set (tr_Location tr) \<and>
    distinct xnames \<and> set xnames = {x. \<exists>c. map_of m x = Some c \<and> unfinished (comp_Task c)} \<and>
    (\<forall>x c. map_of m x = Some c \<longrightarrow> tt_TaskID (comp_Task c) \<in> set (tr_TaskIDs tr') \<and>
       (if x \<in> tt_Xname ` set tasks then comp_Task c \<in> set tasks
        else tt_Operation (comp_Task c) = tr_Operation tr \<and> tt_State (comp_Task c) = TaskState_GatherData \<and>
          tt_Status (comp_Task c) =
            (if power_comp_type (GetHMSType (g_XN G) x) then TransitionTaskStatusNew
             else if GetHMSType (g_XN G) x = HMSTypeInvalid then TransitionTaskStatusFailed
             else TransitionTaskStatusUnsupported)))"
proof -
  obtain m0 xs0 tr0 where old: "setup_old tasks tr = (m0, xs0, tr0)" by (metis surj_pair)
  note I0 = setup_old_inv [of tasks tr, unfolded old] and O = setup_old_facts [OF old]
  have loops: "fold (setup_loc G) (tr_Location tr) (m0, xs0, tr0, w1) = (m, xnames, tr', w')"
    using assms old O by (auto simp: setupTransitionTasks_def Let_def split: prod.splits)
  note L = setup_locs [OF I0 loops] and N = setup_locs_new [OF I0 loops]
  have O1: "\<exists>c0. map_of m0 x = Some c0" if "x \<in> tt_Xname ` set tasks" for x using that O by blast
  have old_task: "comp_Task c \<in> set tasks" if c: "map_of m x = Some c" and x: "x \<in> tt_Xname ` set tasks" for x c
  proof -
    obtain c0 where "map_of m0 x = Some c0" using O1 [OF x] by blast
    then show ?thesis using L O c by fastforce
  qed
  have new: "map_of m0 x = None" if "x \<notin> tt_Xname ` set tasks" for x using that O by blast
  have "x \<in> dom (map_of m)" if "x \<in> tt_Xname ` set tasks" for x
    using O1 [OF that] L by blast
  moreover have "x \<in> tt_Xname ` set tasks \<union> loc_Xname ` set (tr_Location tr)" if "x \<in> dom (map_of m)" for x
    using that L O new [of x] by blast
  ultimately have dom: "dom (map_of m) = tt_Xname ` set tasks \<union> loc_Xname ` set (tr_Location tr)"
    using L by blast
  have op: "tr_Operation tr0 = tr_Operation tr" using O by blast
  have I: "setup_inv (m, xnames, tr')" using L by blast
  show ?thesis
    using I dom old_task N new unfolding setup_inv_def prod.case op by (simp split: if_split)
qed

theorem setup_covers_request_witness:
  "let tr = sim_transition 7 TransitionStatusNew [''x0c0s0b0n0'', ''bad'', ''x0c0s0b0n1''] Operation_On;
       ((m, xnames, tr'), w') = setupTransitionTasks (simG 5) tr
         (sim_with [tr] [sim_task 7 8 ''x0c0s0b0n0'' TransitionTaskStatusInProgress Operation_On] [])
   in dom (map_of m) = {''x0c0s0b0n0'', ''bad'', ''x0c0s0b0n1''} \<and> set xnames \<subseteq> dom (map_of m)"
proof -
  let ?k = "sim_task 7 8 ''x0c0s0b0n0'' TransitionTaskStatusInProgress Operation_On"
  let ?tr = "sim_transition 7 TransitionStatusNew [''x0c0s0b0n0'', ''bad'', ''x0c0s0b0n1''] Operation_On"
  let ?w = "sim_with [?tr] [?k] []"
  have "fst (fst (dsp_GetAllTasksForTransition (g_DSP (simG 5)) (tr_TransitionID ?tr) ?w)) = [?k]" by code_simp
  then obtain err w1 where get: "dsp_GetAllTasksForTransition (g_DSP (simG 5)) (tr_TransitionID ?tr) ?w = (([?k], err), w1)"
    by (metis fst_conv surj_pair)
  obtain m xnames tr' w' where run: "setupTransitionTasks (simG 5) ?tr ?w = ((m, xnames, tr'), w')" by (metis surj_pair)
  have "tt_Xname ` set [?k] \<union> loc_Xname ` set (tr_Location ?tr) = {''x0c0s0b0n0'', ''bad'', ''x0c0s0b0n1''}"
    by (auto simp: sim_task_def sim_transition_def)
  then show ?thesis using setup_covers_request [OF get run] by (auto simp: run Let_def simp del: set_map image_set)
qed

end
