(* ===== verification/Transition_Execution.thy ===== *)
theory Transition_Execution
  imports Transition_Lifecycle Transition_Sequencing
begin

section \<open>Executing a transition\<close>

text \<open>
  \<^verbatim>\<open>doTransition\<close> and \<^verbatim>\<open>waitForBMC\<close> of \<^verbatim>\<open>internal/domain/transitions.go\<close>. The goroutine is cut at the
  points where it can return early; each phase below is one part of it, in the order of the code:
  fetch the record and start the keep-alive thread, set up the tasks, gather power states and HSM data,
  attach them to the components, reserve, and then go through the power sequence. For each element of
  the sequence (a tier) the reservations are checked, the requests are built and launched, the replies
  are read, and the stored power states are polled until every component is confirmed, has failed or
  the deadline has passed.

  A phase yields \<open>Inl w\<close> when the goroutine returned and \<open>Inr (a, w)\<close> when it goes on. \<open>None\<close> is
  a goroutine that never returns: a nil dereference, a channel that is never written, or a wait
  without end. \<^verbatim>\<open>http.NewRequest\<close> is taken to succeed, as it does for the URL of a component endpoint.
\<close>

subsection \<open>Failing components\<close>

text \<open>Fail the task of a component, fail what depends on it, then store the task.\<close>

definition fail_comp :: "'w DOMAIN_GLOBALS \<Rightarrow> string \<Rightarrow> xname \<Rightarrow> error \<Rightarrow> string \<Rightarrow> string
    \<Rightarrow> xname_map \<times> 'w \<Rightarrow> xname_map \<times> 'w" where
  "fail_comp G powerAction xn err desc depErrMsg s =
     (let (m, w) = s in
      case map_of m xn of
        None \<Rightarrow> s
      | Some cmp \<Rightarrow>
          let m = AList.update xn (upd_task (fail_task err desc) cmp) m;
              (m, w) = failDependentComps G m powerAction (tt_Xname (comp_Task cmp)) depErrMsg w
          in (m, (case map_of m xn of None \<Rightarrow> w | Some cmp \<Rightarrow> store_task G (comp_Task cmp) w)))"

text \<open>Fail the task of one component only, whatever its status; or only if it has not finished.\<close>

definition fail_one :: "'w DOMAIN_GLOBALS \<Rightarrow> error \<Rightarrow> xname \<Rightarrow> xname_map \<times> 'w \<Rightarrow> xname_map \<times> 'w" where
  "fail_one G err xn s =
     (let (m, w) = s in
      case map_of m xn of
        None \<Rightarrow> s
      | Some cmp \<Rightarrow>
          let cmp = upd_task (fail_task err ''Failed to achieve transition'') cmp
          in (AList.update xn cmp m, store_task G (comp_Task cmp) w))"

definition fail_unfinished :: "'w DOMAIN_GLOBALS \<Rightarrow> error \<Rightarrow> xname \<Rightarrow> xname_map \<times> 'w \<Rightarrow> xname_map \<times> 'w" where
  "fail_unfinished G err xn s =
     (case map_of (fst s) xn of
        None \<Rightarrow> s
      | Some cmp \<Rightarrow> if unfinished (comp_Task cmp) then fail_one G err xn s else s)"

definition missing_error :: "xnametypes \<Rightarrow> xname \<Rightarrow> error" where
  "missing_error X xn =
     (if power_comp_type (GetHMSType X xn) then ''Missing xname''
      else ''No power control for component type '' @ HMSType_String X (GetHMSType X xn))"

subsection \<open>Phases before the power sequence\<close>

type_synonym ('w, 'a) phase = "('w + 'a \<times> 'w) option"

definition bind_phase :: "('w, 'a) phase \<Rightarrow> ('a \<Rightarrow> 'w \<Rightarrow> ('w, 'b) phase) \<Rightarrow> ('w, 'b) phase" where
  "bind_phase p f = Option.bind p (\<lambda>r. case r of Inl w \<Rightarrow> Some (Inl w) | Inr (a, w) \<Rightarrow> f a w)"

text \<open>Finish the transition, or abort it, and return.\<close>

definition complete_and_return :: "'w DOMAIN_GLOBALS \<Rightarrow> Transition \<Rightarrow> 'w \<Rightarrow> ('w, 'a) phase" where
  "complete_and_return G tr w =
     map_option Inl (compressAndCompleteTransition G tr TransitionStatusCompleted w)"

definition abort_and_return :: "'w DOMAIN_GLOBALS \<Rightarrow> Transition \<Rightarrow> xname_map \<Rightarrow> 'w \<Rightarrow> ('w, 'a) phase" where
  "abort_and_return G tr xnameMap w = map_option (\<lambda>(_, w). Inl w) (doAbort G tr xnameMap w)"

definition fetch_transition :: "'w DOMAIN_GLOBALS \<Rightarrow> uuid \<Rightarrow> 'w \<Rightarrow> ('w, Transition) phase" where
  "fetch_transition G transitionID w =
     (case dsp_GetTransition (g_DSP G) transitionID w of
        ((_, _, Some err), w) \<Rightarrow> Some (Inl w)
      | ((None, _, None), w) \<Rightarrow> Some (Inl w)
      | ((Some tr, _, None), w) \<Rightarrow>
          if tr_Status tr \<noteq> TransitionStatusNew \<and> finished_status (tr_Status tr) then Some (Inl w)
          else Some (Inr (tr, g_go_keepAlive G (tr_TransitionID tr) w)))"

definition setup_phase :: "'w DOMAIN_GLOBALS \<Rightarrow> Transition \<Rightarrow> 'w \<Rightarrow> ('w, xname_map \<times> xname list \<times> Transition) phase" where
  "setup_phase G tr w =
     (let ((xnameMap, xnames, tr), w) = setupTransitionTasks G tr w in
      if xnames = [] then complete_and_return G tr w
      else
        let tr = tr\<lparr>tr_Status := TransitionStatusInProgress\<rparr>;
            ((abortSignaled, err), w) = storeTransition G tr w
        in if abortSignaled then abort_and_return G tr xnameMap w
           else Some (Inr ((xnameMap, xnames, tr), w)))"

definition power_state_phase :: "'w DOMAIN_GLOBALS \<Rightarrow> Transition \<Rightarrow> xname_map \<Rightarrow> xname list \<Rightarrow> 'w
    \<Rightarrow> ('w, (xname, PowerStatusComponent) gomap \<times> xname_map) phase" where
  "power_state_phase G tr xnameMap xnames w =
     (case getPowerStateHierarchy G xnames w of
        ((_, _, Some err), w) \<Rightarrow> Some (Inl (g_cancel_keepAlive G (tr_TransitionID tr) w))
      | ((pStates, missingXnames, None), w) \<Rightarrow>
          let (xnameMap, w) = fold (\<lambda>xn. fail_one G (missing_error (g_XN G) xn) xn) missingXnames (xnameMap, w)
          in if pStates = [] then complete_and_return G tr w
             else Some (Inr ((pStates, xnameMap), w)))"

definition hsm_phase :: "'w DOMAIN_GLOBALS \<Rightarrow> (xname, PowerStatusComponent) gomap \<Rightarrow> xname_map \<Rightarrow> xname list
    \<Rightarrow> ('w, (xname, HsmData) gomap \<times> xname_map) io" where
  "hsm_phase G pStates xnameMap xnames w =
     (let ((hsmData, err), w) = hsm_FillHSMData (g_HSM G) (map fst pStates) w;
          (xnameMap, w) =
            (if err \<noteq> None then fold (fail_unfinished G ''Error retrieving HSM data'') xnames (xnameMap, w)
             else if length hsmData \<noteq> length pStates
             then fold (fail_unfinished G ''Xname not found in HSM'')
                    (filter (\<lambda>xn. map_of hsmData xn = None) xnames) (xnameMap, w)
             else (xnameMap, w));
          ((hsmData, err), w) = hsm_FillPowerMapData (g_HSM G) hsmData w;
          (xnameMap, w) =
            (if err \<noteq> None then fold (fail_unfinished G ''Error retrieving HSM data'') xnames (xnameMap, w)
             else (xnameMap, w))
      in ((hsmData, xnameMap), w))"

definition action_map :: "string list \<Rightarrow> (string, string) gomap \<Rightarrow> (string, string) gomap" where
  "action_map allowable m = fold (\<lambda>a. AList.update (ToLower a) a) allowable m"

text \<open>
  The Rosetta of a router module, which is not reached while \<^verbatim>\<open>getPowerStateHierarchy\<close> returns router
  modules only. The actions of the switch go into the map of the router module, to which \<^verbatim>\<open>actions\<close>
  and \<^verbatim>\<open>comp.Actions\<close> both refer, and the map of the switch stays empty.
\<close>

definition attach_rosetta :: "'w DOMAIN_GLOBALS \<Rightarrow> (xname, PowerStatusComponent) gomap \<Rightarrow> (xname, HsmData) gomap
    \<Rightarrow> xname \<Rightarrow> xname_map \<times> Transition \<times> 'w \<Rightarrow> xname_map \<times> Transition \<times> 'w" where
  "attach_rosetta G pStates hsmData xn s =
     (let (xnameMap, tr, w) = s; switchXname = xn @ ''e0'' in
      case (map_of xnameMap switchXname, map_of pStates switchXname, map_of hsmData switchXname, map_of xnameMap xn) of
        (None, Some switchPs, Some switchHData, Some cmp) \<Rightarrow>
          let (task, w) = NewTransitionTask (g_RT G) (tr_TransitionID tr) (tr_Operation tr) w;
              task = task\<lparr>tt_Xname := switchXname, tt_StatusDesc := ''Gathering data''\<rparr>;
              tr = tr\<lparr>tr_TaskIDs := tr_TaskIDs tr @ [tt_TaskID task]\<rparr>;
              w = store_task G task w;
              cmp = cmp\<lparr>comp_Actions := action_map (hd_AllowableActions switchHData) (comp_Actions cmp)\<rparr>;
              (sups, w) = getPowerSupplies G switchHData w
          in (AList.update switchXname
                \<lparr>comp_PState = Some switchPs, comp_HSMData = Some switchHData, comp_PowerSupplies = sups,
                 comp_Task = task, comp_Actions = [], comp_ActionCount = 0\<rparr> (AList.update xn cmp xnameMap), tr, w)
      | _ \<Rightarrow> s)"

definition attach_comp :: "'w DOMAIN_GLOBALS \<Rightarrow> (xname, PowerStatusComponent) gomap \<Rightarrow> (xname, HsmData) gomap
    \<Rightarrow> xname \<Rightarrow> xname_map \<times> Transition \<times> 'w \<Rightarrow> xname_map \<times> Transition \<times> 'w" where
  "attach_comp G pStates hsmData xn s =
     (let (xnameMap, tr, w) = s in
      case (map_of xnameMap xn, map_of pStates xn, map_of hsmData xn) of
        (Some cmp, Some ps, Some hData) \<Rightarrow>
          if unfinished (comp_Task cmp)
          then
            let (sups, w) = getPowerSupplies G hData w;
                cmp = cmp\<lparr>comp_PState := Some ps, comp_HSMData := Some hData,
                         comp_Actions := action_map (hd_AllowableActions hData) [], comp_PowerSupplies := sups\<rparr>;
                s = (AList.update xn cmp xnameMap, tr, w);
                cls = bc_Class (hd_BaseData hData)
            in if GetHMSType (g_XN G) xn = RouterModule \<and> (cls = ''Hill'' \<or> cls = ''Mountain'') \<and>
                  tr_Operation tr \<noteq> Operation_On
               then attach_rosetta G pStates hsmData xn s else s
          else s
      | _ \<Rightarrow> s)"

subsection \<open>Reservations\<close>

text \<open>
  The request for reservations failed as a whole. The loop reuses \<^verbatim>\<open>err\<close> for the result of the store, so
  the second component it fails takes its message from that: nil if the store went well.
\<close>

fun reserve_fail_loop :: "'w DOMAIN_GLOBALS \<Rightarrow> xname_map \<Rightarrow> error option \<Rightarrow> xname_map \<Rightarrow> ('w, xname_map) go" where
  "reserve_fail_loop G [] err acc w = Some (acc, w)"
| "reserve_fail_loop G ((xn, cmp) # m) err acc w =
     (if unfinished (comp_Task cmp)
      then (case err of
              None \<Rightarrow> None
            | Some e \<Rightarrow>
                let cmp = upd_task (fail_task e ''Error acquiring reservations'') cmp;
                    (err, w) = dsp_StoreTransitionTask (g_DSP G) (comp_Task cmp) w
                in reserve_fail_loop G m err (acc @ [(xn, cmp)]) w)
      else reserve_fail_loop G m err (acc @ [(xn, cmp)]) w)"

definition reserve_action :: "TransitionComponent \<Rightarrow> string option" where
  "reserve_action cmp =
     (case tt_Operation (comp_Task cmp) of
        Operation_SoftRestart \<Rightarrow> Some ''gracefulshutdown''
      | Operation_HardRestart \<Rightarrow> Some ''gracefulshutdown''
      | Operation_SoftOff \<Rightarrow> Some ''gracefulshutdown''
      | Operation_Off \<Rightarrow> Some ''gracefulshutdown''
      | Operation_ForceOff \<Rightarrow> Some ''forceoff''
      | Operation_On \<Rightarrow> Some ''on''
      | Operation_Init \<Rightarrow>
          map_option (\<lambda>ps. if ToLower (ps_PowerState ps) = ''on'' then ''gracefulshutdown'' else ''on'') (comp_PState cmp)
      | Operation_Nil \<Rightarrow> Some [])"

definition reserve_one :: "'w DOMAIN_GLOBALS \<Rightarrow> ReservationData list \<Rightarrow> ReservationData \<Rightarrow> xname_map \<times> 'w
    \<Rightarrow> (xname_map \<times> 'w) option" where
  "reserve_one G resData res s =
     (let (m, w) = s in
      case map_of m (rd_XName res) of
        None \<Rightarrow> None
      | Some cmp \<Rightarrow>
          (case map_of (rev (map (\<lambda>r. (rd_XName r, r)) resData)) (rd_XName res) of
             Some reservation \<Rightarrow>
               let cmp = upd_task (\<lambda>t. t\<lparr>tt_ReservationKey := rd_ReservationKey reservation,
                                         tt_DeputyKey := rd_DeputyKey reservation\<rparr>) cmp
               in Some (AList.update (rd_XName res) cmp m, store_task G (comp_Task cmp) w)
           | None \<Rightarrow>
               if \<not> unfinished (comp_Task cmp) then Some s
               else
                 let x = tt_Xname (comp_Task cmp);
                     (err, dep) = (if rd_DeputyKey res = []
                       then (''Unable to reserve component'', ''Unable to reserve dependent component, '' @ x @ ''.'')
                       else (''Invalid deputy key and unable to reserve component'',
                             ''Invalid deputy key and unable to reserve dependent component, '' @ x @ ''.''))
                 in Option.bind (reserve_action cmp) (\<lambda>act.
                      Some (fail_comp G act (rd_XName res) err ''Failed to achieve transition'' dep s))))"

definition reserve_phase :: "'w DOMAIN_GLOBALS \<Rightarrow> Transition \<Rightarrow> xname_map \<Rightarrow> ReservationData list \<Rightarrow> 'w
    \<Rightarrow> ('w, xname_map \<times> ReservationData list) phase" where
  "reserve_phase G tr xnameMap reservationData w =
     (case hsm_ReserveComponents (g_HSM G) reservationData w of
        ((reservationData, resData, Some err), w) \<Rightarrow>
          Option.bind (reserve_fail_loop G xnameMap (Some err) [] w) (\<lambda>(_, w). complete_and_return G tr w)
      | ((reservationData, resData, None), w) \<Rightarrow>
          Option.bind (foldM (reserve_one G resData) reservationData (xnameMap, w))
            (\<lambda>(xnameMap, w). Some (Inr ((xnameMap, reservationData), w))))"

subsection \<open>One tier: requests and replies\<close>

text \<open>
  The components live in \<open>ex_map\<close>, the lists of the power sequence in \<open>ex_seq\<close>, the reservations, which
  the check of the deputy keys changes in place, in \<open>ex_res\<close>.
\<close>

record 'w exec =
  ex_map :: xname_map
  ex_seq :: seq_map
  ex_res :: "ReservationData list"
  ex_waitForBMCPower :: bool
  ex_world :: 'w

definition tier_comps :: "seq_map \<Rightarrow> PowerSeqElem \<Rightarrow> xname list" where
  "tier_comps seqMap elm = concat (map (seqMap (se_Action elm)) (se_CompTypes elm))"

definition wait_one :: "'w DOMAIN_GLOBALS \<Rightarrow> bool \<Rightarrow> xname \<Rightarrow> xname_map \<times> bool \<times> 'w \<Rightarrow> xname_map \<times> bool \<times> 'w" where
  "wait_one G first xn s =
     (let (m, isWaiting, w) = s in
      case map_of m xn of
        None \<Rightarrow> s
      | Some cmp \<Rightarrow>
          let cmp' = upd_task (\<lambda>t. t\<lparr>tt_StatusDesc := ''Waiting for controller to be ready''\<rparr>) cmp;
              (m, w) = (if first then (AList.update xn cmp' m, store_task G (comp_Task cmp') w) else (m, w));
              ((pState, err), w) = dsp_GetPowerStatus (g_DSP G) (tt_Xname (comp_Task cmp)) w
          in (m, isWaiting \<or> (case (err, pState) of
                (None, Some ps) \<Rightarrow> ToLower (ps_ManagementState ps) \<noteq>
                   ManagementStateFilter_String ManagementStateFilter_available
              | _ \<Rightarrow> False), w))"

fun waitForBMC_loop :: "'w DOMAIN_GLOBALS \<Rightarrow> nat \<Rightarrow> bool \<Rightarrow> xname list \<Rightarrow> xname_map \<Rightarrow> ('w, xname_map) io" where
  "waitForBMC_loop G 0 first compList m w = (m, w)"
| "waitForBMC_loop G (Suc n) first compList m w =
     (let (m, isWaiting, w) = fold (wait_one G first) compList (m, False, w) in
      if \<not> isWaiting then (m, w)
      else waitForBMC_loop G n False compList m (time_Sleep (g_RT G) (15 * Second) w))"

definition waitForBMC :: "'w DOMAIN_GLOBALS \<Rightarrow> xname list \<Rightarrow> xname_map \<Rightarrow> ('w, xname_map) io" where
  "waitForBMC G compList m w = waitForBMC_loop G 20 True compList m w"

definition expire_one :: "'w DOMAIN_GLOBALS \<Rightarrow> string \<Rightarrow> ReservationData \<Rightarrow> xname_map \<times> 'w \<Rightarrow> xname_map \<times> 'w" where
  "expire_one G powerAction res s =
     (case (rd_Error res, map_of (fst s) (rd_XName res)) of
        (Some _, Some cmp) \<Rightarrow>
          if unfinished (comp_Task cmp)
          then fail_comp G powerAction (rd_XName res) ''Reservation expired'' ''Failed to achieve transition''
                 (''Reservation expired for dependency, '' @ tt_Xname (comp_Task cmp) @ ''.'') s
          else s
      | _ \<Rightarrow> s)"

record 'w build =
  bl_map :: xname_map
  bl_trsTaskMap :: "(uuid, xname) gomap"
  bl_requests :: "http_request list"
  bl_world :: 'w

definition apply_error :: "string \<Rightarrow> xname \<Rightarrow> string" where
  "apply_error powerAction x = ''Failed to apply transition, '' @ powerAction @ '', to dependency, '' @ x @ ''.''"

definition send_request :: "'w DOMAIN_GLOBALS \<Rightarrow> string \<Rightarrow> uuid \<Rightarrow> xname \<Rightarrow> TransitionComponent \<Rightarrow> xname \<Rightarrow> HsmData \<Rightarrow> string
    \<Rightarrow> 'w build \<Rightarrow> 'w build" where
  "send_request G powerAction taskID xn cmp pXName hData payload b =
     (let cmp = upd_task (\<lambda>t. t\<lparr>tt_StatusDesc := ''Applying transition, '' @ powerAction,
                     tt_State := TaskState_Sending, tt_Operation := getOpForPowerAction powerAction\<rparr>) cmp;
          (auth, w) =
            (if g_VaultEnabled G
             then let ((user, pw, err), w) = cs_GetControllerCredentials (g_CS G) pXName (bl_world b)
                  in ((if user = [] \<and> pw = [] then None else Some (user, pw)), w)
             else (None, bl_world b));
          rq = \<lparr>rq_ID = taskID, rq_Method = ''POST'',
                rq_URL = ''https://'' @ hd_RfFQDN hData @ hd_PowerActionURI hData, rq_Body = payload, rq_BasicAuth = auth\<rparr>
      in \<lparr>bl_map = AList.update xn cmp (bl_map b), bl_trsTaskMap = AList.update taskID xn (bl_trsTaskMap b),
          bl_requests = bl_requests b @ [rq], bl_world = store_task G (comp_Task cmp) w\<rparr>)"

definition build_request :: "'w DOMAIN_GLOBALS \<Rightarrow> string \<Rightarrow> uuid list \<Rightarrow> xname \<Rightarrow> 'w build \<Rightarrow> 'w build option" where
  "build_request G powerAction trsTaskList xn b =
     (case map_of (bl_map b) xn of
        None \<Rightarrow> None
      | Some cmp \<Rightarrow>
          if tt_Status (comp_Task cmp) = TransitionTaskStatusFailed then Some b
          else if tt_State (comp_Task cmp) = TaskState_Waiting \<and>
                  tt_Operation (comp_Task cmp) = getOpForPowerAction powerAction
          then let (taskID, w) = uuid_New (g_RT G) (bl_world b)
               in Some (b\<lparr>bl_trsTaskMap := AList.update taskID xn (bl_trsTaskMap b), bl_world := w\<rparr>)
          else (case generateTransitionPayload (g_XN G) cmp powerAction of
                  None \<Rightarrow> None
                | Some (_, Some err) \<Rightarrow>
                    let (m, w) = fail_comp G powerAction xn err ''Failed to construct payload''
                          (apply_error powerAction (tt_Xname (comp_Task cmp))) (bl_map b, bl_world b)
                    in Some (b\<lparr>bl_map := m, bl_world := w\<rparr>)
                | Some (payload, None) \<Rightarrow>
                    (case (comp_PState cmp, comp_HSMData cmp, drop (length (bl_requests b)) trsTaskList) of
                       (Some ps, Some hData, taskID # _) \<Rightarrow>
                         Some (send_request G powerAction taskID xn cmp (ps_XName ps) hData payload b)
                     | _ \<Rightarrow> None)))"

definition reply_error :: "http_task_done \<Rightarrow> error option option" where
  "reply_error tdone =
     (case td_Err tdone of
        Some e \<Rightarrow> Some (Some e)
      | None \<Rightarrow>
          (case td_Response tdone of
             None \<Rightarrow> None
           | Some r \<Rightarrow>
               if hr_StatusCode r < 200 \<and> hr_StatusCode r \<ge> 300
               then Some (Some (''bad status code: '' @ Itoa (hr_StatusCode r)))
               else (case hr_Body r of
                       BodyNil \<Rightarrow> Some (Some ''empty body'')
                     | BodyError e \<Rightarrow> Some (Some e)
                     | BodyRead _ \<Rightarrow> Some None)))"

type_synonym 'w replies = "xname_map \<times> (uuid, xname) gomap \<times> 'w"

definition reply_ok :: "bool \<Rightarrow> string \<Rightarrow> TransitionComponent \<Rightarrow> TransitionComponent" where
  "reply_ok noWait powerAction cmp =
     (if noWait
      then let cmp = cmp\<lparr>comp_ActionCount := comp_ActionCount cmp - 1\<rparr> in
        if comp_ActionCount cmp = 0
        then upd_task (\<lambda>t. t\<lparr>tt_Status := TransitionTaskStatusSucceeded,
               tt_StatusDesc := ''Transition applied, '' @ powerAction @ ''. Not confirming.'',
               tt_State := TaskState_Confirmed\<rparr>) cmp
        else upd_task (\<lambda>t. t\<lparr>tt_Status := TransitionTaskStatusInProgress,
               tt_StatusDesc := ''Transition applied, '' @ powerAction @ ''. Waiting for next transition.'',
               tt_State := TaskState_Confirmed\<rparr>) cmp
      else upd_task (\<lambda>t. t\<lparr>tt_Status := TransitionTaskStatusInProgress,
             tt_StatusDesc := ''Confirming successful transition, '' @ powerAction, tt_State := TaskState_Waiting\<rparr>) cmp)"

definition reply_one :: "'w DOMAIN_GLOBALS \<Rightarrow> bool \<Rightarrow> string \<Rightarrow> http_task_done \<Rightarrow> 'w replies \<Rightarrow> 'w replies option" where
  "reply_one G noWait powerAction tdone s =
     (let (m, trsTaskMap, w) = s in
      case map_of trsTaskMap (td_ID tdone) of
        None \<Rightarrow> None
      | Some xn \<Rightarrow>
          (case (map_of m xn, reply_error tdone) of
             (Some cmp, Some (Some e)) \<Rightarrow>
               let (m, w) = fail_comp G powerAction xn e (''Failed to apply transition, '' @ powerAction)
                     (apply_error powerAction (tt_Xname (comp_Task cmp))) (m, w)
               in Some (m, AList.delete (td_ID tdone) trsTaskMap, w)
           | (Some cmp, Some None) \<Rightarrow>
               let cmp = reply_ok noWait powerAction cmp
               in Some (AList.update xn cmp m, trsTaskMap, store_task G (comp_Task cmp) w)
           | _ \<Rightarrow> None))"

text \<open>The loop takes one reply per request from the channel, and waits for ever if fewer come.\<close>

definition launch_requests :: "'w DOMAIN_GLOBALS \<Rightarrow> bool \<Rightarrow> string \<Rightarrow> http_request list \<Rightarrow> 'w replies \<Rightarrow> 'w replies option" where
  "launch_requests G noWait powerAction rqs s =
     (let (m, trsTaskMap, w) = s in
      if rqs = [] then Some (m, trsTaskMap, trs_Close (g_RFTloc G) [] w)
      else
        let ((replies, err), w) = trs_Launch (g_RFTloc G) rqs w in
        if length replies < length rqs then None
        else Option.bind (foldM (reply_one G noWait powerAction) (take (length rqs) replies) (m, trsTaskMap, w))
               (\<lambda>(m, trsTaskMap, w). Some (m, trsTaskMap, trs_Close (g_RFTloc G) (map rq_ID rqs) w)))"

subsection \<open>One tier: confirmation\<close>

definition end_state :: "string \<Rightarrow> string" where
  "end_state powerAction =
     (if powerAction = ''gracefulshutdown'' \<or> powerAction = ''forceoff'' then ''off''
      else if powerAction = ''gracefulrestart'' \<or> powerAction = ''on'' then ''on'' else [])"

definition confirm_comp :: "string \<Rightarrow> TransitionComponent \<Rightarrow> TransitionComponent" where
  "confirm_comp powerAction cmp =
     (let cmp = upd_task (\<lambda>t. t\<lparr>tt_State := TaskState_Confirmed\<rparr>)
            (cmp\<lparr>comp_ActionCount := comp_ActionCount cmp - 1\<rparr>) in
      if comp_ActionCount cmp = 0
      then upd_task (\<lambda>t. t\<lparr>tt_Status := TransitionTaskStatusSucceeded,
             tt_StatusDesc := ''Transition confirmed, '' @ powerAction\<rparr>) cmp
      else upd_task (\<lambda>t. t\<lparr>tt_StatusDesc :=
             ''Transition confirmed, '' @ powerAction @ ''. Waiting for next transition''\<rparr>) cmp)"

definition confirm_one :: "'w DOMAIN_GLOBALS \<Rightarrow> string \<Rightarrow> uuid \<times> xname \<Rightarrow> 'w replies \<Rightarrow> 'w replies option" where
  "confirm_one G powerAction entry s =
     (let (trsTaskID, xn) = entry; (m, trsTaskMap, w) = s in
      case map_of m xn of
        None \<Rightarrow> None
      | Some cmp \<Rightarrow>
          let x = tt_Xname (comp_Task cmp);
              ((pState, err), w) = dsp_GetPowerStatus (g_DSP G) x w;
              failed = (\<lambda>e. let (m, w) = fail_comp G powerAction xn e ''Failed to confirm transition''
                               (''Failed to confirm transition, '' @ powerAction @ '', to dependency, '' @ x @ ''.'') (m, w)
                            in Some (m, AList.delete trsTaskID trsTaskMap, w))
          in (case (err, pState) of
                (Some e, _) \<Rightarrow> failed e
              | (None, None) \<Rightarrow> failed ''Power status does not exist''
              | (None, Some ps) \<Rightarrow>
                  if ToLower (ps_PowerState ps) = end_state powerAction
                  then let cmp = confirm_comp powerAction cmp
                       in Some (AList.update xn cmp m, AList.delete trsTaskID trsTaskMap, store_task G (comp_Task cmp) w)
                  else Some (m, trsTaskMap, w)))"

type_synonym 'w timeout = "xname_map \<times> seq_map \<times> 'w"

definition timeout_one :: "'w DOMAIN_GLOBALS \<Rightarrow> bool \<Rightarrow> string \<Rightarrow> xname \<Rightarrow> 'w timeout \<Rightarrow> 'w timeout option" where
  "timeout_one G isSoft powerAction xn s =
     (let (m, seqMap, w) = s in
      case map_of m xn of
        None \<Rightarrow> None
      | Some cmp \<Rightarrow>
          let x = tt_Xname (comp_Task cmp) in
          if powerAction = ''gracefulshutdown'' \<and> \<not> isSoft \<and> has_action cmp ''forceoff''
          then Some (m, seq_add ''forceoff'' (GetHMSType (g_XN G) x) xn seqMap, w)
          else
            let (m, w) = fail_comp G powerAction xn (''Timeout waiting for transition, '' @ powerAction @ ''.'')
                  ''Failed to achieve transition''
                  (''Timeout waiting for transition, '' @ powerAction @ '', on dependency, '' @ x @ ''.'') (m, w)
            in Some (m, seqMap, w))"

record 'w confirm =
  cf_map :: xname_map
  cf_seq :: seq_map
  cf_trsTaskMap :: "(uuid, xname) gomap"
  cf_world :: 'w

text \<open>
  One round of the wait: \<open>Inl (True, c)\<close> after an abort, \<open>Inl (False, c)\<close> when the wait is over, and
  \<open>Inr c\<close> when another round follows. The deadline is absent when the transition waits for ever.
\<close>

definition confirm_round :: "'w DOMAIN_GLOBALS \<Rightarrow> Transition \<Rightarrow> bool \<Rightarrow> time option \<Rightarrow> string \<Rightarrow> 'w confirm
    \<Rightarrow> (bool \<times> 'w confirm + 'w confirm) option" where
  "confirm_round G tr isSoft expire powerAction c =
     (let ((abort, err), w) = checkAbort G tr (cf_world c) in
      if abort
      then map_option (\<lambda>(m, w). Inl (True, c\<lparr>cf_map := m, cf_world := w\<rparr>)) (doAbort G tr (cf_map c) w)
      else
        let w = time_Sleep (g_RT G) (15 * Second) w in
        Option.bind (foldM (confirm_one G powerAction) (cf_trsTaskMap c) (cf_map c, cf_trsTaskMap c, w))
          (\<lambda>(m, trsTaskMap, w).
            let c = c\<lparr>cf_map := m, cf_trsTaskMap := trsTaskMap, cf_world := w\<rparr> in
            if trsTaskMap = [] then Some (Inl (False, c))
            else (case expire of
                    None \<Rightarrow> Some (Inr c)
                  | Some waitExpireTime \<Rightarrow>
                      let (now, w) = time_Now (g_RT G) w in
                      if now > waitExpireTime
                      then map_option (\<lambda>(m, seqMap, w). Inl (False, c\<lparr>cf_map := m, cf_seq := seqMap, cf_world := w\<rparr>))
                             (foldM (timeout_one G isSoft powerAction) (map snd trsTaskMap) (m, cf_seq c, w))
                      else Some (Inr (c\<lparr>cf_world := w\<rparr>)))))"

partial_function (option) confirm_loop :: "'w DOMAIN_GLOBALS \<Rightarrow> Transition \<Rightarrow> bool \<Rightarrow> time option \<Rightarrow> string
    \<Rightarrow> 'w confirm \<Rightarrow> (bool \<times> 'w confirm) option" where
  "confirm_loop G tr isSoft expire powerAction c =
     Option.bind (confirm_round G tr isSoft expire powerAction c)
       (\<lambda>r. case r of Inl done \<Rightarrow> Some done | Inr c \<Rightarrow> confirm_loop G tr isSoft expire powerAction c)"

declare confirm_loop.simps [code]

definition confirm_tier :: "'w DOMAIN_GLOBALS \<Rightarrow> Transition \<Rightarrow> string \<Rightarrow> 'w confirm \<Rightarrow> (bool \<times> 'w confirm) option" where
  "confirm_tier G tr powerAction c =
     (let isSoft = (tr_Operation tr = Operation_SoftOff) in
      if cf_trsTaskMap c = [] \<and> tr_TaskDeadline tr = 0 then Some (False, c)
      else if tr_TaskDeadline tr < 0 then confirm_loop G tr isSoft None powerAction c
      else let (now, w) = time_Now (g_RT G) (cf_world c)
           in confirm_loop G tr isSoft (Some (now + wrap64 (tr_TaskDeadline tr * Minute))) powerAction (c\<lparr>cf_world := w\<rparr>))"

definition powers_bmcs :: "PowerSeqElem \<Rightarrow> bool" where
  "powers_bmcs elm \<longleftrightarrow>
     (se_Action elm = ''on'' \<and> list_ex (\<lambda>t. t = RouterModule \<or> t = ComputeModule) (se_CompTypes elm)) \<or>
     (se_Action elm = ''gracefulrestart'' \<and> list_ex (\<lambda>t. t = ChassisBMC \<or> t = NodeBMC \<or> t = RouterBMC) (se_CompTypes elm))"

subsection \<open>The power sequence\<close>

text \<open>Everything up to the confirmation: the requests of the tier are out and answered.\<close>

definition send_tier :: "'w DOMAIN_GLOBALS \<Rightarrow> Transition \<Rightarrow> string \<Rightarrow> xname list \<Rightarrow> 'w exec
    \<Rightarrow> ('w exec \<times> (uuid, xname) gomap) option" where
  "send_tier G tr powerAction compList s =
     (let ((res, err), w) = hsm_CheckDeputyKeys (g_HSM G) (ex_res s) (ex_world s);
          (m, w) = fold (expire_one G powerAction) res (ex_map s, w);
          (trsTaskList, w) = trs_CreateTaskList (g_RFTloc G) (length compList) w
      in Option.bind (foldM (build_request G powerAction trsTaskList) compList
             \<lparr>bl_map = m, bl_trsTaskMap = [], bl_requests = [], bl_world = w\<rparr>) (\<lambda>b.
         Option.bind (launch_requests G (tr_TaskDeadline tr = 0) powerAction (bl_requests b)
             (bl_map b, bl_trsTaskMap b, bl_world b)) (\<lambda>(m, trsTaskMap, w).
           Some (s\<lparr>ex_map := m, ex_res := res, ex_world := w\<rparr>, trsTaskMap))))"

definition run_tier :: "'w DOMAIN_GLOBALS \<Rightarrow> Transition \<Rightarrow> PowerSeqElem \<Rightarrow> 'w exec \<Rightarrow> (bool \<times> 'w exec) option" where
  "run_tier G tr elm s =
     (let powerAction = se_Action elm; compList = tier_comps (ex_seq s) elm in
      if compList = [] then Some (False, s)
      else
        let (m, w) = (if ex_waitForBMCPower s then waitForBMC G compList (ex_map s) (ex_world s)
                      else (ex_map s, ex_world s));
            ((abort, err), w) = checkAbort G tr w;
            s = s\<lparr>ex_map := m, ex_waitForBMCPower := False, ex_world := w\<rparr>
        in if abort
           then map_option (\<lambda>(m, w). (True, s\<lparr>ex_map := m, ex_world := w\<rparr>)) (doAbort G tr m w)
           else Option.bind (send_tier G tr powerAction compList s) (\<lambda>(s, trsTaskMap).
             Option.bind (confirm_tier G tr powerAction
                 \<lparr>cf_map = ex_map s, cf_seq = ex_seq s, cf_trsTaskMap = trsTaskMap, cf_world = ex_world s\<rparr>)
               (\<lambda>(aborted, c).
                 Some (aborted, s\<lparr>ex_map := cf_map c, ex_seq := cf_seq c, ex_world := cf_world c,
                   ex_waitForBMCPower := \<not> aborted \<and> (trsTaskMap \<noteq> [] \<or> tr_TaskDeadline tr \<noteq> 0) \<and> powers_bmcs elm\<rparr>))))"

fun run_tiers :: "'w DOMAIN_GLOBALS \<Rightarrow> Transition \<Rightarrow> PowerSeqElem list \<Rightarrow> 'w exec \<Rightarrow> (bool \<times> 'w exec) option" where
  "run_tiers G tr [] s = Some (False, s)"
| "run_tiers G tr (elm # elms) s =
     Option.bind (run_tier G tr elm s) (\<lambda>(aborted, s). if aborted then Some (True, s) else run_tiers G tr elms s)"

text \<open>
  The rest of the goroutine once the components are reserved. \<^verbatim>\<open>defer\<close> runs the release of the
  reservations on every return from here on.
\<close>

definition execute_phase :: "'w DOMAIN_GLOBALS \<Rightarrow> Transition \<Rightarrow> xname_map \<Rightarrow> seq_map \<Rightarrow> ReservationData list
    \<Rightarrow> 'w \<Rightarrow> 'w option" where
  "execute_phase G tr xnameMap seqMap reservationData w =
     Option.bind (run_tiers G tr PowerSequenceFull
         \<lparr>ex_map = xnameMap, ex_seq = seqMap, ex_res = reservationData, ex_waitForBMCPower = False, ex_world = w\<rparr>)
       (\<lambda>(aborted, s).
         Option.bind (if aborted then Some (ex_world s)
                      else compressAndCompleteTransition G tr TransitionStatusCompleted (ex_world s))
           (\<lambda>w. Some (snd (hsm_ReleaseComponents (g_HSM G) (ex_res s) w))))"

definition attach_phase :: "'w DOMAIN_GLOBALS \<Rightarrow> Transition \<Rightarrow> xname_map \<Rightarrow> xname list \<Rightarrow> (xname, PowerStatusComponent) gomap
    \<Rightarrow> (xname, HsmData) gomap \<Rightarrow> 'w \<Rightarrow> ('w, xname_map \<times> Transition) phase" where
  "attach_phase G tr xnameMap xnames pStates hsmData w =
     (let (xnameMap, tr, w) = fold (attach_comp G pStates hsmData) xnames (xnameMap, tr, w);
          ((abortSignaled, err), w) = storeTransition G tr w
      in if abortSignaled then abort_and_return G tr xnameMap w
         else Some (Inr ((xnameMap, tr), w)))"

definition doTransition :: "'w DOMAIN_GLOBALS \<Rightarrow> uuid \<Rightarrow> 'w \<Rightarrow> 'w option" where
  "doTransition G transitionID w =
     map_option (\<lambda>r. case r of Inl w \<Rightarrow> w | Inr (_, w) \<Rightarrow> w)
       (bind_phase (fetch_transition G transitionID w) (\<lambda>tr w.
        bind_phase (setup_phase G tr w) (\<lambda>(xnameMap, xnames, tr) w.
        bind_phase (power_state_phase G tr xnameMap xnames w) (\<lambda>(pStates, xnameMap) w.
        let ((hsmData, xnameMap), w) = hsm_phase G pStates xnameMap xnames w in
        bind_phase (attach_phase G tr xnameMap xnames pStates hsmData w) (\<lambda>(xnameMap, tr) w.
        Option.bind (sequenceComponents G (tr_Operation tr) xnameMap w) (\<lambda>(xnameMap, seqMap, reservationData, w).
        bind_phase (reserve_phase G tr xnameMap reservationData w) (\<lambda>(xnameMap, reservationData) w.
        Option.bind (execute_phase G tr xnameMap seqMap reservationData w) (\<lambda>w. Some (Inr ((), w))))))))))"

end
