(* ===== verification/Transition_Tiers.thy ===== *)
theory Transition_Tiers
  imports Transition_Execution
begin

section \<open>What one tier of the power sequence does to the components\<close>

text \<open>
  The invariant of a tier of \<^verbatim>\<open>doTransition\<close> (\<^verbatim>\<open>internal/domain/transitions.go\<close>): relative to the map of
  components at its start, every component is untouched, has failed, is waiting to be confirmed, or is
  confirmed with one action less to go. One lemma per step of the tier (waiting for controllers, expired
  reservations, requests, replies, confirmation, timeouts) shows that the step keeps it; \<open>run_tier_inv\<close>
  puts them together for a whole tier. Identifiers of requests are unique (the locale \<open>unique_ids\<close>).
\<close>

subsection \<open>Components during a tier\<close>

abbreviation failed :: "TransitionComponent \<Rightarrow> bool" where
  "failed c \<equiv> tt_Status (comp_Task c) = TransitionTaskStatusFailed"

abbreviation pending :: "TransitionComponent \<Rightarrow> bool" where
  "pending c \<equiv> unfinished (comp_Task c)"

lemma failed_not_pending [simp]: "failed c \<Longrightarrow> \<not> pending c"
  by (simp add: unfinished_def)

definition comp_state :: "TransitionComponent \<Rightarrow> TransitionComponent \<Rightarrow> bool \<Rightarrow> bool \<Rightarrow> bool" where
  "comp_state c0 c waiting asked \<longleftrightarrow>
     (if waiting then \<not> failed c0 \<and> comp_ActionCount c = comp_ActionCount c0 \<and> (failed c \<or> pending c)
      else failed c \<or> \<not> failed c0 \<and>
        (if asked then comp_ActionCount c = comp_ActionCount c0 - 1 \<and> (pending c \<longleftrightarrow> comp_ActionCount c \<noteq> 0)
         else comp_ActionCount c = comp_ActionCount c0 \<and> pending c = pending c0))"

definition tier_inv :: "xname_map \<Rightarrow> xname set \<Rightarrow> xname set \<Rightarrow> xname_map \<Rightarrow> bool" where
  "tier_inv m0 asked waiting m \<longleftrightarrow> map fst m = map fst m0 \<and> wf_comps m \<and> waiting \<subseteq> asked \<and>
     (\<forall>xn c0 c. map_of m0 xn = Some c0 \<longrightarrow> map_of m xn = Some c \<longrightarrow> comp_state c0 c (xn \<in> waiting) (xn \<in> asked))"

lemma tier_inv_keys: "tier_inv m0 B T m \<Longrightarrow> map fst m = map fst m0"
  by (simp add: tier_inv_def)

lemma tier_inv_wf: "tier_inv m0 B T m \<Longrightarrow> wf_comps m"
  by (simp add: tier_inv_def)

lemma tier_inv_sub: "tier_inv m0 B T m \<Longrightarrow> T \<subseteq> B"
  by (simp add: tier_inv_def)

lemma tier_inv_state:
  "tier_inv m0 B T m \<Longrightarrow> map_of m0 xn = Some c0 \<Longrightarrow> map_of m xn = Some c \<Longrightarrow> comp_state c0 c (xn \<in> T) (xn \<in> B)"
  unfolding tier_inv_def by blast

lemma tier_inv_start: "wf_comps m \<Longrightarrow> tier_inv m {} {} m"
  by (auto simp: tier_inv_def comp_state_def)

lemma same_keys_lookup:
  assumes "map fst m = map fst m'" and "map_of m' x = Some c'"
  obtains c where "map_of m x = Some c"
proof -
  have "map_of m x \<noteq> None" using map_of_mem_keys [OF assms(2)] unfolding map_of_None_keys assms(1) by simp
  then show thesis using that by blast
qed

lemma wf_comps_name: "wf_comps m \<Longrightarrow> map_of m x = Some c \<Longrightarrow> tt_Xname (comp_Task c) = x"
  unfolding wf_comps_def by blast

text \<open>Changes that fail some components and leave the others alone.\<close>

definition only_fails :: "xname_map \<Rightarrow> xname_map \<Rightarrow> bool" where
  "only_fails m m' \<longleftrightarrow> map fst m' = map fst m \<and>
     (\<forall>xn c c'. map_of m xn = Some c \<longrightarrow> map_of m' xn = Some c' \<longrightarrow>
        c' = c \<or> (\<exists>e d. c' = upd_task (fail_task e d) c))"

lemma only_fails_refl [simp]: "only_fails m m"
  by (simp add: only_fails_def)

lemma upd_task_fail_twice:
  "upd_task (fail_task e d) (upd_task (fail_task e' d') c) = upd_task (fail_task e d) c"
  by (simp add: upd_task_def fail_task_def)

lemma only_fails_trans:
  assumes "only_fails m1 m2" and "only_fails m2 m3"
  shows "only_fails m1 m3"
  unfolding only_fails_def
proof (intro conjI allI impI)
  show "map fst m3 = map fst m1" using assms by (simp add: only_fails_def)
  fix xn c c'
  assume c: "map_of m1 xn = Some c" and c': "map_of m3 xn = Some c'"
  have "map fst m2 = map fst m3" using assms(2) by (simp add: only_fails_def)
  from same_keys_lookup [OF this c'] obtain c2 where c2: "map_of m2 xn = Some c2" .
  have "c2 = c \<or> (\<exists>e d. c2 = upd_task (fail_task e d) c)" using assms(1) c c2 unfolding only_fails_def by blast
  moreover have "c' = c2 \<or> (\<exists>e d. c' = upd_task (fail_task e d) c2)" using assms(2) c2 c' unfolding only_fails_def by blast
  ultimately show "c' = c \<or> (\<exists>e d. c' = upd_task (fail_task e d) c)" using upd_task_fail_twice by metis
qed

lemma only_fails_update:
  assumes "map_of m xn = Some c"
  shows "only_fails m (AList.update xn (upd_task (fail_task e d) c) m)"
  using assms update_same_keys [OF map_of_mem_keys [OF assms]] by (auto simp: only_fails_def)

lemma only_fails_failed:
  assumes "only_fails m m'" and "map_of m xn = Some c" and "failed c" and "map_of m' xn = Some c'"
  shows "failed c'"
  using assms unfolding only_fails_def by fastforce

lemma tier_inv_fails:
  assumes I: "tier_inv m0 B T m" and f: "only_fails m m'"
  shows "tier_inv m0 B T m'"
  unfolding tier_inv_def
proof (intro conjI allI impI)
  have keys: "map fst m' = map fst m" using f by (simp add: only_fails_def)
  then show "map fst m' = map fst m0" using tier_inv_keys [OF I] by simp
  show "T \<subseteq> B" by (rule tier_inv_sub [OF I])
  have step: "c' = c \<or> (\<exists>e d. c' = upd_task (fail_task e d) c)" if "map_of m xn = Some c" "map_of m' xn = Some c'" for xn c c'
    using f that unfolding only_fails_def by blast
  show "wf_comps m'"
    unfolding wf_comps_def
  proof (intro conjI allI impI)
    show "distinct (map fst m')" using tier_inv_wf [OF I] keys by (simp add: wf_comps_def)
    fix xn c'
    assume c': "map_of m' xn = Some c'"
    from same_keys_lookup [OF keys [symmetric] c'] obtain c where c: "map_of m xn = Some c" .
    then have "tt_Xname (comp_Task c) = xn" by (rule wf_comps_name [OF tier_inv_wf [OF I]])
    then show "tt_Xname (comp_Task c') = xn" using step [OF c c'] by auto
  qed
  fix xn c0 c'
  assume c0: "map_of m0 xn = Some c0" and c': "map_of m' xn = Some c'"
  from same_keys_lookup [OF keys [symmetric] c'] obtain c where c: "map_of m xn = Some c" .
  show "comp_state c0 c' (xn \<in> T) (xn \<in> B)"
    using tier_inv_state [OF I c0 c] step [OF c c'] by (auto simp: comp_state_def split: if_splits)
qed

lemma failDependentComps_fails:
  assumes "failDependentComps G m act xn err w = (m', w')"
  shows "only_fails m m'"
  using failDependentComps_law [OF assms] unfolding only_fails_def by (auto split: if_splits)

lemma fail_comp_fails:
  assumes "fail_comp G act xn err desc dep (m, w) = (m', w')"
  shows "only_fails m m' \<and> (\<forall>c'. map_of m' xn = Some c' \<longrightarrow> failed c')"
proof (cases "map_of m xn")
  case None
  then show ?thesis using assms by (simp add: fail_comp_def)
next
  case (Some c)
  let ?m1 = "AList.update xn (upd_task (fail_task err desc) c) m"
  obtain m2 w2 where d: "failDependentComps G ?m1 act (tt_Xname (comp_Task c)) dep w = (m2, w2)" by fastforce
  then have "m' = m2" using assms Some by (simp add: fail_comp_def Let_def)
  moreover have "only_fails ?m1 m2" by (rule failDependentComps_fails [OF d])
  moreover have "only_fails m ?m1" by (rule only_fails_update [OF Some])
  ultimately show ?thesis using only_fails_trans only_fails_failed [of ?m1 m2 xn] by fastforce
qed

text \<open>Replacing one component.\<close>

lemma tier_inv_update:
  assumes I: "tier_inv m0 B T m" and c: "map_of m xn = Some c"
    and name: "tt_Xname (comp_Task c') = tt_Xname (comp_Task c)" and sub: "T' \<subseteq> B'"
    and others: "\<And>x. x \<noteq> xn \<Longrightarrow> (x \<in> T' \<longleftrightarrow> x \<in> T) \<and> (x \<in> B' \<longleftrightarrow> x \<in> B)"
    and state: "\<And>c0. map_of m0 xn = Some c0 \<Longrightarrow> comp_state c0 c (xn \<in> T) (xn \<in> B) \<Longrightarrow> comp_state c0 c' (xn \<in> T') (xn \<in> B')"
  shows "tier_inv m0 B' T' (AList.update xn c' m)"
  unfolding tier_inv_def
proof (intro conjI allI impI)
  show "map fst (AList.update xn c' m) = map fst m0"
    using tier_inv_keys [OF I] update_same_keys [OF map_of_mem_keys [OF c]] by simp
  show "wf_comps (AList.update xn c' m)"
    by (rule wf_comps_update [OF tier_inv_wf [OF I]]) (simp add: name wf_comps_name [OF tier_inv_wf [OF I] c])
  show "T' \<subseteq> B'" by (rule sub)
  fix x c0 d
  assume c0: "map_of m0 x = Some c0" and d: "map_of (AList.update xn c' m) x = Some d"
  show "comp_state c0 d (x \<in> T') (x \<in> B')"
  proof (cases "x = xn")
    case True
    then show ?thesis using state [of c0] tier_inv_state [OF I _ c, of c0] c0 d by simp
  next
    case False
    then show ?thesis using tier_inv_state [OF I c0, of d] d others [of x] by simp
  qed
qed

text \<open>Dropping a failed component from the waiting ones; asking a component that has failed already.\<close>

lemma tier_inv_drop_failed:
  assumes I: "tier_inv m0 B T m" and "\<And>c. map_of m xn = Some c \<Longrightarrow> failed c"
    and "T' = T - {xn}" and "B' = B \<or> B' = insert xn B \<and> xn \<notin> T"
  shows "tier_inv m0 B' T' m"
  unfolding tier_inv_def
proof (intro conjI allI impI)
  show "map fst m = map fst m0" "wf_comps m" using I by (simp_all add: tier_inv_def)
  show "T' \<subseteq> B'" using tier_inv_sub [OF I] assms(3,4) by auto
  fix x c0 c
  assume c0: "map_of m0 x = Some c0" and c: "map_of m x = Some c"
  show "comp_state c0 c (x \<in> T') (x \<in> B')"
    using tier_inv_state [OF I c0 c] assms(2) [of c] assms(3,4) c by (cases "x = xn") (auto simp: comp_state_def)
qed

lemma comp_state_cong:
  "tt_Status (comp_Task c') = tt_Status (comp_Task c) \<Longrightarrow> comp_ActionCount c' = comp_ActionCount c \<Longrightarrow>
   comp_state c0 c' a b = comp_state c0 c a b"
  by (simp only: comp_state_def unfinished_def)

lemma tier_inv_touch:
  assumes "tier_inv m0 B T m" and "map_of m xn = Some c"
    and "tt_Xname (comp_Task c') = tt_Xname (comp_Task c)" and "tt_Status (comp_Task c') = tt_Status (comp_Task c)"
    and "comp_ActionCount c' = comp_ActionCount c"
  shows "tier_inv m0 B T (AList.update xn c' m)"
  by (rule tier_inv_update [OF assms(1-3)])
    (use tier_inv_sub [OF assms(1)] comp_state_cong [OF assms(4,5)] in auto)

lemma wait_one_inv:
  assumes "tier_inv m0 B T m" and "wait_one G first xn (m, b, w) = (m', b', w')"
  shows "tier_inv m0 B T m'"
proof (cases "map_of m xn")
  case None
  then show ?thesis using assms by (simp add: wait_one_def)
next
  case (Some c)
  let ?c = "upd_task (\<lambda>t. t\<lparr>tt_StatusDesc := ''Waiting for controller to be ready''\<rparr>) c"
  have "m' = m \<or> m' = AList.update xn ?c m"
    using assms(2) Some by (auto simp: wait_one_def Let_def split: prod.splits if_splits)
  moreover have "tier_inv m0 B T (AList.update xn ?c m)" by (rule tier_inv_touch [OF assms(1) Some]) simp_all
  ultimately show ?thesis using assms(1) by auto
qed

lemma wait_fold_inv:
  assumes "tier_inv m0 B T m" and "fold (wait_one G first) xs (m, b, w) = (m', b', w')"
  shows "tier_inv m0 B T m'"
proof -
  have "tier_inv m0 B T (fst (fold (wait_one G first) xs (m, b, w)))"
  proof (rule fold_inv_rule [where I = "\<lambda>s. tier_inv m0 B T (fst s)"])
    show "tier_inv m0 B T (fst (m, b, w))" using assms(1) by simp
    show "tier_inv m0 B T (fst (wait_one G first x s))" if "tier_inv m0 B T (fst s)" for x s
      using wait_one_inv [of m0 B T "fst s" G first x] that by (metis prod.collapse)
  qed
  then show ?thesis using assms(2) by simp
qed

lemma waitForBMC_inv:
  assumes "tier_inv m0 B T m" and "waitForBMC_loop G n first xs m w = (m', w')"
  shows "tier_inv m0 B T m'"
  using assms
proof (induction n arbitrary: first m w)
  case 0
  then show ?case by simp
next
  case (Suc n)
  obtain m1 b w1 where f: "fold (wait_one G first) xs (m, False, w) = (m1, b, w1)" by (metis surj_pair)
  have I: "tier_inv m0 B T m1" by (rule wait_fold_inv [OF Suc.prems(1) f])
  then show ?case using Suc.IH [OF I] Suc.prems(2) f by (simp split: if_splits)
qed

lemma expire_one_inv:
  assumes "tier_inv m0 B T m" and "expire_one G act res (m, w) = (m', w')"
  shows "tier_inv m0 B T m'"
proof -
  have "m' = m \<or> (\<exists>dep. fail_comp G act (rd_XName res) ''Reservation expired'' ''Failed to achieve transition'' dep (m, w) = (m', w'))"
    using assms(2) by (auto simp: expire_one_def split: option.splits if_splits)
  then show ?thesis using fail_comp_fails tier_inv_fails [OF assms(1)] assms(1) by metis
qed

lemma expire_fold_inv:
  assumes "tier_inv m0 B T m" and "fold (expire_one G act) rs (m, w) = (m', w')"
  shows "tier_inv m0 B T m'"
proof -
  have "tier_inv m0 B T (fst (fold (expire_one G act) rs (m, w)))"
  proof (rule fold_inv_rule [where I = "\<lambda>s. tier_inv m0 B T (fst s)"])
    show "tier_inv m0 B T (fst (m, w))" using assms(1) by simp
    show "tier_inv m0 B T (fst (expire_one G act x s))" if "tier_inv m0 B T (fst s)" for x s
      using expire_one_inv [of m0 B T "fst s" G act x] that by (metis prod.collapse)
  qed
  then show ?thesis using assms(2) by simp
qed

subsection \<open>Requests\<close>

lemma update_triv_map: "map_of m k = Some v \<Longrightarrow> AList.update k v m = m"
  by (induction m) (auto split: if_splits)

lemma update_fresh: "k \<notin> set (map fst m) \<Longrightarrow> AList.update k v m = m @ [(k, v)]"
  by (induction m) auto

lemma send_request_sel:
  obtains c' where "bl_map (send_request G act i xn c p h body b) = AList.update xn c' (bl_map b)"
    "tt_Xname (comp_Task c') = tt_Xname (comp_Task c)" "tt_Status (comp_Task c') = tt_Status (comp_Task c)"
    "comp_ActionCount c' = comp_ActionCount c"
proof -
  let ?c = "upd_task (\<lambda>t. t\<lparr>tt_StatusDesc := ''Applying transition, '' @ act,
      tt_State := TaskState_Sending, tt_Operation := getOpForPowerAction act\<rparr>) c"
  have "bl_map (send_request G act i xn c p h body b) = AList.update xn ?c (bl_map b)"
    by (simp add: send_request_def Let_def split: prod.splits)
  then show thesis by (rule that) simp_all
qed

lemma send_request_ids:
  "bl_trsTaskMap (send_request G act i xn c p h body b) = AList.update i xn (bl_trsTaskMap b)"
  "length (bl_requests (send_request G act i xn c p h body b)) = Suc (length (bl_requests b))"
  by (simp_all add: send_request_def Let_def split: prod.splits)

lemma build_request_cases:
  assumes run: "build_request G act ids xn b = Some b'" and c: "map_of (bl_map b) xn = Some c"
  obtains (failed) "failed c" "b' = b"
  | (waiting) i w where "\<not> failed c" "uuid_New (g_RT G) (bl_world b) = (i, w)"
      "b' = b\<lparr>bl_trsTaskMap := AList.update i xn (bl_trsTaskMap b), bl_world := w\<rparr>"
  | (bad) e d dep m w where "fail_comp G act xn e d dep (bl_map b, bl_world b) = (m, w)" "b' = b\<lparr>bl_map := m, bl_world := w\<rparr>"
  | (send) i rest p h body where "\<not> failed c" "drop (length (bl_requests b)) ids = i # rest"
      "b' = send_request G act i xn c p h body b" "comp_HSMData c = Some h"
      "generateTransitionPayload (g_XN G) c act = Some (body, None)"
      "\<not> (tt_State (comp_Task c) = TaskState_Waiting \<and> tt_Operation (comp_Task c) = getOpForPowerAction act)"
proof (cases "failed c")
  case True
  then show thesis using run c that(1) by (simp add: build_request_def)
next
  case nf: False
  show thesis
  proof (cases "tt_State (comp_Task c) = TaskState_Waiting \<and> tt_Operation (comp_Task c) = getOpForPowerAction act")
    case True
    obtain i w where "uuid_New (g_RT G) (bl_world b) = (i, w)" by fastforce
    then show thesis using run c nf True that(2) [of i w] by (simp add: build_request_def)
  next
    case False
    then obtain body e where p: "generateTransitionPayload (g_XN G) c act = Some (body, e)"
      using run c nf by (auto simp: build_request_def split: option.splits)
    show thesis
    proof (cases e)
      case None
      then show thesis using run c nf False p that(4)
        by (auto simp: build_request_def split: option.splits list.splits)
    next
      case (Some err)
      obtain m w where "fail_comp G act xn err ''Failed to construct payload'' (apply_error act (tt_Xname (comp_Task c)))
          (bl_map b, bl_world b) = (m, w)" by fastforce
      then show thesis using run c nf False p Some that(3) by (auto simp: build_request_def)
    qed
  qed
qed

text \<open>
  A request for a component of the map: it has not failed and does not wait for the same operation, the
  request goes to its own endpoint and carries the payload of the action.
\<close>

definition request_of :: "'w DOMAIN_GLOBALS \<Rightarrow> string \<Rightarrow> xname_map \<Rightarrow> xname \<Rightarrow> http_request \<Rightarrow> bool" where
  "request_of G act m xn rq \<longleftrightarrow> (\<exists>c h. map_of m xn = Some c \<and> \<not> failed c \<and>
     \<not> (tt_State (comp_Task c) = TaskState_Waiting \<and> tt_Operation (comp_Task c) = getOpForPowerAction act) \<and>
     comp_HSMData c = Some h \<and> rq_Method rq = ''POST'' \<and> rq_URL rq = ''https://'' @ hd_RfFQDN h @ hd_PowerActionURI h \<and>
     generateTransitionPayload (g_XN G) c act = Some (rq_Body rq, None))"

lemma send_request_rq:
  "\<exists>auth. bl_requests (send_request G act i xn c p h body b) = bl_requests b @
     [\<lparr>rq_ID = i, rq_Method = ''POST'', rq_URL = ''https://'' @ hd_RfFQDN h @ hd_PowerActionURI h, rq_Body = body, rq_BasicAuth = auth\<rparr>]"
  by (simp add: send_request_def Let_def split: prod.splits)

lemma build_request_effect:
  assumes "build_request G act ids xn b = Some b'"
  shows "(\<exists>new. bl_requests b' = bl_requests b @ new \<and> map rq_ID new = take (length new) (drop (length (bl_requests b)) ids) \<and>
      length new \<le> 1 \<and> (\<forall>rq \<in> set new. request_of G act (bl_map b) xn rq)) \<and>
    (\<forall>x c. x \<noteq> xn \<longrightarrow> map_of (bl_map b') x = Some c \<longrightarrow> \<not> failed c \<longrightarrow> map_of (bl_map b) x = Some c)"
proof -
  obtain c where c: "map_of (bl_map b) xn = Some c" using assms by (auto simp: build_request_def split: option.splits)
  show ?thesis
    using assms c
  proof (cases rule: build_request_cases)
    case (bad e d dep m w)
    have of: "only_fails (bl_map b) m" using fail_comp_fails [OF bad(1)] by simp
    have "map_of (bl_map b) x = Some c" if "map_of m x = Some c" "\<not> failed c" for x c
    proof -
      have "map fst (bl_map b) = map fst m" using of by (simp add: only_fails_def)
      from same_keys_lookup [OF this that(1)] obtain c0 where "map_of (bl_map b) x = Some c0" .
      then show ?thesis using of that unfolding only_fails_def by fastforce
    qed
    then show ?thesis using bad(2) by auto
  next
    case (send i rest p h body)
    obtain auth where rq: "bl_requests b' = bl_requests b @ [\<lparr>rq_ID = i, rq_Method = ''POST'',
        rq_URL = ''https://'' @ hd_RfFQDN h @ hd_PowerActionURI h, rq_Body = body, rq_BasicAuth = auth\<rparr>]"
      using send_request_rq send(3) by metis
    obtain c' where "bl_map b' = AList.update xn c' (bl_map b)" using send_request_sel send(3) by metis
    then show ?thesis using rq send c by (auto simp: request_of_def)
  qed auto
qed

lemma build_requests_effect:
  assumes "distinct xs" and "foldM (build_request G act ids) xs b = Some b'"
  shows "\<exists>new. bl_requests b' = bl_requests b @ new \<and> map rq_ID new = take (length new) (drop (length (bl_requests b)) ids) \<and>
    length new \<le> length xs \<and> (\<forall>rq \<in> set new. \<exists>xn \<in> set xs. request_of G act (bl_map b) xn rq)"
  using assms
proof (induction xs arbitrary: b)
  case Nil
  then show ?case by simp
next
  case (Cons x xs)
  obtain b1 where s: "build_request G act ids x b = Some b1" and r: "foldM (build_request G act ids) xs b1 = Some b'"
    using Cons.prems(2) by (auto split: Option.bind_splits)
  obtain new1 where n1: "bl_requests b1 = bl_requests b @ new1" "map rq_ID new1 = take (length new1) (drop (length (bl_requests b)) ids)"
      "length new1 \<le> 1" "\<forall>rq \<in> set new1. request_of G act (bl_map b) x rq"
    and keep: "\<And>y c. y \<noteq> x \<Longrightarrow> map_of (bl_map b1) y = Some c \<Longrightarrow> \<not> failed c \<Longrightarrow> map_of (bl_map b) y = Some c"
    using build_request_effect [OF s] by blast
  obtain new2 where n2: "bl_requests b' = bl_requests b1 @ new2" "map rq_ID new2 = take (length new2) (drop (length (bl_requests b1)) ids)"
      "length new2 \<le> length xs" "\<forall>rq \<in> set new2. \<exists>xn \<in> set xs. request_of G act (bl_map b1) xn rq"
    using Cons.IH [OF _ r] Cons.prems(1) by auto
  have "request_of G act (bl_map b) xn rq" if "xn \<in> set xs" "request_of G act (bl_map b1) xn rq" for xn rq
    using that keep [of xn] Cons.prems(1) unfolding request_of_def by (metis distinct.simps(2))
  then have "\<forall>rq \<in> set (new1 @ new2). \<exists>xn \<in> set (x # xs). request_of G act (bl_map b) xn rq" using n1(4) n2(4) by fastforce
  moreover have "map rq_ID (new1 @ new2) = take (length (new1 @ new2)) (drop (length (bl_requests b)) ids)"
    using n1(1,2) n2(2) by (simp add: take_add add.commute)
  ultimately show ?case using n1(1,3) n2(1,3) by (intro exI [of _ "new1 @ new2"]) simp
qed

text \<open>
  Identifiers are unique: the task runner gives distinct IDs and \<^verbatim>\<open>uuid.New\<close> one that has not been
  used. \<open>used\<close> are the identifiers handed out so far.
\<close>

definition ids_ok :: "('w \<Rightarrow> uuid set) \<Rightarrow> uuid list \<Rightarrow> 'w build \<Rightarrow> bool" where
  "ids_ok used ids b \<longleftrightarrow> distinct (map fst (bl_trsTaskMap b)) \<and> distinct (map snd (bl_trsTaskMap b)) \<and>
     set ids \<subseteq> used (bl_world b) \<and> set (map fst (bl_trsTaskMap b)) \<subseteq> used (bl_world b) \<and>
     set (drop (length (bl_requests b)) ids) \<inter> set (map fst (bl_trsTaskMap b)) = {} \<and> distinct ids"

locale unique_ids =
  fixes G :: "'w DOMAIN_GLOBALS" and used :: "'w \<Rightarrow> uuid set"
  assumes create: "\<And>n w ids w'. trs_CreateTaskList (g_RFTloc G) n w = (ids, w') \<Longrightarrow>
      distinct ids \<and> set ids \<subseteq> used w' \<and> length ids = n"
    and fresh: "\<And>w i w'. uuid_New (g_RT G) w = (i, w') \<Longrightarrow> i \<notin> used w \<and> insert i (used w) \<subseteq> used w'"
    and store_used: "\<And>t w. used w \<subseteq> used (store_task G t w)"
    and creds_used: "\<And>x w r w'. cs_GetControllerCredentials (g_CS G) x w = (r, w') \<Longrightarrow> used w \<subseteq> used w'"
begin

lemma fail_dependents_used: "used w \<subseteq> used (snd (fold (fail_dependent G err) ps (m, w)))"
proof (induction ps arbitrary: m w)
  case (Cons p ps)
  obtain m1 w1 where s: "fail_dependent G err p (m, w) = (m1, w1)" by fastforce
  have "used w \<subseteq> used w1" using s store_used by (auto simp: fail_dependent_def Let_def split: option.splits)
  then show ?case using Cons.IH [of w1 m1] s by auto
qed simp

lemma fail_comp_used:
  assumes "fail_comp G act xn err desc dep (m, w) = (m', w')"
  shows "used w \<subseteq> used w'"
proof (cases "map_of m xn")
  case None
  then show ?thesis using assms by (simp add: fail_comp_def)
next
  case (Some c)
  let ?m1 = "AList.update xn (upd_task (fail_task err desc) c) m"
  obtain m2 w2 where d: "failDependentComps G ?m1 act (tt_Xname (comp_Task c)) dep w = (m2, w2)" by fastforce
  then have u: "used w \<subseteq> used w2"
    using fail_dependents_used [of w dep _ ?m1] by (metis failDependentComps_def snd_conv)
  have "w' = w2 \<or> (\<exists>t. w' = store_task G t w2)"
    using assms Some d by (auto simp: fail_comp_def Let_def split: option.splits)
  then show ?thesis using u store_used by blast
qed

lemma send_request_used: "used (bl_world b) \<subseteq> used (bl_world (send_request G act i xn c p h body b))"
  using creds_used store_used by (fastforce simp: send_request_def Let_def split: prod.splits if_splits)

lemma build_request_inv:
  assumes I: "tier_inv m0 B (snd ` set (bl_trsTaskMap b)) (bl_map b)" and ids: "ids_ok used ids b"
    and xn: "xn \<notin> B" "\<And>c0. map_of m0 xn = Some c0 \<Longrightarrow> failed c0 \<or> pending c0"
    and run: "build_request G act ids xn b = Some b'"
  shows "tier_inv m0 (insert xn B) (snd ` set (bl_trsTaskMap b')) (bl_map b') \<and> ids_ok used ids b'"
proof -
  let ?T = "snd ` set (bl_trsTaskMap b)"
  have notT: "xn \<notin> ?T" using tier_inv_sub [OF I] xn(1) by blast
  obtain c where c: "map_of (bl_map b) xn = Some c" using run by (auto simp: build_request_def split: option.splits)
  have drop: "tier_inv m0 (insert xn B) ?T m" if "tier_inv m0 B ?T m" "\<And>d. map_of m xn = Some d \<Longrightarrow> failed d" for m
    by (rule tier_inv_drop_failed [OF that]) (use notT in auto)
  have ask: "comp_state c0 c' True True" if "map_of m0 xn = Some c0" "comp_state c0 c False False" "\<not> failed c"
    "tt_Status (comp_Task c') = tt_Status (comp_Task c)" "comp_ActionCount c' = comp_ActionCount c" for c0 c'
    using that xn(2) [OF that(1)] by (auto simp: comp_state_def unfinished_def)
  have fin: "tier_inv m0 (insert xn B) (insert xn ?T) (AList.update xn c' (bl_map b))"
    if "\<not> failed c" "tt_Xname (comp_Task c') = tt_Xname (comp_Task c)"
       "tt_Status (comp_Task c') = tt_Status (comp_Task c)" "comp_ActionCount c' = comp_ActionCount c" for c'
    by (rule tier_inv_update [OF I c that(2)]) (use tier_inv_sub [OF I] xn(1) notT ask that in auto)
  show ?thesis
    using run c
  proof (cases rule: build_request_cases)
    case failed
    then show ?thesis using drop [OF I] c ids by simp
  next
    case (waiting i w)
    have i: "i \<notin> set (map fst (bl_trsTaskMap b))" "i \<notin> set ids" "used (bl_world b) \<subseteq> used w" "i \<in> used w"
      using fresh [OF waiting(2)] ids by (auto simp: ids_ok_def)
    have "tier_inv m0 (insert xn B) (insert xn ?T) (bl_map b)"
      using fin [of c] waiting(1) c update_triv_map [OF c] by simp
    then show ?thesis
      using i ids notT waiting(3) set_drop_subset [of "length (bl_requests b)" ids]
      by (auto simp: ids_ok_def update_fresh)
  next
    case (bad e d dep m w)
    have "only_fails (bl_map b) m \<and> (\<forall>c'. map_of m xn = Some c' \<longrightarrow> failed c')" by (rule fail_comp_fails [OF bad(1)])
    then have "tier_inv m0 (insert xn B) ?T m" using drop tier_inv_fails [OF I] by blast
    moreover have "used (bl_world b) \<subseteq> used w" by (rule fail_comp_used [OF bad(1)])
    ultimately show ?thesis using ids bad(2) by (auto simp: ids_ok_def)
  next
    case (send i rest p h body)
    have i: "i \<notin> set (map fst (bl_trsTaskMap b))" using ids send(2) by (auto simp: ids_ok_def)
    have rest: "drop (Suc (length (bl_requests b))) ids = rest" "i \<notin> set rest"
      using send(2) ids distinct_drop [of ids "length (bl_requests b)"] by (simp_all add: ids_ok_def drop_Suc drop_tl)
    obtain c' where c': "bl_map b' = AList.update xn c' (bl_map b)" "tt_Xname (comp_Task c') = tt_Xname (comp_Task c)"
      "tt_Status (comp_Task c') = tt_Status (comp_Task c)" "comp_ActionCount c' = comp_ActionCount c"
      using send_request_sel send(3) by metis
    have "tier_inv m0 (insert xn B) (insert xn ?T) (bl_map b')" using fin [OF send(1) c'(2-4)] c'(1) by simp
    moreover have "bl_trsTaskMap b' = bl_trsTaskMap b @ [(i, xn)]" "length (bl_requests b') = Suc (length (bl_requests b))"
      unfolding send(3) send_request_ids by (simp_all add: update_fresh [OF i])
    moreover have "used (bl_world b) \<subseteq> used (bl_world b')" using send_request_used send(3) by simp
    moreover have "i \<in> set ids" using send(2) by (metis list.set_intros(1) set_drop_subset subsetD)
    ultimately show ?thesis
      using i rest ids notT send(2) by (auto simp: ids_ok_def)
  qed
qed

lemma build_requests_inv:
  assumes "tier_inv m0 B (snd ` set (bl_trsTaskMap b)) (bl_map b)" and "ids_ok used ids b"
    and "distinct xs" and "set xs \<inter> B = {}"
    and "\<And>xn c0. xn \<in> set xs \<Longrightarrow> map_of m0 xn = Some c0 \<Longrightarrow> failed c0 \<or> pending c0"
    and "foldM (build_request G act ids) xs b = Some b'"
  shows "tier_inv m0 (B \<union> set xs) (snd ` set (bl_trsTaskMap b')) (bl_map b') \<and> ids_ok used ids b'"
  using assms
proof (induction xs arbitrary: B b)
  case Nil
  then show ?case by simp
next
  case (Cons x xs)
  obtain b1 where s: "build_request G act ids x b = Some b1" and r: "foldM (build_request G act ids) xs b1 = Some b'"
    using Cons.prems(6) by (auto split: Option.bind_splits)
  have "tier_inv m0 (insert x B) (snd ` set (bl_trsTaskMap b1)) (bl_map b1) \<and> ids_ok used ids b1"
    by (rule build_request_inv [OF Cons.prems(1,2) _ _ s]) (use Cons.prems(4,5) in auto)
  then have "tier_inv m0 (insert x B \<union> set xs) (snd ` set (bl_trsTaskMap b')) (bl_map b') \<and> ids_ok used ids b'"
    using Cons.prems(3-5) by (intro Cons.IH [OF _ _ _ _ _ r]) auto
  then show ?case by simp
qed

end

subsection \<open>Replies and confirmation\<close>

lemma delete_entry:
  assumes "distinct (map fst tm)" and "distinct (map snd tm)" and "map_of tm i = Some xn"
  shows "snd ` set (AList.delete i tm) = snd ` set tm - {xn}" "distinct (map fst (AList.delete i tm))"
    "distinct (map snd (AList.delete i tm))"
proof -
  have d: "AList.delete i tm = filter (\<lambda>(k, _). i \<noteq> k) tm" by (simp add: AList.delete_eq)
  have mem: "(i, xn) \<in> set tm" using assms(3) by (rule map_of_SomeD)
  have inj: "inj_on fst (set tm)" "inj_on snd (set tm)" using assms(1,2) by (simp_all add: distinct_map)
  have "k = i \<longleftrightarrow> v = xn" if "(k, v) \<in> set tm" for k v
    using inj_onD [OF inj(1) _ that mem] inj_onD [OF inj(2) _ that mem] by auto
  then show "snd ` set (AList.delete i tm) = snd ` set tm - {xn}" unfolding d by force
  show "distinct (map fst (AList.delete i tm))" "distinct (map snd (AList.delete i tm))"
    unfolding d using assms by (simp_all add: distinct_map_filter)
qed

definition wait_inv :: "xname_map \<Rightarrow> xname set \<Rightarrow> xname_map \<Rightarrow> (uuid, xname) gomap \<Rightarrow> bool" where
  "wait_inv m0 B m tm \<longleftrightarrow> tier_inv m0 B (snd ` set tm) m \<and> distinct (map fst tm) \<and> distinct (map snd tm)"

lemma wait_inv_drop:
  assumes "wait_inv m0 B m tm" and "map_of tm i = Some xn" and "tier_inv m0 B (snd ` set tm - {xn}) m'"
  shows "wait_inv m0 B m' (AList.delete i tm)"
  using assms delete_entry [of tm i xn] by (simp add: wait_inv_def)

lemma wait_inv_failed:
  assumes "wait_inv m0 B m tm" and "map_of tm i = Some xn" and "fail_comp G act xn e d dep (m, w) = (m', w')"
  shows "wait_inv m0 B m' (AList.delete i tm)"
proof -
  have f: "only_fails m m'" "\<And>c'. map_of m' xn = Some c' \<Longrightarrow> failed c'" using fail_comp_fails [OF assms(3)] by auto
  have "tier_inv m0 B (snd ` set tm) m'" using assms(1) tier_inv_fails [OF _ f(1)] by (simp add: wait_inv_def)
  then have "tier_inv m0 B (snd ` set tm - {xn}) m'" using tier_inv_drop_failed f(2) by metis
  then show ?thesis by (rule wait_inv_drop [OF assms(1,2)])
qed

lemma reply_one_inv:
  assumes I: "wait_inv m0 B m tm" and run: "reply_one G False act td (m, tm, w) = Some (m', tm', w')"
  shows "wait_inv m0 B m' tm'"
proof -
  obtain xn where xn: "map_of tm (td_ID td) = Some xn" using run by (auto simp: reply_one_def split: option.splits)
  obtain c where c: "map_of m xn = Some c" using run xn by (auto simp: reply_one_def split: option.splits)
  have T: "xn \<in> snd ` set tm" using map_of_SomeD [OF xn] by force
  consider (err) e where "reply_error td = Some (Some e)" | (ok) "reply_error td = Some None"
    using run xn c by (auto simp: reply_one_def split: option.splits)
  then show ?thesis
  proof cases
    case err
    obtain m1 w1 where f: "fail_comp G act xn e (''Failed to apply transition, '' @ act) (apply_error act (tt_Xname (comp_Task c))) (m, w) = (m1, w1)"
      by fastforce
    then have "m' = m1" "tm' = AList.delete (td_ID td) tm" using run xn c err by (auto simp: reply_one_def)
    then show ?thesis using wait_inv_failed [OF I xn f] by simp
  next
    case ok
    have out: "m' = AList.update xn (reply_ok False act c) m" "tm' = tm" using run xn c ok by (auto simp: reply_one_def Let_def)
    have TI: "tier_inv m0 B (snd ` set tm) m" using I by (simp add: wait_inv_def)
    have TB: "xn \<in> B" using tier_inv_sub [OF TI] T by blast
    have st: "comp_state c0 (reply_ok False act c) True True" if "comp_state c0 c True True" for c0
      using that by (auto simp: comp_state_def reply_ok_def unfinished_def)
    have "tier_inv m0 B (snd ` set tm) (AList.update xn (reply_ok False act c) m)"
      by (rule tier_inv_update [OF TI c _ tier_inv_sub [OF TI]])
        (simp_all only: T TB st, simp_all add: reply_ok_def)
    then show ?thesis using I out by (simp add: wait_inv_def)
  qed
qed

lemma replies_inv:
  assumes "wait_inv m0 B m tm" and "foldM (reply_one G False act) tds (m, tm, w) = Some (m', tm', w')"
  shows "wait_inv m0 B m' tm'"
proof -
  have "wait_inv m0 B (fst (m', tm', w')) (fst (snd (m', tm', w')))"
  proof (rule foldM_invariant [OF assms(2), where I = "\<lambda>s. wait_inv m0 B (fst s) (fst (snd s))"])
    show "wait_inv m0 B (fst (m, tm, w)) (fst (snd (m, tm, w)))" using assms(1) by simp
    show "wait_inv m0 B (fst s') (fst (snd s'))"
      if "wait_inv m0 B (fst s) (fst (snd s))" "reply_one G False act td s = Some s'" for td s s'
      using reply_one_inv [of m0 B "fst s" "fst (snd s)" G act td "snd (snd s)"] that by (cases s; cases s') auto
  qed
  then show ?thesis by simp
qed

lemma launch_inv:
  assumes "wait_inv m0 B m tm" and "launch_requests G False act rqs (m, tm, w) = Some (m', tm', w')"
  shows "wait_inv m0 B m' tm'"
proof (cases "rqs = []")
  case True
  then show ?thesis using assms by (simp add: launch_requests_def)
next
  case False
  obtain rs e w1 where l: "trs_Launch (g_RFTloc G) rqs w = ((rs, e), w1)" by (rule pair2E)
  obtain w2 where "foldM (reply_one G False act) (take (length rqs) rs) (m, tm, w1) = Some (m', tm', w2)"
    using assms(2) False l by (auto simp: launch_requests_def Let_def split: if_splits Option.bind_splits)
  then show ?thesis by (rule replies_inv [OF assms(1)])
qed

text \<open>Confirming the components of a snapshot of the map, entry by entry.\<close>

lemma confirm_comp_state:
  "comp_state c0 c True True \<Longrightarrow> comp_state c0 (confirm_comp act c) False True"
  by (auto simp: comp_state_def confirm_comp_def Let_def unfinished_def)

lemma confirm_one_inv:
  assumes I: "wait_inv m0 B m tm" and e: "map_of tm i = Some xn"
    and run: "confirm_one G act (i, xn) (m, tm, w) = Some (m', tm', w')"
  shows "wait_inv m0 B m' tm' \<and> (tm' = tm \<or> tm' = AList.delete i tm)"
proof -
  obtain c where c: "map_of m xn = Some c" using run by (auto simp: confirm_one_def split: option.splits)
  obtain ps err w1 where g: "dsp_GetPowerStatus (g_DSP G) (tt_Xname (comp_Task c)) w = ((ps, err), w1)" by (rule pair2E)
  have TI: "tier_inv m0 B (snd ` set tm) m" using I by (simp add: wait_inv_def)
  have T: "xn \<in> snd ` set tm" using map_of_SomeD [OF e] by force
  then have TB: "xn \<in> B" using tier_inv_sub [OF TI] by blast
  consider (bad) er dep where "fail_comp G act xn er ''Failed to confirm transition'' dep (m, w1) = (m', w')" "tm' = AList.delete i tm"
    | (ok) "m' = AList.update xn (confirm_comp act c) m" "tm' = AList.delete i tm"
    | (no) "m' = m" "tm' = tm"
    using run c g by (auto simp: confirm_one_def Let_def split: option.splits prod.splits if_splits)
  then show ?thesis
  proof cases
    case bad
    then show ?thesis using wait_inv_failed [OF I e bad(1)] by simp
  next
    case ok
    have "tier_inv m0 B (snd ` set tm - {xn}) (AList.update xn (confirm_comp act c) m)"
      by (rule tier_inv_update [OF TI c])
        (use tier_inv_sub [OF TI] T TB confirm_comp_state in \<open>auto simp: confirm_comp_def Let_def\<close>)
    then show ?thesis using wait_inv_drop [OF I e] ok by simp
  next
    case no
    then show ?thesis using I by simp
  qed
qed

lemma confirm_fold_inv:
  assumes "wait_inv m0 B m tm" and "distinct (map fst es)" and "set es \<subseteq> set tm"
    and "foldM (confirm_one G act) es (m, tm, w) = Some (m', tm', w')"
  shows "wait_inv m0 B m' tm' \<and> set tm' \<subseteq> set tm"
  using assms
proof (induction es arbitrary: m tm w)
  case Nil
  then show ?case by simp
next
  case (Cons e es)
  obtain i xn where e: "e = (i, xn)" by fastforce
  obtain m1 tm1 w1 where s: "confirm_one G act (i, xn) (m, tm, w) = Some (m1, tm1, w1)"
    and r: "foldM (confirm_one G act) es (m1, tm1, w1) = Some (m', tm', w')"
    using Cons.prems(4) e by (auto split: Option.bind_splits)
  have "map_of tm i = Some xn" using Cons.prems(1,3) e by (simp add: wait_inv_def)
  note one = confirm_one_inv [OF Cons.prems(1) this s]
  have "set es \<subseteq> set tm1" using one Cons.prems(2,3) e by (force simp: AList.delete_eq)
  moreover have "set tm1 \<subseteq> set tm" using one by (auto simp: AList.delete_eq)
  ultimately show ?case using Cons.IH [OF _ _ _ r] one Cons.prems(2) by auto
qed

text \<open>The components that run out of time and are put on the lists for a forced off.\<close>

definition add_late :: "xnametypes \<Rightarrow> xname list \<Rightarrow> seq_map \<Rightarrow> seq_map" where
  "add_late X late seq = fold (\<lambda>xn. seq_add ''forceoff'' (GetHMSType X xn) xn) late seq"

lemma timeout_fold_inv:
  assumes "tier_inv m0 B (set xs \<union> set late) m" and "distinct xs" and "set xs \<inter> set late = {}" and "distinct late"
    and "late \<noteq> [] \<longrightarrow> act = ''gracefulshutdown''" and "seq1 = add_late (g_XN G) late seq"
    and "foldM (timeout_one G isSoft act) xs (m, seq1, w) = Some (m', seq', w')"
  shows "\<exists>late'. tier_inv m0 B (set late') m' \<and> distinct late' \<and> set late' \<subseteq> set xs \<union> set late \<and>
    (late' \<noteq> [] \<longrightarrow> act = ''gracefulshutdown'') \<and> seq' = add_late (g_XN G) late' seq"
  using assms
proof (induction xs arbitrary: m seq1 w late)
  case Nil
  then show ?case by auto
next
  case (Cons x xs)
  obtain m1 seq2 w1 where s: "timeout_one G isSoft act x (m, seq1, w) = Some (m1, seq2, w1)"
    and r: "foldM (timeout_one G isSoft act) xs (m1, seq2, w1) = Some (m', seq', w')"
    using Cons.prems(7) by (auto split: Option.bind_splits)
  obtain c where c: "map_of m x = Some c" using s by (auto simp: timeout_one_def split: option.splits)
  have name: "tt_Xname (comp_Task c) = x" by (rule wf_comps_name [OF tier_inv_wf [OF Cons.prems(1)] c])
  consider (force) "act = ''gracefulshutdown''" "m1 = m" "seq2 = seq_add ''forceoff'' (GetHMSType (g_XN G) x) x seq1"
    | (bad) e d dep where "fail_comp G act x e d dep (m, w) = (m1, w1)" "seq2 = seq1"
    using s c name by (auto simp: timeout_one_def Let_def split: if_splits prod.splits)
  then show ?case
  proof cases
    case force
    have "\<exists>late'. tier_inv m0 B (set late') m' \<and> distinct late' \<and> set late' \<subseteq> set xs \<union> set (late @ [x]) \<and>
        (late' \<noteq> [] \<longrightarrow> act = ''gracefulshutdown'') \<and> seq' = add_late (g_XN G) late' seq"
      by (rule Cons.IH [OF _ _ _ _ _ _ r])
        (use Cons.prems force in \<open>auto simp: add_late_def insert_commute Un_commute\<close>)
    then show ?thesis by auto
  next
    case bad
    have f: "only_fails m m1" "\<And>c'. map_of m1 x = Some c' \<Longrightarrow> failed c'" using fail_comp_fails [OF bad(1)] by auto
    have "tier_inv m0 B (set xs \<union> set late) m1"
      by (rule tier_inv_drop_failed [OF tier_inv_fails [OF Cons.prems(1) f(1)] f(2)]) (use Cons.prems(2,3) in auto)
    then have "\<exists>late'. tier_inv m0 B (set late') m' \<and> distinct late' \<and> set late' \<subseteq> set xs \<union> set late \<and>
        (late' \<noteq> [] \<longrightarrow> act = ''gracefulshutdown'') \<and> seq' = add_late (g_XN G) late' seq"
      by (rule Cons.IH [OF _ _ _ _ _ _ r]) (use Cons.prems bad in auto)
    then show ?thesis by auto
  qed
qed

lemma confirm_loop_rule:
  assumes "confirm_loop G tr isSoft expire act c = Some r" and "I c"
    and "\<And>c c'. I c \<Longrightarrow> confirm_round G tr isSoft expire act c = Some (Inr c') \<Longrightarrow> I c'"
    and "\<And>c d. I c \<Longrightarrow> confirm_round G tr isSoft expire act c = Some (Inl d) \<Longrightarrow> P d"
  shows "P r"
proof -
  let ?Q = "\<lambda>G tr isSoft expire act c r. I c \<longrightarrow>
    (\<forall>c c'. I c \<longrightarrow> confirm_round G tr isSoft expire act c = Some (Inr c') \<longrightarrow> I c') \<longrightarrow>
    (\<forall>c d. I c \<longrightarrow> confirm_round G tr isSoft expire act c = Some (Inl d) \<longrightarrow> P d) \<longrightarrow> P r"
  have "?Q G tr isSoft expire act c r"
  proof (rule confirm_loop.raw_induct [OF _ assms(1), of ?Q])
    fix rec and G :: "'a DOMAIN_GLOBALS" and tr isSoft expire act c r
    assume IH: "\<And>G tr isSoft expire act c r. rec G tr isSoft expire act c = Some r \<Longrightarrow> ?Q G tr isSoft expire act c r"
      and run: "Option.bind (confirm_round G tr isSoft expire act c)
        (\<lambda>r. case r of Inl done \<Rightarrow> Some done | Inr c \<Rightarrow> rec G tr isSoft expire act c) = Some r"
    then obtain x where x: "confirm_round G tr isSoft expire act c = Some x"
      "(case x of Inl done \<Rightarrow> Some done | Inr c \<Rightarrow> rec G tr isSoft expire act c) = Some r"
      by (auto split: Option.bind_splits)
    show "?Q G tr isSoft expire act c r"
    proof (cases x)
      case (Inl d)
      then show ?thesis using x by (simp del: split_paired_All)
    next
      case (Inr c')
      then show ?thesis using x IH [of G tr isSoft expire act c' r] by auto
    qed
  qed
  then show ?thesis using assms(2-) by blast
qed

definition all_finished :: "xname_map \<Rightarrow> bool" where
  "all_finished m \<longleftrightarrow> (\<forall>xn c. map_of m xn = Some c \<longrightarrow> \<not> pending c)"

lemma doAbort_finished:
  assumes "doAbort G tr m w = Some (m', w')"
  shows "all_finished m'"
proof -
  have "\<forall>(xn, c) \<in> set (fst (fold (abort_comp G) m ([], w))). \<not> pending c"
    by (rule fold_inv_rule [where I = "\<lambda>s. \<forall>(xn, c) \<in> set (fst s). \<not> pending c"])
      (auto simp: abort_comp_def abort_task_def unfinished_def Let_def split: prod.splits if_splits)
  moreover have "m' = fst (fold (abort_comp G) m ([], w))"
    using assms by (auto simp: doAbort_def split: prod.splits Option.bind_splits)
  ultimately show ?thesis unfolding all_finished_def by (fastforce dest: map_of_SomeD)
qed

definition tier_post :: "xnametypes \<Rightarrow> xname_map \<Rightarrow> xname set \<Rightarrow> string \<Rightarrow> seq_map \<Rightarrow> xname_map \<Rightarrow> seq_map \<Rightarrow> bool" where
  "tier_post X m0 B act seq m' seq' \<longleftrightarrow> (\<exists>late. tier_inv m0 B (set late) m' \<and> distinct late \<and>
     (late \<noteq> [] \<longrightarrow> act = ''gracefulshutdown'') \<and> seq' = add_late X late seq)"

lemma tier_post_done: "tier_inv m0 B {} m \<Longrightarrow> tier_post X m0 B act seq m seq"
  unfolding tier_post_def by (rule exI [of _ "[]"]) (simp add: add_late_def)

lemma confirm_round_cases:
  assumes "confirm_round G tr isSoft expire act c = Some r"
  obtains (abort) m w w1 e where "r = Inl (True, c\<lparr>cf_map := m, cf_world := w\<rparr>)" "doAbort G tr (cf_map c) w1 = Some (m, w)"
      "checkAbort G tr (cf_world c) = ((True, e), w1)"
  | (poll) m tm w w1 e where "checkAbort G tr (cf_world c) = ((False, e), w1)"
      "foldM (confirm_one G act) (cf_trsTaskMap c) (cf_map c, cf_trsTaskMap c, time_Sleep (g_RT G) (15 * Second) w1) = Some (m, tm, w)"
      "tm = [] \<and> r = Inl (False, c\<lparr>cf_map := m, cf_trsTaskMap := tm, cf_world := w\<rparr>) \<or>
       tm \<noteq> [] \<and> expire = None \<and> r = Inr (c\<lparr>cf_map := m, cf_trsTaskMap := tm, cf_world := w\<rparr>) \<or>
       tm \<noteq> [] \<and> (\<exists>t now w2. expire = Some t \<and> time_Now (g_RT G) w = (now, w2) \<and>
         (now \<le> t \<and> r = Inr (c\<lparr>cf_map := m, cf_trsTaskMap := tm, cf_world := w2\<rparr>) \<or>
          now > t \<and> (\<exists>m' seq' w'. foldM (timeout_one G isSoft act) (map snd tm) (m, cf_seq c, w2) = Some (m', seq', w') \<and>
            r = Inl (False, c\<lparr>cf_map := m', cf_trsTaskMap := tm, cf_seq := seq', cf_world := w'\<rparr>))))"
proof -
  obtain ab e w1 where chk: "checkAbort G tr (cf_world c) = ((ab, e), w1)" by (rule pair2E)
  show thesis
  proof (cases ab)
    case True
    then show thesis using assms chk that(1) by (auto simp: confirm_round_def)
  next
    case False
    then obtain m tm w where f: "foldM (confirm_one G act) (cf_trsTaskMap c) (cf_map c, cf_trsTaskMap c, time_Sleep (g_RT G) (15 * Second) w1) = Some (m, tm, w)"
      using assms chk by (auto simp: confirm_round_def Let_def split: Option.bind_splits)
    show thesis
      by (rule that(2) [OF _ f])
        (use assms chk False f in \<open>auto simp: confirm_round_def Let_def split: option.splits prod.splits if_splits\<close>)
  qed
qed

lemma confirm_round_inv:
  assumes I: "wait_inv m0 B (cf_map c) (cf_trsTaskMap c)" and run: "confirm_round G tr isSoft expire act c = Some r"
  shows "case r of
      Inr c' \<Rightarrow> wait_inv m0 B (cf_map c') (cf_trsTaskMap c') \<and> cf_seq c' = cf_seq c
    | Inl (ab, c') \<Rightarrow> if ab then all_finished (cf_map c') else tier_post (g_XN G) m0 B act (cf_seq c) (cf_map c') (cf_seq c')"
  using run
proof (cases rule: confirm_round_cases)
  case (abort m w w1 e)
  then show ?thesis using doAbort_finished by simp
next
  case (poll m tm w w1 e)
  have "wait_inv m0 B m tm \<and> set tm \<subseteq> set (cf_trsTaskMap c)"
    by (rule confirm_fold_inv [OF I _ _ poll(2)]) (use I in \<open>auto simp: wait_inv_def\<close>)
  then have W: "wait_inv m0 B m tm" by simp
  have post: "tier_post (g_XN G) m0 B act (cf_seq c) m' seq'"
    if "foldM (timeout_one G isSoft act) (map snd tm) (m, cf_seq c, w2) = Some (m', seq', w')" for m' seq' w' w2
    using timeout_fold_inv [OF _ _ _ _ _ _ that, of m0 B "[]" "cf_seq c"] W
    unfolding tier_post_def by (auto simp: wait_inv_def add_late_def)
  have fin: "tier_post (g_XN G) m0 B act (cf_seq c) m (cf_seq c)" if "tm = []"
    using W that tier_post_done by (simp add: wait_inv_def)
  from poll(3) show ?thesis using W post fin by (elim disjE conjE exE) simp_all
qed

lemma confirm_loop_inv:
  assumes "wait_inv m0 B (cf_map c) (cf_trsTaskMap c)" and "confirm_loop G tr isSoft expire act c = Some (ab, c')"
  shows "if ab then all_finished (cf_map c') else tier_post (g_XN G) m0 B act (cf_seq c) (cf_map c') (cf_seq c')"
proof -
  have "case (ab, c') of (ab, c') \<Rightarrow> if ab then all_finished (cf_map c')
      else tier_post (g_XN G) m0 B act (cf_seq c) (cf_map c') (cf_seq c')"
  proof (rule confirm_loop_rule [OF assms(2), of "\<lambda>d. wait_inv m0 B (cf_map d) (cf_trsTaskMap d) \<and> cf_seq d = cf_seq c"])
    show "wait_inv m0 B (cf_map c) (cf_trsTaskMap c) \<and> cf_seq c = cf_seq c" using assms(1) by simp
  qed (use confirm_round_inv in fastforce)+
  then show ?thesis by simp
qed

lemma confirm_tier_inv:
  assumes "wait_inv m0 B (cf_map c) (cf_trsTaskMap c)" and "tr_TaskDeadline tr \<noteq> 0"
    and "confirm_tier G tr act c = Some (ab, c')"
  shows "if ab then all_finished (cf_map c') else tier_post (g_XN G) m0 B act (cf_seq c) (cf_map c') (cf_seq c')"
proof -
  obtain now w where "time_Now (g_RT G) (cf_world c) = (now, w)" by fastforce
  then obtain expire w1 where
    "confirm_loop G tr (tr_Operation tr = Operation_SoftOff) expire act (c\<lparr>cf_world := w1\<rparr>) = Some (ab, c')"
    using assms(2,3) by (cases "tr_TaskDeadline tr < 0") (auto simp: confirm_tier_def, metis confirm.surjective confirm.update_convs(4))
  from confirm_loop_inv [OF _ this, of m0 B] assms(1) show ?thesis by (simp split: if_splits)
qed

context unique_ids
begin

lemma send_tier_inv:
  assumes I: "tier_inv m0 {} {} (ex_map s)" and "tr_TaskDeadline tr \<noteq> 0" and "distinct xs"
    and live: "\<And>xn c0. xn \<in> set xs \<Longrightarrow> map_of m0 xn = Some c0 \<Longrightarrow> failed c0 \<or> pending c0"
    and run: "send_tier G tr act xs s = Some (s', tm)"
  shows "wait_inv m0 (set xs) (ex_map s') tm \<and> ex_seq s' = ex_seq s"
proof -
  obtain res e w1 where chk: "hsm_CheckDeputyKeys (g_HSM G) (ex_res s) (ex_world s) = ((res, e), w1)" by (rule pair2E)
  obtain m1 w2 where ex: "fold (expire_one G act) res (ex_map s, w1) = (m1, w2)" by fastforce
  obtain ids w3 where cr: "trs_CreateTaskList (g_RFTloc G) (length xs) w2 = (ids, w3)" by fastforce
  let ?b0 = "\<lparr>bl_map = m1, bl_trsTaskMap = [], bl_requests = [], bl_world = w3\<rparr>"
  obtain b m2 w4 where b: "foldM (build_request G act ids) xs ?b0 = Some b"
    and l: "launch_requests G False act (bl_requests b) (bl_map b, bl_trsTaskMap b, bl_world b) = Some (m2, tm, w4)"
    and s': "s' = s\<lparr>ex_map := m2, ex_res := res, ex_world := w4\<rparr>"
    using run chk ex cr assms(2) by (auto simp: send_tier_def Let_def split: Option.bind_splits)
  have "tier_inv m0 {} {} m1" by (rule expire_fold_inv [OF I ex])
  moreover have "ids_ok used ids ?b0" using create [OF cr] by (simp add: ids_ok_def)
  ultimately have "tier_inv m0 ({} \<union> set xs) (snd ` set (bl_trsTaskMap b)) (bl_map b) \<and> ids_ok used ids b"
    by (intro build_requests_inv [OF _ _ assms(3) _ live b]) simp_all
  then have "wait_inv m0 (set xs) (bl_map b) (bl_trsTaskMap b)" by (simp add: wait_inv_def ids_ok_def)
  then show ?thesis using launch_inv [OF _ l] s' by simp
qed

lemma run_tier_inv:
  assumes "wf_comps (ex_map s)" and nw: "tr_TaskDeadline tr \<noteq> 0" and d: "distinct (tier_comps (ex_seq s) e)"
    and live: "\<And>xn c0. xn \<in> set (tier_comps (ex_seq s) e) \<Longrightarrow> map_of (ex_map s) xn = Some c0 \<Longrightarrow> failed c0 \<or> pending c0"
    and run: "run_tier G tr e s = Some (ab, s')"
  shows "if ab then all_finished (ex_map s')
    else tier_post (g_XN G) (ex_map s) (set (tier_comps (ex_seq s) e)) (se_Action e) (ex_seq s) (ex_map s') (ex_seq s')"
proof (cases "tier_comps (ex_seq s) e = []")
  case True
  then have "ab = False" "s' = s" using run by (simp_all add: run_tier_def)
  then show ?thesis using True tier_post_done [OF tier_inv_start [OF assms(1)]] by simp
next
  case False
  let ?xs = "tier_comps (ex_seq s) e"
  obtain m1 w1 where bmc: "(if ex_waitForBMCPower s then waitForBMC G ?xs (ex_map s) (ex_world s) else (ex_map s, ex_world s)) = (m1, w1)"
    by fastforce
  have I: "tier_inv (ex_map s) {} {} m1"
    using bmc tier_inv_start [OF assms(1)] waitForBMC_inv by (auto simp: waitForBMC_def split: if_splits)
  obtain a er w2 where chk: "checkAbort G tr w1 = ((a, er), w2)" by (rule pair2E)
  let ?s = "s\<lparr>ex_map := m1, ex_waitForBMCPower := False, ex_world := w2\<rparr>"
  show ?thesis
  proof (cases a)
    case True
    then obtain m w where "doAbort G tr m1 w2 = Some (m, w)" "ab" "ex_map s' = m"
      using run False bmc chk by (auto simp: run_tier_def Let_def)
    then show ?thesis using doAbort_finished by auto
  next
    case na: False
    obtain s1 tm c where snd: "send_tier G tr (se_Action e) ?xs ?s = Some (s1, tm)"
      and cf: "confirm_tier G tr (se_Action e)
        \<lparr>cf_map = ex_map s1, cf_seq = ex_seq s1, cf_trsTaskMap = tm, cf_world = ex_world s1\<rparr> = Some (ab, c)"
      and s': "ex_map s' = cf_map c" "ex_seq s' = cf_seq c"
      using run False bmc chk na by (auto simp: run_tier_def Let_def split: Option.bind_splits)
    have "wait_inv (ex_map s) (set ?xs) (ex_map s1) tm \<and> ex_seq s1 = ex_seq ?s"
      by (rule send_tier_inv [OF _ nw d live snd]) (use I in auto)
    then show ?thesis using confirm_tier_inv [OF _ nw cf, of "ex_map s" "set ?xs"] s' by (simp split: if_splits)
  qed
qed

end

end
