(* ===== verification/Transition_Progress.thy ===== *)
theory Transition_Progress
  imports Transition_Tiers
begin

section \<open>A transition finishes every task\<close>

text \<open>
  The action count of a component is the number of tiers that still list it. The plan establishes this
  (\<open>exec_inv_plan\<close>), reserving keeps it (\<open>reserve_phase_inv\<close>, \<open>exec_inv_state\<close>), each tier keeps it
  for the tiers that follow, with late components moved to the forced-off lists (\<open>exec_inv_tier\<close>), so no
  task is left unfinished when the sequence ends (\<open>run_tiers_finish\<close>). Further properties of the
  execution: the confirmation loop ends by its deadline, requests go to live components only, and two
  defects of the code, a deadline of zero that forces components off and the crash after a failed
  reservation.
\<close>

subsection \<open>Actions still owed\<close>

text \<open>How many of the remaining tiers a component is listed in.\<close>

fun owed :: "xnametypes \<Rightarrow> seq_map \<Rightarrow> PowerSeqElem list \<Rightarrow> xname \<Rightarrow> nat" where
  "owed X seq [] xn = 0"
| "owed X seq (e # es) xn =
     (if GetHMSType X xn \<in> set (se_CompTypes e) then count_list (seq (se_Action e) (GetHMSType X xn)) xn else 0) +
     owed X seq es xn"

text \<open>
  What the proof needs of the power sequence: no type twice in a tier, no action twice for a type, and
  after a graceful shutdown exactly one forced off of the same types.
\<close>

fun force_tiers :: "PowerSeqElem list \<Rightarrow> HMSType \<Rightarrow> nat" where
  "force_tiers [] ty = 0"
| "force_tiers (e # es) ty = (if se_Action e = ''forceoff'' \<and> ty \<in> set (se_CompTypes e) then 1 else 0) + force_tiers es ty"

fun tiers_ok :: "PowerSeqElem list \<Rightarrow> bool" where
  "tiers_ok [] \<longleftrightarrow> True"
| "tiers_ok (e # es) \<longleftrightarrow> distinct (se_CompTypes e) \<and>
     list_all (\<lambda>f. se_Action f = se_Action e \<longrightarrow> set (se_CompTypes f) \<inter> set (se_CompTypes e) = {}) es \<and>
     (se_Action e = ''gracefulshutdown'' \<longrightarrow> list_all (\<lambda>ty. force_tiers es ty = 1) (se_CompTypes e)) \<and> tiers_ok es"

lemma PowerSequenceFull_ok: "tiers_ok PowerSequenceFull"
  by code_simp

definition exec_inv :: "xnametypes \<Rightarrow> PowerSeqElem list \<Rightarrow> xname_map \<Rightarrow> seq_map \<Rightarrow> bool" where
  "exec_inv X es m seq \<longleftrightarrow> wf_comps m \<and>
     (\<forall>a ty xn. xn \<in> set (seq a ty) \<longrightarrow> ty = GetHMSType X xn \<and> map_of m xn \<noteq> None) \<and>
     (\<forall>xn c. map_of m xn = Some c \<longrightarrow> failed c \<or>
        comp_ActionCount c = int (owed X seq es xn) \<and> (pending c \<longleftrightarrow> comp_ActionCount c \<noteq> 0)) \<and>
     (\<forall>e \<in> set es. \<forall>xn. GetHMSType X xn \<in> set (se_CompTypes e) \<longrightarrow>
        count_list (seq (se_Action e) (GetHMSType X xn)) xn \<le> 1 \<and>
        (se_Action e = ''gracefulshutdown'' \<longrightarrow>
           count_list (seq ''gracefulshutdown'' (GetHMSType X xn)) xn + count_list (seq ''forceoff'' (GetHMSType X xn)) xn \<le> 1))"

lemma exec_inv_wf: "exec_inv X es m seq \<Longrightarrow> wf_comps m"
  by (simp add: exec_inv_def)

lemma exec_inv_listed: "exec_inv X es m seq \<Longrightarrow> xn \<in> set (seq a ty) \<Longrightarrow> ty = GetHMSType X xn \<and> map_of m xn \<noteq> None"
  unfolding exec_inv_def by blast

lemma exec_inv_type: "exec_inv X es m seq \<Longrightarrow> xn \<in> set (seq a ty) \<Longrightarrow> ty = GetHMSType X xn"
  using exec_inv_listed by blast

lemma exec_inv_count:
  "exec_inv X es m seq \<Longrightarrow> map_of m xn = Some c \<Longrightarrow> \<not> failed c \<Longrightarrow>
   comp_ActionCount c = int (owed X seq es xn) \<and> (pending c \<longleftrightarrow> comp_ActionCount c \<noteq> 0)"
  unfolding exec_inv_def by blast

lemma exec_inv_once:
  "exec_inv X es m seq \<Longrightarrow> e \<in> set es \<Longrightarrow> GetHMSType X xn \<in> set (se_CompTypes e) \<Longrightarrow>
   count_list (seq (se_Action e) (GetHMSType X xn)) xn \<le> 1 \<and>
   (se_Action e = ''gracefulshutdown'' \<longrightarrow>
     count_list (seq ''gracefulshutdown'' (GetHMSType X xn)) xn + count_list (seq ''forceoff'' (GetHMSType X xn)) xn \<le> 1)"
  unfolding exec_inv_def by blast

lemma distinct_count_list: "(\<And>x. count_list xs x \<le> 1) \<Longrightarrow> distinct xs"
proof (induction xs)
  case (Cons y ys)
  have "count_list ys x \<le> 1" for x using Cons.prems [of x] by (simp split: if_splits)
  moreover have "count_list ys y = 0" using Cons.prems [of y] by simp
  ultimately show ?case using Cons.IH by (simp add: count_list_0_iff)
qed simp

lemma distinct_count_one: "distinct xs \<Longrightarrow> x \<in> set xs \<Longrightarrow> count_list xs x = 1"
  by (induction xs) (auto simp: count_list_0_iff)

lemma tier_comps_mem:
  "exec_inv X es m seq \<Longrightarrow> xn \<in> set (tier_comps seq e) \<longleftrightarrow>
     GetHMSType X xn \<in> set (se_CompTypes e) \<and> xn \<in> set (seq (se_Action e) (GetHMSType X xn))"
  by (auto simp: tier_comps_def dest: exec_inv_type)

lemma distinct_concat_types:
  assumes "exec_inv X es m seq" and "distinct tys" and "\<And>ty. ty \<in> set tys \<Longrightarrow> distinct (seq a ty)"
  shows "distinct (concat (map (seq a) tys))"
  using assms(2,3)
proof (induction tys)
  case (Cons ty tys)
  have "set (seq a ty) \<inter> set (concat (map (seq a) tys)) = {}"
    using Cons.prems(1) by (auto dest!: exec_inv_type [OF assms(1)])
  then show ?case using Cons by simp
qed simp

lemma tier_comps_distinct:
  assumes I: "exec_inv X (e # es) m seq" and "tiers_ok (e # es)"
  shows "distinct (tier_comps seq e)"
  unfolding tier_comps_def
proof (rule distinct_concat_types [OF I])
  show "distinct (se_CompTypes e)" using assms(2) by simp
  fix ty
  assume ty: "ty \<in> set (se_CompTypes e)"
  show "distinct (seq (se_Action e) ty)"
  proof (rule distinct_count_list)
    fix x
    show "count_list (seq (se_Action e) ty) x \<le> 1"
    proof (cases "x \<in> set (seq (se_Action e) ty)")
      case True
      then have "ty = GetHMSType X x" using exec_inv_listed [OF I] by blast
      then show ?thesis using exec_inv_once [OF I, of e x] ty by simp
    qed simp
  qed
qed

lemma owed_listed:
  assumes "exec_inv X (e # es) m seq" and "xn \<in> set (tier_comps seq e)"
  shows "owed X seq (e # es) xn = Suc (owed X seq es xn)"
proof -
  have t: "GetHMSType X xn \<in> set (se_CompTypes e)" "xn \<in> set (seq (se_Action e) (GetHMSType X xn))"
    using tier_comps_mem [OF assms(1)] assms(2) by auto
  then have "count_list (seq (se_Action e) (GetHMSType X xn)) xn \<noteq> 0" by (simp add: count_list_0_iff)
  then have "count_list (seq (se_Action e) (GetHMSType X xn)) xn = 1"
    using exec_inv_once [OF assms(1), of e xn] t(1) by simp
  then show ?thesis using t(1) by simp
qed

lemma owed_unlisted:
  assumes "exec_inv X (e # es) m seq" and "xn \<notin> set (tier_comps seq e)"
  shows "owed X seq (e # es) xn = owed X seq es xn"
  using tier_comps_mem [OF assms(1), of xn e] assms(2) by (auto simp: count_list_0_iff)

text \<open>Putting components on the lists for a forced off.\<close>

lemma add_late_lists:
  "distinct late \<Longrightarrow> add_late X late seq a ty =
     seq a ty @ (if a = ''forceoff'' then filter (\<lambda>xn. GetHMSType X xn = ty) late else [])"
  by (induction late arbitrary: seq) (auto simp: add_late_def seq_add_apply)

lemma add_late_count:
  "distinct late \<Longrightarrow> count_list (add_late X late seq a (GetHMSType X xn)) xn =
     count_list (seq a (GetHMSType X xn)) xn + (if a = ''forceoff'' \<and> xn \<in> set late then 1 else 0)"
proof (cases "a = ''forceoff'' \<and> xn \<in> set late")
  case True
  assume d: "distinct late"
  have "count_list (filter (\<lambda>x. GetHMSType X x = GetHMSType X xn) late) xn = 1"
    using True d by (intro distinct_count_one) auto
  then show ?thesis using True d by (simp add: add_late_lists)
next
  case False
  assume "distinct late"
  then show ?thesis using False by (auto simp: add_late_lists count_list_0_iff)
qed

text \<open>The rest of the sequence owes one action more to the late components, and nothing else changes.\<close>

lemma owed_add_late:
  assumes "distinct late"
  shows "owed X (add_late X late seq) es xn =
    owed X seq es xn + (if xn \<in> set late then force_tiers es (GetHMSType X xn) else 0)"
  by (induction es) (auto simp: add_late_count [OF assms])

lemma exec_inv_tier:
  assumes I: "exec_inv X (e # es) m seq" and ok: "tiers_ok (e # es)"
    and post: "tier_post X m (set (tier_comps seq e)) (se_Action e) seq m' seq'"
  shows "exec_inv X es m' seq'"
proof -
  obtain late where T: "tier_inv m (set (tier_comps seq e)) (set late) m'" and d: "distinct late"
    and gs: "late \<noteq> [] \<longrightarrow> se_Action e = ''gracefulshutdown''" and seq': "seq' = add_late X late seq"
    using post unfolding tier_post_def by blast
  have keys: "map fst m' = map fst m" by (rule tier_inv_keys [OF T])
  have sub: "set late \<subseteq> set (tier_comps seq e)" by (rule tier_inv_sub [OF T])
  have lt: "GetHMSType X xn \<in> set (se_CompTypes e) \<and> se_Action e = ''gracefulshutdown'' \<and>
      count_list (seq ''forceoff'' (GetHMSType X xn)) xn = 0 \<and> force_tiers es (GetHMSType X xn) = 1"
    if x: "xn \<in> set late" for xn
  proof -
    have t: "GetHMSType X xn \<in> set (se_CompTypes e)" "xn \<in> set (seq (se_Action e) (GetHMSType X xn))"
      using tier_comps_mem [OF I] sub x by auto
    have a: "se_Action e = ''gracefulshutdown''" using gs x by auto
    have "count_list (seq ''gracefulshutdown'' (GetHMSType X xn)) xn \<noteq> 0" using t(2) a by (simp add: count_list_0_iff)
    then have "count_list (seq ''forceoff'' (GetHMSType X xn)) xn = 0"
      using exec_inv_once [OF I, of e xn] t(1) a by simp
    moreover have "force_tiers es (GetHMSType X xn) = 1" using ok a t(1) by (simp add: list_all_iff)
    ultimately show ?thesis using t(1) a by simp
  qed
  have o: "owed X seq' es xn = owed X seq es xn + (if xn \<in> set late then 1 else 0)" for xn
    using lt [of xn] by (simp add: seq' owed_add_late [OF d])
  show ?thesis
    unfolding exec_inv_def
  proof (intro conjI allI impI ballI)
    show "wf_comps m'" by (rule tier_inv_wf [OF T])
    fix a ty xn
    assume "xn \<in> set (seq' a ty)"
    then consider "xn \<in> set (seq a ty)" | "xn \<in> set late" "GetHMSType X xn = ty"
      by (auto simp: seq' add_late_lists [OF d] split: if_splits)
    then have "ty = GetHMSType X xn \<and> map_of m xn \<noteq> None"
    proof cases
      case 1
      then show ?thesis by (rule exec_inv_listed [OF I])
    next
      case 2
      then have "xn \<in> set (seq (se_Action e) ty)" using tier_comps_mem [OF I] sub by auto
      then show ?thesis by (rule exec_inv_listed [OF I])
    qed
    then show "ty = GetHMSType X xn" "map_of m' xn \<noteq> None" unfolding map_of_None_keys keys by simp_all
  next
    fix xn c
    assume c: "map_of m' xn = Some c"
    show "failed c \<or> comp_ActionCount c = int (owed X seq' es xn) \<and> pending c = (comp_ActionCount c \<noteq> 0)"
    proof (cases "failed c")
      case nf: False
      from same_keys_lookup [OF keys [symmetric] c] obtain c0 where c0: "map_of m xn = Some c0" .
      note st = tier_inv_state [OF T c0 c]
      have "\<not> failed c0" using st nf by (auto simp: comp_state_def split: if_splits)
      then have cnt: "comp_ActionCount c0 = int (owed X seq (e # es) xn)" "pending c0 \<longleftrightarrow> comp_ActionCount c0 \<noteq> 0"
        using exec_inv_count [OF I c0] by auto
      show ?thesis
      proof (cases "xn \<in> set (tier_comps seq e)")
        case True
        then show ?thesis
          using st nf cnt o [of xn] owed_listed [OF I True] by (auto simp: comp_state_def split: if_splits)
      next
        case False
        then have "xn \<notin> set late" using sub by auto
        then show ?thesis
          using st nf cnt o [of xn] owed_unlisted [OF I False] False by (simp add: comp_state_def)
      qed
    qed simp
  next
    fix f xn
    assume f: "f \<in> set es" "GetHMSType X xn \<in> set (se_CompTypes f)"
    have once: "count_list (seq (se_Action f) (GetHMSType X xn)) xn \<le> 1 \<and>
        (se_Action f = ''gracefulshutdown'' \<longrightarrow>
          count_list (seq ''gracefulshutdown'' (GetHMSType X xn)) xn + count_list (seq ''forceoff'' (GetHMSType X xn)) xn \<le> 1)"
      by (rule exec_inv_once [OF I]) (use f in auto)
    show "count_list (seq' (se_Action f) (GetHMSType X xn)) xn \<le> 1"
      using once lt [of xn] by (simp add: seq' add_late_count [OF d])
    show "count_list (seq' ''gracefulshutdown'' (GetHMSType X xn)) xn + count_list (seq' ''forceoff'' (GetHMSType X xn)) xn \<le> 1"
      if g: "se_Action f = ''gracefulshutdown''"
    proof -
      have "set (se_CompTypes f) \<inter> set (se_CompTypes e) = {}" if "se_Action e = ''gracefulshutdown''"
        using ok f(1) g that by (simp add: list_all_iff)
      then have "xn \<notin> set late" using lt [of xn] f(2) by blast
      then show ?thesis using once g by (simp add: seq' add_late_count [OF d])
    qed
  qed
qed

context unique_ids
begin

lemma run_tiers_finish:
  assumes "exec_inv (g_XN G) es (ex_map s) (ex_seq s)" and "tiers_ok es" and nw: "tr_TaskDeadline tr \<noteq> 0"
    and "run_tiers G tr es s = Some (ab, s')"
  shows "all_finished (ex_map s')"
  using assms
proof (induction es arbitrary: s)
  case Nil
  have "\<not> pending c" if "map_of (ex_map s) xn = Some c" for xn c
    using exec_inv_count [OF Nil.prems(1) that] by (cases "failed c") auto
  then show ?case using Nil.prems(4) by (simp add: all_finished_def)
next
  case (Cons e es)
  obtain a s1 where t: "run_tier G tr e s = Some (a, s1)"
    and r: "if a then ab \<and> s' = s1 else run_tiers G tr es s1 = Some (ab, s')"
    using Cons.prems(4) by (auto split: Option.bind_splits if_splits)
  have live: "failed c0 \<or> pending c0" if "xn \<in> set (tier_comps (ex_seq s) e)" "map_of (ex_map s) xn = Some c0" for xn c0
    using exec_inv_count [OF Cons.prems(1) that(2)] owed_listed [OF Cons.prems(1) that(1)]
    by (cases "failed c0") (simp_all del: owed.simps)
  have post: "if a then all_finished (ex_map s1)
      else tier_post (g_XN G) (ex_map s) (set (tier_comps (ex_seq s) e)) (se_Action e) (ex_seq s) (ex_map s1) (ex_seq s1)"
    by (rule run_tier_inv [OF exec_inv_wf [OF Cons.prems(1)] nw tier_comps_distinct [OF Cons.prems(1,2)] live t])
  show ?case
  proof (cases a)
    case True
    then show ?thesis using post r by simp
  next
    case False
    then have "exec_inv (g_XN G) es (ex_map s1) (ex_seq s1)" using exec_inv_tier [OF Cons.prems(1,2)] post by simp
    then show ?thesis using Cons.IH r False Cons.prems(2) nw by simp
  qed
qed

end

subsection \<open>From the plan to the first tier\<close>

lemma seq_actions_exclusive:
  assumes "seq_actions X m op xn cmp psf = Some (cmp', acts)"
  shows "\<not> (''gracefulshutdown'' \<in> set acts \<and> ''forceoff'' \<in> set acts)"
  using assms
  by (cases op)
    (auto simp: seq_actions_def seq_On_def seq_Off_def seq_ForceOff_def seq_HardRestart_def seq_SoftRestart_def
       seq_Init_def resume_on_def Let_def split: if_splits Option.bind_splits)

lemma sequence_comp_shape:
  assumes "sequence_comp G op xn (m, seq, res, w) = Some (m', seq', res', w')" and "map_of m xn = Some c"
    and "op \<noteq> Operation_HardRestart" and "op \<noteq> Operation_Nil"
  obtains c' acts where "m' = AList.update xn c' m" "seq' = fold (\<lambda>a. seq_add a (GetHMSType (g_XN G) xn) xn) acts seq"
    "distinct acts" "\<not> (''gracefulshutdown'' \<in> set acts \<and> ''forceoff'' \<in> set acts)" "pending c' \<longrightarrow> acts \<noteq> []"
proof (cases "pending c")
  case False
  then have "m' = AList.update xn c m \<and> seq' = fold (\<lambda>a. seq_add a (GetHMSType (g_XN G) xn) xn) [] seq"
    using assms(1,2) update_triv_map [OF assms(2)] by (simp add: sequence_comp_def)
  then show thesis using that [of c "[]"] False by simp
next
  case True
  then obtain ps opname where ps: "comp_PState c = Some ps" "Operation_String op = Some opname"
    using assms(1,2) by (auto simp: sequence_comp_def split: option.splits)
  show thesis
  proof (cases "opname \<in> set (ps_SupportedPowerTransitions ps)")
    case False
    let ?c = "upd_task (\<lambda>t. t\<lparr>tt_Status := TransitionTaskStatusUnsupported,
        tt_StatusDesc := ''Component does not support the specified transition operation, '' @ opname,
        tt_Error := ''Unsupported for transition operation''\<rparr>) c"
    have "m' = AList.update xn ?c m" "seq' = fold (\<lambda>a. seq_add a (GetHMSType (g_XN G) xn) xn) [] seq"
      using assms(1,2) True ps False by (simp_all add: sequence_comp_def Let_def)
    then show thesis by (rule that) (simp_all add: unfinished_def)
  next
    case sup: True
    obtain c' acts where sa: "seq_actions (g_XN G) m op xn c (fst (ToPowerStateFilter (ps_PowerState ps))) = Some (c', acts)"
      and out: "m' = AList.update xn c' m" "seq' = fold (\<lambda>a. seq_add a (GetHMSType (g_XN G) xn) xn) acts seq"
      using assms(1,2) True ps sup by (auto simp: sequence_comp_def Let_def split: Option.bind_splits)
    have "pending c' \<longrightarrow> acts \<noteq> []" using seq_actions_target [OF sa assms(4) True] assms(3) by blast
    then show thesis using that [OF out] seq_actions_count [OF sa] seq_actions_exclusive [OF sa] by blast
  qed
qed

definition once_inv :: "xnametypes \<Rightarrow> xname set \<Rightarrow> xname_map \<times> seq_map \<Rightarrow> bool" where
  "once_inv X D s \<longleftrightarrow> (case s of (m, seq) \<Rightarrow>
     (\<forall>xn a ty. xn \<notin> D \<longrightarrow> xn \<notin> set (seq a ty)) \<and>
     (\<forall>xn a ty. count_list (seq a ty) xn \<le> 1) \<and>
     (\<forall>xn ty. count_list (seq ''gracefulshutdown'' ty) xn + count_list (seq ''forceoff'' ty) xn \<le> 1) \<and>
     (\<forall>xn c. xn \<in> D \<longrightarrow> map_of m xn = Some c \<longrightarrow> pending c \<longrightarrow> (\<exists>a. xn \<in> set (seq a (GetHMSType X xn)))))"

lemma once_step:
  assumes I: "once_inv X D (m, seq)" and xn: "xn \<notin> D" and d: "distinct acts"
    and ex: "\<not> (''gracefulshutdown'' \<in> set acts \<and> ''forceoff'' \<in> set acts)" and p: "pending c' \<longrightarrow> acts \<noteq> []"
  shows "once_inv X (insert xn D) (AList.update xn c' m, fold (\<lambda>a. seq_add a (GetHMSType X xn) xn) acts seq)"
proof -
  note J = I [unfolded once_inv_def prod.case]
  note notD = J [THEN conjunct1, rule_format] and one = J [THEN conjunct2, THEN conjunct1, rule_format]
    and two = J [THEN conjunct2, THEN conjunct2, THEN conjunct1, rule_format]
    and pen = J [THEN conjunct2, THEN conjunct2, THEN conjunct2, rule_format]
  let ?seq = "fold (\<lambda>a. seq_add a (GetHMSType X xn) xn) acts seq"
  have lists: "?seq a ty = seq a ty @ (if a \<in> set acts \<and> ty = GetHMSType X xn then [xn] else [])" for a ty
    by (rule fold_seq_add [OF d])
  have zero: "count_list (seq a ty) xn = 0" for a ty using notD [OF xn] by (simp add: count_list_0_iff)
  have cnt: "count_list (?seq a ty) x = count_list (seq a ty) x + (if x = xn \<and> a \<in> set acts \<and> ty = GetHMSType X xn then 1 else 0)" for a ty x
    by (simp add: lists)
  show ?thesis
    unfolding once_inv_def prod.case
  proof (intro conjI allI impI)
    fix x a ty
    show "x \<notin> set (?seq a ty)" if "x \<notin> insert xn D" using notD [of x a ty] that by (simp add: lists)
    show "count_list (?seq a ty) x \<le> 1" using one [of a ty x] zero by (simp add: cnt)
    show "count_list (?seq ''gracefulshutdown'' ty) x + count_list (?seq ''forceoff'' ty) x \<le> 1"
      using two [of ty x] zero ex by (auto simp: cnt)
  next
    fix x c
    assume x: "x \<in> insert xn D" and c: "map_of (AList.update xn c' m) x = Some c" "pending c"
    show "\<exists>a. x \<in> set (?seq a (GetHMSType X x))"
    proof (cases "x = xn")
      case True
      then have "acts \<noteq> []" using c p by simp
      then have "xn \<in> set (?seq (hd acts) (GetHMSType X xn))" by (simp add: lists)
      then show ?thesis using True by blast
    next
      case False
      then obtain a where "x \<in> set (seq a (GetHMSType X x))" using pen [of x c] x c by auto
      then show ?thesis by (auto simp: lists)
    qed
  qed
qed

lemma once_fold:
  assumes "once_inv (g_XN G) D (m, seq)" and "distinct xs" and "set xs \<inter> D = {}" and "set xs \<subseteq> set (map fst m)"
    and op: "op \<noteq> Operation_HardRestart" "op \<noteq> Operation_Nil"
    and "foldM (sequence_comp G op) xs (m, seq, res, w) = Some (m', seq', res', w')"
  shows "once_inv (g_XN G) (D \<union> set xs) (m', seq')"
  using assms(1-4,7)
proof (induction xs arbitrary: D m seq res w)
  case Nil
  then show ?case by simp
next
  case (Cons x xs)
  obtain m1 seq1 res1 w1 where s: "sequence_comp G op x (m, seq, res, w) = Some (m1, seq1, res1, w1)"
    and r: "foldM (sequence_comp G op) xs (m1, seq1, res1, w1) = Some (m', seq', res', w')"
    using Cons.prems(5) by (auto split: Option.bind_splits)
  have "map_of m x \<noteq> None" using Cons.prems(4) by (simp add: map_of_None_keys)
  then obtain c where c: "map_of m x = Some c" by auto
  obtain c' acts where out: "m1 = AList.update x c' m" "seq1 = fold (\<lambda>a. seq_add a (GetHMSType (g_XN G) x) x) acts seq"
    and a: "distinct acts" "\<not> (''gracefulshutdown'' \<in> set acts \<and> ''forceoff'' \<in> set acts)" "pending c' \<longrightarrow> acts \<noteq> []"
    using sequence_comp_shape [OF s c op] .
  have "once_inv (g_XN G) (insert x D) (m1, seq1)"
    unfolding out by (rule once_step [OF Cons.prems(1) _ a]) (use Cons.prems(3) in auto)
  moreover have "map fst m1 = map fst m" unfolding out by (rule update_same_keys [OF map_of_mem_keys [OF c]])
  ultimately have "once_inv (g_XN G) (insert x D \<union> set xs) (m', seq')"
    using Cons.prems(2-4) by (intro Cons.IH [OF _ _ _ _ r]) (auto simp del: set_map)
  then show ?case by simp
qed

text \<open>The listings of a component are the tiers it will be part of, if every listing has a tier.\<close>

definition tier_hits :: "PowerSeqElem list \<Rightarrow> string \<Rightarrow> HMSType \<Rightarrow> nat" where
  "tier_hits es a ty = length (filter (\<lambda>e. se_Action e = a \<and> ty \<in> set (se_CompTypes e)) es)"

definition covered :: "seq_map \<Rightarrow> bool" where
  "covered seq \<longleftrightarrow> (\<forall>a ty. seq a ty \<noteq> [] \<longrightarrow> (\<exists>e \<in> set PowerSequenceFull. se_Action e = a \<and> ty \<in> set (se_CompTypes e)))"

lemma tier_hits_once: "tiers_ok es \<Longrightarrow> tier_hits es a ty \<le> 1"
proof (induction es)
  case (Cons e es)
  show ?case
  proof (cases "se_Action e = a \<and> ty \<in> set (se_CompTypes e)")
    case True
    have "filter (\<lambda>e. se_Action e = a \<and> ty \<in> set (se_CompTypes e)) es = []"
      using Cons.prems True by (auto simp: filter_empty_conv list_all_iff)
    then show ?thesis using True by (simp add: tier_hits_def)
  next
    case False
    then show ?thesis using Cons by (auto simp: tier_hits_def)
  qed
qed (simp add: tier_hits_def)

lemma owed_hits:
  "list_all (\<lambda>e. se_Action e \<in> set seq_action_names) es \<Longrightarrow>
   owed X seq es xn = sum_list (map (\<lambda>a. count_list (seq a (GetHMSType X xn)) xn * tier_hits es a (GetHMSType X xn)) seq_action_names)"
  by (induction es) (auto simp: tier_hits_def)

lemma PowerSequenceFull_actions: "list_all (\<lambda>e. se_Action e \<in> set seq_action_names) PowerSequenceFull"
  by code_simp

lemma owed_listed_all:
  assumes "covered seq"
  shows "owed X seq PowerSequenceFull xn = listed seq (GetHMSType X xn) xn"
proof -
  have "count_list (seq a (GetHMSType X xn)) xn * tier_hits PowerSequenceFull a (GetHMSType X xn) =
      count_list (seq a (GetHMSType X xn)) xn" for a
  proof (cases "seq a (GetHMSType X xn) = []")
    case False
    then have "tier_hits PowerSequenceFull a (GetHMSType X xn) \<noteq> 0"
      using assms by (auto simp: covered_def tier_hits_def filter_empty_conv)
    then show ?thesis using tier_hits_once [OF PowerSequenceFull_ok, of a "GetHMSType X xn"] by simp
  qed simp
  then show ?thesis by (simp only: owed_hits [OF PowerSequenceFull_actions] listed_def)
qed

lemma exec_inv_plan:
  assumes wf: "wf_comps m" and zero: "\<forall>xn c. map_of m xn = Some c \<longrightarrow> comp_ActionCount c = 0"
    and op: "op \<noteq> Operation_HardRestart" "op \<noteq> Operation_Nil" and cov: "covered seq"
    and run: "sequenceComponents G op m w = Some (m', seq, res, w')"
  shows "exec_inv (g_XN G) PowerSequenceFull m' seq"
proof -
  note I = sequenceComponents_inv [OF wf run, unfolded plan_inv_def prod.case]
  note J2 = I [THEN conjunct2, THEN conjunct2]
  note J3 = J2 [THEN conjunct2, THEN conjunct2]
  note keys = I [THEN conjunct1] and wf' = I [THEN conjunct2, THEN conjunct1]
    and mem = J2 [THEN conjunct2, THEN conjunct1, rule_format]
    and inD = J3 [THEN conjunct1, THEN spec, THEN spec, THEN spec, THEN mp, THEN mp, THEN mp]
  have "once_inv (g_XN G) ({} \<union> set (map fst m)) (m', seq)"
    by (rule once_fold [OF _ _ _ _ op run [unfolded sequenceComponents_def]])
      (use wf in \<open>simp_all add: once_inv_def wf_comps_def\<close>)
  note O = this [unfolded once_inv_def prod.case]
  note one = O [THEN conjunct2, THEN conjunct1, rule_format]
    and two = O [THEN conjunct2, THEN conjunct2, THEN conjunct1, rule_format]
    and pen = O [THEN conjunct2, THEN conjunct2, THEN conjunct2, rule_format]
  show ?thesis
    unfolding exec_inv_def
  proof (intro conjI allI impI ballI)
    show "wf_comps m'" by (rule wf')
    fix a ty xn
    assume "xn \<in> set (seq a ty)"
    then show "ty = GetHMSType (g_XN G) xn" "map_of m' xn \<noteq> None" using mem [of xn a ty] by auto
  next
    fix xn c
    assume c: "map_of m' xn = Some c"
    from same_keys_lookup [OF keys [symmetric] c] obtain c0 where c0: "map_of m xn = Some c0" .
    have x: "xn \<in> set (map fst m)" by (rule map_of_mem_keys [OF c0])
    have "comp_ActionCount c0 = 0" using zero c0 by blast
    then have cnt: "comp_ActionCount c = int (owed (g_XN G) seq PowerSequenceFull xn)"
      using inD [OF x c0 c] unfolding owed_listed_all [OF cov] by linarith
    have "pending c" if "comp_ActionCount c \<noteq> 0"
    proof -
      have "listed seq (GetHMSType (g_XN G) xn) xn \<noteq> 0" using that cnt by (simp add: owed_listed_all [OF cov])
      then obtain a where "xn \<in> set (seq a (GetHMSType (g_XN G) xn))" by (auto simp: listed_def count_list_0_iff)
      then show ?thesis using mem [of xn a] c by auto
    qed
    moreover have "comp_ActionCount c \<noteq> 0" if p: "pending c"
    proof -
      obtain a where a: "xn \<in> set (seq a (GetHMSType (g_XN G) xn))" using pen [of xn c] x c p by auto
      then have "a \<in> set seq_action_names" using mem [of xn a] by blast
      then have "listed seq (GetHMSType (g_XN G) xn) xn \<noteq> 0" using a by (auto simp: listed_def count_list_0_iff)
      then show ?thesis using cnt by (simp add: owed_listed_all [OF cov])
    qed
    ultimately show "failed c \<or> comp_ActionCount c = int (owed (g_XN G) seq PowerSequenceFull xn) \<and> pending c = (comp_ActionCount c \<noteq> 0)"
      using cnt by blast
  next
    fix e xn
    show "count_list (seq (se_Action e) (GetHMSType (g_XN G) xn)) xn \<le> 1" by (rule one)
    show "count_list (seq ''gracefulshutdown'' (GetHMSType (g_XN G) xn)) xn + count_list (seq ''forceoff'' (GetHMSType (g_XN G) xn)) xn \<le> 1"
      by (rule two)
  qed
qed

text \<open>Reserving fails some components and gives keys to others.\<close>

lemma exec_inv_state:
  assumes I: "exec_inv X es m seq" and T: "tier_inv m {} {} m'"
  shows "exec_inv X es m' seq"
  unfolding exec_inv_def
proof (intro conjI allI impI ballI)
  have keys: "map fst m' = map fst m" by (rule tier_inv_keys [OF T])
  show "wf_comps m'" by (rule tier_inv_wf [OF T])
  show "ty = GetHMSType X xn" "map_of m' xn \<noteq> None" if "xn \<in> set (seq a ty)" for a ty xn
    using exec_inv_listed [OF I that] unfolding map_of_None_keys keys by simp_all
  fix xn c
  assume c: "map_of m' xn = Some c"
  from same_keys_lookup [OF keys [symmetric] c] obtain c0 where c0: "map_of m xn = Some c0" .
  show "failed c \<or> comp_ActionCount c = int (owed X seq es xn) \<and> pending c = (comp_ActionCount c \<noteq> 0)"
    using tier_inv_state [OF T c0 c] exec_inv_count [OF I c0] by (auto simp: comp_state_def)
qed (use exec_inv_once [OF I] in blast)+

lemma reserve_one_inv:
  assumes "tier_inv m0 {} {} m" and "reserve_one G resData res (m, w) = Some (m', w')"
  shows "tier_inv m0 {} {} m'"
proof -
  obtain c where c: "map_of m (rd_XName res) = Some c" using assms(2) by (auto simp: reserve_one_def split: option.splits)
  consider "m' = m" | f where "m' = AList.update (rd_XName res) (upd_task f c) m"
      "tt_Status (f (comp_Task c)) = tt_Status (comp_Task c)" "tt_Xname (f (comp_Task c)) = tt_Xname (comp_Task c)"
    | act err desc dep where "fail_comp G act (rd_XName res) err desc dep (m, w) = (m', w')"
  proof (cases "map_of (rev (map (\<lambda>r. (rd_XName r, r)) resData)) (rd_XName res)")
    case (Some r)
    then show thesis using assms(2) c
      by (intro that(2) [of "\<lambda>t. t\<lparr>tt_ReservationKey := rd_ReservationKey r, tt_DeputyKey := rd_DeputyKey r\<rparr>"])
        (simp_all add: reserve_one_def Let_def)
  next
    case None
    then show thesis
      using assms(2) c that(1,3)
      by (cases "pending c"; cases "rd_DeputyKey res = []") (auto simp: reserve_one_def Let_def split: Option.bind_splits)
  qed
  then show ?thesis
  proof cases
    case 2
    then show ?thesis using tier_inv_touch [OF assms(1) c, of "upd_task f c"] by simp
  next
    case 3
    then show ?thesis using fail_comp_fails [OF 3] tier_inv_fails [OF assms(1)] by blast
  qed (use assms(1) in simp)
qed

lemma reserve_phase_inv:
  assumes "wf_comps m" and "reserve_phase G tr m res w = Some (Inr ((m', res'), w'))"
  shows "tier_inv m {} {} m'"
proof -
  obtain rs rd e w1 where r: "hsm_ReserveComponents (g_HSM G) res w = ((rs, rd, e), w1)" by (metis surj_pair)
  have "e = None"
    using assms(2) r by (auto simp: reserve_phase_def complete_and_return_def split: option.splits Option.bind_splits)
  then obtain w2 where f: "foldM (reserve_one G rd) rs (m, w1) = Some (m', w2)"
    using assms(2) r by (auto simp: reserve_phase_def split: Option.bind_splits)
  have "tier_inv m {} {} (fst (m', w2))"
  proof (rule foldM_invariant [OF f, where I = "\<lambda>s. tier_inv m {} {} (fst s)"])
    show "tier_inv m {} {} (fst (m, w1))" using tier_inv_start [OF assms(1)] by simp
    show "tier_inv m {} {} (fst s')" if "tier_inv m {} {} (fst s)" "reserve_one G rd x s = Some s'" for x s s'
      using reserve_one_inv [of m "fst s" G rd x "snd s" "fst s'" "snd s'"] that by simp
  qed
  then show ?thesis by simp
qed

subsection \<open>The executable world hands out unique identifiers\<close>

definition sim_used :: "world \<Rightarrow> uuid set" where
  "sim_used w = sim_uuid ` {..<sim_uuids w}"

lemma sim_kv_uuids:
  "sim_uuids (snd (sim_Store k v w)) = sim_uuids w"
  by (simp add: sim_Store_def sim_fault_def split: list.splits)

lemma sim_store_task_uuids: "sim_uuids (store_task (simG m) t w) = sim_uuids w"
  by (simp add: store_task_def ETCDStorage_provider_def ETCD_StoreTransitionTask_def kvStore_def sim_etcd_def sim_kvi_def sim_kv_uuids)

lemma simG_CS: "cs_GetControllerCredentials (g_CS (simG m)) x w = ((''user'', ''pw'', None), w)"
  by (simp add: simG_def)

interpretation simids: unique_ids "simG m" sim_used
  by unfold_locales
    (auto simp: simTRS_def sim_runtime_def sim_used_def sim_create_ids sim_uuid_inj sim_store_task_uuids simG_CS)

text \<open>
  A variant for witnesses that run many steps: nothing is stored, and every component is reported to be in
  the power state \<open>st\<close>.
\<close>

definition simQ :: "string \<Rightarrow> world DOMAIN_GLOBALS" where
  "simQ st = (simG 5)\<lparr>g_DSP := (g_DSP (simG 5))\<lparr>dsp_GetTransition := (\<lambda>i w. ((None, None, None), w)),
     dsp_StoreTransitionTask := (\<lambda>t w. (None, w)), dsp_GetPowerStatus := (\<lambda>x w. ((Some (sim_ps x st), None), w))\<rparr>\<rparr>"

interpretation simQids: unique_ids "simQ st" sim_used
  by unfold_locales
    (auto simp: simQ_def simG_def simTRS_def sim_runtime_def sim_used_def sim_create_ids sim_uuid_inj store_task_def)

text \<open>The types all four actions have a tier for.\<close>

definition main_types :: "HMSType list" where
  "main_types = [Node, RouterModule, ComputeModule, Chassis, CabinetPDUPowerConnector]"

lemma main_type_tiers:
  "list_all (\<lambda>a. list_all (\<lambda>ty. list_ex (\<lambda>e. se_Action e = a \<and> ty \<in> set (se_CompTypes e)) PowerSequenceFull)
     main_types) seq_action_names"
  by code_simp

lemma covered_main_types:
  assumes "wf_comps m" and "sequenceComponents G op m w = Some (m', seq, res, w')"
    and "\<forall>xn \<in> set (map fst m). GetHMSType (g_XN G) xn \<in> set main_types"
  shows "covered seq"
  unfolding covered_def
proof (intro allI impI)
  fix a ty
  assume "seq a ty \<noteq> []"
  then obtain xn where xn: "xn \<in> set (seq a ty)" by (cases "seq a ty") auto
  note I = sequenceComponents_inv [OF assms(1,2), unfolded plan_inv_def prod.case]
  note mem = I [THEN conjunct2, THEN conjunct2, THEN conjunct2, THEN conjunct1, rule_format, OF xn]
  obtain c where "map_of m' xn = Some c" using mem by blast
  then have "xn \<in> set (map fst m)" using map_of_mem_keys I [THEN conjunct1] by metis
  then have "GetHMSType (g_XN G) xn \<in> set main_types" using assms(3) by blast
  then have "ty \<in> set main_types" using mem by simp
  moreover have "a \<in> set seq_action_names" using mem by blast
  ultimately show "\<exists>e \<in> set PowerSequenceFull. se_Action e = a \<and> ty \<in> set (se_CompTypes e)"
    using main_type_tiers unfolding list_all_iff list_ex_iff by blast
qed

subsection \<open>Properties of the execution\<close>



text \<open>
  Clocks: \<^verbatim>\<open>time.Now\<close> reads a clock that never runs backwards, sleeping advances it, and so may any
  call on the store.
\<close>

locale exec_clock =
  fixes G :: "'w DOMAIN_GLOBALS" and clk :: "'w \<Rightarrow> time"
  assumes now: "\<And>w t w'. time_Now (g_RT G) w = (t, w') \<Longrightarrow> t = clk w \<and> clk w \<le> clk w'"
    and sleep: "\<And>d w. clk w + d \<le> clk (time_Sleep (g_RT G) d w)"
    and get_clk: "\<And>i w r w'. dsp_GetTransition (g_DSP G) i w = (r, w') \<Longrightarrow> clk w \<le> clk w'"
    and status_clk: "\<And>x w r w'. dsp_GetPowerStatus (g_DSP G) x w = (r, w') \<Longrightarrow> clk w \<le> clk w'"
    and store_clk: "\<And>t w. clk w \<le> clk (store_task G t w)"
begin

lemma fail_dependents_clk: "clk w \<le> clk (snd (fold (fail_dependent G err) ps (m, w)))"
proof (induction ps arbitrary: m w)
  case (Cons p ps)
  obtain m1 w1 where s: "fail_dependent G err p (m, w) = (m1, w1)" by fastforce
  have "clk w \<le> clk w1" using s store_clk by (auto simp: fail_dependent_def Let_def split: option.splits)
  then show ?case using Cons.IH [of w1 m1] s by auto
qed simp

lemma fail_comp_clk:
  assumes "fail_comp G act xn err desc dep (m, w) = (m', w')"
  shows "clk w \<le> clk w'"
proof (cases "map_of m xn")
  case None
  then show ?thesis using assms by (simp add: fail_comp_def)
next
  case (Some c)
  let ?m1 = "AList.update xn (upd_task (fail_task err desc) c) m"
  obtain m2 w2 where d: "failDependentComps G ?m1 act (tt_Xname (comp_Task c)) dep w = (m2, w2)" by fastforce
  then have u: "clk w \<le> clk w2"
    using fail_dependents_clk [of w dep _ ?m1] by (metis failDependentComps_def snd_conv)
  have "w' = w2 \<or> (\<exists>t. w' = store_task G t w2)"
    using assms Some d by (auto simp: fail_comp_def Let_def split: option.splits)
  then show ?thesis using u store_clk order_trans by blast
qed

lemma confirm_one_returns:
  assumes "map_of m xn \<noteq> None"
  shows "\<exists>m' tm' w'. confirm_one G act (i, xn) (m, tm, w) = Some (m', tm', w') \<and> map fst m' = map fst m \<and>
    set tm' \<subseteq> set tm \<and> clk w \<le> clk w'"
proof -
  obtain c where c: "map_of m xn = Some c" using assms by auto
  obtain ps err w1 where g: "dsp_GetPowerStatus (g_DSP G) (tt_Xname (comp_Task c)) w = ((ps, err), w1)" by (rule pair2E)
  have w1: "clk w \<le> clk w1" by (rule status_clk [OF g])
  have del: "set (AList.delete i tm) \<subseteq> set tm" by (auto simp: AList.delete_eq)
  have upd: "map fst (AList.update xn d m) = map fst m" for d by (rule update_same_keys [OF map_of_mem_keys [OF c]])
  have failed: "\<exists>m' w'. fail_comp G act xn e desc dep (m, w1) = (m', w') \<and> map fst m' = map fst m \<and> clk w \<le> clk w'" for e desc dep
  proof -
    obtain m' w' where f: "fail_comp G act xn e desc dep (m, w1) = (m', w')" by fastforce
    then show ?thesis using fail_comp_fails [OF f] fail_comp_clk [OF f] w1 by (auto simp: only_fails_def)
  qed
  show ?thesis
  proof (cases "err = None \<and> ps \<noteq> None")
    case True
    then show ?thesis using c g w1 del upd store_clk [of w1] order_trans [OF w1]
      by (auto simp: confirm_one_def Let_def)
  next
    case False
    let ?e = "case err of Some e \<Rightarrow> e | None \<Rightarrow> ''Power status does not exist''"
    obtain m' w' where "fail_comp G act xn ?e ''Failed to confirm transition''
        (''Failed to confirm transition, '' @ act @ '', to dependency, '' @ tt_Xname (comp_Task c) @ ''.'') (m, w1) = (m', w')"
      "map fst m' = map fst m" "clk w \<le> clk w'" using failed by blast
    then show ?thesis using False c g del by (cases err; cases ps) (auto simp: confirm_one_def Let_def)
  qed
qed

lemma confirm_fold_returns:
  assumes "\<forall>(i, xn) \<in> set es. map_of m xn \<noteq> None"
  shows "\<exists>m' tm' w'. foldM (confirm_one G act) es (m, tm, w) = Some (m', tm', w') \<and> map fst m' = map fst m \<and>
    set tm' \<subseteq> set tm \<and> clk w \<le> clk w'"
  using assms
proof (induction es arbitrary: m tm w)
  case (Cons e es)
  obtain i xn where e: "e = (i, xn)" by fastforce
  obtain m1 tm1 w1 where s: "confirm_one G act (i, xn) (m, tm, w) = Some (m1, tm1, w1)" and k: "map fst m1 = map fst m"
      "set tm1 \<subseteq> set tm" "clk w \<le> clk w1"
    using confirm_one_returns [of m xn act i tm w] Cons.prems e by auto
  have "\<forall>(i, xn) \<in> set es. map_of m1 xn \<noteq> None" using Cons.prems by (simp only: map_of_None_keys k(1)) auto
  from Cons.IH [OF this, of tm1 w1] obtain m' tm' w' where
    "foldM (confirm_one G act) es (m1, tm1, w1) = Some (m', tm', w')" "map fst m' = map fst m1" "set tm' \<subseteq> set tm1" "clk w1 \<le> clk w'"
    by auto
  then show ?case using s k e order_trans by fastforce
qed simp

lemma timeout_fold_returns:
  assumes "\<forall>xn \<in> set xs. map_of m xn \<noteq> None"
  shows "\<exists>r. foldM (timeout_one G isSoft act) xs (m, seq, w) = Some r"
  using assms
proof (induction xs arbitrary: m seq w)
  case (Cons x xs)
  obtain c where c: "map_of m x = Some c" using Cons.prems by auto
  obtain m1 w1 where f: "fail_comp G act x (''Timeout waiting for transition, '' @ act @ ''.'') ''Failed to achieve transition''
      (''Timeout waiting for transition, '' @ act @ '', on dependency, '' @ tt_Xname (comp_Task c) @ ''.'') (m, w) = (m1, w1)" by fastforce
  have "\<exists>m1 seq1 w1. timeout_one G isSoft act x (m, seq, w) = Some (m1, seq1, w1) \<and> map fst m1 = map fst m"
    using c f fail_comp_fails [OF f] by (auto simp: timeout_one_def Let_def only_fails_def)
  then obtain m2 seq2 w2 where s: "timeout_one G isSoft act x (m, seq, w) = Some (m2, seq2, w2)" "map fst m2 = map fst m" by blast
  have "\<forall>xn \<in> set xs. map_of m2 xn \<noteq> None" using Cons.prems by (simp only: map_of_None_keys s(2)) auto
  then show ?case using Cons.IH s(1) by simp
qed simp

lemma checkAbort_clk:
  assumes "checkAbort G tr w = (r, w')"
  shows "clk w \<le> clk w'"
proof -
  obtain x w1 where g: "dsp_GetTransition (g_DSP G) (tr_TransitionID tr) w = (x, w1)" by fastforce
  then have "w' = w1" using assms by (auto simp: checkAbort_def split: prod.splits option.splits)
  then show ?thesis using get_clk [OF g] by simp
qed

lemma confirm_round_returns:
  assumes "tr_Operation tr \<noteq> Operation_Nil" and "\<forall>(i, xn) \<in> set (cf_trsTaskMap c). map_of (cf_map c) xn \<noteq> None"
  shows "\<exists>r. confirm_round G tr isSoft (Some t) act c = Some r \<and>
    (\<forall>c'. r = Inr c' \<longrightarrow> clk (cf_world c) + 15 * Second \<le> t \<and> clk (cf_world c) + 15 * Second \<le> clk (cf_world c') \<and>
       (\<forall>(i, xn) \<in> set (cf_trsTaskMap c'). map_of (cf_map c') xn \<noteq> None))"
proof -
  obtain ab e w1 where chk: "checkAbort G tr (cf_world c) = ((ab, e), w1)" by (rule pair2E)
  have w1: "clk (cf_world c) \<le> clk w1" by (rule checkAbort_clk [OF chk])
  show ?thesis
  proof (cases ab)
    case True
    obtain m w2 where f: "fold (abort_comp G) (cf_map c) ([], w1) = (m, w2)" by fastforce
    obtain w3 where "compressAndCompleteTransition G tr TransitionStatusAborted w2 = Some w3"
      using compress_total [OF assms(1), of G TransitionStatusAborted w2] by blast
    then have "doAbort G tr (cf_map c) w1 = Some (m, w3)" using f by (simp add: doAbort_def)
    then show ?thesis using chk True by (simp add: confirm_round_def)
  next
    case False
    let ?w = "time_Sleep (g_RT G) (15 * Second) w1"
    obtain m tm w where f: "foldM (confirm_one G act) (cf_trsTaskMap c) (cf_map c, cf_trsTaskMap c, ?w) = Some (m, tm, w)"
      and k: "map fst m = map fst (cf_map c)" "set tm \<subseteq> set (cf_trsTaskMap c)" "clk ?w \<le> clk w"
      using confirm_fold_returns [OF assms(2)] by blast
    have keys: "\<forall>(i, xn) \<in> set tm. map_of m xn \<noteq> None"
      using assms(2) k(2) unfolding map_of_None_keys k(1) by blast
    obtain now w2 where n: "time_Now (g_RT G) w = (now, w2)" by fastforce
    note late = now [OF n]
    have ck: "clk (cf_world c) + 15 * Second \<le> clk w" using sleep [of w1 "15 * Second"] w1 k(3) by linarith
    have "\<forall>xn \<in> set (map snd tm). map_of m xn \<noteq> None" using keys by auto
    then obtain r where "foldM (timeout_one G isSoft act) (map snd tm) (m, cf_seq c, w2) = Some r"
      using timeout_fold_returns by blast
    then show ?thesis
      using chk False f n ck late keys
      by (cases "tm = []"; cases "now > t") (auto simp: confirm_round_def Let_def split: prod.splits)
  qed
qed

lemma confirm_loop_returns:
  assumes op: "tr_Operation tr \<noteq> Operation_Nil" and "\<forall>(i, xn) \<in> set (cf_trsTaskMap c). map_of (cf_map c) xn \<noteq> None"
  shows "\<exists>r. confirm_loop G tr isSoft (Some t) act c = Some r"
  using assms(2)
proof (induction "nat (t - clk (cf_world c))" arbitrary: c rule: less_induct)
  case less
  obtain r where r: "confirm_round G tr isSoft (Some t) act c = Some r"
    and next_round: "\<And>c'. r = Inr c' \<Longrightarrow> clk (cf_world c) + 15 * Second \<le> t \<and>
       clk (cf_world c) + 15 * Second \<le> clk (cf_world c') \<and> (\<forall>(i, xn) \<in> set (cf_trsTaskMap c'). map_of (cf_map c') xn \<noteq> None)"
    using confirm_round_returns [OF op less.prems] by blast
  show ?case
  proof (cases r)
    case (Inl d)
    then show ?thesis using r by (subst confirm_loop.simps) simp
  next
    case (Inr c')
    have "nat (t - clk (cf_world c')) < nat (t - clk (cf_world c))"
      using next_round [OF Inr] by (simp add: Second_def)
    then have "\<exists>r. confirm_loop G tr isSoft (Some t) act c' = Some r"
      using less.hyps next_round [OF Inr] by blast
    then show ?thesis using r Inr by (subst confirm_loop.simps) simp
  qed
qed

end

lemma sim_Get_clock: "sim_clock (snd (sim_Get k w)) = sim_clock w"
  by (simp add: sim_Get_def sim_fault_def split: list.splits)

interpretation simQclock: exec_clock "simQ st" sim_clock
  by unfold_locales (auto simp: simQ_def sim_runtime_def store_task_def)



text \<open>
  C26: A deadline of 0, documented as "disables waiting", does wait, for one round of 15 seconds, and then
  forces off: a component whose graceful shutdown was accepted and that is not off yet at the first poll
  is put on the list for a forced off.
\<close>

theorem zero_deadline_forces_off:
  assumes "tr_TaskDeadline tr = 0" and "tr_Operation tr \<noteq> Operation_SoftOff"
    and "map_of m xn = Some c" and "tt_Xname (comp_Task c) = xn" and "has_action c ''forceoff''"
    and "time_Now (g_RT G) w = (t0, w1)" and "checkAbort G tr w1 = ((False, e), w2)"
    and "dsp_GetPowerStatus (g_DSP G) xn (time_Sleep (g_RT G) (15 * Second) w2) = ((Some ps, None), w3)"
    and "ToLower (ps_PowerState ps) \<noteq> ''off''" and "time_Now (g_RT G) w3 = (t1, w4)" and "t0 < t1"
  shows "\<exists>c'. confirm_tier G tr ''gracefulshutdown'' \<lparr>cf_map = m, cf_seq = seqMap, cf_trsTaskMap = [(i, xn)], cf_world = w\<rparr> =
      Some (False, c') \<and> xn \<in> set (cf_seq c' ''forceoff'' (GetHMSType (g_XN G) xn))"
proof -
  let ?c = "\<lparr>cf_map = m, cf_seq = seqMap, cf_trsTaskMap = [(i, xn)], cf_world = w1\<rparr>"
  have "confirm_one G ''gracefulshutdown'' (i, xn) (m, [(i, xn)], time_Sleep (g_RT G) (15 * Second) w2) = Some (m, [(i, xn)], w3)"
    using assms by (simp add: confirm_one_def end_state_def Let_def)
  then have "confirm_round G tr False (Some t0) ''gracefulshutdown'' ?c =
      Some (Inl (False, ?c\<lparr>cf_seq := seq_add ''forceoff'' (GetHMSType (g_XN G) xn) xn seqMap, cf_world := w4\<rparr>))"
    using assms by (simp add: confirm_round_def timeout_one_def Let_def)
  then show ?thesis
    using assms by (auto simp: confirm_tier_def confirm_loop.simps wrap64_def seq_add_def)
qed

theorem zero_deadline_forces_off_witness:
  "\<exists>c'. confirm_tier (simQ ''on'') ((sim_transition 7 [] [] Operation_Off)\<lparr>tr_TaskDeadline := 0\<rparr>) ''gracefulshutdown''
     \<lparr>cf_map = [sim_comp 1 ''x0c0s0b0n0'' ''on'' Operation_Off [''ForceOff'']], cf_seq = (\<lambda>_ _. []),
      cf_trsTaskMap = [(sim_uuid 50, ''x0c0s0b0n0'')], cf_world = sim_with [] [] []\<rparr> = Some (False, c') \<and>
     ''x0c0s0b0n0'' \<in> set (cf_seq c' ''forceoff'' Node)"
proof -
  have "GetHMSType (g_XN (simQ ''on'')) ''x0c0s0b0n0'' = Node" by code_simp
  then show ?thesis
    using zero_deadline_forces_off [where G = "simQ ''on''" and xn = "''x0c0s0b0n0''" and w = "sim_with [] [] []"
      and c = "snd (sim_comp 1 ''x0c0s0b0n0'' ''on'' Operation_Off [''ForceOff''])"
      and m = "[sim_comp 1 ''x0c0s0b0n0'' ''on'' Operation_Off [''ForceOff'']]" and i = "sim_uuid 50"
      and tr = "(sim_transition 7 [] [] Operation_Off)\<lparr>tr_TaskDeadline := 0\<rparr>" and seqMap = "\<lambda>_ _. []"
      and ps = "sim_ps ''x0c0s0b0n0'' ''on''" and e = None, OF _ _ _ _ _ _ _ _ _ _ ]
    by (simp add: sim_transition_def sim_comp_def sim_task_def has_action_def simQ_def sim_runtime_def checkAbort_def sim_ps_def Second_def)
qed

lemma reserve_fail_nil:
  "list_ex (\<lambda>(xn, c). pending c) m \<Longrightarrow> reserve_fail_loop G m None acc w = None"
  by (induction m arbitrary: acc w) auto

text \<open>
  C27: When the request for reservations fails as a whole and at least two components are unfinished, the
  goroutine crashes: storing the first failed task overwrites the error the second one is to report.
\<close>

theorem failed_reservation_crashes:
  assumes "hsm_ReserveComponents (g_HSM G) res w = ((rs, rd, Some err), w1)"
    and "\<forall>t w. fst (dsp_StoreTransitionTask (g_DSP G) t w) = None"
    and "2 \<le> length (filter (\<lambda>(xn, c). unfinished (comp_Task c)) m)"
  shows "reserve_phase G tr m res w = None"
proof -
  have "reserve_fail_loop G m (Some err) acc w = None" if "2 \<le> length (filter (\<lambda>(xn, c). pending c) m)" for m acc w
    using that
  proof (induction m arbitrary: acc w)
    case (Cons xc m)
    obtain xn c where xc: "xc = (xn, c)" by fastforce
    show ?case
    proof (cases "pending c")
      case True
      then have "filter (\<lambda>(xn, c). pending c) m \<noteq> []" using Cons.prems xc by auto
      then have "list_ex (\<lambda>(xn, c). pending c) m" by (auto simp: filter_empty_conv list_ex_iff)
      then show ?thesis using True xc assms(2) reserve_fail_nil [of m G] by (simp add: Let_def prod.case_eq_if)
    next
      case False
      then show ?thesis using Cons xc by simp
    qed
  qed simp
  then show ?thesis using assms(1,3) by (simp add: reserve_phase_def)
qed

theorem failed_reservation_crashes_witness:
  "reserve_phase ((simQ ''on'')\<lparr>g_HSM := simHSM\<lparr>hsm_ReserveComponents := (\<lambda>rs w. ((rs, [], Some ''HSM is down''), w))\<rparr>\<rparr>)
     (sim_transition 7 [] [] Operation_Off)
     [sim_comp 1 ''x0c0s0b0n0'' ''on'' Operation_Off [], sim_comp 2 ''x0c0s0b0n1'' ''on'' Operation_Off []] [] (sim_with [] [] []) = None"
  by (rule failed_reservation_crashes) (auto simp: simQ_def sim_comp_def sim_task_def unfinished_def)

text \<open>
  C2: Requests go to live components only. Of the components of a tier, each gets at most one request, with an
  identifier of its own in the order of the task list; it had not failed and was not already waiting for
  the same operation after a restart; the request is a POST to its own power action URI and its body is
  the payload of the action.
\<close>

theorem requests_for_live_components:
  assumes "distinct xs" and "distinct ids"
    and "foldM (build_request G act ids) xs \<lparr>bl_map = m, bl_trsTaskMap = [], bl_requests = [], bl_world = w\<rparr> = Some b"
  shows "distinct (map rq_ID (bl_requests b)) \<and> set (map rq_ID (bl_requests b)) \<subseteq> set ids \<and>
    length (bl_requests b) \<le> length xs \<and>
    (\<forall>rq \<in> set (bl_requests b). \<exists>xn \<in> set xs. \<exists>c h. map_of m xn = Some c \<and>
       tt_Status (comp_Task c) \<noteq> TransitionTaskStatusFailed \<and>
       \<not> (tt_State (comp_Task c) = TaskState_Waiting \<and> tt_Operation (comp_Task c) = getOpForPowerAction act) \<and>
       comp_HSMData c = Some h \<and> rq_Method rq = ''POST'' \<and> rq_URL rq = ''https://'' @ hd_RfFQDN h @ hd_PowerActionURI h \<and>
       generateTransitionPayload (g_XN G) c act = Some (rq_Body rq, None))"
proof -
  obtain new where n: "bl_requests b = new" "map rq_ID new = take (length new) ids" "length new \<le> length xs"
      "\<forall>rq \<in> set new. \<exists>xn \<in> set xs. request_of G act m xn rq"
    using build_requests_effect [OF assms(1,3)] by auto
  have "distinct (map rq_ID new)" "set (map rq_ID new) \<subseteq> set ids"
    unfolding n(2) using assms(2) by (simp_all add: distinct_take set_take_subset)
  then show ?thesis using n unfolding request_of_def by simp
qed

theorem requests_for_live_components_witness:
  "\<exists>b. foldM (build_request (simQ ''on'') ''on'' [sim_uuid 1, sim_uuid 2]) [''x0c0s0b0n0'', ''x0c0s0b0n1'']
       \<lparr>bl_map = [sim_comp 1 ''x0c0s0b0n0'' ''off'' Operation_On [''On''], sim_comp 2 ''x0c0s0b0n1'' ''off'' Operation_On []],
        bl_trsTaskMap = [], bl_requests = [], bl_world = sim_with [] [] []\<rparr> = Some b \<and>
     distinct (map rq_ID (bl_requests b))"
proof -
  let ?b = "\<lparr>bl_map = [sim_comp 1 ''x0c0s0b0n0'' ''off'' Operation_On [''On''], sim_comp 2 ''x0c0s0b0n1'' ''off'' Operation_On []],
        bl_trsTaskMap = [], bl_requests = [], bl_world = sim_with [] [] []\<rparr>"
  have "foldM (build_request (simQ ''on'') ''on'' [sim_uuid 1, sim_uuid 2]) [''x0c0s0b0n0'', ''x0c0s0b0n1''] ?b \<noteq> None"
    by code_simp
  then obtain b where b: "foldM (build_request (simQ ''on'') ''on'' [sim_uuid 1, sim_uuid 2]) [''x0c0s0b0n0'', ''x0c0s0b0n1''] ?b = Some b"
    by auto
  show ?thesis using requests_for_live_components [OF _ _ b] b by (simp add: sim_uuid_inj)
qed

end
