(* ===== verification/Go_Json.thy ===== *)
theory Go_Json
  imports PCS_Prelude
begin

section \<open>JSON and paths\<close>

text \<open>
  What the service uses of \<^verbatim>\<open>encoding/json\<close> to write request bodies, and of the package \<^verbatim>\<open>path\<close>.

  A string is written in quotes, with the characters escaped that \<^verbatim>\<open>encoding/json\<close> escapes. A nil slice, which
  would be \<^verbatim>\<open>null\<close>, is not told apart from an empty one. An object is written as its members in the order
  of the struct; members left out by \<^verbatim>\<open>omitempty\<close> are left out by the caller.
\<close>

definition hex_digit :: "nat \<Rightarrow> char" where
  "hex_digit n = char_of (if n < 10 then 48 + n else 87 + n)"

definition json_char :: "char \<Rightarrow> string" where
  "json_char c =
     (let n = (of_char c :: nat) in
      if n = 34 \<or> n = 92 then [char_of (92 :: nat), c]
      else if n = 8 then [char_of (92 :: nat), CHR ''b''] else if n = 12 then [char_of (92 :: nat), CHR ''f'']
      else if n = 10 then [char_of (92 :: nat), CHR ''n''] else if n = 13 then [char_of (92 :: nat), CHR ''r'']
      else if n = 9 then [char_of (92 :: nat), CHR ''t'']
      else if n < 32 \<or> n = 38 \<or> n = 60 \<or> n = 62
        then [char_of (92 :: nat)] @ ''u00'' @ [hex_digit (n div 16), hex_digit (n mod 16)]
      else [c])"

definition json_string :: "string \<Rightarrow> string" where
  "json_string s = [char_of (34 :: nat)] @ concat (map json_char s) @ [char_of (34 :: nat)]"

definition json_commas :: "string list \<Rightarrow> string" where
  "json_commas vs = (case vs of [] \<Rightarrow> [] | v # vs \<Rightarrow> v @ concat (map (\<lambda>v. '','' @ v) vs))"

text \<open>Arrays and objects of values that are written already.\<close>

definition json_array :: "string list \<Rightarrow> string" where
  "json_array vs = ''['' @ json_commas vs @ '']''"

definition json_object :: "(string \<times> string) list \<Rightarrow> string" where
  "json_object ms = ''{'' @ json_commas (map (\<lambda>(k, v). json_string k @ '':'' @ v) ms) @ ''}''"

text \<open>
  \<^verbatim>\<open>path.Clean\<close> and \<^verbatim>\<open>path.Dir\<close>: \<open>clean_elems\<close> keeps the elements seen so far in reverse order; the parent of
  the root is the root.
\<close>

fun clean_elems :: "bool \<Rightarrow> string list \<Rightarrow> string list \<Rightarrow> string list" where
  "clean_elems rooted [] acc = rev acc"
| "clean_elems rooted (e # es) acc =
     (if e = [] \<or> e = ''.'' then clean_elems rooted es acc
      else if e = ''..'' then
        (case acc of
           [] \<Rightarrow> clean_elems rooted es (if rooted then [] else [''..''])
         | a # as \<Rightarrow> clean_elems rooted es (if a = ''..'' then ''..'' # acc else as))
      else clean_elems rooted es (e # acc))"

definition path_join :: "string list \<Rightarrow> string" where
  "path_join es = (case es of [] \<Rightarrow> [] | e # es \<Rightarrow> e @ concat (map (\<lambda>e. ''/'' @ e) es))"

definition path_Clean :: "string \<Rightarrow> string" where
  "path_Clean p =
     (let rooted = HasPrefix p ''/''; s = path_join (clean_elems rooted (SplitChar p CHR ''/'') [])
      in if rooted then ''/'' @ s else if s = [] then ''.'' else s)"

definition path_Dir :: "string \<Rightarrow> string" where
  "path_Dir p = path_Clean (rev (dropWhile (\<lambda>c. c \<noteq> CHR ''/'') (rev p)))"

end
