(* ===== verification/HSM_Client.thy ===== *)
theory HSM_Client
  imports Domain_Globals Go_Json
begin

section \<open>The HSM client\<close>

text \<open>
  \<^verbatim>\<open>internal/hsm/state_manager.go\<close>: the client of the hardware state manager (HSM, also SMD) behind the
  interface \<^verbatim>\<open>HSMProvider\<close>. It reserves and releases components through the reservation library
  (\<^verbatim>\<open>smd/pkg/service-reservations\<close>), reads component data over HTTP and reports power states.

  The reservation library, the HTTP client and the decoders of the HSM's JSON types belong to other
  repositories: they are the records \<open>Production\<close>, \<open>HTTPClientPair\<close> and \<open>hsm_json\<close>, the last two on the
  fields the code reads. A list of the HSM that may be null is an option, as is a pointer in it.

  \<^verbatim>\<open>ReserveComponents\<close>, \<^verbatim>\<open>CheckDeputyKeys\<close> and \<^verbatim>\<open>ReleaseComponents\<close> write through pointers into the
  slice of the caller. Here such a pointer is an index of the list, \<open>compMap\<close> maps xnames to indices and
  the changed list is returned beside the indices. Looking up a name that is not in the map gives nil, and
  writing through it panics (\<open>None\<close>). Logging is left out.
\<close>

subsection \<open>The reservation library\<close>

record Reservation =
  rv_Xname :: xname
  rv_ReservationKey :: string
  rv_DeputyKey :: string

record Key =
  key_ID :: xname
  key_Key :: string

record rsv_success =
  ok_ID :: xname
  ok_ReservationKey :: string
  ok_DeputyKey :: string
  ok_ExpirationTime :: string

record rsv_failure =
  no_ID :: xname
  no_Reason :: string

text \<open>
  The response of \<^verbatim>\<open>FlexCheck\<close> is \<open>None\<close> when it is a nil pointer; \<^verbatim>\<open>ReserveComponents\<close> uses it without
  looking at the error.
\<close>

record 'w Production =
  res_Reacquire :: "Reservation list \<Rightarrow> bool \<Rightarrow> ('w, xname list \<times> error option) io"
  res_FlexCheck :: "xname list \<Rightarrow> ('w, rsv_success list option \<times> error option) io"
  res_ValidateDeputyKeys :: "Key list \<Rightarrow> ('w, (rsv_success list \<times> rsv_failure list) \<times> error option) io"
  res_FlexAquire :: "xname list \<Rightarrow> ('w, rsv_success list \<times> error option) io"
  res_FlexRelease :: "xname list \<Rightarrow> ('w, (xname list \<times> rsv_failure list) \<times> error option) io"

subsection \<open>HTTP and the HSM's JSON types\<close>

datatype http_Client = InsecureClient | SecureClient

text \<open>
  \<open>hp_Do\<close> takes the method, the URL and the body of a request; the answer is an error, or a status code
  with the result of reading the body. \<open>hp_NewRequest\<close> is the error of \<^verbatim>\<open>http.NewRequest\<close>, if any.
\<close>

record 'w HTTPClientPair =
  hp_hasSecure :: bool
  hp_NewRequest :: "string \<Rightarrow> string \<Rightarrow> error option"
  hp_Do :: "string \<Rightarrow> string \<Rightarrow> string \<Rightarrow> ('w, error + int \<times> (error + string)) io"

record reset_action =
  ra_Target :: string
  ra_AllowableValues :: "string list"

record rf_Control =
  rc_URL :: string
  rc_Name :: string
  rc_SettingRangeMin :: int
  rc_SettingRangeMax :: int

record PowerLimit =
  pl_Min :: int
  pl_Max :: int

record PwrCtlOEM_HPE =
  hpe_PowerLimit :: PowerLimit
  hpe_Target :: string

record PwrCtlOEM =
  oem_Cray :: "PowerLimit option"
  oem_HPE :: "PwrCtlOEM_HPE option"

record PowerControl =
  pwc_Oid :: string
  pwc_Name :: string
  pwc_OEM :: "PwrCtlOEM option"

record ComponentSystemInfo =
  si_Actions :: "reset_action option"
  si_PowerURL :: string
  si_Controls :: "rf_Control list"
  si_PowerCtl :: "PowerControl list"

datatype outlet_info = ComponentOutletInfo "reset_action option" | OutletInfoOther

datatype CompEPType =
    CompEPTypeChassis | CompEPTypeSystem | CompEPTypeManager | CompEPTypePDU | CompEPTypeOutlet
  | CompEPTypeOther string

record ComponentEndpoint =
  ep_ID :: xname
  ep_ComponentEndpointType :: CompEPType
  ep_RfEndpointFQDN :: string
  ep_OdataID :: string
  ep_RedfishChassisInfo :: "reset_action option option"
  ep_RedfishSystemInfo :: "ComponentSystemInfo option"
  ep_RedfishManagerInfo :: "reset_action option option"
  ep_RedfishOutletInfo :: "outlet_info option"

record sm_PowerMap =
  pm_ID :: xname
  pm_PoweredBy :: "xname list"

record hsm_json =
  js_ComponentArray :: "string \<Rightarrow> base_Component option list option \<times> error option"
  js_ComponentEndpointArray :: "string \<Rightarrow> ComponentEndpoint option list option \<times> error option"
  js_PowerMaps :: "string \<Rightarrow> sm_PowerMap list \<times> error option"

text \<open>What \<^verbatim>\<open>json.Marshal\<close> writes for the two request types of the client.\<close>

definition CompQuery_json :: "xname list \<Rightarrow> string" where
  "CompQuery_json ids = ''{'' @ json_string ''ComponentIDs'' @ '':'' @ json_array (map json_string ids) @ ''}''"

definition BulkStateData_json :: "xname list \<Rightarrow> string \<Rightarrow> string" where
  "BulkStateData_json ids st =
     ''{'' @ json_string ''ComponentIDs'' @ '':'' @ json_array (map json_string ids) @ '','' @
     json_string ''State'' @ '':'' @ json_string st @ ''}''"

subsection \<open>The globals of the client\<close>

record 'w HSM_GLOBALS =
  hg_SvcName :: string
  hg_Reservation :: "'w Production option"
  hg_LockEnabled :: bool
  hg_SMUrl :: string
  hg_SVCHttpClient :: "'w HTTPClientPair option"
  hg_MaxComponentQuery :: int

definition HSM_MAX_COMPONENT_QUERY :: int where
  "HSM_MAX_COMPONENT_QUERY = 2000"

abbreviation "hsmLivenessPath \<equiv> ''/hsm/v2/service/liveness''"
abbreviation "hsmStateComponentsQueryPath \<equiv> ''/hsm/v2/State/Components/Query''"
abbreviation "hsmInventoryComponentEndpointPath \<equiv> ''/hsm/v2/Inventory/ComponentEndpoints''"
abbreviation "hsmPowerMapPath \<equiv> ''/hsm/v2/sysinfo/powermaps''"
abbreviation "hsmStateComponentsBulkStateData \<equiv> ''/hsm/v2/State/Components/BulkStateData''"

text \<open>
  \<open>new_production\<close> is \<^verbatim>\<open>InitWithHTTPClient\<close> on a new \<^verbatim>\<open>reservation.Production\<close>: the base URL, the
  service name and the HTTP client.
\<close>

definition HSM_Init ::
  "(string \<Rightarrow> string \<Rightarrow> http_Client \<Rightarrow> 'w Production) \<Rightarrow> 'w HSM_GLOBALS \<Rightarrow>
   ('w HSM_GLOBALS \<times> error option) option" where
  "HSM_Init new_production globals =
     (let svcName = (if hg_SvcName globals = [] then ''PCS'' else hg_SvcName globals);
          reserved =
            (if hg_LockEnabled globals
             then (case hg_SVCHttpClient globals of
                     None \<Rightarrow> None
                   | Some pair \<Rightarrow> Some (globals\<lparr>hg_Reservation :=
                       Some (new_production (hg_SMUrl globals) svcName
                         (if hp_hasSecure pair then SecureClient else InsecureClient))\<rparr>))
             else Some globals)
      in case reserved of
           None \<Rightarrow> None
         | Some g \<Rightarrow>
             let g = (if hg_MaxComponentQuery g = 0
                      then g\<lparr>hg_MaxComponentQuery := HSM_MAX_COMPONENT_QUERY\<rparr> else g)
             in Some (g, if hg_SVCHttpClient g = None then Some ''ERROR: no microservice HTTP client is present.''
                         else if hg_SMUrl g = [] then Some ''ERROR: no State Manager base URL is present.''
                         else None))"

text \<open>An initialised client: the handles its methods use are present.\<close>

record 'w HSMv2 =
  h_LockEnabled :: bool
  h_Reservation :: "'w Production"
  h_SMUrl :: string
  h_SVCHttpClient :: "'w HTTPClientPair"
  h_MaxComponentQuery :: int
  h_json :: hsm_json

definition HSM_Ping :: "'w HSMv2 \<Rightarrow> ('w, error option) io" where
  "HSM_Ping b w =
     (let url = h_SMUrl b @ hsmLivenessPath in
      case hp_NewRequest (h_SVCHttpClient b) ''GET'' url of
        Some err \<Rightarrow> (Some err, w)
      | None \<Rightarrow>
          let (r, w) = hp_Do (h_SVCHttpClient b) ''GET'' url [] w
          in (case r of Inl err \<Rightarrow> Some err | Inr _ \<Rightarrow> None, w))"

subsection \<open>Reservations\<close>

record rsv_scan =
  rs_list :: "ReservationData list"
  rs_compMap :: "(xname, nat) gomap"
  rs_resKeys :: "Reservation list"
  rs_depKeys :: "Key list"

definition reserve_scan :: "nat \<Rightarrow> rsv_scan \<Rightarrow> rsv_scan" where
  "reserve_scan ix s =
     (let c = rs_list s ! ix;
          s = s\<lparr>rs_list := (rs_list s)[ix := c\<lparr>rd_needRsv := True, rd_ReservationOwner := False, rd_Error := None\<rparr>],
                rs_compMap := AList.update (rd_XName c) ix (rs_compMap s)\<rparr>
      in if rd_ReservationKey c \<noteq> []
         then s\<lparr>rs_resKeys := rs_resKeys s @ [\<lparr>rv_Xname = rd_XName c, rv_ReservationKey = rd_ReservationKey c,
                                               rv_DeputyKey = rd_DeputyKey c\<rparr>]\<rparr>
         else if rd_DeputyKey c \<noteq> []
         then s\<lparr>rs_depKeys := rs_depKeys s @ [\<lparr>key_ID = rd_XName c, key_Key = rd_DeputyKey c\<rparr>]\<rparr>
         else s)"

text \<open>A write through \<open>compMap\<close>; the state is the list and the indices returned so far.\<close>

type_synonym held = "ReservationData list \<times> nat list"

definition write_through ::
  "(xname, nat) gomap \<Rightarrow> xname \<Rightarrow> (ReservationData \<Rightarrow> ReservationData) \<Rightarrow> ReservationData list \<Rightarrow> ReservationData list option" where
  "write_through m x f l = map_option (\<lambda>ix. l[ix := f (l ! ix)]) (map_of m x)"

definition hold_one ::
  "(xname, nat) gomap \<Rightarrow> xname \<Rightarrow> (ReservationData \<Rightarrow> ReservationData) \<Rightarrow> held \<Rightarrow> held option" where
  "hold_one m x f h =
     (case map_of m x of None \<Rightarrow> None
      | Some ix \<Rightarrow> Some ((fst h)[ix := f (fst h ! ix)], snd h @ [ix]))"

definition granted :: "rsv_success \<Rightarrow> ReservationData \<Rightarrow> ReservationData" where
  "granted rr c = c\<lparr>rd_ReservationOwner := True, rd_needRsv := False, rd_ReservationKey := ok_ReservationKey rr,
     rd_DeputyKey := ok_DeputyKey rr, rd_ExpirationTime := ok_ExpirationTime rr\<rparr>"

definition deputised :: "ReservationData \<Rightarrow> ReservationData" where
  "deputised c = c\<lparr>rd_ReservationOwner := False, rd_ReservationKey := [], rd_ExpirationTime := [],
     rd_needRsv := False\<rparr>"

definition grant_one :: "(xname, nat) gomap \<Rightarrow> rsv_success \<Rightarrow> held \<Rightarrow> held option" where
  "grant_one m rr = hold_one m (ok_ID rr) (granted rr)"

definition deputy_one :: "(xname, nat) gomap \<Rightarrow> rsv_success \<Rightarrow> held \<Rightarrow> held option" where
  "deputy_one m rr = hold_one m (ok_ID rr) deputised"

text \<open>
  The three rounds of \<^verbatim>\<open>ReserveComponents\<close>. Each gives the list and the indices so far and the error
  that makes the method return early.
\<close>

definition reacquire_round ::
  "'w HSMv2 \<Rightarrow> (xname, nat) gomap \<Rightarrow> Reservation list \<Rightarrow> held \<Rightarrow> ('w, held \<times> error option) go" where
  "reacquire_round b m resKeys h w =
     (if resKeys = [] then Some ((h, None), w)
      else case res_Reacquire (h_Reservation b) resKeys True w of
        ((ids, Some e), w) \<Rightarrow> Some ((h, Some (''ERROR reacquiring reservations: '' @ e)), w)
      | ((ids, None), w) \<Rightarrow>
          if ids = [] then Some ((h, None), w)
          else case res_FlexCheck (h_Reservation b) ids w of
            ((None, _), w) \<Rightarrow> None
          | ((Some success, _), w) \<Rightarrow>
              map_option (\<lambda>h. ((h, None), w)) (foldM (grant_one m) success h))"

definition deputy_round ::
  "'w HSMv2 \<Rightarrow> (xname, nat) gomap \<Rightarrow> Key list \<Rightarrow> held \<Rightarrow> ('w, held \<times> error option) go" where
  "deputy_round b m depKeys h w =
     (if depKeys = [] then Some ((h, None), w)
      else case res_ValidateDeputyKeys (h_Reservation b) depKeys w of
        ((_, Some e), w) \<Rightarrow> Some ((h, Some (''ERROR validating deputy keys: '' @ e)), w)
      | ((rsp, None), w) \<Rightarrow>
          map_option (\<lambda>h. ((h, None), w)) (foldM (deputy_one m) (fst rsp) h))"

definition aquire_round ::
  "'w HSMv2 \<Rightarrow> (xname, nat) gomap \<Rightarrow> held \<Rightarrow> ('w, held \<times> error option) go" where
  "aquire_round b m h w =
     (let aquireList = map fst (filter (\<lambda>(k, ix). rd_needRsv (fst h ! ix)) m) in
      if aquireList = [] then Some ((h, None), w)
      else case res_FlexAquire (h_Reservation b) aquireList w of
        ((_, Some e), w) \<Rightarrow> Some ((h, Some (''ERROR aquiring needed reservations: '' @ e)), w)
      | ((success, None), w) \<Rightarrow>
          map_option (\<lambda>h. ((h, None), w)) (foldM (grant_one m) success h))"

text \<open>The next round runs when the one before did not return early.\<close>

definition then_round ::
  "('w, held \<times> error option) go \<Rightarrow> (held \<Rightarrow> ('w, held \<times> error option) go) \<Rightarrow> ('w, held \<times> error option) go" where
  "then_round r k w =
     (case r w of None \<Rightarrow> None
      | Some ((h, Some e), w) \<Rightarrow> Some ((h, Some e), w)
      | Some ((h, None), w) \<Rightarrow> k h w)"

definition HSM_ReserveComponents ::
  "'w HSMv2 \<Rightarrow> ReservationData list \<Rightarrow> ('w, held \<times> error option) go" where
  "HSM_ReserveComponents b compList w =
     (if \<not> h_LockEnabled b then Some (((compList, [0..<length compList]), None), w)
      else if compList = [] then Some (((compList, []), None), w)
      else
        let s = fold reserve_scan [0..<length compList]
                  \<lparr>rs_list = compList, rs_compMap = [], rs_resKeys = [], rs_depKeys = []\<rparr>;
            m = rs_compMap s
        in then_round (then_round (reacquire_round b m (rs_resKeys s) (rs_list s, []))
             (deputy_round b m (rs_depKeys s))) (aquire_round b m) w)"

definition check_scan :: "nat \<Rightarrow> rsv_scan \<Rightarrow> rsv_scan" where
  "check_scan ix s =
     (let c = rs_list s ! ix;
          s = s\<lparr>rs_list := (rs_list s)[ix := c\<lparr>rd_Error := None\<rparr>],
                rs_compMap := AList.update (rd_XName c) ix (rs_compMap s)\<rparr>
      in if rd_DeputyKey c \<noteq> []
         then s\<lparr>rs_depKeys := rs_depKeys s @ [\<lparr>key_ID = rd_XName c, key_Key = rd_DeputyKey c\<rparr>]\<rparr>
         else s)"

definition check_valid :: "(xname, nat) gomap \<Rightarrow> rsv_success \<Rightarrow> ReservationData list \<Rightarrow> ReservationData list option" where
  "check_valid m rr = write_through m (ok_ID rr)
     (\<lambda>c. c\<lparr>rd_ExpirationTime := ok_ExpirationTime rr, rd_Error := None\<rparr>)"

definition check_invalid :: "(xname, nat) gomap \<Rightarrow> rsv_failure \<Rightarrow> ReservationData list \<Rightarrow> ReservationData list option" where
  "check_invalid m rr = write_through m (no_ID rr) (\<lambda>c. c\<lparr>rd_Error := Some (no_Reason rr)\<rparr>)"

definition HSM_CheckDeputyKeys ::
  "'w HSMv2 \<Rightarrow> ReservationData list \<Rightarrow> ('w, ReservationData list \<times> error option) go" where
  "HSM_CheckDeputyKeys b compList w =
     (let s = fold check_scan [0..<length compList]
                \<lparr>rs_list = compList, rs_compMap = [], rs_resKeys = [], rs_depKeys = []\<rparr>;
          m = rs_compMap s
      in if rs_depKeys s = [] then Some ((rs_list s, None), w)
         else case res_ValidateDeputyKeys (h_Reservation b) (rs_depKeys s) w of
           ((_, Some e), w) \<Rightarrow> Some ((rs_list s, Some (''Error in deputy key check: '' @ e)), w)
         | ((rsp, None), w) \<Rightarrow>
             (case foldM (check_valid m) (fst rsp) (rs_list s) of
                None \<Rightarrow> None
              | Some l \<Rightarrow> map_option (\<lambda>l. ((l, None), w)) (foldM (check_invalid m) (snd rsp) l)))"

definition released :: "ReservationData \<Rightarrow> ReservationData" where
  "released c = c\<lparr>rd_ReservationOwner := False, rd_ReservationKey := [], rd_ExpirationTime := [],
     rd_DeputyKey := [], rd_Error := None\<rparr>"

definition release_fail :: "(xname, nat) gomap \<Rightarrow> rsv_failure \<Rightarrow> held \<Rightarrow> held option" where
  "release_fail m rr = hold_one m (no_ID rr) (\<lambda>c. c\<lparr>rd_Error := Some (no_Reason rr)\<rparr>)"

definition HSM_ReleaseComponents ::
  "'w HSMv2 \<Rightarrow> ReservationData list \<Rightarrow> ('w, held \<times> error option) go" where
  "HSM_ReleaseComponents b compList w =
     (if \<not> h_LockEnabled b then Some (((compList, []), None), w)
      else
        let m = fold (\<lambda>ix. AList.update (rd_XName (compList ! ix)) ix) [0..<length compList] [];
            clearList = map rd_XName (filter rd_ReservationOwner compList)
        in if clearList = [] then Some (((compList, []), None), w)
           else case res_FlexRelease (h_Reservation b) clearList w of
             ((_, Some e), w) \<Rightarrow> Some (((compList, []), Some (''ERROR releasing reservations: '' @ e)), w)
           | ((rsp, None), w) \<Rightarrow>
               (case foldM (\<lambda>x. write_through m x released) (fst rsp) compList of
                  None \<Rightarrow> None
                | Some l \<Rightarrow>
                    map_option (\<lambda>h. ((h, None), w)) (foldM (release_fail m) (snd rsp) (l, []))))"

subsection \<open>Component data\<close>

definition set_power_uris :: "ComponentEndpoint \<Rightarrow> HsmData \<Rightarrow> HsmData" where
  "set_power_uris ep d = d\<lparr>hd_RfFQDN := ep_RfEndpointFQDN ep, hd_PowerStatusURI := ep_OdataID ep\<rparr>"

definition set_reset :: "reset_action option \<Rightarrow> HsmData \<Rightarrow> HsmData" where
  "set_reset a d =
     (case a of None \<Rightarrow> d
      | Some a \<Rightarrow> d\<lparr>hd_PowerActionURI := ra_Target a, hd_AllowableActions := ra_AllowableValues a\<rparr>)"

definition control_cap :: "nat \<times> rf_Control \<Rightarrow> (string, PowerCap) gomap \<Rightarrow> (string, PowerCap) gomap" where
  "control_cap ic m =
     (case ic of (i, ctl) \<Rightarrow>
        AList.update (rc_Name ctl)
          \<lparr>pc_Name = rc_Name ctl, pc_Path = rc_URL ctl, pc_Min = rc_SettingRangeMin ctl,
           pc_Max = rc_SettingRangeMax ctl, pc_PwrCtlIndex = i\<rparr> m)"

text \<open>The path of a power control is its \<^verbatim>\<open>@odata.id\<close> up to a fragment, by default the power URL.\<close>

definition ctl_path :: "string \<Rightarrow> string \<Rightarrow> string" where
  "ctl_path powerURL oid =
     (let path = takeWhile (\<lambda>c. c \<noteq> CHR ''#'') oid in if path = [] then powerURL else path)"

definition ctl_limits :: "PwrCtlOEM option \<Rightarrow> int \<times> int" where
  "ctl_limits oem =
     (case oem of None \<Rightarrow> (- 1, - 1)
      | Some oem \<Rightarrow>
          (case oem_Cray oem of
             Some l \<Rightarrow> (pl_Min l, pl_Max l)
           | None \<Rightarrow>
               (case oem_HPE oem of
                  Some h \<Rightarrow> (pl_Min (hpe_PowerLimit h), pl_Max (hpe_PowerLimit h))
                | None \<Rightarrow> (- 1, - 1))))"

definition powerctl_cap ::
  "string \<Rightarrow> nat \<times> PowerControl \<Rightarrow> (string, PowerCap) gomap \<Rightarrow> (string, PowerCap) gomap" where
  "powerctl_cap powerURL ic m =
     (case ic of (i, ctl) \<Rightarrow>
        let isHpeApollo6500 = Contains powerURL ''AccPowerService/PowerLimit'';
            isHpeServer = Contains powerURL ''Chassis/1/Power'';
            name = (if isHpeApollo6500 \<or> isHpeServer then ''Node Power Limit'' else pwc_Name ctl);
            (min, max) = ctl_limits (pwc_OEM ctl)
        in AList.update name
             \<lparr>pc_Name = name, pc_Path = ctl_path powerURL (pwc_Oid ctl), pc_Min = min, pc_Max = max,
              pc_PwrCtlIndex = i\<rparr> m)"

definition ctl_target :: "PowerControl \<Rightarrow> string option" where
  "ctl_target ctl =
     (case pwc_OEM ctl of None \<Rightarrow> None
      | Some oem \<Rightarrow> (case oem_HPE oem of None \<Rightarrow> None
                     | Some h \<Rightarrow> if hpe_Target h \<noteq> [] then Some (hpe_Target h) else None))"

definition extractPowerCapInfo :: "HsmData \<Rightarrow> ComponentSystemInfo \<Rightarrow> HsmData" where
  "extractPowerCapInfo d si =
     (let d = d\<lparr>hd_PowerCapURI := si_PowerURL si, hd_PowerCapControlsCount := length (si_Controls si),
                hd_PowerCapCtlInfoCount := length (si_PowerCtl si)\<rparr>
      in if si_Controls si \<noteq> []
         then d\<lparr>hd_PowerCaps := fold control_cap (enumerate 0 (si_Controls si)) []\<rparr>
         else case si_PowerCtl si of
           [] \<Rightarrow> d
         | ctl # ctls \<Rightarrow>
             let d = (case ctl_target ctl of None \<Rightarrow> d | Some t \<Rightarrow> d\<lparr>hd_PowerCapTargetURI := t\<rparr>)
             in d\<lparr>hd_PowerCaps := fold (powerctl_cap (si_PowerURL si)) (enumerate 0 (ctl # ctls)) []\<rparr>)"

definition endpoint_data :: "ComponentEndpoint \<Rightarrow> HsmData \<Rightarrow> HsmData" where
  "endpoint_data ep d =
     (case ep_ComponentEndpointType ep of
        CompEPTypeChassis \<Rightarrow>
          set_reset (case ep_RedfishChassisInfo ep of None \<Rightarrow> None | Some a \<Rightarrow> a) (set_power_uris ep d)
      | CompEPTypeSystem \<Rightarrow>
          (case ep_RedfishSystemInfo ep of
             None \<Rightarrow> set_power_uris ep d
           | Some si \<Rightarrow> extractPowerCapInfo (set_reset (si_Actions si) (set_power_uris ep d)) si)
      | CompEPTypeManager \<Rightarrow>
          set_reset (case ep_RedfishManagerInfo ep of None \<Rightarrow> None | Some a \<Rightarrow> a) (set_power_uris ep d)
      | CompEPTypePDU \<Rightarrow> set_power_uris ep d
      | CompEPTypeOutlet \<Rightarrow>
          set_reset (case ep_RedfishOutletInfo ep of Some (ComponentOutletInfo a) \<Rightarrow> a | _ \<Rightarrow> None)
            (set_power_uris ep d)
      | CompEPTypeOther t \<Rightarrow> d)"

text \<open>An endpoint the map does not know is ignored; a null in the list panics.\<close>

definition fill_endpoint ::
  "ComponentEndpoint option \<Rightarrow> (xname, HsmData) gomap \<Rightarrow> (xname, HsmData) gomap option" where
  "fill_endpoint epo hm =
     (case epo of None \<Rightarrow> None
      | Some ep \<Rightarrow>
          (case map_of hm (ep_ID ep) of
             None \<Rightarrow> Some hm
           | Some d \<Rightarrow> Some (AList.update (ep_ID ep) (endpoint_data ep d) hm)))"

text \<open>
  The common part of the reading requests: a request to the HSM whose body is read; an error, or the
  status code and the body.
\<close>

definition hsm_request ::
  "'w HSMv2 \<Rightarrow> string \<Rightarrow> string \<Rightarrow> string \<Rightarrow> ('w, error + int \<times> string) io" where
  "hsm_request b method url body w =
     (case hp_NewRequest (h_SVCHttpClient b) method url of
        Some err \<Rightarrow> (Inl (''ERROR creating HTTP request for '' @ quoted url @ '': '' @ err), w)
      | None \<Rightarrow>
          let (r, w) = hp_Do (h_SVCHttpClient b) method url body w in
          (case r of
             Inl err \<Rightarrow> Inl (''Error in http request '' @ quoted url @ '': '' @ err)
           | Inr (code, Inl err) \<Rightarrow> Inl (''Error reading response body for '' @ quoted url @ '': '' @ err)
           | Inr (code, Inr rsp) \<Rightarrow> Inr (code, rsp), w))"

definition endpoints_url :: "string \<Rightarrow> xname list \<Rightarrow> string" where
  "endpoints_url smurl ids =
     smurl @ hsmInventoryComponentEndpointPath @ ''?'' @
     dropWhile (\<lambda>c. c = CHR ''&'') (concat (map (\<lambda>x. ''&id='' @ x) ids))"

text \<open>One query: the map afterwards, or the error that ends the method.\<close>

definition endpoints_query ::
  "'w HSMv2 \<Rightarrow> xname list \<Rightarrow> (xname, HsmData) gomap \<Rightarrow> ('w, (xname, HsmData) gomap \<times> error option) go" where
  "endpoints_query b ids hm w =
     (let url = endpoints_url (h_SMUrl b) ids; (r, w) = hsm_request b ''GET'' url [] w in
      case r of
        Inl err \<Rightarrow> Some ((hm, Some err), w)
      | Inr (code, body) \<Rightarrow>
          if code \<noteq> 200
          then Some ((hm, Some (''Error in http request '' @ quoted url @ '': unexpected status code '' @ Itoa code)), w)
          else case js_ComponentEndpointArray (h_json b) body of
            (_, Some err) \<Rightarrow> Some ((hm, Some (''Error unmarshalling response body for '' @ quoted url @ '': '' @ err)), w)
          | (None, None) \<Rightarrow>
              Some ((hm, Some (''Invalid response body for '' @ quoted url @ '': ComponentEndpoints must be an array'')), w)
          | (Some eps, None) \<Rightarrow> map_option (\<lambda>hm. ((hm, None), w)) (foldM fill_endpoint eps hm))"

text \<open>
  The loop over batches. \<^verbatim>\<open>numComps\<close> is a 64-bit integer; with a negative \<^verbatim>\<open>MaxComponentQuery\<close> it grows
  until it overflows. Indexing \<^verbatim>\<open>xnames\<close> past its end panics.
\<close>

partial_function (option) endpoints_loop ::
  "'w HSMv2 \<Rightarrow> xname list \<Rightarrow> nat \<Rightarrow> int \<Rightarrow> (xname, HsmData) gomap \<Rightarrow> 'w \<Rightarrow>
   (((xname, HsmData) gomap \<times> error option) \<times> 'w) option" where
  [code]: "endpoints_loop b xnames compIX numComps hm w =
     (if numComps \<le> 0 then Some ((hm, None), w)
      else
        let idCount = nat (min numComps (h_MaxComponentQuery b)) in
        if compIX + idCount > length xnames then None
        else Option.bind (endpoints_query b (take idCount (drop compIX xnames)) hm w) (\<lambda>r.
          case r of
            ((hm, Some err), w) \<Rightarrow> Some ((hm, Some err), w)
          | ((hm, None), w) \<Rightarrow>
              endpoints_loop b xnames (compIX + idCount) (wrap64 (numComps - h_MaxComponentQuery b)) hm w))"

definition HSM_FillComponentEndpointData ::
  "'w HSMv2 \<Rightarrow> (xname, HsmData) gomap \<Rightarrow> ('w, (xname, HsmData) gomap \<times> error option) go" where
  "HSM_FillComponentEndpointData b hm w =
     endpoints_loop b (map (\<lambda>(k, d). bc_ID (hd_BaseData d)) hm) 0 (int (length hm)) hm w"

definition HSM_GetStateComponents ::
  "'w HSMv2 \<Rightarrow> xname list \<Rightarrow> ('w, base_Component option list option \<times> error option) io" where
  "HSM_GetStateComponents b xnames w =
     (let url = h_SMUrl b @ hsmStateComponentsQueryPath;
          (r, w) = hsm_request b ''POST'' url (CompQuery_json xnames) w in
      case r of
        Inl err \<Rightarrow> ((None, Some err), w)
      | Inr (code, body) \<Rightarrow>
          if code \<noteq> 200
          then ((None, Some (''Error in http request '' @ quoted url @ '': unexpected status code '' @ Itoa code)), w)
          else case js_ComponentArray (h_json b) body of
            (cs, Some err) \<Rightarrow> ((cs, Some (''Error unmarshalling response body for '' @ quoted url @ '': '' @ err)), w)
          | (None, None) \<Rightarrow>
              ((None, Some (''Invalid response body for '' @ quoted url @ '': Components must be an array'')), w)
          | (Some cs, None) \<Rightarrow> ((Some cs, None), w))"

definition HSM_FillPowerMapData ::
  "'w HSMv2 \<Rightarrow> (xname, HsmData) gomap \<Rightarrow> ('w, (xname, HsmData) gomap \<times> error option) io" where
  "HSM_FillPowerMapData b hm w =
     (let url = h_SMUrl b @ hsmPowerMapPath; (r, w) = hsm_request b ''GET'' url [] w in
      case r of
        Inl err \<Rightarrow> ((hm, Some err), w)
      | Inr (code, body) \<Rightarrow>
          (case js_PowerMaps (h_json b) body of
             (_, Some err) \<Rightarrow> ((hm, Some (''Error unmarshalling response body for '' @ quoted url @ '': '' @ err)), w)
           | (pms, None) \<Rightarrow>
               ((fold (\<lambda>pm hm. case map_of hm (pm_ID pm) of
                         None \<Rightarrow> hm
                       | Some d \<Rightarrow> AList.update (pm_ID pm) (d\<lparr>hd_PoweredBy := pm_PoweredBy pm\<rparr>) hm) pms hm,
                 None), w)))"

definition new_HsmData :: "base_Component \<Rightarrow> HsmData" where
  "new_HsmData c =
     \<lparr>hd_BaseData = c, hd_RfFQDN = [], hd_PowerActionURI = [], hd_AllowableActions = [], hd_PowerStatusURI = [],
      hd_Error = None, hd_PowerCapURI = [], hd_PowerCapTargetURI = [], hd_PowerCapControlsCount = 0,
      hd_PowerCapCtlInfoCount = 0, hd_PowerCaps = [], hd_PoweredBy = []\<rparr>"

definition add_component ::
  "base_Component option \<Rightarrow> (xname, HsmData) gomap \<Rightarrow> (xname, HsmData) gomap option" where
  "add_component co hm = map_option (\<lambda>c. AList.update (bc_ID c) (new_HsmData c) hm) co"

definition HSM_FillHSMData ::
  "'w HSMv2 \<Rightarrow> xname list \<Rightarrow> ('w, (xname, HsmData) gomap \<times> error option) go" where
  "HSM_FillHSMData b xnames w =
     (case HSM_GetStateComponents b xnames w of
        ((_, Some err), w) \<Rightarrow> Some (([], Some (''ERROR fetching State/Component data from HSM: '' @ err)), w)
      | ((cs, None), w) \<Rightarrow>
          Option.bind (foldM add_component (case cs of None \<Rightarrow> [] | Some cs \<Rightarrow> cs) []) (\<lambda>hdata.
          Option.bind (HSM_FillComponentEndpointData b hdata w) (\<lambda>r.
            case r of
              ((hdata, Some err), w) \<Rightarrow>
                Some ((hdata, Some (''ERROR fetching Inventory/ComponentEndpoints data from HSM: '' @ err)), w)
            | ((hdata, None), w) \<Rightarrow> Some ((hdata, None), w))))"

text \<open>In the message of a failed update a body that could not be read is left out.\<close>

definition HSM_BulkComponentStateUpdate :: "'w HSMv2 \<Rightarrow> xname list \<Rightarrow> string \<Rightarrow> ('w, error option) io" where
  "HSM_BulkComponentStateUpdate b xnames st w =
     (let url = h_SMUrl b @ hsmStateComponentsBulkStateData in
      case hp_NewRequest (h_SVCHttpClient b) ''PATCH'' url of
        Some err \<Rightarrow> (Some (''ERROR creating HTTP request for '' @ quoted url @ '': '' @ err), w)
      | None \<Rightarrow>
          let (r, w) = hp_Do (h_SVCHttpClient b) ''PATCH'' url (BulkStateData_json xnames st) w in
          (case r of
             Inl err \<Rightarrow> Some (''Error in http request '' @ quoted url @ '': '' @ err)
           | Inr (code, body) \<Rightarrow>
               if code \<noteq> 204
               then Some (''Error in http request '' @ quoted url @ '': status code '' @ Itoa code @ '', response: '' @
                          (case body of Inl _ \<Rightarrow> [] | Inr s \<Rightarrow> s))
               else None, w))"

end
