(* ===== verification/HSM_Reservations.thy ===== *)
theory HSM_Reservations
  imports HSM_Client
begin

section \<open>Reservations: what is held and what is released\<close>

text \<open>
  The contract of the reservation library as the locale \<open>reservation_service\<close>, the invariant of the three
  rounds of \<^verbatim>\<open>ReserveComponents\<close>, what \<^verbatim>\<open>ReleaseComponents\<close> changes, and that neither panics on replies
  that only speak of the components asked for.
\<close>

subsection \<open>The map of a slice by name\<close>

definition names_map :: "ReservationData list \<Rightarrow> (xname, nat) gomap \<Rightarrow> bool" where
  "names_map l m \<longleftrightarrow>
     (\<forall>x ix. map_of m x = Some ix \<longrightarrow> ix < length l \<and> rd_XName (l ! ix) = x) \<and>
     (\<forall>x \<in> set (map rd_XName l). map_of m x \<noteq> None) \<and> distinct (map fst m)"

definition rsv_reset :: "ReservationData \<Rightarrow> ReservationData" where
  "rsv_reset c = c\<lparr>rd_needRsv := True, rd_ReservationOwner := False, rd_Error := None\<rparr>"

lemma names_map_take:
  assumes "names_map (take k l) m" and "k < length l"
  shows "names_map (take (Suc k) l) (AList.update (rd_XName (l ! k)) k m)"
  using assms unfolding names_map_def
  by (auto simp: take_Suc_conv_app_nth nth_append less_Suc_eq distinct_update split: if_splits) (metis nth_take)

lemma reserve_scan_result:
  assumes "k \<le> length l" and "s = fold reserve_scan [0..<k]
    \<lparr>rs_list = l, rs_compMap = [], rs_resKeys = [], rs_depKeys = []\<rparr>"
  shows "rs_list s = map rsv_reset (take k l) @ drop k l \<and> names_map (take k l) (rs_compMap s) \<and>
    rv_Xname ` set (rs_resKeys s) \<subseteq> set (map rd_XName (take k l)) \<and>
    key_ID ` set (rs_depKeys s) \<subseteq>
      {x. \<exists>c \<in> set (take k l). rd_XName c = x \<and> rd_ReservationKey c = [] \<and> rd_DeputyKey c \<noteq> []}"
  using assms
proof (induction k arbitrary: s)
  case 0
  then show ?case by (simp add: names_map_def)
next
  case (Suc k)
  define s1 where "s1 = fold reserve_scan [0..<k] \<lparr>rs_list = l, rs_compMap = [], rs_resKeys = [], rs_depKeys = []\<rparr>"
  have k: "k < length l" using Suc.prems(1) by simp
  have s: "s = reserve_scan k s1" using Suc.prems(2) by (simp add: s1_def)
  note IH = Suc.IH [of s1, OF _ s1_def]
  have l: "rs_list s1 = map rsv_reset (take k l) @ drop k l" using IH k by simp
  have c: "rs_list s1 ! k = l ! k" using l k by (simp add: nth_append)
  have upd: "(rs_list s1)[k := rsv_reset (l ! k)] = map rsv_reset (take (Suc k) l) @ drop (Suc k) l"
    using l k by (simp add: list_update_append take_Suc_conv_app_nth Cons_nth_drop_Suc [symmetric])
  have m: "names_map (take (Suc k) l) (AList.update (rd_XName (l ! k)) k (rs_compMap s1))"
    using IH k by (intro names_map_take) simp_all
  show ?case
    using IH k m upd c unfolding s
    by (simp add: reserve_scan_def Let_def rsv_reset_def [symmetric])
       (auto simp: take_Suc_conv_app_nth)
qed

lemma reserve_scan_all:
  assumes "s = fold reserve_scan [0..<length l] \<lparr>rs_list = l, rs_compMap = [], rs_resKeys = [], rs_depKeys = []\<rparr>"
  shows "rs_list s = map rsv_reset l" and "names_map l (rs_compMap s)"
    and "rv_Xname ` set (rs_resKeys s) \<subseteq> set (map rd_XName l)" 
    and "key_ID ` set (rs_depKeys s) \<subseteq> {x. \<exists>c \<in> set l. rd_XName c = x \<and> rd_ReservationKey c = [] \<and> rd_DeputyKey c \<noteq> []}"
  using reserve_scan_result [OF order_refl assms] by simp_all

lemma release_map: "k \<le> length l \<Longrightarrow>
  names_map (take k l) (fold (\<lambda>ix. AList.update (rd_XName (l ! ix)) ix) [0..<k] [])"
  by (induction k) (simp_all add: names_map_take, simp add: names_map_def)

lemma then_round_cases:
  assumes "then_round r k w = Some ((h', e'), w')"
  obtains (go_on) h w1 where "r w = Some ((h, None), w1)" "k h w1 = Some ((h', e'), w')"
  | (stop) e where "r w = Some ((h', Some e), w')" "e' = Some e"
  using assms by (auto simp: then_round_def split: option.splits)

lemma then_round_total:
  "\<exists>x. r w = Some x \<Longrightarrow> (\<And>h w. \<exists>x. k h w = Some x) \<Longrightarrow> \<exists>x. then_round r k w = Some x"
  by (auto simp: then_round_def split: option.splits prod.splits)

subsection \<open>The contract of the reservation service\<close>

text \<open>
  What the reservation library documents: a response speaks of components that were asked about, a
  component it reports as reserved is held under the key it gives, and a call changes the reservations of
  the components it was called for only. \<open>holds w x k\<close>: component \<open>x\<close> is held under reservation key \<open>k\<close>.
\<close>

locale reservation_service =
  fixes P :: "'w Production" and holds :: "'w \<Rightarrow> xname \<Rightarrow> string \<Rightarrow> bool"
  assumes reacquire_asked: "res_Reacquire P rs f w = ((ids, None), w') \<Longrightarrow> set ids \<subseteq> rv_Xname ` set rs"
    and check_asked: "res_FlexCheck P ids w = ((Some ok, e), w') \<Longrightarrow> ok_ID ` set ok \<subseteq> set ids"
    and check_holds: "res_FlexCheck P ids w = ((Some ok, e), w') \<Longrightarrow> rr \<in> set ok \<Longrightarrow>
      holds w' (ok_ID rr) (ok_ReservationKey rr)"
    and check_answers: "res_FlexCheck P ids w = ((cr, None), w') \<Longrightarrow> cr \<noteq> None"
    and validate_asked: "res_ValidateDeputyKeys P ks w = (((ok, no), None), w') \<Longrightarrow>
      ok_ID ` set ok \<union> no_ID ` set no \<subseteq> key_ID ` set ks"
    and validate_keeps: "res_ValidateDeputyKeys P ks w = (vr, w') \<Longrightarrow> holds w' = holds w"
    and aquire_asked: "res_FlexAquire P ids w = ((ok, None), w') \<Longrightarrow> ok_ID ` set ok \<subseteq> set ids"
    and aquire_holds: "res_FlexAquire P ids w = ((ok, None), w') \<Longrightarrow> rr \<in> set ok \<Longrightarrow>
      holds w' (ok_ID rr) (ok_ReservationKey rr)"
    and aquire_keeps: "res_FlexAquire P ids w = (ar, w') \<Longrightarrow> x \<notin> set ids \<Longrightarrow> holds w' x = holds w x"
    and release_asked: "res_FlexRelease P ids w = (((gone, no), None), w') \<Longrightarrow> set gone \<union> no_ID ` set no \<subseteq> set ids"
    and release_frees: "res_FlexRelease P ids w = (((gone, no), None), w') \<Longrightarrow> x \<in> set gone \<Longrightarrow> \<not> holds w' x k"
    and release_keeps: "res_FlexRelease P ids w = (lr, w') \<Longrightarrow> x \<notin> set ids \<Longrightarrow> holds w' x = holds w x"
begin

text \<open>The invariant of the rounds of \<^verbatim>\<open>ReserveComponents\<close>.\<close>

definition rsv_inv :: "xname set \<Rightarrow> (xname, nat) gomap \<Rightarrow> ReservationData list \<Rightarrow> 'w \<Rightarrow> held \<Rightarrow> bool" where
  "rsv_inv D m l w h \<longleftrightarrow> map rd_XName (fst h) = map rd_XName l \<and> set (snd h) \<subseteq> {..<length l} \<and>
     (\<forall>i < length l. (i \<in> set (snd h)) = (\<not> rd_needRsv (fst h ! i))) \<and>
     (\<forall>i < length l. rd_ReservationOwner (fst h ! i) \<longrightarrow>
        i \<in> set (snd h) \<and> map_of m (rd_XName (l ! i)) = Some i \<and>
        holds w (rd_XName (l ! i)) (rd_ReservationKey (fst h ! i))) \<and>
     (\<forall>i < length l. i \<in> set (snd h) \<longrightarrow> \<not> rd_ReservationOwner (fst h ! i) \<longrightarrow> rd_XName (l ! i) \<in> D)"

lemma rsv_inv_start: "rsv_inv D m l w (map rsv_reset l, [])"
  by (simp add: rsv_inv_def rsv_reset_def comp_def)

lemma rsv_inv_length: "rsv_inv D m l w h \<Longrightarrow> length (fst h) = length l"
  unfolding rsv_inv_def by (metis length_map)

lemma rsv_inv_hold:
  assumes I: "rsv_inv D m l w h" and m: "names_map l m" and step: "hold_one m x f h = Some h'"
    and f: "\<And>c. rd_XName (f c) = rd_XName c" "\<And>c. \<not> rd_needRsv (f c)"
    and owner: "\<And>c. rd_ReservationOwner (f c) \<Longrightarrow> holds w x (rd_ReservationKey (f c))"
    and deputy: "\<And>c. \<not> rd_ReservationOwner (f c) \<Longrightarrow> x \<in> D"
  shows "rsv_inv D m l w h'"
proof -
  obtain ix where ix: "map_of m x = Some ix" and h': "h' = ((fst h)[ix := f (fst h ! ix)], snd h @ [ix])"
    using step by (auto simp: hold_one_def split: option.splits)
  have ixl: "ix < length l" and x: "rd_XName (l ! ix) = x" using m ix by (auto simp: names_map_def)
  have len: "length (fst h) = length l" using I by (rule rsv_inv_length)
  have names: "map rd_XName (fst h) = map rd_XName l" using I by (simp add: rsv_inv_def)
  have nth: "rd_XName (fst h ! ix) = x" using names ixl len x by (metis nth_map)
  have names': "map rd_XName (fst h') = map rd_XName l"
    using ixl len by (simp add: h' map_update f(1) names nth x [symmetric])
      (metis length_map list_update_id nth_map)
  show ?thesis
    using I ixl len f(2) owner deputy x ix names' unfolding rsv_inv_def h' by (auto simp: nth_list_update)
qed

lemma rsv_inv_grant:
  assumes "rsv_inv D m l w h" and "names_map l m" and "foldM (grant_one m) ok h = Some h'"
    and "\<And>rr. rr \<in> set ok \<Longrightarrow> holds w (ok_ID rr) (ok_ReservationKey rr)"
  shows "rsv_inv D m l w h'"
  using assms(3,1)
proof (rule foldM_invariant)
  fix rr s s' assume "rr \<in> set ok" and "rsv_inv D m l w s" and "grant_one m rr s = Some s'"
  then show "rsv_inv D m l w s'"
    using assms(2,4) by (auto simp: grant_one_def granted_def intro: rsv_inv_hold [where f = "granted rr" and h = s])
qed

lemma rsv_inv_deputy:
  assumes "rsv_inv D m l w h" and "names_map l m" and "foldM (deputy_one m) ok h = Some h'" and "ok_ID ` set ok \<subseteq> D"
  shows "rsv_inv D m l w h'"
  using assms(3,1)
proof (rule foldM_invariant)
  fix rr s s' assume "rr \<in> set ok" and "rsv_inv D m l w s" and "deputy_one m rr s = Some s'"
  then have h: "hold_one m (ok_ID rr) deputised s = Some s'" and "ok_ID rr \<in> D"
    using assms(4) by (auto simp: deputy_one_def)
  then show "rsv_inv D m l w s'"
    by (intro rsv_inv_hold [OF \<open>rsv_inv D m l w s\<close> assms(2) h]) (simp_all add: deputised_def)
qed

lemma rsv_inv_world:
  assumes "rsv_inv D m l w h"
    and "\<And>i. i < length l \<Longrightarrow> rd_ReservationOwner (fst h ! i) \<Longrightarrow>
      holds w' (rd_XName (l ! i)) = holds w (rd_XName (l ! i))"
  shows "rsv_inv D m l w' h"
  using assms by (auto simp: rsv_inv_def)

lemma rsv_inv_mono: "rsv_inv D m l w h \<Longrightarrow> D \<subseteq> D' \<Longrightarrow> rsv_inv D' m l w h"
  by (auto simp: rsv_inv_def)

lemma reacquire_inv:
  assumes m: "names_map l m" and P: "h_Reservation b = P"
    and r: "reacquire_round b m ks (map rsv_reset l, []) w = Some ((h, e), w')"
  shows "rsv_inv D m l w' h"
proof -
  note [simp] = rsv_inv_start
  obtain ids e1 w1 where re: "res_Reacquire P ks True w = ((ids, e1), w1)" by (rule pair2E)
  obtain c e2 w2 where ch: "res_FlexCheck P ids w1 = ((c, e2), w2)" by (rule pair2E)
  show ?thesis
    using r P re ch check_holds [of ids w1 _ e2 w2] rsv_inv_grant [OF rsv_inv_start m]
    by (auto simp: reacquire_round_def split: if_splits option.splits)
qed

lemma deputy_inv:
  assumes "rsv_inv D m l w h" and m: "names_map l m" and P: "h_Reservation b = P" and D: "key_ID ` set ks \<subseteq> D"
    and r: "deputy_round b m ks h w = Some ((h', e), w')"
  shows "rsv_inv D m l w' h'"
proof -
  obtain rsp e1 w1 where v: "res_ValidateDeputyKeys P ks w = ((rsp, e1), w1)" by (rule pair2E)
  have "rsv_inv D m l w1 h" using assms(1) validate_keeps [OF v] by (auto simp: rsv_inv_def)
  then show ?thesis
    using assms(1) r P v rsv_inv_deputy [OF \<open>rsv_inv D m l w1 h\<close> m, of "fst rsp" h'] D validate_asked [of ks w "fst rsp" "snd rsp" w1]
    by (auto simp: deputy_round_def split: if_splits option.splits)
qed

lemma aquire_inv:
  assumes I: "rsv_inv D m l w h" and m: "names_map l m" and P: "h_Reservation b = P"
    and r: "aquire_round b m h w = Some ((h', e), w')"
  shows "rsv_inv D m l w' h'"
proof -
  define al where "al = map fst (filter (\<lambda>(k, ix). rd_needRsv (fst h ! ix)) m)"
  obtain ok e1 w1 where a: "res_FlexAquire P al w = ((ok, e1), w1)" by (rule pair2E)
  have "rd_XName (l ! i) \<notin> set al" if i: "i < length l" "rd_ReservationOwner (fst h ! i)" for i
  proof
    assume "rd_XName (l ! i) \<in> set al"
    then obtain ix where ix: "(rd_XName (l ! i), ix) \<in> set m" "rd_needRsv (fst h ! ix)" by (auto simp: al_def)
    then have "map_of m (rd_XName (l ! i)) = Some ix" using m by (simp add: names_map_def)
    then show False using I i ix(2) by (auto simp: rsv_inv_def)
  qed
  then have "rsv_inv D m l w1 h" using aquire_keeps [OF a] by (intro rsv_inv_world [OF I]) simp
  then show ?thesis
    using I r P a aquire_holds [of al w ok w1] rsv_inv_grant [OF \<open>rsv_inv D m l w1 h\<close> m, of ok h']
    by (auto simp: aquire_round_def al_def [symmetric] Let_def split: if_splits option.splits)
qed

lemma reserve_inv:
  assumes P: "h_Reservation b = P" and L: "h_LockEnabled b"
    and r: "HSM_ReserveComponents b l w = Some ((h, e), w')"
  shows "\<exists>m. rsv_inv {x. \<exists>c \<in> set l. rd_XName c = x \<and> rd_ReservationKey c = [] \<and> rd_DeputyKey c \<noteq> []} m l w' h"
proof (cases "l = []")
  case True
  then show ?thesis using r L by (auto simp: HSM_ReserveComponents_def rsv_inv_def)
next
  case False
  define s where "s = fold reserve_scan [0..<length l] \<lparr>rs_list = l, rs_compMap = [], rs_resKeys = [], rs_depKeys = []\<rparr>"
  note S = reserve_scan_all [OF s_def]
  let ?m = "rs_compMap s"
  have run: "then_round (then_round (reacquire_round b ?m (rs_resKeys s) (map rsv_reset l, []))
      (deputy_round b ?m (rs_depKeys s))) (aquire_round b ?m) w = Some ((h, e), w')"
    using r L False by (simp add: HSM_ReserveComponents_def s_def [symmetric] S(1) [symmetric] Let_def)
  have two: "rsv_inv (key_ID ` set (rs_depKeys s)) ?m l w1 h1"
    if "then_round (reacquire_round b ?m (rs_resKeys s) (map rsv_reset l, [])) (deputy_round b ?m (rs_depKeys s)) w =
      Some ((h1, e1), w1)" for h1 e1 w1
    using that
  proof (cases rule: then_round_cases)
    case (go_on h2 w2)
    show ?thesis by (rule deputy_inv [OF reacquire_inv [OF S(2) P go_on(1)] S(2) P order_refl go_on(2)])
  next
    case (stop e2)
    then show ?thesis using reacquire_inv [OF S(2) P] by blast
  qed
  from run have "rsv_inv (key_ID ` set (rs_depKeys s)) ?m l w' h"
  proof (cases rule: then_round_cases)
    case (go_on h2 w2)
    show ?thesis by (rule aquire_inv [OF two [OF go_on(1)] S(2) P go_on(2)])
  next
    case (stop e2)
    then show ?thesis using two by blast
  qed
  then have "rsv_inv {x. \<exists>c \<in> set l. rd_XName c = x \<and> rd_ReservationKey c = [] \<and> rd_DeputyKey c \<noteq> []} ?m l w' h"
    using S(4) by (rule rsv_inv_mono)
  then show ?thesis ..
qed

subsubsection \<open>No round panics\<close>

lemma hold_fold_total:
  assumes "\<And>rr. rr \<in> set ok \<Longrightarrow> map_of m (nm rr) \<noteq> None"
  shows "\<exists>h'. foldM (\<lambda>rr. hold_one m (nm rr) (f rr)) ok h = Some h'"
  using foldM_total [of "\<lambda>_. True" h ok "\<lambda>rr. hold_one m (nm rr) (f rr)"] assms by (force simp: hold_one_def)

lemma grants_total: "ok_ID ` set ok \<subseteq> dom (map_of m) \<Longrightarrow> \<exists>h'. foldM (grant_one m) ok h = Some h'"
  unfolding grant_one_def using hold_fold_total [of ok m ok_ID granted h] by blast

lemma deputies_total: "ok_ID ` set ok \<subseteq> dom (map_of m) \<Longrightarrow> \<exists>h'. foldM (deputy_one m) ok h = Some h'"
  unfolding deputy_one_def using hold_fold_total [of ok m ok_ID "\<lambda>_. deputised" h] by blast

lemma reacquire_total:
  assumes P: "h_Reservation b = P" and D: "rv_Xname ` set ks \<subseteq> dom (map_of m)"
    and c: "\<And>ids w. snd (fst (res_FlexCheck P ids w)) = None"
  shows "\<exists>r. reacquire_round b m ks h w = Some r"
proof -
  obtain ids e1 w1 where re: "res_Reacquire P ks True w = ((ids, e1), w1)" by (rule pair2E)
  obtain r e2 w2 where ch: "res_FlexCheck P ids w1 = ((r, e2), w2)" by (rule pair2E)
  obtain ok where ok: "r = Some ok" using check_answers [of ids w1 r w2] ch c [of ids w1] by auto
  have "\<exists>h'. foldM (grant_one m) ok h = Some h'" if "e1 = None"
    using check_asked [of ids w1 ok e2 w2] reacquire_asked [of ks True w ids w1] re ch ok that D
    by (intro grants_total) auto
  then show ?thesis using P re ch ok by (cases e1) (auto simp: reacquire_round_def)
qed

lemma deputy_total:
  assumes P: "h_Reservation b = P" and D: "key_ID ` set ks \<subseteq> dom (map_of m)"
  shows "\<exists>r. deputy_round b m ks h w = Some r"
proof -
  obtain ok no e1 w1 where v: "res_ValidateDeputyKeys P ks w = (((ok, no), e1), w1)" by (metis surj_pair)
  have "\<exists>h'. foldM (deputy_one m) ok h = Some h'" if "e1 = None"
    using validate_asked [of ks w ok no w1] v that D by (intro deputies_total) (simp, blast)
  then show ?thesis using P v by (cases e1) (auto simp: deputy_round_def)
qed

lemma aquire_total:
  assumes P: "h_Reservation b = P"
  shows "\<exists>r. aquire_round b m h w = Some r"
proof -
  define al where "al = map fst (filter (\<lambda>(k, ix). rd_needRsv (fst h ! ix)) m)"
  obtain ok e1 w1 where a: "res_FlexAquire P al w = ((ok, e1), w1)" by (rule pair2E)
  have "set al \<subseteq> dom (map_of m)" by (auto simp: al_def dom_map_of_conv_image_fst image_iff intro: bexI)
  then have "\<exists>h'. foldM (grant_one m) ok h = Some h'" if "e1 = None"
    using aquire_asked [of al w ok w1] a that by (intro grants_total) auto
  then show ?thesis using P a by (cases e1) (auto simp: aquire_round_def al_def [symmetric] Let_def)
qed

lemma reserve_total:
  assumes P: "h_Reservation b = P" and c: "\<And>ids w. snd (fst (res_FlexCheck P ids w)) = None"
  shows "\<exists>h e w'. HSM_ReserveComponents b l w = Some ((h, e), w')"
proof -
  define s where "s = fold reserve_scan [0..<length l] \<lparr>rs_list = l, rs_compMap = [], rs_resKeys = [], rs_depKeys = []\<rparr>"
  note S = reserve_scan_all [OF s_def]
  let ?m = "rs_compMap s"
  have dom: "rd_XName ` set l \<subseteq> dom (map_of ?m)" using S(2) by (auto simp: names_map_def)
  have R: "rv_Xname ` set (rs_resKeys s) \<subseteq> dom (map_of ?m)" using S(3) dom by auto
  have K: "key_ID ` set (rs_depKeys s) \<subseteq> dom (map_of ?m)" by (rule order_trans [OF S(4)]) (use dom in auto)
  have "\<exists>r. then_round (then_round (reacquire_round b ?m (rs_resKeys s) (rs_list s, []))
      (deputy_round b ?m (rs_depKeys s))) (aquire_round b ?m) w = Some r"
    by (rule then_round_total [OF then_round_total [OF reacquire_total [OF P R c] deputy_total [OF P K]] aquire_total [OF P]])
  then have "\<exists>r. HSM_ReserveComponents b l w = Some r"
    by (simp add: HSM_ReserveComponents_def s_def [symmetric] Let_def)
  then show ?thesis by (metis surj_pair)
qed

subsubsection \<open>Releasing\<close>

lemma write_through_cases:
  assumes "write_through m x f l = Some l'" and "names_map l m"
  obtains ix where "ix < length l" "rd_XName (l ! ix) = x" "l' = l[ix := f (l ! ix)]"
proof -
  obtain ix where "map_of m x = Some ix" "l' = l[ix := f (l ! ix)]" using assms(1) by (auto simp: write_through_def)
  then show thesis using that assms(2) unfolding names_map_def by blast
qed

text \<open>What releasing keeps: the names, and every entry whose component was not asked for.\<close>

definition rel_inv :: "xname set \<Rightarrow> ReservationData list \<Rightarrow> 'w \<Rightarrow> ReservationData list \<Rightarrow> bool" where
  "rel_inv A l w l' \<longleftrightarrow> map rd_XName l' = map rd_XName l \<and>
     (\<forall>i < length l. rd_XName (l ! i) \<notin> A \<longrightarrow> l' ! i = l ! i) \<and>
     (\<forall>i < length l. rd_ReservationOwner (l ! i) \<longrightarrow> \<not> rd_ReservationOwner (l' ! i) \<longrightarrow>
        (\<forall>k. \<not> holds w (rd_XName (l ! i)) k))"

lemma rel_inv_length: "rel_inv A l w l' \<Longrightarrow> length l' = length l"
  unfolding rel_inv_def by (metis length_map)

lemma rel_inv_write:
  assumes I: "rel_inv A l w l'" and ix: "ix < length l" "rd_XName (l ! ix) \<in> A"
    and f: "\<And>c. rd_XName (f c) = rd_XName c"
    and owner: "\<And>c k. rd_ReservationOwner c \<Longrightarrow> \<not> rd_ReservationOwner (f c) \<Longrightarrow> \<not> holds w (rd_XName (l ! ix)) k"
  shows "rel_inv A l w (l'[ix := f (l' ! ix)])"
proof -
  have len: "length l' = length l" by (rule rel_inv_length [OF I])
  have "map rd_XName (l'[ix := f (l' ! ix)]) = map rd_XName l'"
    using ix len by (simp add: map_update f) (metis length_map list_update_id nth_map)
  then show ?thesis
    using I ix len owner unfolding rel_inv_def by (auto simp: nth_list_update)
qed

lemma names_map_cong: "map rd_XName l' = map rd_XName l \<Longrightarrow> names_map l' m = names_map l m"
  unfolding names_map_def by (metis length_map nth_map)

lemma release_cleared:
  assumes "foldM (\<lambda>x. write_through m x released) gone l = Some l'" and m: "names_map l m" and A: "set gone \<subseteq> A"
    and free: "\<And>x k. x \<in> set gone \<Longrightarrow> \<not> holds w x k"
  shows "rel_inv A l w l'"
  using assms(1)
proof (rule foldM_invariant)
  show "rel_inv A l w l" by (simp add: rel_inv_def)
  fix x s s' assume x: "x \<in> set gone" and I: "rel_inv A l w s" and step: "write_through m x released s = Some s'"
  have "names_map s m" using m I names_map_cong [of s l m] by (simp add: rel_inv_def)
  with step obtain ix where ix: "ix < length s" "rd_XName (s ! ix) = x" "s' = s[ix := released (s ! ix)]"
    by (rule write_through_cases)
  have "rd_XName (l ! ix) = x"
    using I ix by (metis length_map nth_map rel_inv_def)
  then show "rel_inv A l w s'"
    using x ix A free rel_inv_length [OF I] by (auto simp: released_def intro!: rel_inv_write [OF I])
qed

lemma release_fails:
  assumes "foldM (release_fail m) no (l1, []) = Some (l', ret)" and m: "names_map l m" and A: "no_ID ` set no \<subseteq> A"
    and I: "rel_inv A l w l1"
  shows "rel_inv A l w l' \<and> set ret \<subseteq> {i. i < length l \<and> rd_XName (l ! i) \<in> A \<and> rd_Error (l' ! i) \<noteq> None}"
proof -
  let ?Q = "\<lambda>h. rel_inv A l w (fst h) \<and> set (snd h) \<subseteq> {i. i < length l \<and> rd_XName (l ! i) \<in> A \<and> rd_Error (fst h ! i) \<noteq> None}"
  have "?Q (l', ret)"
    using assms(1)
  proof (rule foldM_invariant [where I = ?Q])
    show "?Q (l1, [])" using I by simp
    fix rr s s' assume rr: "rr \<in> set no" and Q: "?Q s" and step: "release_fail m rr s = Some s'"
    obtain ix where ix: "map_of m (no_ID rr) = Some ix"
      and s': "s' = ((fst s)[ix := (fst s ! ix)\<lparr>rd_Error := Some (no_Reason rr)\<rparr>], snd s @ [ix])"
      using step by (auto simp: release_fail_def hold_one_def split: option.splits)
    have l: "ix < length l" "rd_XName (l ! ix) = no_ID rr" using ix m by (auto simp: names_map_def)
    have inA: "no_ID rr \<in> A" using rr A by auto
    have "rel_inv A l w (fst s')"
      using l inA Q unfolding s' by (auto intro!: rel_inv_write [where f = "\<lambda>c. c\<lparr>rd_Error := Some (no_Reason rr)\<rparr>"])
    then show "?Q s'"
      using Q l inA rel_inv_length [of A l w "fst s"] unfolding s' by (auto simp: nth_list_update)
  qed
  then show ?thesis by simp
qed

lemma release_effect:
  assumes P: "h_Reservation b = P" and L: "h_LockEnabled b"
    and A: "A = {x. \<exists>c \<in> set l. rd_XName c = x \<and> rd_ReservationOwner c}"
    and r: "HSM_ReleaseComponents b l w = Some (((l', ret), e), w')"
  shows "rel_inv A l w' l' \<and> set ret \<subseteq> {i. i < length l \<and> rd_XName (l ! i) \<in> A \<and> rd_Error (l' ! i) \<noteq> None} \<and>
    (\<forall>x. x \<notin> A \<longrightarrow> holds w' x = holds w x)"
proof -
  define m where "m = fold (\<lambda>ix. AList.update (rd_XName (l ! ix)) ix) [0..<length l] []"
  have m: "names_map l m" using release_map [of "length l" l] by (simp add: m_def)
  define ids where "ids = map rd_XName (filter rd_ReservationOwner l)"
  have ids: "set ids = A" by (auto simp: ids_def A)
  obtain gone no e1 w1 where fr: "res_FlexRelease P ids w = (((gone, no), e1), w1)" by (metis surj_pair)
  have triv: "rel_inv A l w2 l" for w2 by (simp add: rel_inv_def)
  consider (none) "ids = []" "l' = l" "ret = []" "w' = w"
    | (err) e2 where "e1 = Some e2" "l' = l" "ret = []" "w' = w1"
    | (ok) l1 where "e1 = None" "foldM (\<lambda>x. write_through m x released) gone l = Some l1"
        "foldM (release_fail m) no (l1, []) = Some (l', ret)" "w' = w1"
    using r L P fr
    by (cases "ids = []"; cases e1)
       (auto simp: HSM_ReleaseComponents_def m_def [symmetric] ids_def [symmetric] Let_def split: option.splits)
  then show ?thesis
  proof cases
    case none
    then show ?thesis using triv by simp
  next
    case err
    then show ?thesis using triv release_keeps [OF fr] ids by simp
  next
    case ok
    have gone: "set gone \<subseteq> A" "no_ID ` set no \<subseteq> A" using release_asked [of ids w gone no w1] fr ok(1) ids by auto
    have "rel_inv A l w1 l1"
      using release_frees [of ids w gone no w1] fr ok(1) by (intro release_cleared [OF ok(2) m gone(1)]) auto
    then show ?thesis
      using release_fails [OF ok(3) m gone(2)] release_keeps [OF fr] ids ok(4) by auto
  qed
qed

end

subsection \<open>An executable reservation service\<close>

text \<open>
  A reservation service whose state is the list of reservations with their keys. It satisfies the contract,
  and the properties are run on it.
\<close>

type_synonym rsv_db = "(xname, string) gomap"

definition sim_grant :: "xname \<Rightarrow> string \<Rightarrow> rsv_success" where
  "sim_grant x k = \<lparr>ok_ID = x, ok_ReservationKey = k, ok_DeputyKey = ''d'' @ k, ok_ExpirationTime = ''later''\<rparr>"

definition sim_valid :: "rsv_db \<Rightarrow> Key \<Rightarrow> bool" where
  "sim_valid w k = (case map_of w (key_ID k) of None \<Rightarrow> False | Some rk \<Rightarrow> key_Key k = ''d'' @ rk)"

definition sim_production :: "rsv_db Production" where
  "sim_production =
     \<lparr>res_Reacquire = (\<lambda>rs f w.
        ((map rv_Xname (filter (\<lambda>r. map_of w (rv_Xname r) = Some (rv_ReservationKey r)) rs), None), w)),
      res_FlexCheck = (\<lambda>ids w.
        ((Some (List.map_filter (\<lambda>x. map_option (sim_grant x) (map_of w x)) ids), None), w)),
      res_ValidateDeputyKeys = (\<lambda>ks w.
        (((map (\<lambda>k. sim_grant (key_ID k) []) (filter (sim_valid w) ks),
           map (\<lambda>k. \<lparr>no_ID = key_ID k, no_Reason = ''Key not valid''\<rparr>) (filter (\<lambda>k. \<not> sim_valid w k) ks)), None), w)),
      res_FlexAquire = (\<lambda>ids w.
        let free = filter (\<lambda>x. map_of w x = None) ids
        in ((map (\<lambda>x. sim_grant x (''k'' @ x)) free, None), map (\<lambda>x. (x, ''k'' @ x)) free @ w)),
      res_FlexRelease = (\<lambda>ids w.
        (((filter (\<lambda>x. map_of w x \<noteq> None) ids,
           map (\<lambda>x. \<lparr>no_ID = x, no_Reason = ''Not reserved''\<rparr>) (filter (\<lambda>x. map_of w x = None) ids)), None),
         filter (\<lambda>(x, k). x \<notin> set ids) w))\<rparr>"

abbreviation sim_holds :: "rsv_db \<Rightarrow> xname \<Rightarrow> string \<Rightarrow> bool" where
  "sim_holds w x k \<equiv> map_of w x = Some k"

lemma map_of_free: "map_of (map (\<lambda>x. (x, f x)) xs @ w) x = (if x \<in> set xs then Some (f x) else map_of w x)"
  by (induction xs) auto

lemma map_of_filter_out: "map_of (filter (\<lambda>(x, k). x \<notin> A) w) x = (if x \<in> A then None else map_of w x)"
  by (induction w) auto

interpretation simrs: reservation_service sim_production sim_holds
proof (unfold_locales, goal_cases)
  case (9 ids w ar w' x)
  then show ?case by (auto simp: sim_production_def Let_def map_of_free simp del: map_of_append)
qed (auto simp: sim_production_def sim_grant_def Let_def map_filter_def map_of_free map_of_filter_out image_iff
  simp del: map_of_append)

definition sim_client :: "rsv_db HSMv2" where
  "sim_client =
     \<lparr>h_LockEnabled = True, h_Reservation = sim_production, h_SMUrl = ''http://smd'',
      h_SVCHttpClient = \<lparr>hp_hasSecure = True, hp_NewRequest = (\<lambda>_ _. None),
        hp_Do = (\<lambda>_ _ _ w. (Inr (200, Inr []), w))\<rparr>,
      h_MaxComponentQuery = HSM_MAX_COMPONENT_QUERY,
      h_json = \<lparr>js_ComponentArray = (\<lambda>_. (Some [], None)), js_ComponentEndpointArray = (\<lambda>_. (Some [], None)),
        js_PowerMaps = (\<lambda>_. ([], None))\<rparr>\<rparr>"

definition sim_rd :: "xname \<Rightarrow> string \<Rightarrow> string \<Rightarrow> ReservationData" where
  "sim_rd x rk dk = \<lparr>rd_XName = x, rd_ReservationOwner = (rk \<noteq> []), rd_ReservationKey = rk, rd_ExpirationTime = [],
     rd_DeputyKey = dk, rd_Error = None, rd_needRsv = False\<rparr>"





end
