(* ===== verification/HSM_Components.thy ===== *)
theory HSM_Components
  imports HSM_Client Etcd_Storage
begin

section \<open>Component data read from the HSM\<close>

text \<open>
  The batches of the endpoint queries against a plain sequence of queries, that reading component data
  comes back with one entry per component of the answer, and the power caps taken from Redfish controls.
\<close>

subsection \<open>Batches\<close>

text \<open>The reference: one query after the other, until the first error.\<close>

fun query_all ::
  "'w HSMv2 \<Rightarrow> xname list list \<Rightarrow> (xname, HsmData) gomap \<Rightarrow> ('w, (xname, HsmData) gomap \<times> error option) go" where
  "query_all b [] hm w = Some ((hm, None), w)"
| "query_all b (ids # rest) hm w =
     (case endpoints_query b ids hm w of
        None \<Rightarrow> None
      | Some ((hm, Some err), w) \<Rightarrow> Some ((hm, Some err), w)
      | Some ((hm, None), w) \<Rightarrow> query_all b rest hm w)"

lemma endpoints_loop_batches:
  assumes "0 < h_MaxComponentQuery b" and "n = int (length xs) - int k"
    and "n < 2 ^ 63" and "h_MaxComponentQuery b < 2 ^ 63"
  shows "endpoints_loop b xs k n hm w = query_all b (chunks (h_MaxComponentQuery b) (h_MaxComponentQuery b) (drop k xs)) hm w"
  using assms
proof (induction "nat n" arbitrary: k n hm w rule: less_induct)
  case less
  let ?M = "h_MaxComponentQuery b"
  show ?case
  proof (cases "n \<le> 0")
    case True
    then show ?thesis using less.prems by (simp add: endpoints_loop.simps)
  next
    case False
    let ?c = "nat (min n ?M)"
    have fits: "k + ?c \<le> length xs" and xs: "drop k xs \<noteq> []" using False less.prems by auto
    have take: "take ?c (drop k xs) = take (nat ?M) (drop k xs)"
      using less.prems(2) by (cases "n \<le> ?M") (auto simp: min_def)
    have drop: "drop (k + ?c) xs = drop (nat ?M) (drop k xs)"
      using less.prems(2) by (cases "n \<le> ?M") (auto simp: min_def add.commute)
    have wrap: "wrap64 (n - ?M) = n - ?M" using False less.prems by (intro wrap64_id) auto
    have IH: "endpoints_loop b xs (k + ?c) (n - ?M) hm1 w1 = query_all b (chunks ?M ?M (drop (k + ?c) xs)) hm1 w1" for hm1 w1
    proof (cases "n \<le> ?M")
      case True
      then have "drop (k + ?c) xs = []" using less.prems(2) by auto
      then show ?thesis using True by (simp add: endpoints_loop.simps)
    next
      case below: False
      then show ?thesis
        using less.prems False by (intro less.hyps) auto
    qed
    show ?thesis
      using False fits xs less.prems(1)
      by (subst endpoints_loop.simps)
         (auto simp: wrap IH take drop chunks_step [where s = ?M] Let_def split: option.splits Option.bind_splits)
  qed
qed


text \<open>No null in a list the HSM sends.\<close>

definition no_nulls :: "hsm_json \<Rightarrow> bool" where
  "no_nulls js \<longleftrightarrow> (\<forall>body cs. fst (js_ComponentArray js body) = Some cs \<longrightarrow> None \<notin> set cs) \<and>
     (\<forall>body eps. fst (js_ComponentEndpointArray js body) = Some eps \<longrightarrow> None \<notin> set eps)"

text \<open>The data of a component is filed under the component's own name.\<close>

definition own_names :: "(xname, HsmData) gomap \<Rightarrow> bool" where
  "own_names hm \<longleftrightarrow> (\<forall>(x, d) \<in> set hm. bc_ID (hd_BaseData d) = x) \<and> distinct (map fst hm)"

lemma base_data [simp]:
  "hd_BaseData (extractPowerCapInfo d si) = hd_BaseData d" "hd_BaseData (endpoint_data ep d) = hd_BaseData d"
proof -
  show e: "hd_BaseData (extractPowerCapInfo d si) = hd_BaseData d" for d si
    by (auto simp: extractPowerCapInfo_def Let_def split: list.splits option.splits)
  show "hd_BaseData (endpoint_data ep d) = hd_BaseData d"
    by (auto simp: endpoint_data_def set_reset_def set_power_uris_def e
      split: CompEPType.splits option.splits outlet_info.splits)
qed

lemma set_update: "set (AList.update k v m) \<subseteq> insert (k, v) (set m)"
  by (induction m) auto

lemma own_names_update: "own_names hm \<Longrightarrow> bc_ID (hd_BaseData d) = x \<Longrightarrow> own_names (AList.update x d hm)"
  using set_update [of x d hm] by (auto simp: own_names_def distinct_update)

lemma fill_endpoint_ok:
  assumes "own_names hm" and "ep \<noteq> None"
  shows "\<exists>hm'. fill_endpoint ep hm = Some hm' \<and> own_names hm' \<and> map fst hm' = map fst hm"
proof (cases "map_of hm (ep_ID (the ep))")
  case None
  then show ?thesis using assms by (auto simp: fill_endpoint_def)
next
  case (Some d)
  then have "bc_ID (hd_BaseData d) = ep_ID (the ep)" using assms(1) by (auto simp: own_names_def dest: map_of_SomeD)
  moreover have "map fst (AList.update (ep_ID (the ep)) v hm) = map fst hm" for v
    using map_of_mem_keys [OF Some] by (rule update_same_keys)
  ultimately show ?thesis
    using assms Some own_names_update by (auto simp: fill_endpoint_def)
qed

lemma fill_endpoints_ok:
  assumes "own_names hm" and "None \<notin> set eps"
  shows "\<exists>hm'. foldM fill_endpoint eps hm = Some hm' \<and> own_names hm' \<and> map fst hm' = map fst hm"
  using foldM_total [of "\<lambda>h. own_names h \<and> map fst h = map fst hm" hm eps fill_endpoint] assms fill_endpoint_ok
  by (smt (verit, best))

lemma endpoints_query_ok:
  assumes "own_names hm" and "no_nulls (h_json b)"
  shows "\<exists>hm' e w'. endpoints_query b ids hm w = Some ((hm', e), w') \<and> own_names hm' \<and> map fst hm' = map fst hm"
proof -
  obtain r w1 where r: "hsm_request b ''GET'' (endpoints_url (h_SMUrl b) ids) [] w = (r, w1)" by fastforce
  show ?thesis
  proof (cases r)
    case (Inr cb)
    obtain code body where cb: "cb = (code, body)" by fastforce
    obtain eps e where js: "js_ComponentEndpointArray (h_json b) body = (eps, e)" by fastforce
    show ?thesis
    proof (cases eps)
      case (Some l)
      then have "None \<notin> set l" using assms(2) js unfolding no_nulls_def by (metis fst_conv)
      then show ?thesis
        using fill_endpoints_ok [OF assms(1), of l] assms(1) r Inr cb js Some
        by (cases e) (auto simp: endpoints_query_def Let_def)
    qed (use assms(1) r Inr cb js in \<open>cases e; auto simp: endpoints_query_def Let_def\<close>)
  qed (use assms(1) r in \<open>auto simp: endpoints_query_def Let_def\<close>)
qed

lemma query_all_ok:
  assumes "own_names hm" and "no_nulls (h_json b)"
  shows "\<exists>hm' e w'. query_all b bs hm w = Some ((hm', e), w') \<and> own_names hm' \<and> map fst hm' = map fst hm"
  using assms(1)
proof (induction bs arbitrary: hm w)
  case (Cons ids bs)
  obtain hm1 e1 w1 where q: "endpoints_query b ids hm w = Some ((hm1, e1), w1)" "own_names hm1" "map fst hm1 = map fst hm"
    using endpoints_query_ok [OF Cons.prems assms(2)] by blast
  show ?case using q Cons.IH [OF q(2), of w1] Cons.prems by (cases e1) auto
qed simp

lemma add_components_ok:
  assumes "None \<notin> set cs" and "own_names hm"
  shows "\<exists>hm'. foldM add_component cs hm = Some hm' \<and> own_names hm' \<and>
    set (map fst hm') = set (map fst hm) \<union> (bc_ID \<circ> the) ` set cs \<and> length hm' \<le> length hm + length cs"
  using assms
proof (induction cs arbitrary: hm)
  case (Cons co cs)
  then obtain c where co: "co = Some c" by (cases co) auto
  let ?hm = "AList.update (bc_ID c) (new_HsmData c) hm"
  have "own_names ?hm" using Cons.prems by (intro own_names_update) (simp_all add: new_HsmData_def)
  moreover have "length ?hm \<le> Suc (length hm)" by (induction hm) auto
  ultimately show ?case
    using Cons.IH [of ?hm] Cons.prems co keys_AList_update [of "bc_ID c" "new_HsmData c" hm]
    by (auto simp: add_component_def)
qed simp


subsection \<open>Power caps\<close>

lemma map_of_control_cap [simp]:
  "map_of (control_cap (i, c) m) = (map_of m)(rc_Name c \<mapsto> \<lparr>pc_Name = rc_Name c, pc_Path = rc_URL c,
     pc_Min = rc_SettingRangeMin c, pc_Max = rc_SettingRangeMax c, pc_PwrCtlIndex = i\<rparr>)"
  by (simp add: control_cap_def)

lemma control_caps:
  assumes "distinct (map rc_Name cs)" and "i < length cs"
  shows "map_of (fold control_cap (enumerate k cs) m) (rc_Name (cs ! i)) =
    Some \<lparr>pc_Name = rc_Name (cs ! i), pc_Path = rc_URL (cs ! i), pc_Min = rc_SettingRangeMin (cs ! i),
      pc_Max = rc_SettingRangeMax (cs ! i), pc_PwrCtlIndex = k + i\<rparr>"
  using assms
proof (induction cs arbitrary: i k m)
  case (Cons c cs)
  have other: "map_of (fold control_cap (enumerate k cs) m) x = map_of m x" if "x \<notin> set (map rc_Name cs)" for x k m
    using that by (induction cs arbitrary: k m) auto
  show ?case
  proof (cases i)
    case 0
    then show ?thesis using Cons.prems other [of "rc_Name c"] by simp
  next
    case (Suc j)
    then show ?thesis using Cons.IH [of j "Suc k"] Cons.prems by simp
  qed
qed simp

lemma control_caps_names: "dom (map_of (fold control_cap (enumerate k cs) m)) = dom (map_of m) \<union> set (map rc_Name cs)"
  by (induction cs arbitrary: k m) auto

subsection \<open>An HSM that always answers alike\<close>

definition sim_hsm_client :: "int \<Rightarrow> base_Component list \<Rightarrow> ComponentEndpoint list \<Rightarrow> unit HSMv2" where
  "sim_hsm_client n cs eps =
     \<lparr>h_LockEnabled = False,
      h_Reservation = \<lparr>res_Reacquire = (\<lambda>_ _ w. (([], None), w)), res_FlexCheck = (\<lambda>_ w. ((None, None), w)),
        res_ValidateDeputyKeys = (\<lambda>_ w. ((([], []), None), w)), res_FlexAquire = (\<lambda>_ w. (([], None), w)),
        res_FlexRelease = (\<lambda>_ w. ((([], []), None), w))\<rparr>,
      h_SMUrl = ''http://smd'',
      h_SVCHttpClient = \<lparr>hp_hasSecure = False, hp_NewRequest = (\<lambda>_ _. None), hp_Do = (\<lambda>_ _ _ w. (Inr (200, Inr []), w))\<rparr>,
      h_MaxComponentQuery = n,
      h_json = \<lparr>js_ComponentArray = (\<lambda>_. (Some (map Some cs), None)),
        js_ComponentEndpointArray = (\<lambda>_. (Some (map Some eps), None)), js_PowerMaps = (\<lambda>_. ([], None))\<rparr>\<rparr>"

definition sim_base :: "xname \<Rightarrow> base_Component" where
  "sim_base x = \<lparr>bc_ID = x, bc_Type = ''Node'', bc_State = ''On'', bc_Role = [], bc_Class = []\<rparr>"

definition sim_control :: "string \<Rightarrow> rf_Control" where
  "sim_control n = \<lparr>rc_URL = ''/c/'' @ n, rc_Name = n, rc_SettingRangeMin = 100, rc_SettingRangeMax = 900\<rparr>"

subsection \<open>Properties of the component data\<close>

text \<open>
  With a positive batch size, filling in endpoint data queries the HSM batch by batch: the batches are the
  names in order, none is larger than the configured size, and the data is that of the queries run one after
  the other up to the first that fails.
\<close>

theorem endpoint_batches:
  assumes "0 < h_MaxComponentQuery b" and "h_MaxComponentQuery b < 2 ^ 63" and "int (length hm) < 2 ^ 63"
  shows "\<exists>batches. concat batches = map (\<lambda>(k, d). bc_ID (hd_BaseData d)) hm \<and>
    (\<forall>ids \<in> set batches. ids \<noteq> [] \<and> int (length ids) \<le> h_MaxComponentQuery b) \<and>
    HSM_FillComponentEndpointData b hm w = query_all b batches hm w"
  using endpoints_loop_batches [OF assms(1) _ assms(3,2), of "map (\<lambda>(k, d). bc_ID (hd_BaseData d)) hm" 0 hm w]
    concat_chunks [OF assms(1), of "map (\<lambda>(k, d). bc_ID (hd_BaseData d)) hm"] chunks_lengths [OF assms(1)]
  by (intro exI [of _ "chunks (h_MaxComponentQuery b) (h_MaxComponentQuery b) (map (\<lambda>(k, d). bc_ID (hd_BaseData d)) hm)"])
     (auto simp: HSM_FillComponentEndpointData_def)

theorem endpoint_batches_witness:
  "\<exists>batches. concat batches = [''n0'', ''n1'', ''n2''] \<and> (\<forall>ids \<in> set batches. length ids \<le> 2) \<and>
     HSM_FillComponentEndpointData (sim_hsm_client 2 [] []) (map (\<lambda>x. (x, new_HsmData (sim_base x))) [''n0'', ''n1'', ''n2'']) () =
     query_all (sim_hsm_client 2 [] []) batches (map (\<lambda>x. (x, new_HsmData (sim_base x))) [''n0'', ''n1'', ''n2'']) ()"
  using endpoint_batches [of "sim_hsm_client 2 [] []" "map (\<lambda>x. (x, new_HsmData (sim_base x))) [''n0'', ''n1'', ''n2'']" "()"]
  by (auto simp: sim_hsm_client_def sim_base_def new_HsmData_def)

text \<open>
  Asking the HSM for component data always comes back, whatever the HSM answers, as long as its lists hold
  no null and the batch size is positive. The data is filed under the components' own names, and without an
  error these are exactly the components of the HSM's answer.
\<close>

theorem fill_returns_components:
  assumes "0 < h_MaxComponentQuery b" and "h_MaxComponentQuery b < 2 ^ 63" and "no_nulls (h_json b)"
    and "\<forall>body cs. fst (js_ComponentArray (h_json b) body) = Some cs \<longrightarrow> int (length cs) < 2 ^ 63"
  shows "\<exists>hm e w'. HSM_FillHSMData b xnames w = Some ((hm, e), w') \<and> own_names hm \<and>
    (e = None \<longrightarrow> (\<exists>cs w1. HSM_GetStateComponents b xnames w = ((Some cs, None), w1) \<and>
       set (map fst hm) = (bc_ID \<circ> the) ` set cs))"
proof -
  obtain cs e1 w1 where g: "HSM_GetStateComponents b xnames w = ((cs, e1), w1)" by (rule pair2E)
  show ?thesis
  proof (cases e1)
    case (Some err)
    then show ?thesis using g by (auto simp: HSM_FillHSMData_def own_names_def)
  next
    case None
    then obtain l body where l: "cs = Some l" "fst (js_ComponentArray (h_json b) body) = Some l"
      using g by (auto simp: HSM_GetStateComponents_def Let_def split: prod.splits sum.splits if_splits option.splits) (metis fst_conv)
    then have nn: "None \<notin> set l" using assms(3) by (auto simp: no_nulls_def)
    obtain hm where hm: "foldM add_component l [] = Some hm" "own_names hm"
        "set (map fst hm) = (bc_ID \<circ> the) ` set l" "length hm \<le> length l"
      using add_components_ok [OF nn, of "[]"] by (auto simp: own_names_def)
    have "int (length l) < 2 ^ 63" using assms(4) l(2) by blast
    then have "int (length hm) < 2 ^ 63" using hm(4) by linarith
    then have "HSM_FillComponentEndpointData b hm w1 =
        query_all b (chunks (h_MaxComponentQuery b) (h_MaxComponentQuery b) (map (\<lambda>(k, d). bc_ID (hd_BaseData d)) hm)) hm w1"
      using endpoints_loop_batches [OF assms(1) _ _ assms(2), of _ "map (\<lambda>(k, d). bc_ID (hd_BaseData d)) hm" 0]
      by (simp add: HSM_FillComponentEndpointData_def)
    then obtain hm' e' w' where f: "HSM_FillComponentEndpointData b hm w1 = Some ((hm', e'), w')" "own_names hm'"
        "map fst hm' = map fst hm"
      using query_all_ok [OF hm(2) assms(3)] by metis
    then have "set (map fst hm') = (bc_ID \<circ> the) ` set l" using hm(3) by (simp only:)
    then show ?thesis
      using f(1,2) g None l(1) hm(1) by (cases e') (simp_all add: HSM_FillHSMData_def)
  qed
qed

theorem fill_returns_components_witness:
  "\<exists>hm e w'. HSM_FillHSMData (sim_hsm_client 1 [sim_base ''n0'', sim_base ''n1''] []) [''all''] () = Some ((hm, e), w') \<and>
     (e = None \<longrightarrow> set (map fst hm) = {''n0'', ''n1''})"
proof -
  let ?b = "sim_hsm_client 1 [sim_base ''n0'', sim_base ''n1''] []"
  have "HSM_GetStateComponents ?b [''all''] () = ((Some [Some (sim_base ''n0''), Some (sim_base ''n1'')], None), ())"
    by (simp add: sim_hsm_client_def HSM_GetStateComponents_def hsm_request_def)
  then show ?thesis
    using fill_returns_components [of ?b "[''all'']" "()"]
    by (auto simp: sim_hsm_client_def no_nulls_def sim_base_def)
qed

text \<open>
  From a node with Redfish controls of different names, each control becomes the power cap of its name,
  with its path, its range and its index, and there are no other power caps.
\<close>

theorem power_caps_of_controls:
  assumes "si_Controls si \<noteq> []" and "distinct (map rc_Name (si_Controls si))"
  shows "dom (map_of (hd_PowerCaps (extractPowerCapInfo d si))) = set (map rc_Name (si_Controls si)) \<and>
    (\<forall>i < hd_PowerCapControlsCount (extractPowerCapInfo d si).
       map_of (hd_PowerCaps (extractPowerCapInfo d si)) (rc_Name (si_Controls si ! i)) =
         Some \<lparr>pc_Name = rc_Name (si_Controls si ! i), pc_Path = rc_URL (si_Controls si ! i),
           pc_Min = rc_SettingRangeMin (si_Controls si ! i), pc_Max = rc_SettingRangeMax (si_Controls si ! i),
           pc_PwrCtlIndex = i\<rparr>)"
  using assms control_caps [OF assms(2), of _ 0 "[]"] control_caps_names [of 0 "si_Controls si" "[]"]
  by (simp add: extractPowerCapInfo_def Let_def)


theorem power_caps_of_controls_witness:
  "map_of (hd_PowerCaps (extractPowerCapInfo (new_HsmData (sim_base ''n0''))
     \<lparr>si_Actions = None, si_PowerURL = [], si_Controls = [sim_control ''cpu'', sim_control ''gpu''], si_PowerCtl = []\<rparr>)) ''gpu'' =
   Some \<lparr>pc_Name = ''gpu'', pc_Path = ''/c/gpu'', pc_Min = 100, pc_Max = 900, pc_PwrCtlIndex = 1\<rparr>"
  using power_caps_of_controls [of "\<lparr>si_Actions = None, si_PowerURL = [],
      si_Controls = [sim_control ''cpu'', sim_control ''gpu''], si_PowerCtl = []\<rparr>" "new_HsmData (sim_base ''n0'')",
      THEN conjunct2, rule_format, of 1]
  by (simp add: sim_control_def extractPowerCapInfo_def)

end
