(* ===== verification/Power_Status.thy ===== *)
theory Power_Status
  imports Domain_Globals
begin

section \<open>Power status monitoring\<close>

text \<open>
  \<^verbatim>\<open>internal/domain/power-status.go\<close>: one instance of the service is the master that samples the power
  state of every component over Redfish, keeps it in memory and in the database and reports changes to
  the HSM; every instance answers requests for power status from the database.

  The package variables are the record \<open>pm_vars\<close>, the handles set by \<^verbatim>\<open>PowerStatusMonitorInit\<close> the record
  \<open>PowerMonitor\<close>. The payload types of the package \<^verbatim>\<open>smd/pkg/redfish\<close> are decoded by \<open>rf_json\<close>, on the
  fields the code reads. Pools, timeouts and retries of the HTTP requests belong to the task runner. The
  requests carry the component's name and type in headers of their own; a reply finds them through its
  request.
\<close>

record componentPowerInfo =
  cpi_PSComp :: PowerStatusComponent
  cpi_RfFQDN :: string
  cpi_PowerStatusURI :: string
  cpi_PowerActionURI :: string
  cpi_PowerCapURI :: string
  cpi_BmcUsername :: string
  cpi_BmcPassword :: string

type_synonym hw_map = "(xname, componentPowerInfo) gomap"

record rf_json =
  rj_ComputerSystem :: "string \<Rightarrow> error + string"
  rj_Chassis :: "string \<Rightarrow> error + string \<times> string"
  rj_Outlet :: "string \<Rightarrow> error + string"

record 'w PowerMonitor =
  pm_HSM :: "'w HSMProvider"
  pm_DSP :: "'w StorageProvider"
  pm_CS :: "'w CredStoreProvider option"
  pm_DistLock :: "'w DistributedLockProvider"
  pm_TRS :: "'w TrsAPI"
  pm_RT :: "'w runtime"
  pm_XN :: xnametypes
  pm_RF :: rf_json
  pm_serviceRunning :: "('w, bool) io"
  pm_go_monitorHW :: "'w \<Rightarrow> 'w"
  pm_go_startPowerStatusMaster :: "time \<Rightarrow> 'w \<Rightarrow> 'w"

record pm_vars =
  pv_hwStateMap :: hw_map
  pv_monitorRunning :: bool
  pv_isMaster :: bool
  pv_sampleInterval :: duration
  pv_distLockMaxTime :: duration
  pv_vaultEnabled :: bool

definition powerStatusMasterInterval :: int where
  "powerStatusMasterInterval = 15"

subsection \<open>Starting and stopping\<close>

text \<open>The handles of the caller may be nil; \<open>None\<close> stands for nil.\<close>

record 'w pm_args =
  pa_HSM :: "'w HSMProvider option"
  pa_DSP :: "'w StorageProvider option"
  pa_CS :: "'w CredStoreProvider option"
  pa_DistLock :: "'w DistributedLockProvider option"
  pa_RFTloc :: "'w TrsAPI option"
  pa_VaultEnabled :: bool

definition PowerStatusMonitorInit ::
  "'w PowerMonitor \<Rightarrow> pm_vars \<Rightarrow> 'w pm_args \<Rightarrow> duration \<Rightarrow> duration \<Rightarrow> 'w \<Rightarrow>
   (('w PowerMonitor \<times> pm_vars \<times> error option) \<times> 'w)" where
  "PowerStatusMonitorInit P v a distLockMaxTimeIn sampleInterval w =
     (let failed = (\<lambda>e. ((P, v, Some e), w)) in
      case pa_HSM a of None \<Rightarrow> failed ''ERROR: must supply valid HSM handle.'' | Some hsm \<Rightarrow>
      case pa_DSP a of None \<Rightarrow> failed ''ERROR: must supply valid storage object.'' | Some dsp \<Rightarrow>
      if pa_CS a = None \<and> pa_VaultEnabled a then failed ''ERROR: must supply valid component cred store handle.'' else
      case pa_DistLock a of None \<Rightarrow> failed ''ERROR: must supply valid distributed lock object.'' | Some dl \<Rightarrow>
      if distLockMaxTimeIn < Second then failed ''ERROR: distributed lock max time must be >= 1 second.'' else
      case pa_RFTloc a of None \<Rightarrow> failed ''ERROR: must supply valid Task Runner Service handle.'' | Some trs \<Rightarrow>
      if sampleInterval < Second then failed ''ERROR: power monitor sample interval must be >= 1 second.''
      else ((P\<lparr>pm_HSM := hsm, pm_DSP := dsp, pm_CS := pa_CS a, pm_DistLock := dl, pm_TRS := trs\<rparr>,
             v\<lparr>pv_distLockMaxTime := distLockMaxTimeIn, pv_sampleInterval := sampleInterval,
               pv_vaultEnabled := pa_VaultEnabled a\<rparr>, None), pm_go_monitorHW P w))"

definition PowerStatusMonitorStop :: "pm_vars \<Rightarrow> pm_vars" where
  "PowerStatusMonitorStop v = v\<lparr>pv_monitorRunning := False\<rparr>"

definition PowerStatusMonitorChangeInterval :: "duration \<Rightarrow> pm_vars \<Rightarrow> pm_vars \<times> error option" where
  "PowerStatusMonitorChangeInterval newInterval v =
     (if newInterval < Second then (v, Some ''ERROR: power monitor sample interval must be >= 1 second.'')
      else (v\<lparr>pv_sampleInterval := newInterval\<rparr>, None))"

subsection \<open>Answering requests\<close>

definition unknown_comp :: "xnametypes \<Rightarrow> xname \<Rightarrow> PowerStatusComponent" where
  "unknown_comp X name =
     \<lparr>ps_XName = name, ps_PowerState = [], ps_ManagementState = [],
      ps_Error = (if power_comp_type (GetHMSType X name) then ''Component not found in component map.''
                  else if GetHMSType X name = HMSTypeInvalid then ''Invalid component name.''
                  else ''Component can not have power state and managment state data''),
      ps_SupportedPowerTransitions = [], ps_LastUpdated = 0\<rparr>"

definition state_match :: "PowerStateFilter \<Rightarrow> ManagementStateFilter \<Rightarrow> PowerStatusComponent \<Rightarrow> bool" where
  "state_match psf msf mp \<longleftrightarrow>
     (psf = PowerStateFilter_Nil \<or> ToLower (PowerStateFilter_String psf) = ToLower (ps_PowerState mp)) \<and>
     (msf = ManagementStateFilter_Nil \<or> msf = ManagementStateFilter_undefined \<or>
      ToLower (ManagementStateFilter_String msf) = ToLower (ps_ManagementState mp))"

definition status_one ::
  "xnametypes \<Rightarrow> PowerStateFilter \<Rightarrow> ManagementStateFilter \<Rightarrow> (xname, PowerStatusComponent) gomap \<Rightarrow> xname \<Rightarrow>
   PowerStatusComponent list \<Rightarrow> PowerStatusComponent list" where
  "status_one X psf msf compMap name rcomps =
     (case map_of compMap name of
        None \<Rightarrow> rcomps @ [unknown_comp X name]
      | Some mp \<Rightarrow>
          if state_match psf msf mp
          then rcomps @ [\<lparr>ps_XName = name, ps_PowerState = ps_PowerState mp, ps_ManagementState = ps_ManagementState mp,
                          ps_Error = [], ps_SupportedPowerTransitions = ps_SupportedPowerTransitions mp,
                          ps_LastUpdated = ps_LastUpdated mp\<rparr>]
          else rcomps)"

definition GetPowerStatus ::
  "'w PowerMonitor \<Rightarrow> xname list \<Rightarrow> PowerStateFilter \<Rightarrow> ManagementStateFilter \<Rightarrow>
   ('w, PowerStatusComponent list Passback) io" where
  "GetPowerStatus P xnames psf msf w =
     (case dsp_GetAllPowerStatus (pm_DSP P) w of
        ((_, Some err), w) \<Rightarrow> (BuildErrorPassback StatusInternalServerError (Some err), w)
      | ((sts, None), w) \<Rightarrow>
          let compMap = fold (\<lambda>c. AList.update (ps_XName c) c) sts [];
              names = (if xnames = [] then map ps_XName sts else xnames)
          in (BuildSuccessPassback 200 (fold (status_one (pm_XN P) psf msf compMap) names []), w))"

subsection \<open>The component map\<close>

text \<open>\<^verbatim>\<open>xnametypes.HMSType(s)\<close> is one of the component types that are monitored.\<close>

definition monitored_type :: "xnametypes \<Rightarrow> string \<Rightarrow> bool" where
  "monitored_type X s \<longleftrightarrow> s \<in> set (map (HMSType_String X)
     [Chassis, ChassisBMC, ComputeModule, RouterModule, NodeBMC, RouterBMC, Node, MgmtSwitch, MgmtHLSwitch,
      CDUMgmtSwitch, CabinetPDUPowerConnector])"

text \<open>\<open>offered\<close> is \<^verbatim>\<open>actionMap\<close> and \<^verbatim>\<open>pcsPowerActions\<close> in one: the operations in the order they are added.\<close>

definition offer :: "Operation \<Rightarrow> Operation list \<Rightarrow> Operation list" where
  "offer op ops = (if op \<in> set ops then ops else ops @ [op])"

definition rf_action :: "string \<Rightarrow> Operation list \<Rightarrow> Operation list" where
  "rf_action a ops =
     (let s = ToLower a in
      if s = ''forceoff'' then offer Operation_ForceOff ops
      else if s = ''forcerestart'' \<or> s = ''gracefulrestart'' then offer Operation_SoftRestart ops
      else if s = ''off'' \<or> s = ''gracefulshutdown'' then offer Operation_Off (offer Operation_SoftOff ops)
      else if s = ''on'' then offer Operation_On ops
      else ops)"

text \<open>\<^verbatim>\<open>Operation.String\<close> is defined on every operation that is offered.\<close>

definition toPCSPowerActions :: "string list \<Rightarrow> string list" where
  "toPCSPowerActions rfPowerActions =
     (let ops = fold rf_action rfPowerActions [] in
      List.map_filter Operation_String
        (if Operation_On \<in> set ops \<and> Operation_Off \<in> set ops
         then ops @ [Operation_Init, Operation_HardRestart] @
              (if Operation_SoftRestart \<in> set ops then [] else [Operation_SoftRestart])
         else ops))"

definition new_cpi :: "HsmData \<Rightarrow> time \<Rightarrow> componentPowerInfo" where
  "new_cpi d now =
     \<lparr>cpi_PSComp = \<lparr>ps_XName = bc_ID (hd_BaseData d), ps_PowerState = PowerStateFilter_String PowerStateFilter_Undefined,
        ps_ManagementState = ManagementStateFilter_String ManagementStateFilter_unavailable, ps_Error = [],
        ps_SupportedPowerTransitions = toPCSPowerActions (hd_AllowableActions d), ps_LastUpdated = now\<rparr>,
      cpi_RfFQDN = hd_RfFQDN d, cpi_PowerStatusURI = hd_PowerStatusURI d, cpi_PowerActionURI = hd_PowerActionURI d,
      cpi_PowerCapURI = hd_PowerCapURI d, cpi_BmcUsername = [], cpi_BmcPassword = []\<rparr>"

definition refresh_cpi :: "HsmData \<Rightarrow> componentPowerInfo \<Rightarrow> componentPowerInfo" where
  "refresh_cpi d c =
     c\<lparr>cpi_RfFQDN := hd_RfFQDN d, cpi_PowerStatusURI := hd_PowerStatusURI d, cpi_PowerActionURI := hd_PowerActionURI d,
       cpi_PowerCapURI := hd_PowerCapURI d,
       cpi_PSComp := (cpi_PSComp c)\<lparr>ps_SupportedPowerTransitions := toPCSPowerActions (hd_AllowableActions d)\<rparr>\<rparr>"

text \<open>\<^verbatim>\<open>base.StateEmpty\<close>, the HSM's state of a slot that holds nothing.\<close>

abbreviation "StateEmpty \<equiv> ''Empty''"

definition prune_one ::
  "'w PowerMonitor \<Rightarrow> (xname, HsmData) gomap \<Rightarrow> xname \<Rightarrow> hw_map \<times> 'w \<Rightarrow> hw_map \<times> 'w" where
  "prune_one P compMap k mw =
     (case map_of compMap k of
        None \<Rightarrow> (AList.delete k (fst mw), snd (dsp_DeletePowerStatus (pm_DSP P) k (snd mw)))
      | Some _ \<Rightarrow> mw)"

definition merge_one :: "'w PowerMonitor \<Rightarrow> HsmData \<Rightarrow> hw_map \<times> 'w \<Rightarrow> hw_map \<times> 'w" where
  "merge_one P d mw =
     (if bc_State (hd_BaseData d) = StateEmpty \<or> \<not> monitored_type (pm_XN P) (bc_Type (hd_BaseData d)) then mw
      else case map_of (fst mw) (bc_ID (hd_BaseData d)) of
        Some c \<Rightarrow> (AList.update (bc_ID (hd_BaseData d)) (refresh_cpi d c) (fst mw), snd mw)
      | None \<Rightarrow>
          let (now, w) = time_Now (pm_RT P) (snd mw)
          in (AList.update (bc_ID (hd_BaseData d)) (new_cpi d now) (fst mw), w))"

definition updateComponentMap :: "'w PowerMonitor \<Rightarrow> hw_map \<Rightarrow> ('w, hw_map \<times> error option) io" where
  "updateComponentMap P m w =
     (case hsm_FillHSMData (pm_HSM P) [''all''] w of
        ((_, Some err), w) \<Rightarrow> ((m, Some (''Error fetching HSM data: '' @ err)), w)
      | ((compMap, None), w) \<Rightarrow>
          if compMap = [] then ((m, Some ''HSM returned empty list of components!''), w)
          else let (m, w) = fold (merge_one P) (map snd compMap) (fold (prune_one P compMap) (map fst m) (m, w))
               in ((m, None), w))"

subsection \<open>Credentials\<close>

definition set_creds :: "string \<Rightarrow> string \<Rightarrow> componentPowerInfo \<Rightarrow> componentPowerInfo" where
  "set_creds un pw c = c\<lparr>cpi_BmcUsername := un, cpi_BmcPassword := pw\<rparr>"

fun getVaultCredsAll :: "'w CredStoreProvider \<Rightarrow> xname list \<Rightarrow> hw_map \<Rightarrow> ('w, hw_map \<times> error option) io" where
  "getVaultCredsAll cs [] m w = ((m, None), w)"
| "getVaultCredsAll cs (k # ks) m w =
     (case cs_GetControllerCredentials cs k w of
        ((un, pw, Some err), w) \<Rightarrow> ((m, Some (''ERROR: Can'' @ [CHR 0x27] @ ''t get BMC creds for '' @ quoted k @ '': '' @ err)), w)
      | ((un, pw, None), w) \<Rightarrow>
          getVaultCredsAll cs ks
            (case map_of m k of None \<Rightarrow> m | Some c \<Rightarrow> AList.update k (set_creds un pw c) m) w)"

definition updateVaultCreds :: "'w PowerMonitor \<Rightarrow> bool \<Rightarrow> hw_map \<Rightarrow> ('w, hw_map \<times> error option) io" where
  "updateVaultCreds P vaultEnabled m w =
     (let ks = map fst (filter (\<lambda>(k, c). cpi_BmcUsername c = [] \<or> cpi_BmcPassword c \<noteq> []) m) in
      case pm_CS P of
        None \<Rightarrow> ((m, None), w)
      | Some cs \<Rightarrow> if vaultEnabled then getVaultCredsAll cs ks m w else ((m, None), w))"

subsection \<open>Reading the hardware\<close>

definition getStatusCode :: "error option \<Rightarrow> http_response option \<Rightarrow> int" where
  "getStatusCode err rsp =
     (case rsp of Some r \<Rightarrow> hr_StatusCode r
      | None \<Rightarrow> if err \<noteq> None then StatusInternalServerError else 204)"

definition updateHWState ::
  "'w PowerMonitor \<Rightarrow> xname \<Rightarrow> PowerStateFilter \<Rightarrow> ManagementStateFilter \<Rightarrow> string \<Rightarrow> hw_map \<times> 'w \<Rightarrow> hw_map \<times> 'w" where
  "updateHWState P xn hwState mgmtState errInfo mw =
     (case map_of (fst mw) xn of
        None \<Rightarrow> mw
      | Some c \<Rightarrow>
          let hwStateStr = ToLower (PowerStateFilter_String hwState);
              mgmtStateStr = ToLower (ManagementStateFilter_String mgmtState)
          in if hwStateStr = ToLower (ps_PowerState (cpi_PSComp c)) \<and>
                mgmtStateStr = ToLower (ps_ManagementState (cpi_PSComp c))
             then mw
             else
               let (now, w) = time_Now (pm_RT P) (snd mw);
                   ps = (cpi_PSComp c)\<lparr>ps_PowerState := hwStateStr, ps_ManagementState := mgmtStateStr,
                          ps_LastUpdated := now, ps_Error := errInfo\<rparr>;
                   psc = \<lparr>ps_XName = xn, ps_PowerState = hwStateStr, ps_ManagementState = mgmtStateStr, ps_Error = errInfo,
                          ps_SupportedPowerTransitions = ps_SupportedPowerTransitions ps, ps_LastUpdated = now\<rparr>
               in (AList.update xn (c\<lparr>cpi_PSComp := ps\<rparr>) (fst mw), snd (dsp_StorePowerStatus (pm_DSP P) psc w)))"

text \<open>The request for one component, if there is one: tasks without a request are ignored by the runner.\<close>

definition status_request :: "xnametypes \<Rightarrow> xname \<times> componentPowerInfo \<Rightarrow> uuid \<Rightarrow> http_request option" where
  "status_request X kc i =
     (if power_comp_type (GetHMSType X (fst kc)) \<and> cpi_RfFQDN (snd kc) \<noteq> [] \<and> cpi_PowerStatusURI (snd kc) \<noteq> []
      then Some \<lparr>rq_ID = i, rq_Method = ''GET'', rq_URL = ''https://'' @ cpi_RfFQDN (snd kc) @ cpi_PowerStatusURI (snd kc),
                 rq_Body = [], rq_BasicAuth = Some (cpi_BmcUsername (snd kc), cpi_BmcPassword (snd kc))\<rparr>
      else None)"

definition status_requests :: "xnametypes \<Rightarrow> hw_map \<Rightarrow> uuid list \<Rightarrow> (xname \<times> http_request) list" where
  "status_requests X m ids =
     List.map_filter (\<lambda>(kc, i). map_option (Pair (fst kc)) (status_request X kc i)) (zip m ids)"

text \<open>
  A finished task: its response, unless its body could not be read, and the body. \<open>hdrs\<close> finds the name in the
  headers of the request. A response without a body makes reading it panic.
\<close>

type_synonym rsp_map = "(xname, http_response option \<times> string) gomap"

definition collect_one :: "(uuid, xname) gomap \<Rightarrow> http_task_done \<Rightarrow> rsp_map \<Rightarrow> rsp_map option" where
  "collect_one hdrs t rspMap =
     (case map_of hdrs (td_ID t) of
        None \<Rightarrow> Some rspMap
      | Some xn \<Rightarrow>
          if xn = [] then Some rspMap
          else case td_Response t of
            None \<Rightarrow> Some (AList.update xn (None, []) rspMap)
          | Some r \<Rightarrow>
              (case hr_Body r of
                 BodyNil \<Rightarrow> None
               | BodyRead s \<Rightarrow> Some (AList.update xn (Some r, s) rspMap)
               | BodyError e \<Rightarrow> Some (AList.update xn (None, []) rspMap)))"

abbreviation bad_codes :: "int set" where
  "bad_codes \<equiv> {400, 404, 405, 403, 501, 500, 502, 503}"

text \<open>What the decoded body of a component says: its power state, its management state and an error.\<close>

definition body_state ::
  "rf_json \<Rightarrow> HMSType \<Rightarrow> string \<Rightarrow> PowerStateFilter \<times> ManagementStateFilter \<times> string" where
  "body_state J ctype body =
     (let bad = (PowerStateFilter_Undefined, ManagementStateFilter_available, ''Unable to unmarshal power payload'') in
      if ctype \<in> {NodeBMC, RouterBMC, ChassisBMC} then (PowerStateFilter_On, ManagementStateFilter_available, [])
      else if ctype = Node then
        (case rj_ComputerSystem J body of
           Inl e \<Rightarrow> bad
         | Inr st \<Rightarrow>
             (case ToPowerStateFilter st of
                (_, Some e) \<Rightarrow> (PowerStateFilter_Undefined, ManagementStateFilter_available, [])
              | (ps, None) \<Rightarrow> (ps, ManagementStateFilter_available, [])))
      else if ctype \<in> {Chassis, ComputeModule, RouterModule} then
        (case rj_Chassis J body of
           Inl e \<Rightarrow> bad
         | Inr (st, _) \<Rightarrow> (fst (ToPowerStateFilter st), ManagementStateFilter_available, []))
      else if ctype \<in> {MgmtSwitch, MgmtHLSwitch, CDUMgmtSwitch} then
        (case rj_Chassis J body of
           Inl e \<Rightarrow> bad
         | Inr (st, status) \<Rightarrow>
             if ToLower status = ''unavailableoffline''
             then (PowerStateFilter_Undefined, ManagementStateFilter_unavailable, ''Management switch is unreachable'')
             else (fst (ToPowerStateFilter st), ManagementStateFilter_available, []))
      else if ctype = CabinetPDUPowerConnector then
        (case rj_Outlet J body of
           Inl e \<Rightarrow> bad
         | Inr st \<Rightarrow> (fst (ToPowerStateFilter st), ManagementStateFilter_available, []))
      else (PowerStateFilter_Undefined, ManagementStateFilter_available, ''Unknown component type''))"

text \<open>The state a finished task means for its component.\<close>

definition reply_state ::
  "rf_json \<Rightarrow> HMSType \<Rightarrow> http_response option \<times> string \<Rightarrow> PowerStateFilter \<times> ManagementStateFilter \<times> string" where
  "reply_state J ctype rb =
     (case fst rb of
        None \<Rightarrow> (PowerStateFilter_Undefined, ManagementStateFilter_unavailable, ''No response from target'')
      | Some r \<Rightarrow>
          if hr_StatusCode r \<in> bad_codes \<or> hr_StatusCode r = 401 \<or> hr_StatusCode r \<ge> 206
          then (PowerStateFilter_Undefined, ManagementStateFilter_unavailable, hr_Status r)
          else if snd rb = []
          then (PowerStateFilter_Undefined, ManagementStateFilter_available, ''Unable to read response body'')
          else body_state J ctype (snd rb))"

text \<open>After a 401 the credentials are dropped, through a pointer that is nil for an unknown name.\<close>

definition process_one ::
  "'w PowerMonitor \<Rightarrow> xname \<times> (http_response option \<times> string) \<Rightarrow> hw_map \<times> 'w \<Rightarrow> (hw_map \<times> 'w) option" where
  "process_one P xr mw =
     (let (ps, ms, err) = reply_state (pm_RF P) (GetHMSType (pm_XN P) (fst xr)) (snd xr);
          mw = updateHWState P (fst xr) ps ms err mw
      in case fst (snd xr) of
           Some r \<Rightarrow>
             if hr_StatusCode r = 401
             then map_option (\<lambda>c. (AList.update (fst xr) (set_creds [] [] c) (fst mw), snd mw)) (map_of (fst mw) (fst xr))
             else Some mw
         | None \<Rightarrow> Some mw)"

definition getHWStatesFromHW :: "'w PowerMonitor \<Rightarrow> bool \<Rightarrow> hw_map \<Rightarrow> ('w, hw_map \<times> error option) go" where
  "getHWStatesFromHW P vaultEnabled m w =
     (case updateVaultCreds P vaultEnabled m w of
        ((m, Some err), w) \<Rightarrow> Some ((m, Some err), w)
      | ((m, None), w) \<Rightarrow>
          let (ids, w) = trs_CreateTaskList (pm_TRS P) (length m) w in
          if length ids < length m then None
          else
            let reqs = status_requests (pm_XN P) m ids in
            if reqs = [] then Some ((m, None), trs_Close (pm_TRS P) ids w)
            else case trs_Launch (pm_TRS P) (map snd reqs) w of
              ((_, Some err), w) \<Rightarrow> Some ((m, Some (''getHWStatesFromHW: TRS Launch() error: '' @ err @ ''.'')), w)
            | ((replies, None), w) \<Rightarrow>
                if length replies < length reqs then None
                else Option.bind (foldM (collect_one (map (\<lambda>(xn, rq). (rq_ID rq, xn)) reqs)) (take (length reqs) replies) [])
                  (\<lambda>rspMap.
                    map_option (\<lambda>(m, w). ((m, None), w))
                      (foldM (process_one P) rspMap (m, trs_Close (pm_TRS P) ids w))))"

subsection \<open>The master\<close>

definition unlock :: "'w PowerMonitor \<Rightarrow> 'w \<Rightarrow> 'w" where
  "unlock P w = snd (dl_Unlock (pm_DistLock P) w)"

text \<open>
  The result is the time the keep-alive goroutine is started with when this instance became the master, else
  \<open>None\<close>. The lock is released by a deferred call.
\<close>

definition getPowerStatusMaster :: "'w PowerMonitor \<Rightarrow> duration \<Rightarrow> ('w, time option) io" where
  "getPowerStatusMaster P maxTime w =
     (case dl_DistributedTimedLock (pm_DistLock P) maxTime w of
        (Some _, w) \<Rightarrow> (None, w)
      | (None, w) \<Rightarrow>
          let (now, w) = time_Now (pm_RT P) w in
          (case dsp_GetPowerStatusMaster (pm_DSP P) w of
             ((_, Some _), w) \<Rightarrow> (None, unlock P w)
           | ((None, None), w) \<Rightarrow>
               (case dsp_StorePowerStatusMaster (pm_DSP P) now w of
                  (Some _, w) \<Rightarrow> (None, unlock P w)
                | (None, w) \<Rightarrow> (Some now, unlock P (pm_go_startPowerStatusMaster P now w)))
           | ((Some lastUpdated, None), w) \<Rightarrow>
               if lastUpdated + powerStatusMasterInterval * 3 * Second > now then (None, unlock P w)
               else case dsp_TASPowerStatusMaster (pm_DSP P) now lastUpdated w of
                 ((_, Some _), w) \<Rightarrow> (None, unlock P w)
               | ((success, None), w) \<Rightarrow>
                   if success then (Some now, unlock P (pm_go_startPowerStatusMaster P now w)) else (None, unlock P w)))"

text \<open>
  One tick of \<^verbatim>\<open>startPowerStatusMaster\<close>. The result is the value of \<^verbatim>\<open>lastUpdated\<close> for the next tick, or \<open>None\<close>
  when the goroutine returns.
\<close>

definition masterTick ::
  "'w PowerMonitor \<Rightarrow> time \<Rightarrow> pm_vars \<Rightarrow> ('w, pm_vars \<times> time option) io" where
  "masterTick P lastUpdated v w =
     (let (running, w) = pm_serviceRunning P w in
      if \<not> pv_monitorRunning v \<or> \<not> running then ((v\<lparr>pv_isMaster := False\<rparr>, None), w)
      else
        let (now, w) = time_Now (pm_RT P) w in
        (case dsp_TASPowerStatusMaster (pm_DSP P) now lastUpdated w of
           ((_, Some _), w) \<Rightarrow> ((v, Some lastUpdated), w)
         | ((success, None), w) \<Rightarrow>
             if success then ((v, Some now), w) else ((v\<lparr>pv_isMaster := False\<rparr>, None), w)))"

subsection \<open>Reporting to the HSM and the monitor loop\<close>

fun bulk_updates :: "'w PowerMonitor \<Rightarrow> (string \<times> xname list) list \<Rightarrow> ('w, error option) io" where
  "bulk_updates P [] w = (None, w)"
| "bulk_updates P ((st, xs) # rest) w =
     (if xs = [] then bulk_updates P rest w
      else case hsm_BulkComponentStateUpdate (pm_HSM P) xs st w of
        (Some err, w) \<Rightarrow> (Some (''Error performing SMD bulk state update: '' @ err), w)
      | (None, w) \<Rightarrow> bulk_updates P rest w)"

definition updateSmdPowerState :: "'w PowerMonitor \<Rightarrow> PowerStatusComponent list \<Rightarrow> ('w, error option) io" where
  "updateSmdPowerState P updated w =
     bulk_updates P
       (map (\<lambda>st. (st, map ps_XName (filter (\<lambda>c. ps_PowerState c = st) updated)))
         [PowerStateFilter_String PowerStateFilter_On, PowerStateFilter_String PowerStateFilter_Off]) w"

text \<open>One round of the loop of \<^verbatim>\<open>monitorHW\<close>, from the exit test to the next; \<open>False\<close>: the loop ends.\<close>

definition monitorRound :: "'w PowerMonitor \<Rightarrow> pm_vars \<Rightarrow> ('w, pm_vars \<times> bool) go" where
  "monitorRound P v w =
     (let (running, w) = pm_serviceRunning P w in
      if \<not> pv_monitorRunning v \<or> \<not> running then Some ((v, False), w)
      else
        let w = time_Sleep (pm_RT P) (pv_sampleInterval v) w;
            (master, w) = (if pv_isMaster v then (True, w)
                           else let (t, w) = getPowerStatusMaster P (pv_distLockMaxTime v) w in (t \<noteq> None, w));
            v = v\<lparr>pv_isMaster := master\<rparr>
        in if \<not> master then Some ((v, True), w)
           else
             let ((m, err), w) = updateComponentMap P (pv_hwStateMap v) w;
                 v = v\<lparr>pv_hwStateMap := m\<rparr>
             in if err \<noteq> None then Some ((v, True), w)
                else
                  let (updated, w) = time_Now (pm_RT P) w in
                  (case getHWStatesFromHW P (pv_vaultEnabled v) m w of
                     None \<Rightarrow> None
                   | Some ((m, Some err), w) \<Rightarrow> Some ((v\<lparr>pv_hwStateMap := m\<rparr>, True), w)
                   | Some ((m, None), w) \<Rightarrow>
                       let cs = map cpi_PSComp (filter (\<lambda>c. ps_LastUpdated (cpi_PSComp c) > updated) (map snd m))
                       in Some ((v\<lparr>pv_hwStateMap := m\<rparr>, True),
                            if cs = [] then w else snd (updateSmdPowerState P cs w))))"

text \<open>
  \<^verbatim>\<open>monitorHW\<close>: nothing when it runs already, else rounds for as long as they go on.
\<close>

partial_function (option) monitorLoop :: "'w PowerMonitor \<Rightarrow> pm_vars \<Rightarrow> 'w \<Rightarrow> (pm_vars \<times> 'w) option" where
  [code]: "monitorLoop P v w =
     (case monitorRound P v w of
        None \<Rightarrow> None
      | Some ((v, go_on), w) \<Rightarrow> if go_on then monitorLoop P v w else Some (v, w))"

definition monitorHW :: "'w PowerMonitor \<Rightarrow> pm_vars \<Rightarrow> 'w \<Rightarrow> (pm_vars \<times> 'w) option" where
  "monitorHW P v w = (if pv_monitorRunning v then Some (v, w) else monitorLoop P (v\<lparr>pv_monitorRunning := True\<rparr>) w)"

end
