(* ===== verification/Power_Monitoring.thy ===== *)
theory Power_Monitoring
  imports Power_Status Sim_Domain "HOL-Library.Multiset"
begin

section \<open>What power status monitoring records and reports\<close>

text \<open>
  Requests for power status against a name by name answer, the operations offered for Redfish reset types, and
  a sweep over the hardware: it comes back, records what each component said, and keeps the map in memory
  and the database in agreement (the locale \<open>sampled_hardware\<close>).
\<close>

subsection \<open>Answers\<close>

lemma status_fold:
  "fold (status_one X psf msf m) xs acc = acc @ concat (map (\<lambda>x. case map_of m x of
     None \<Rightarrow> [unknown_comp X x] | Some c \<Rightarrow> if state_match psf msf c then [c\<lparr>ps_XName := x, ps_Error := []\<rparr>] else []) xs)"
proof (induction xs arbitrary: acc)
  case (Cons x xs)
  have "(\<lparr>ps_XName = x, ps_PowerState = ps_PowerState c, ps_ManagementState = ps_ManagementState c, ps_Error = [],
      ps_SupportedPowerTransitions = ps_SupportedPowerTransitions c, ps_LastUpdated = ps_LastUpdated c\<rparr>) =
      c\<lparr>ps_XName := x, ps_Error := []\<rparr>" for c :: PowerStatusComponent
    by (cases c) simp
  then show ?case by (simp add: Cons.IH status_one_def [of X psf msf m x] split: option.splits)
qed simp

lemma find_append: "find P (xs @ ys) = (case find P xs of None \<Rightarrow> find P ys | Some x \<Rightarrow> Some x)"
  by (induction xs) auto

lemma index_fold: "map_of (fold (\<lambda>c. AList.update (f c) c) cs m) x =
  (case find (\<lambda>c. f c = x) (rev cs) of None \<Rightarrow> map_of m x | Some c \<Rightarrow> Some c)"
proof (induction cs arbitrary: m)
  case (Cons c cs)
  show ?case by (auto simp: Cons.IH find_append split: option.splits)
qed simp

definition status_answer :: "xnametypes \<Rightarrow> PowerStateFilter \<Rightarrow> ManagementStateFilter \<Rightarrow> PowerStatusComponent list \<Rightarrow>
  xname \<Rightarrow> PowerStatusComponent list" where
  "status_answer X psf msf sts x =
     (case find (\<lambda>c. ps_XName c = x) (rev sts) of
        None \<Rightarrow> [unknown_comp X x]
      | Some c \<Rightarrow> if state_match psf msf c then [c\<lparr>ps_Error := []\<rparr>] else [])"

text \<open>
  A request for power status is answered name by name in the order asked: for a name the database knows, its
  latest stored record if it passes the filters, nothing if it does not, and for an unknown name a record that says
  whether it is invalid, has no power state or is not recorded. Without names every stored component is
  reported. An error of the database is an internal error.
\<close>

theorem status_answers:
  shows "fst (GetPowerStatus P xnames psf msf w) =
    (case dsp_GetAllPowerStatus (pm_DSP P) w of
       ((sts, Some err), _) \<Rightarrow> BuildErrorPassback StatusInternalServerError (Some err)
     | ((sts, None), _) \<Rightarrow> BuildSuccessPassback 200
         (concat (map (status_answer (pm_XN P) psf msf sts) (if xnames = [] then map ps_XName sts else xnames))))"
proof -
  have "(\<lambda>x. case map_of (fold (\<lambda>c. AList.update (ps_XName c) c) sts []) x of
      None \<Rightarrow> [unknown_comp X x] | Some c \<Rightarrow> if state_match psf msf c then [c\<lparr>ps_XName := x, ps_Error := []\<rparr>] else []) =
      status_answer X psf msf sts" for X sts
  proof
    fix x
    have "c\<lparr>ps_XName := x, ps_Error := []\<rparr> = c\<lparr>ps_Error := []\<rparr>" if "find (\<lambda>c. ps_XName c = x) (rev sts) = Some c" for c
    proof -
      have "x = ps_XName c" using that by (auto simp: find_Some_iff)
      then show ?thesis by (cases c) simp
    qed
    then show "(case map_of (fold (\<lambda>c. AList.update (ps_XName c) c) sts []) x of
      None \<Rightarrow> [unknown_comp X x] | Some c \<Rightarrow> if state_match psf msf c then [c\<lparr>ps_XName := x, ps_Error := []\<rparr>] else []) =
      status_answer X psf msf sts x"
      by (auto simp: status_answer_def index_fold [where f = ps_XName] split: option.splits)
  qed
  then show ?thesis
    by (auto simp: GetPowerStatus_def status_fold Let_def split: prod.splits option.splits)
qed

subsection \<open>Operations offered\<close>

text \<open>Some Redfish action of the list is one of the given ones.\<close>

definition supports :: "string list \<Rightarrow> string list \<Rightarrow> bool" where
  "supports acts names \<longleftrightarrow> (\<exists>a \<in> set acts. ToLower a \<in> set names)"

lemma supports_Cons: "supports (a # as) ns \<longleftrightarrow> ToLower a \<in> set ns \<or> supports as ns"
  by (auto simp: supports_def)

lemma rf_actions_set:
  "set (fold rf_action as ops) = set ops \<union>
     (if supports as [''forceoff''] then {Operation_ForceOff} else {}) \<union>
     (if supports as [''forcerestart'', ''gracefulrestart''] then {Operation_SoftRestart} else {}) \<union>
     (if supports as [''off'', ''gracefulshutdown''] then {Operation_SoftOff, Operation_Off} else {}) \<union>
     (if supports as [''on''] then {Operation_On} else {})"
proof (induction as arbitrary: ops)
  case (Cons a as)
  have "set (rf_action a ops) = set ops \<union>
     (if ToLower a = ''forceoff'' then {Operation_ForceOff} else {}) \<union>
     (if ToLower a \<in> {''forcerestart'', ''gracefulrestart''} then {Operation_SoftRestart} else {}) \<union>
     (if ToLower a \<in> {''off'', ''gracefulshutdown''} then {Operation_SoftOff, Operation_Off} else {}) \<union>
     (if ToLower a = ''on'' then {Operation_On} else {})"
    by (auto simp: rf_action_def offer_def Let_def)
  then show ?case by (simp only: fold_Cons comp_apply Cons.IH supports_Cons) auto
qed (simp add: supports_def)

lemma rf_actions_distinct: "distinct ops \<Longrightarrow> distinct (fold rf_action as ops)"
  by (induction as arbitrary: ops) (auto simp: rf_action_def offer_def Let_def)


lemma op_name_inj: "Operation_String a = Some s \<Longrightarrow> Operation_String b = Some s \<Longrightarrow> a = b"
  by (cases a; cases b) auto

lemma ex_Operation: "(\<exists>op. Q op) \<longleftrightarrow> Q Operation_Nil \<or> Q Operation_On \<or> Q Operation_Off \<or> Q Operation_SoftRestart \<or>
   Q Operation_HardRestart \<or> Q Operation_Init \<or> Q Operation_ForceOff \<or> Q Operation_SoftOff"
  by (metis Operation.exhaust)

lemma set_op_names: "s \<in> set (List.map_filter Operation_String ops) \<longleftrightarrow> (\<exists>op. op \<in> set ops \<and> Operation_String op = Some s)"
  by (force simp: map_filter_def)

lemma distinct_op_names: "distinct ops \<Longrightarrow> distinct (List.map_filter Operation_String ops)"
  by (induction ops) (auto simp: map_filter_simps map_filter_def dest: op_name_inj split: option.splits)

text \<open>
  The operations offered for a component are listed once each and follow from its Redfish reset types:
  Force-Off from ForceOff, Off and Soft-Off from Off or GracefulShutdown, On from On, Init and Hard-Restart
  where it can be turned both off and on, and Soft-Restart from a restart type or from being turned off
  and on.
\<close>

theorem offered_operations:
  "distinct (toPCSPowerActions acts) \<and>
   set (toPCSPowerActions acts) =
     (let off = supports acts [''off'', ''gracefulshutdown'']; on = supports acts [''on''];
          restart = supports acts [''forcerestart'', ''gracefulrestart'']
      in {s. s = ''Force-Off'' \<and> supports acts [''forceoff''] \<or> s \<in> {''Off'', ''Soft-Off''} \<and> off \<or> s = ''On'' \<and> on \<or>
             s \<in> {''Init'', ''Hard-Restart''} \<and> on \<and> off \<or> s = ''Soft-Restart'' \<and> (restart \<or> on \<and> off)})"
proof -
  define ops where "ops = fold rf_action acts []"
  note S = rf_actions_set [of acts "[]", folded ops_def]
  let ?all = "if Operation_On \<in> set ops \<and> Operation_Off \<in> set ops
    then ops @ [Operation_Init, Operation_HardRestart] @ (if Operation_SoftRestart \<in> set ops then [] else [Operation_SoftRestart])
    else ops"
  have names: "toPCSPowerActions acts = List.map_filter Operation_String ?all"
    by (simp add: toPCSPowerActions_def ops_def Let_def)
  have all: "distinct ?all"
    using rf_actions_distinct [of "[]" acts] S by (auto simp: ops_def [symmetric])
  obtain fo off on re where b: "supports acts [''forceoff''] = fo" "supports acts [''off'', ''gracefulshutdown''] = off"
    "supports acts [''on''] = on" "supports acts [''forcerestart'', ''gracefulrestart''] = re" by blast
  have mem: "op \<in> set ops \<longleftrightarrow> op = Operation_ForceOff \<and> fo \<or> op = Operation_Off \<and> off \<or> op = Operation_SoftOff \<and> off \<or>
      op = Operation_On \<and> on \<or> op = Operation_SoftRestart \<and> re" for op
    unfolding S b by (cases fo; cases off; cases on; cases re) auto
  have "s \<in> set (List.map_filter Operation_String ?all) \<longleftrightarrow>
      s = ''Force-Off'' \<and> fo \<or> s \<in> {''Off'', ''Soft-Off''} \<and> off \<or> s = ''On'' \<and> on \<or>
      s \<in> {''Init'', ''Hard-Restart''} \<and> on \<and> off \<or> s = ''Soft-Restart'' \<and> (re \<or> on \<and> off)" for s
    unfolding set_op_names ex_Operation
    by (cases fo; cases off; cases on; cases re) (simp_all add: mem eq_commute [of _ s] disj_ac)
  then show ?thesis
    unfolding names Let_def b using distinct_op_names [OF all] by (auto simp: set_eq_iff)
qed


subsection \<open>Sampling the hardware\<close>

text \<open>
  What sampling relies on: storing a power status sets the record of its component, nothing else changes the
  stored states, and the task runner answers each request once, in any order, with what the hardware says under
  its URL (\<open>hw\<close>).
\<close>

locale sampled_hardware =
  fixes P :: "'w PowerMonitor" and stat :: "'w \<Rightarrow> xname \<Rightarrow> PowerStatusComponent option"
    and hw :: "string \<Rightarrow> http_response option"
  assumes store: "dsp_StorePowerStatus (pm_DSP P) p w = (e, w') \<Longrightarrow> may_set (stat w) (ps_XName p) (Some p) e (stat w')"
    and now: "time_Now (pm_RT P) w = (t, w') \<Longrightarrow> stat w' = stat w"
    and creds: "pm_CS P = Some cs \<Longrightarrow> cs_GetControllerCredentials cs k w = (cr, w') \<Longrightarrow> stat w' = stat w"
    and create: "trs_CreateTaskList (pm_TRS P) n w = (ids, w') \<Longrightarrow> stat w' = stat w \<and> length ids = n \<and> distinct ids"
    and launch_stat: "trs_Launch (pm_TRS P) rqs w = (lr, w') \<Longrightarrow> stat w' = stat w"
    and launch: "trs_Launch (pm_TRS P) rqs w = ((ds, None), w') \<Longrightarrow> distinct (map rq_ID rqs) \<Longrightarrow>
      mset (map td_ID ds) = mset (map rq_ID rqs) \<and>
      (\<forall>d \<in> set ds. \<forall>rq \<in> set rqs. td_ID d = rq_ID rq \<longrightarrow> td_Response d = hw (rq_URL rq))"
    and close: "stat (trs_Close (pm_TRS P) ids w) = stat w"
    and bodies: "hw u = Some r \<Longrightarrow> hr_Body r \<noteq> BodyNil"
    and no_name: "\<not> power_comp_type (GetHMSType (pm_XN P) [])"

text \<open>The recorded power and management state of a component.\<close>

definition pw :: "hw_map \<Rightarrow> xname \<Rightarrow> (string \<times> string) option" where
  "pw m x = map_option (\<lambda>c. (ps_PowerState (cpi_PSComp c), ps_ManagementState (cpi_PSComp c))) (map_of m x)"

text \<open>
  The map in memory and the database agree: where the database has no record, the component is in the state
  in which it entered the map.
\<close>

definition in_sync :: "hw_map \<Rightarrow> (xname \<Rightarrow> PowerStatusComponent option) \<Rightarrow> bool" where
  "in_sync m s \<longleftrightarrow> (\<forall>x ps ms. pw m x = Some (ps, ms) \<longrightarrow> ToLower ps = ps \<and> ToLower ms = ms \<and>
     (case s x of Some p \<Rightarrow> ps_PowerState p = ps \<and> ps_ManagementState p = ms
      | None \<Rightarrow> ps = ''undefined'' \<and> ms = ''unavailable''))"

definition said :: "'w PowerMonitor \<Rightarrow> xname \<Rightarrow> http_response option \<times> string \<Rightarrow> string \<times> string" where
  "said P x rb = (case reply_state (pm_RF P) (GetHMSType (pm_XN P) x) rb of
     (ps, ms, e) \<Rightarrow> (PowerStateFilter_String ps, ManagementStateFilter_String ms))"

definition readout :: "http_response option \<Rightarrow> http_response option \<times> string" where
  "readout r = (case r of None \<Rightarrow> (None, [])
     | Some r \<Rightarrow> (case hr_Body r of BodyRead s \<Rightarrow> (Some r, s) | _ \<Rightarrow> (None, [])))"

lemma pw_update: "pw (AList.update x c m) = (pw m)(x \<mapsto> (ps_PowerState (cpi_PSComp c), ps_ManagementState (cpi_PSComp c)))"
  by (auto simp: pw_def)

lemma pw_dom: "pw m x = None \<longleftrightarrow> map_of m x = None"
  by (simp add: pw_def)

lemma in_sync_cong: "pw m' = pw m \<Longrightarrow> in_sync m' s = in_sync m s"
  by (simp add: in_sync_def)

text \<open>A component is asked when it is of a monitored type and the HSM knows its endpoint.\<close>

definition asked :: "xnametypes \<Rightarrow> xname \<Rightarrow> componentPowerInfo \<Rightarrow> bool" where
  "asked X x c \<longleftrightarrow> power_comp_type (GetHMSType X x) \<and> cpi_RfFQDN c \<noteq> [] \<and> cpi_PowerStatusURI c \<noteq> []"

definition status_url :: "componentPowerInfo \<Rightarrow> string" where
  "status_url c = ''https://'' @ cpi_RfFQDN c @ cpi_PowerStatusURI c"

lemma status_request_iff:
  "status_request X (x, c) i = Some rq \<longleftrightarrow> asked X x c \<and> rq = \<lparr>rq_ID = i, rq_Method = ''GET'', rq_URL = status_url c,
     rq_Body = [], rq_BasicAuth = Some (cpi_BmcUsername c, cpi_BmcPassword c)\<rparr>"
  by (auto simp: status_request_def asked_def status_url_def)

lemma status_requests_Cons:
  "status_requests X ((x, c) # m) (i # ids) =
     (if asked X x c then [(x, \<lparr>rq_ID = i, rq_Method = ''GET'', rq_URL = status_url c,
       rq_Body = [], rq_BasicAuth = Some (cpi_BmcUsername c, cpi_BmcPassword c)\<rparr>)] else []) @ status_requests X m ids"
  by (simp add: status_requests_def map_filter_simps status_request_def asked_def status_url_def)

lemma status_requests_facts:
  assumes "length ids = length m" and "distinct ids" and "distinct (map fst m)"
  shows "rq_ID ` snd ` set (status_requests X m ids) \<subseteq> set ids \<and> distinct (map (\<lambda>(x, rq). rq_ID rq) (status_requests X m ids)) \<and>
    fst ` set (status_requests X m ids) = {x. \<exists>c. map_of m x = Some c \<and> asked X x c} \<and>
    (\<forall>(x, rq) \<in> set (status_requests X m ids). \<exists>c. map_of m x = Some c \<and> rq_URL rq = status_url c)"
  using assms
proof (induction m arbitrary: ids)
  case Nil
  then show ?case by (simp add: status_requests_def map_filter_simps)
next
  case (Cons xc m)
  obtain x c where xc: "xc = (x, c)" by fastforce
  obtain i js where ids: "ids = i # js" using Cons.prems(1) by (cases ids) auto
  have none: "map_of m x = None" using Cons.prems(3) xc by (simp add: map_of_eq_None_iff)
  note IH = Cons.IH [of js]
  have IH': "rq_ID ` snd ` set (status_requests X m js) \<subseteq> set js" "distinct (map (\<lambda>(x, rq). rq_ID rq) (status_requests X m js))"
    "fst ` set (status_requests X m js) = {x. \<exists>c. map_of m x = Some c \<and> asked X x c}"
    "\<forall>(x, rq) \<in> set (status_requests X m js). \<exists>c. map_of m x = Some c \<and> rq_URL rq = status_url c"
    using IH Cons.prems ids by simp_all
  have "rq_ID rq \<noteq> i" if "(y, rq) \<in> set (status_requests X m js)" for y rq
    using IH'(1) that Cons.prems(2) ids by force
  moreover have "map_of (xc # m) y = Some d" if "map_of m y = Some d" for y d
    using that none xc by auto
  ultimately show ?case
    using IH' none Cons.prems(2) unfolding xc ids status_requests_Cons
    by (auto simp: image_iff split: if_splits) (fastforce)+
qed

context sampled_hardware
begin

lemma update_effect:
  assumes ok: "\<And>p w. fst (dsp_StorePowerStatus (pm_DSP P) p w) = None"
    and "in_sync m (stat w)" and "map_of m x = Some c"
    and u: "updateHWState P x ps ms e (m, w) = (m', w')"
  shows "in_sync m' (stat w') \<and> pw m' = (pw m)(x \<mapsto> (PowerStateFilter_String ps, ManagementStateFilter_String ms))"
proof (cases "PowerStateFilter_String ps = ToLower (ps_PowerState (cpi_PSComp c)) \<and>
    ManagementStateFilter_String ms = ToLower (ps_ManagementState (cpi_PSComp c))")
  case True
  have pwx: "pw m x = Some (ps_PowerState (cpi_PSComp c), ps_ManagementState (cpi_PSComp c))"
    using assms(3) by (simp add: pw_def)
  then have "ToLower (ps_PowerState (cpi_PSComp c)) = ps_PowerState (cpi_PSComp c)"
    "ToLower (ps_ManagementState (cpi_PSComp c)) = ps_ManagementState (cpi_PSComp c)"
    using assms(2) by (auto simp: in_sync_def)
  then show ?thesis
    using u True assms(2,3) pwx by (auto simp: updateHWState_def Let_def)
next
  case False
  obtain t w1 where t: "time_Now (pm_RT P) w = (t, w1)" by fastforce
  let ?psc = "\<lparr>ps_XName = x, ps_PowerState = PowerStateFilter_String ps, ps_ManagementState = ManagementStateFilter_String ms,
    ps_Error = e, ps_SupportedPowerTransitions = ps_SupportedPowerTransitions (cpi_PSComp c), ps_LastUpdated = t\<rparr>"
  obtain er w2 where st: "dsp_StorePowerStatus (pm_DSP P) ?psc w1 = (er, w2)" by fastforce
  have "stat w2 = (stat w)(x \<mapsto> ?psc)"
    using store [OF st] ok [of ?psc w1] now [OF t] st by (simp add: may_set_def)
  moreover have "w' = w2" "pw m' = (pw m)(x \<mapsto> (PowerStateFilter_String ps, ManagementStateFilter_String ms))"
    using u False assms(3) t st by (auto simp: updateHWState_def Let_def pw_update)
  ultimately show ?thesis using assms(2) by (auto simp: in_sync_def)
qed

lemma process_effect:
  assumes ok: "\<And>p w. fst (dsp_StorePowerStatus (pm_DSP P) p w) = None"
    and "in_sync m (stat w)" and "pw m x \<noteq> None"
  shows "\<exists>m' w'. process_one P (x, rb) (m, w) = Some (m', w') \<and> in_sync m' (stat w') \<and> pw m' = (pw m)(x \<mapsto> said P x rb)"
proof -
  obtain c where c: "map_of m x = Some c" using assms(3) by (auto simp: pw_dom)
  obtain ps ms e where r: "reply_state (pm_RF P) (GetHMSType (pm_XN P) x) rb = (ps, ms, e)" by (rule prod_cases3)
  obtain m1 w1 where u: "updateHWState P x ps ms e (m, w) = (m1, w1)" by fastforce
  have e1: "in_sync m1 (stat w1)" and p1: "pw m1 = (pw m)(x \<mapsto> said P x rb)"
    using update_effect [OF ok assms(2) c u] by (simp_all add: said_def r)
  obtain c1 where c1: "map_of m1 x = Some c1" using p1 pw_dom [of m1 x] by (cases "map_of m1 x") auto
  have "pw (AList.update x (set_creds [] [] c1) m1) = pw m1"
    using c1 by (auto simp: pw_def set_creds_def)
  then have "in_sync (AList.update x (set_creds [] [] c1) m1) (stat w1)" "pw (AList.update x (set_creds [] [] c1) m1) = (pw m)(x \<mapsto> said P x rb)"
    using e1 p1 in_sync_cong [of "AList.update x (set_creds [] [] c1) m1" m1] by simp_all
  then show ?thesis
    using e1 p1 u r c1 by (cases "fst rb") (simp_all add: process_one_def Let_def)
qed

lemma process_all:
  assumes ok: "\<And>p w. fst (dsp_StorePowerStatus (pm_DSP P) p w) = None"
    and "in_sync m (stat w)" and "distinct (map fst rm)" and "\<forall>x \<in> set (map fst rm). pw m x \<noteq> None"
  shows "\<exists>m' w'. foldM (process_one P) rm (m, w) = Some (m', w') \<and> in_sync m' (stat w') \<and>
    (\<forall>x. pw m' x = (case map_of rm x of None \<Rightarrow> pw m x | Some rb \<Rightarrow> Some (said P x rb)))"
  using assms(2-)
proof (induction rm arbitrary: m w)
  case (Cons xr rm)
  obtain x rb where xr: "xr = (x, rb)" by (cases xr)
  obtain m1 w1 where 1: "process_one P (x, rb) (m, w) = Some (m1, w1)" "in_sync m1 (stat w1)"
      "pw m1 = (pw m)(x \<mapsto> said P x rb)"
    using process_effect [OF ok Cons.prems(1), of x rb] Cons.prems(3) xr by auto
  have none: "map_of rm x = None" using Cons.prems(2) xr by (simp add: map_of_eq_None_iff)
  have dm: "\<forall>y \<in> set (map fst rm). pw m1 y \<noteq> None" using Cons.prems(3) 1(3) by auto
  obtain m' w' where 2: "foldM (process_one P) rm (m1, w1) = Some (m', w')" "in_sync m' (stat w')"
      "\<And>y. pw m' y = (case map_of rm y of None \<Rightarrow> pw m1 y | Some rb \<Rightarrow> Some (said P y rb))"
    using Cons.IH [OF 1(2) _ dm] Cons.prems(2) by auto
  have "pw m' y = (case map_of (xr # rm) y of None \<Rightarrow> pw m y | Some rb \<Rightarrow> Some (said P y rb))" for y
    using 2(3) [of y] 1(3) none xr by (cases "y = x") (simp_all split: option.split)
  then show ?case using 1(1) 2(1,2) xr by auto
qed simp

text \<open>Credentials change nothing else in the map.\<close>

definition same_hw :: "hw_map \<Rightarrow> hw_map \<Rightarrow> bool" where
  "same_hw m m' \<longleftrightarrow> map fst m' = map fst m \<and> (\<forall>x. map_option (set_creds [] []) (map_of m' x) = map_option (set_creds [] []) (map_of m x))"

lemma same_hw_creds:
  assumes "map_of m k = Some c"
  shows "same_hw m (AList.update k (set_creds un pwd c) m)"
  using assms update_same_keys [OF map_of_mem_keys [OF assms], of "set_creds un pwd c"]
  by (auto simp: same_hw_def set_creds_def)

lemma same_hw_refl [simp]: "same_hw m m"
  by (simp add: same_hw_def)

lemma same_hw_trans: "same_hw a b \<Longrightarrow> same_hw b c \<Longrightarrow> same_hw a c"
  by (simp add: same_hw_def)

lemma creds_all:
  assumes "pm_CS P = Some cs" and "getVaultCredsAll cs ks m w = ((m', e), w')"
  shows "same_hw m m' \<and> stat w' = stat w"
  using assms(2)
proof (induction ks arbitrary: m w)
  case Nil
  then show ?case by (simp add: same_hw_def)
next
  case (Cons k ks)
  obtain un pwd er w1 where c: "cs_GetControllerCredentials cs k w = ((un, pwd, er), w1)" by (metis surj_pair)
  have w1: "stat w1 = stat w" by (rule creds [OF assms(1) c])
  let ?m = "case map_of m k of None \<Rightarrow> m | Some c \<Rightarrow> AList.update k (set_creds un pwd c) m"
  have same: "same_hw m ?m" by (auto simp: same_hw_creds split: option.splits)
  show ?case
  proof (cases er)
    case None
    then have "same_hw ?m m' \<and> stat w' = stat w1" using Cons.prems c by (intro Cons.IH) simp
    then show ?thesis using same_hw_trans [OF same] w1 by simp
  next
    case (Some err)
    then show ?thesis using Cons.prems c w1 by (auto simp: same_hw_def)
  qed
qed

lemma vault_creds:
  assumes "updateVaultCreds P ve m w = ((m', e), w')"
  shows "same_hw m m' \<and> stat w' = stat w"
  using assms creds_all by (auto simp: updateVaultCreds_def Let_def split: option.splits if_splits)

lemma same_hw_pw: "same_hw m m' \<Longrightarrow> pw m' = pw m"
proof
  fix x assume "same_hw m m'"
  then have "map_option (\<lambda>c. cpi_PSComp (set_creds [] [] c)) (map_of m' x) = map_option (\<lambda>c. cpi_PSComp (set_creds [] [] c)) (map_of m x)"
    unfolding same_hw_def by (metis (no_types, lifting) map_option_cong option.map_comp comp_apply)
  then show "pw m' x = pw m x"
    by (cases "map_of m x"; cases "map_of m' x") (auto simp: pw_def set_creds_def)
qed

lemma collect_all:
  assumes "\<forall>d \<in> set ds. \<forall>x. map_of hdrs (td_ID d) = Some x \<longrightarrow> x \<noteq> [] \<and> readout (td_Response d) = R x \<and>
      (\<forall>r. td_Response d = Some r \<longrightarrow> hr_Body r \<noteq> BodyNil)" and "distinct (map fst rm0)"
  shows "\<exists>rm. foldM (collect_one hdrs) ds rm0 = Some rm \<and> distinct (map fst rm) \<and>
    (\<forall>x. map_of rm x = (if \<exists>d \<in> set ds. map_of hdrs (td_ID d) = Some x then Some (R x) else map_of rm0 x))"
  using assms
proof (induction ds arbitrary: rm0)
  case (Cons d ds)
  show ?case
  proof (cases "map_of hdrs (td_ID d)")
    case None
    then show ?thesis using Cons.IH [of rm0] Cons.prems by (auto simp: collect_one_def)
  next
    case (Some x)
    then have d: "x \<noteq> []" "readout (td_Response d) = R x" "\<And>r. td_Response d = Some r \<Longrightarrow> hr_Body r \<noteq> BodyNil"
      using Cons.prems(1) by auto
    have "collect_one hdrs d rm0 = Some (AList.update x (R x) rm0)"
      using Some d by (auto simp: collect_one_def readout_def split: option.splits body.splits)
    then show ?thesis
      using Cons.IH [of "AList.update x (R x) rm0"] Cons.prems Some by (auto simp: distinct_update)
  qed
qed simp

lemma replies_collected:
  assumes la: "trs_Launch (pm_TRS P) (map snd reqs) w = ((ds, None), w')"
    and R: "distinct (map (\<lambda>(x, rq). rq_ID rq) reqs)" "\<forall>(x, rq) \<in> set reqs. x \<noteq> [] \<and> rq_URL rq = U x"
  shows "length ds = length reqs \<and> (\<exists>rm. foldM (collect_one (map (\<lambda>(x, rq). (rq_ID rq, x)) reqs)) ds [] = Some rm \<and>
    distinct (map fst rm) \<and> (\<forall>x. map_of rm x = (if x \<in> fst ` set reqs then Some (readout (hw (U x))) else None)))"
proof -
  let ?hdrs = "map (\<lambda>(x, rq). (rq_ID rq, x)) reqs"
  have d: "distinct (map rq_ID (map snd reqs))" using R(1) by (simp add: case_prod_unfold comp_def)
  note L = launch [OF la d]
  have ids: "mset (map td_ID ds) = mset (map rq_ID (map snd reqs))" using L by blast
  have len: "length ds = length reqs" using mset_eq_length [OF ids] by simp
  have hdr: "map_of ?hdrs i = Some x \<longleftrightarrow> (\<exists>rq. (x, rq) \<in> set reqs \<and> rq_ID rq = i)" for i x
  proof -
    have "distinct (map fst ?hdrs)" using R(1) by (simp add: case_prod_unfold comp_def)
    then show ?thesis by (force simp: map_of_eq_Some_iff)
  qed
  have "\<forall>d \<in> set ds. \<forall>x. map_of ?hdrs (td_ID d) = Some x \<longrightarrow> x \<noteq> [] \<and> readout (td_Response d) = readout (hw (U x)) \<and>
      (\<forall>r. td_Response d = Some r \<longrightarrow> hr_Body r \<noteq> BodyNil)"
    using L R(2) bodies unfolding hdr by fastforce
  then obtain rm where rm: "foldM (collect_one ?hdrs) ds [] = Some rm" "distinct (map fst rm)"
      "\<And>x. map_of rm x = (if \<exists>d \<in> set ds. map_of ?hdrs (td_ID d) = Some x then Some (readout (hw (U x))) else None)"
    using collect_all [of ds ?hdrs "\<lambda>x. readout (hw (U x))" "[]"] by auto
  have "(\<exists>d \<in> set ds. map_of ?hdrs (td_ID d) = Some x) = (x \<in> fst ` set reqs)" for x
  proof -
    have "set (map td_ID ds) = set (map rq_ID (map snd reqs))" by (rule mset_eq_setD [OF ids])
    then have ids: "td_ID ` set ds = (\<lambda>xr. rq_ID (snd xr)) ` set reqs" by (simp add: image_image)
    show ?thesis
    proof
      assume "x \<in> fst ` set reqs"
      then obtain rq where rq: "(x, rq) \<in> set reqs" by auto
      then have "rq_ID rq \<in> td_ID ` set ds" unfolding ids by force
      then obtain d where "d \<in> set ds" "td_ID d = rq_ID rq" by auto
      then show "\<exists>d \<in> set ds. map_of ?hdrs (td_ID d) = Some x" using rq unfolding hdr by metis
    next
      assume "\<exists>d \<in> set ds. map_of ?hdrs (td_ID d) = Some x"
      then show "x \<in> fst ` set reqs" unfolding hdr by force
    qed
  qed
  then show ?thesis using len rm by auto
qed

lemma sampling_records:
  assumes ok: "\<And>p w. fst (dsp_StorePowerStatus (pm_DSP P) p w) = None"
    and sync: "in_sync m (stat w)" and keys: "distinct (map fst m)"
  shows "\<exists>m' e w'. getHWStatesFromHW P ve m w = Some ((m', e), w') \<and> in_sync m' (stat w') \<and>
    (if e = None then \<forall>x c. map_of m x = Some c \<longrightarrow>
       pw m' x = (if asked (pm_XN P) x c then Some (said P x (readout (hw (status_url c)))) else pw m x)
     else pw m' = pw m)"
proof -
  obtain m1 e1 w1 where v: "updateVaultCreds P ve m w = ((m1, e1), w1)" by (rule pair2E)
  have same: "same_hw m m1" and w1: "stat w1 = stat w" using vault_creds [OF v] by auto
  have pw1: "pw m1 = pw m" by (rule same_hw_pw [OF same])
  have sync1: "in_sync m1 (stat w1)" using sync in_sync_cong [OF pw1] w1 by simp
  obtain ids w2 where cr: "trs_CreateTaskList (pm_TRS P) (length m1) w1 = (ids, w2)" by fastforce
  have ids: "stat w2 = stat w1" "length ids = length m1" "distinct ids" using create [OF cr] by auto
  define reqs where "reqs = status_requests (pm_XN P) m1 ids"
  have "distinct (map fst m1)" using same keys by (simp add: same_hw_def)
  note R = status_requests_facts [OF ids(2,3) this, of "pm_XN P", folded reqs_def]
  obtain ds e3 w3 where la: "trs_Launch (pm_TRS P) (map snd reqs) w2 = ((ds, e3), w3)" by (rule pair2E)
  have w3: "stat w3 = stat w2" by (rule launch_stat [OF la])
  have asked1: "asked (pm_XN P) x c1 = asked (pm_XN P) x c \<and> status_url c1 = status_url c" if "map_of m x = Some c" "map_of m1 x = Some c1" for x c c1
  proof -
    have "set_creds [] [] c1 = set_creds [] [] c" using same that by (metis same_hw_def option.map(2) option.inject)
    then show ?thesis by (cases c; cases c1) (auto simp: set_creds_def asked_def status_url_def)
  qed
  show ?thesis
  proof (cases e1)
    case (Some err)
    then show ?thesis using v pw1 sync1 by (auto simp: getHWStatesFromHW_def)
  next
    case None
    have run: "getHWStatesFromHW P ve m w =
        (if reqs = [] then Some ((m1, None), trs_Close (pm_TRS P) ids w2)
         else case e3 of Some err \<Rightarrow> Some ((m1, Some (''getHWStatesFromHW: TRS Launch() error: '' @ err @ ''.'')), w3)
         | None \<Rightarrow> if length ds < length reqs then None
             else Option.bind (foldM (collect_one (map (\<lambda>(x, rq). (rq_ID rq, x)) reqs)) (take (length reqs) ds) [])
               (\<lambda>rm. map_option (\<lambda>(m, w). ((m, None), w)) (foldM (process_one P) rm (m1, trs_Close (pm_TRS P) ids w3))))"
      using v None cr ids(2) la by (simp add: getHWStatesFromHW_def reqs_def [symmetric] Let_def split: option.split)
    have in1: "(x \<in> fst ` set reqs) = asked (pm_XN P) x c" if mx: "map_of m x = Some c" for x c
    proof -
      obtain c1 where "map_of m1 x = Some c1" using mx pw1 pw_dom [of m x] pw_dom [of m1 x] by (cases "map_of m1 x") auto
      then show ?thesis using R asked1 [OF mx] by simp
    qed
    consider (none) "reqs = []" | (fail) err where "reqs \<noteq> []" "e3 = Some err" | (answered) "reqs \<noteq> []" "e3 = None" by (cases e3) auto
    then show ?thesis
    proof cases
      case none
      then have "\<not> asked (pm_XN P) x c" if "map_of m x = Some c" for x c using in1 [OF that] by simp
      then show ?thesis using none run pw1 sync1 ids(1) close by simp
    next
      case fail
      then show ?thesis using run pw1 sync1 ids(1) w3 by simp
    next
      case answered
      let ?U = "\<lambda>x. status_url (the (map_of m1 x))"
      have U: "\<forall>(x, rq) \<in> set reqs. x \<noteq> [] \<and> rq_URL rq = ?U x"
      proof (intro ballI, clarify)
        fix x rq assume xr: "(x, rq) \<in> set reqs"
        then obtain c where "map_of m1 x = Some c" "rq_URL rq = status_url c" using R by blast
        moreover have "x \<in> fst ` set reqs" using xr by force
        then have "x \<noteq> []" using R no_name by (auto simp: asked_def)
        ultimately show "x \<noteq> [] \<and> rq_URL rq = ?U x" by simp
      qed
      obtain rm where rm: "length ds = length reqs" "foldM (collect_one (map (\<lambda>(x, rq). (rq_ID rq, x)) reqs)) ds [] = Some rm"
          "distinct (map fst rm)" "\<And>x. map_of rm x = (if x \<in> fst ` set reqs then Some (readout (hw (?U x))) else None)"
        using replies_collected [OF la [unfolded answered(2)] _ U] R by auto
      have "pw m1 x \<noteq> None" if "x \<in> set (map fst rm)" for x
      proof -
        have "x \<in> fst ` set reqs" using that rm(4) [of x] map_of_None_keys [of rm x] by (auto split: if_splits)
        then show ?thesis using R pw_dom [of m1 x] by auto
      qed
      moreover have "in_sync m1 (stat (trs_Close (pm_TRS P) ids w3))" using sync1 ids(1) w3 close by simp
      ultimately obtain m' w' where f: "foldM (process_one P) rm (m1, trs_Close (pm_TRS P) ids w3) = Some (m', w')"
          "in_sync m' (stat w')" "\<And>x. pw m' x = (case map_of rm x of None \<Rightarrow> pw m1 x | Some rb \<Rightarrow> Some (said P x rb))"
        using process_all [OF ok _ rm(3)] by blast
      have "pw m' x = (if asked (pm_XN P) x c then Some (said P x (readout (hw (status_url c)))) else pw m x)"
        if mx: "map_of m x = Some c" for x c
      proof -
        obtain c1 where "map_of m1 x = Some c1" using mx pw1 pw_dom [of m x] pw_dom [of m1 x] by (cases "map_of m1 x") auto
        then show ?thesis using f(3) [of x] rm(4) [of x] in1 [OF mx] asked1 [OF mx] pw1 by simp
      qed
      then show ?thesis using run answered rm(1,2) f(1,2) by simp
    qed
  qed
qed

end

subsection \<open>A monitor in the executable world\<close>

text \<open>
  The monitor over the executable world: hardware that answers by URL, and a body that is the power state
  itself.
\<close>

definition sim_said :: "string \<Rightarrow> http_response option" where
  "sim_said st = Some \<lparr>hr_StatusCode = 200, hr_Status = ''200 OK'', hr_Body = BodyRead st\<rparr>"

definition simPM :: "world StorageProvider \<Rightarrow> (string \<Rightarrow> http_response option) \<Rightarrow> world PowerMonitor" where
  "simPM D answer =
     \<lparr>pm_HSM = simHSM, pm_DSP = D, pm_CS = Some \<lparr>cs_GetControllerCredentials = (\<lambda>x w. ((''user'', ''pw'', None), w))\<rparr>,
      pm_DistLock = \<lparr>dl_DistributedTimedLock = (\<lambda>d w. (None, w)), dl_Unlock = (\<lambda>w. (None, w))\<rparr>,
      pm_TRS = simTRS\<lparr>trs_Launch := (\<lambda>rqs w. ((map (\<lambda>rq. \<lparr>td_ID = rq_ID rq, td_Err = None,
        td_Response = answer (rq_URL rq)\<rparr>) rqs, None), w))\<rparr>,
      pm_RT = sim_runtime, pm_XN = simXN,
      pm_RF = \<lparr>rj_ComputerSystem = Inr, rj_Chassis = (\<lambda>s. Inr (s, [])), rj_Outlet = Inr\<rparr>,
      pm_serviceRunning = (\<lambda>w. (True, w)), pm_go_monitorHW = (\<lambda>w. w),
      pm_go_startPowerStatusMaster = (\<lambda>t. on_hw (\<lambda>h. h\<lparr>hw_keepalive := hw_keepalive h @ [''master'']\<rparr>))\<rparr>"

abbreviation simEtcd :: "world StorageProvider" where
  "simEtcd \<equiv> ETCDStorage_provider sim_runtime simXN (sim_etcd 100 1000)"

definition sim_stat :: "world \<Rightarrow> xname \<Rightarrow> PowerStatusComponent option" where
  "sim_stat w x = Option.bind (map_of (sim_db w) (fixUpKey (keySegPowerState @ ''/'' @ x))) as_status"

lemma status_key: "fixUpKey (keySegPowerState @ ''/'' @ x) = ''/pcs/powerstate/'' @ x"
  by (simp add: fixUpKey_def HasPrefix_def)

lemma sim_etcd_store_status:
  assumes "dsp_StorePowerStatus simEtcd p w = (e, w')"
  shows "may_set (sim_stat w) (ps_XName p) (Some p) e (sim_stat w')"
proof -
  have "may_set (map_of (sim_db w)) (''/pcs/powerstate/'' @ ps_XName p) (Some (JPowerStatus p)) e (map_of (sim_db w'))"
    using assms sim.kv_store [of "''/pcs/powerstate/'' @ ps_XName p" "JPowerStatus p" w e w'] status_key [of "ps_XName p"]
    by (simp add: ETCDStorage_provider_def ETCD_StorePowerStatus_def simXN_def kvStore_def)
  then show ?thesis by (auto simp: may_set_def sim_stat_def fun_eq_iff status_key [simplified])
qed

lemma simPM_launch:
  assumes "distinct (map rq_ID rqs)" and "d \<in> set (map (\<lambda>rq. \<lparr>td_ID = rq_ID rq, td_Err = None, td_Response = a (rq_URL rq)\<rparr>) rqs)"
    and "rq \<in> set rqs" and "td_ID d = rq_ID rq"
  shows "td_Response d = a (rq_URL rq)"
  using assms by (auto simp: distinct_map inj_on_def)

lemma simPM_hardware:
  assumes "\<And>p w e w'. dsp_StorePowerStatus D p w = (e, w') \<Longrightarrow> may_set (sim_stat w) (ps_XName p) (Some p) e (sim_stat w')"
    and "\<And>u r. answer u = Some r \<Longrightarrow> hr_Body r \<noteq> BodyNil"
  shows "sampled_hardware (simPM D answer) sim_stat answer"
proof (unfold_locales, goal_cases)
  case (6 rqs w ds w')
  then have "ds = map (\<lambda>rq. \<lparr>td_ID = rq_ID rq, td_Err = None, td_Response = answer (rq_URL rq)\<rparr>) rqs" by (simp add: simPM_def)
  then show ?case using simPM_launch [OF 6(2)] by (simp add: comp_def)
qed (use assms in \<open>auto simp: simPM_def simTRS_def sim_runtime_def sim_stat_def simXN_def sim_create_ids\<close>)

interpretation simpm: sampled_hardware "simPM simEtcd (\<lambda>u. sim_said ''On'')" sim_stat "\<lambda>u. sim_said ''On''"
  by (rule simPM_hardware) (simp_all add: sim_etcd_store_status sim_said_def del: ToLower_Cons)

text \<open>A store of power states that never fails.\<close>

definition simKeep :: "world StorageProvider" where
  "simKeep = simEtcd\<lparr>dsp_StorePowerStatus := (\<lambda>p w. (None, w\<lparr>sim_db :=
     AList.update (''/pcs/powerstate/'' @ ps_XName p) (JPowerStatus p) (sim_db w)\<rparr>))\<rparr>"

lemma simKeep_hardware: "sampled_hardware (simPM simKeep (\<lambda>u. sim_said st)) sim_stat (\<lambda>u. sim_said st)"
  by (rule simPM_hardware) (auto simp: simKeep_def may_set_def sim_stat_def status_key [simplified] sim_said_def fun_eq_iff)

definition sim_cpi :: "xname \<Rightarrow> string \<Rightarrow> componentPowerInfo" where
  "sim_cpi x uri = \<lparr>cpi_PSComp = \<lparr>ps_XName = x, ps_PowerState = ''undefined'', ps_ManagementState = ''unavailable'', ps_Error = [],
     ps_SupportedPowerTransitions = [], ps_LastUpdated = 0\<rparr>, cpi_RfFQDN = ''bmc'', cpi_PowerStatusURI = uri,
     cpi_PowerActionURI = [], cpi_PowerCapURI = [], cpi_BmcUsername = [], cpi_BmcPassword = []\<rparr>"



end
