(* ===== verification/Power_Master.thy ===== *)
theory Power_Master
  imports Power_Monitoring
begin

section \<open>The power status master\<close>

text \<open>
  The instances of the service as a step relation (elections, keep-alive ticks, stops, pauses), the invariant of
  the stored time stamp over its reachable states, and that at most one instance can renew its mastership.
\<close>

subsection \<open>The instances of the service\<close>

text \<open>
  Any number of instances share the database and the lock. \<open>cl_vars\<close> are the package variables of each,
  \<open>cl_last\<close> is the variable \<^verbatim>\<open>lastUpdated\<close> of its keep-alive goroutine while that runs. An election runs under
  the distributed lock and is one step; so is a tick of a keep-alive.
\<close>

record 'w cluster =
  cl_vars :: "nat \<Rightarrow> pm_vars"
  cl_last :: "nat \<Rightarrow> time option"
  cl_world :: 'w

inductive cluster_step :: "'w PowerMonitor \<Rightarrow> 'w cluster \<Rightarrow> 'w cluster \<Rightarrow> bool" for P where
  elect: "cluster_step P s
      (s\<lparr>cl_vars := (cl_vars s)(i := (cl_vars s i)\<lparr>pv_isMaster := (t \<noteq> None)\<rparr>), cl_last := (cl_last s)(i := t), cl_world := w'\<rparr>)"
    if "\<not> pv_isMaster (cl_vars s i)" "getPowerStatusMaster P d (cl_world s) = (t, w')"
| tick: "cluster_step P s (s\<lparr>cl_vars := (cl_vars s)(i := v'), cl_last := (cl_last s)(i := l'), cl_world := w'\<rparr>)"
    if "cl_last s i = Some l" "masterTick P l (cl_vars s i) (cl_world s) = ((v', l'), w')"
| stop: "cluster_step P s (s\<lparr>cl_vars := (cl_vars s)(i := PowerStatusMonitorStop (cl_vars s i))\<rparr>)"
| start: "cluster_step P s (s\<lparr>cl_vars := (cl_vars s)(i := (cl_vars s i)\<lparr>pv_monitorRunning := True\<rparr>)\<rparr>)"
| sleep: "cluster_step P s (s\<lparr>cl_world := time_Sleep (pm_RT P) d (cl_world s)\<rparr>)" if "0 \<le> d"

inductive_cases cluster_stepE [elim]: "cluster_step P s s'"

text \<open>No keep-alive runs yet.\<close>

definition cluster_start :: "'w cluster \<Rightarrow> bool" where
  "cluster_start s \<longleftrightarrow> (\<forall>i. cl_last s i = None \<and> \<not> pv_isMaster (cl_vars s i))"

subsection \<open>What the election relies on\<close>

text \<open>
  The database holds one time stamp; a test-and-set writes it only over the expected one (or where there is
  none); reading the clock gives a time later than any read before. The other calls leave the stamp alone.
\<close>

locale master_stamp =
  fixes P :: "'w PowerMonitor" and stamp :: "'w \<Rightarrow> time option" and clock :: "'w \<Rightarrow> int"
  assumes lock: "dl_DistributedTimedLock (pm_DistLock P) d w = (e, w') \<Longrightarrow> stamp w' = stamp w \<and> clock w \<le> clock w'"
    and release: "dl_Unlock (pm_DistLock P) w = (e, w') \<Longrightarrow> stamp w' = stamp w \<and> clock w \<le> clock w'"
    and go_start: "stamp (pm_go_startPowerStatusMaster P t w) = stamp w \<and> clock w \<le> clock (pm_go_startPowerStatusMaster P t w)"
    and running: "pm_serviceRunning P w = (b, w') \<Longrightarrow> stamp w' = stamp w \<and> clock w \<le> clock w'"
    and sleep: "0 \<le> d \<Longrightarrow> stamp (time_Sleep (pm_RT P) d w) = stamp w \<and> clock w \<le> clock (time_Sleep (pm_RT P) d w)"
    and now: "time_Now (pm_RT P) w = (t, w') \<Longrightarrow> stamp w' = stamp w \<and> clock w < t \<and> t \<le> clock w'"
    and get: "dsp_GetPowerStatusMaster (pm_DSP P) w = ((s, e), w') \<Longrightarrow>
      stamp w' = stamp w \<and> clock w \<le> clock w' \<and> (e = None \<longrightarrow> s = stamp w)"
    and store: "dsp_StorePowerStatusMaster (pm_DSP P) t w = (e, w') \<Longrightarrow>
      clock w \<le> clock w' \<and> (stamp w' = Some t \<or> e \<noteq> None \<and> stamp w' = stamp w)"
    and tas: "dsp_TASPowerStatusMaster (pm_DSP P) new old w = ((ok, e), w') \<Longrightarrow>
      clock w \<le> clock w' \<and> (stamp w' = Some new \<and> stamp w \<in> {None, Some old} \<and> (ok \<or> e \<noteq> None) \<or> stamp w' = stamp w \<and> \<not> ok)"
begin

text \<open>
  The invariant: every running keep-alive holds a stamp at most as new as the stored one, only one holds the
  stored one, and an instance that considers itself master has a keep-alive.
\<close>

definition stamp_inv :: "'w cluster \<Rightarrow> bool" where
  "stamp_inv s \<longleftrightarrow>
     (\<forall>t. stamp (cl_world s) = Some t \<longrightarrow> t \<le> clock (cl_world s)) \<and>
     (\<forall>i l. cl_last s i = Some l \<longrightarrow> (\<exists>t. stamp (cl_world s) = Some t \<and> l \<le> t)) \<and>
     (\<forall>i j l. cl_last s i = Some l \<longrightarrow> cl_last s j = Some l \<longrightarrow> stamp (cl_world s) = Some l \<longrightarrow> i = j) \<and>
     (\<forall>i. pv_isMaster (cl_vars s i) = (cl_last s i \<noteq> None))"

text \<open>The world moved on and the stamp stayed, or a new stamp was written by one instance.\<close>

definition advanced :: "'w \<Rightarrow> 'w \<Rightarrow> bool" where
  "advanced w w' \<longleftrightarrow> clock w \<le> clock w' \<and>
     (stamp w' = stamp w \<or> (\<exists>t. stamp w' = Some t \<and> clock w < t \<and> t \<le> clock w'))"

definition stamped :: "time \<Rightarrow> 'w \<Rightarrow> 'w \<Rightarrow> bool" where
  "stamped t w w' \<longleftrightarrow> clock w \<le> clock w' \<and> stamp w' = Some t \<and> clock w < t \<and> t \<le> clock w'"

lemma unlock_keeps: "stamp (unlock P w) = stamp w \<and> clock w \<le> clock (unlock P w)"
  using release [of w "fst (dl_Unlock (pm_DistLock P) w)" "snd (dl_Unlock (pm_DistLock P) w)"] by (simp add: unlock_def)

lemma election:
  assumes "getPowerStatusMaster P d w = (r, w')"
  shows "case r of None \<Rightarrow> advanced w w'
    | Some t \<Rightarrow> stamped t w w' \<and> (\<forall>s. stamp w = Some s \<longrightarrow> s + 45 * Second \<le> t)"
proof -
  obtain e1 w1 where l: "dl_DistributedTimedLock (pm_DistLock P) d w = (e1, w1)" by fastforce
  obtain t w2 where n: "time_Now (pm_RT P) w1 = (t, w2)" by fastforce
  obtain s e3 w3 where g: "dsp_GetPowerStatusMaster (pm_DSP P) w2 = ((s, e3), w3)" by (rule pair2E)
  obtain e4 w4 where st: "dsp_StorePowerStatusMaster (pm_DSP P) t w3 = (e4, w4)" by fastforce
  obtain ok e5 w5 where ts: "dsp_TASPowerStatusMaster (pm_DSP P) t (the s) w3 = ((ok, e5), w5)" by (rule pair2E)
  note facts = lock [OF l] now [OF n] get [OF g]
  have base: "stamp w3 = stamp w" "clock w < t" "t \<le> clock w3" using facts by auto
  have [simp]: "advanced w (unlock P x)" if "advanced w x" for x
    using that unlock_keeps [of x] by (auto simp: advanced_def)
  have [simp]: "stamped t' w (unlock P (pm_go_startPowerStatusMaster P t' x))" if "stamped t' w x" for t' x
    using that unlock_keeps [of "pm_go_startPowerStatusMaster P t' x"] go_start [of t' x] by (auto simp: stamped_def)
  have a1: "advanced w w1" and a3: "advanced w w3" using facts by (auto simp: advanced_def)
  have "advanced w w4" and a4: "e4 = None \<Longrightarrow> stamped t w w4"
    using store [OF st] base by (auto simp: advanced_def stamped_def)
  have "advanced w w5" and a5: "ok \<Longrightarrow> stamped t w w5"
    using tas [OF ts] base by (auto simp: advanced_def stamped_def)
  have s: "s = stamp w" if "e3 = None" using get [OF g] that facts by simp
  show ?thesis
  proof (cases "e1 = None \<and> e3 = None")
    case False
    then show ?thesis using assms l n g a1 a3 by (auto simp: getPowerStatusMaster_def Let_def split: option.splits)
  next
    case True
    then show ?thesis
    proof (cases s)
      case None
      then show ?thesis
        using True assms l n g st s \<open>advanced w w4\<close> a4
        by (cases e4) (auto simp: getPowerStatusMaster_def Let_def)
    next
      case (Some t0)
      then have "stamp w = Some t0" using s True by simp
      then show ?thesis
        using True Some assms l n g ts a3 \<open>advanced w w5\<close> a5
        by (cases "t0 + powerStatusMasterInterval * 3 * Second > t"; cases e5; cases ok)
           (auto simp: getPowerStatusMaster_def Let_def powerStatusMasterInterval_def)
    qed
  qed
qed

lemma tick_effect:
  assumes "masterTick P l v w = ((v', l'), w')"
  shows "v' = v\<lparr>pv_isMaster := (if l' = None then False else pv_isMaster v)\<rparr> \<and>
    (advanced w w' \<and> (l' = None \<or> l' = Some l) \<or> (\<exists>t. l' = Some t \<and> stamped t w w' \<and> stamp w \<in> {None, Some l}))"
proof -
  obtain b w1 where r: "pm_serviceRunning P w = (b, w1)" by fastforce
  obtain t w2 where n: "time_Now (pm_RT P) w1 = (t, w2)" by fastforce
  obtain ok e w3 where ts: "dsp_TASPowerStatusMaster (pm_DSP P) t l w2 = ((ok, e), w3)" by (rule pair2E)
  note facts = running [OF r] now [OF n] tas [OF ts]
  have "advanced w w1" "advanced w w3" "ok \<Longrightarrow> stamped t w w3 \<and> stamp w \<in> {None, Some l}"
    using facts by (auto simp: advanced_def stamped_def)
  then show ?thesis
    using assms r n ts by (cases e; cases ok) (auto simp: masterTick_def Let_def split: if_splits)
qed

lemma stamp_invI:
  assumes "\<And>t. stamp (cl_world s) = Some t \<Longrightarrow> t \<le> clock (cl_world s)"
    and "\<And>i l. cl_last s i = Some l \<Longrightarrow> \<exists>t. stamp (cl_world s) = Some t \<and> l \<le> t"
    and "\<And>i j l. cl_last s i = Some l \<Longrightarrow> cl_last s j = Some l \<Longrightarrow> stamp (cl_world s) = Some l \<Longrightarrow> i = j"
    and "\<And>i. pv_isMaster (cl_vars s i) = (cl_last s i \<noteq> None)"
  shows "stamp_inv s"
  unfolding stamp_inv_def using assms by blast

lemma stamp_invD:
  assumes "stamp_inv s"
  shows "stamp (cl_world s) = Some t \<Longrightarrow> t \<le> clock (cl_world s)"
    and "cl_last s i = Some l \<Longrightarrow> \<exists>t. stamp (cl_world s) = Some t \<and> l \<le> t"
    and "cl_last s i = Some l \<Longrightarrow> cl_last s j = Some l \<Longrightarrow> stamp (cl_world s) = Some l \<Longrightarrow> i = j"
    and "pv_isMaster (cl_vars s i) = (cl_last s i \<noteq> None)"
  using assms unfolding stamp_inv_def by blast+

text \<open>A keep-alive's stamp is never later than the clock.\<close>

lemma last_le_clock: "stamp_inv s \<Longrightarrow> cl_last s i = Some l \<Longrightarrow> l \<le> clock (cl_world s)"
  using stamp_invD(1,2) by (meson order_trans)

lemma inv_advanced:
  assumes I: "stamp_inv s" and a: "advanced (cl_world s) w'" and l: "l = cl_last s i \<or> l = None"
    and v: "pv_isMaster v = (l \<noteq> None)"
  shows "stamp_inv (s\<lparr>cl_vars := (cl_vars s)(i := v), cl_last := (cl_last s)(i := l), cl_world := w'\<rparr>)"
proof (rule stamp_invI, goal_cases)
  case (1 t)
  then show ?case using stamp_invD(1) [OF I, of t] a by (auto simp: advanced_def)
next
  case (2 j k)
  then have k: "cl_last s j = Some k" using l by (auto split: if_splits)
  then show ?case
    using stamp_invD(2) [OF I k] last_le_clock [OF I k] a by (auto simp: advanced_def)
next
  case (3 j j' k)
  then have k: "cl_last s j = Some k" "cl_last s j' = Some k" using l by (auto split: if_splits)
  have "stamp (cl_world s) = Some k" using 3(3) last_le_clock [OF I k(1)] a by (auto simp: advanced_def)
  then show ?case by (rule stamp_invD(3) [OF I k])
next
  case (4 j)
  then show ?case using stamp_invD(4) [OF I, of j] v by simp
qed

lemma inv_stamped:
  assumes I: "stamp_inv s" and a: "stamped t (cl_world s) w'" and v: "pv_isMaster v"
  shows "stamp_inv (s\<lparr>cl_vars := (cl_vars s)(i := v), cl_last := (cl_last s)(i := Some t), cl_world := w'\<rparr>)"
proof (rule stamp_invI, goal_cases)
  case (1 t')
  then show ?case using a by (simp add: stamped_def)
next
  case (2 j k)
  then show ?case using last_le_clock [OF I, of j k] a by (auto simp: stamped_def split: if_splits)
next
  case (3 j j' k)
  then show ?case using last_le_clock [OF I, of j k] last_le_clock [OF I, of j' k] a by (auto simp: stamped_def split: if_splits)
next
  case (4 j)
  then show ?case using stamp_invD(4) [OF I, of j] v by simp
qed

lemma cluster_step_inv:
  assumes "cluster_step P s s'" and I: "stamp_inv s"
  shows "stamp_inv s'"
  using assms(1)
proof cases
  case (elect i d t w')
  show ?thesis
    using election [OF elect(3)] unfolding elect(1)
    by (cases t) (auto intro: inv_advanced [OF I] inv_stamped [OF I])
next
  case (tick i l v' l' w')
  have m: "pv_isMaster (cl_vars s i)" using stamp_invD(4) [OF I, of i] tick(2) by simp
  show ?thesis
    using tick_effect [OF tick(3)] m tick(2) inv_advanced [OF I, of w' l' i v'] inv_stamped [OF I, of _ w' v' i] unfolding tick(1)
    by auto
next
  case (stop i)
  then show ?thesis using I by (auto simp: stamp_inv_def PowerStatusMonitorStop_def)
next
  case (start i)
  then show ?thesis using I by (auto simp: stamp_inv_def)
next
  case (sleep d)
  then have "advanced (cl_world s) (time_Sleep (pm_RT P) d (cl_world s))" using master_stamp.sleep [OF master_stamp_axioms] by (simp add: advanced_def)
  then have "stamp_inv (s\<lparr>cl_vars := (cl_vars s)(0 := cl_vars s 0), cl_last := (cl_last s)(0 := cl_last s 0),
      cl_world := time_Sleep (pm_RT P) d (cl_world s)\<rparr>)"
    using stamp_invD(4) [OF I, of 0] by (intro inv_advanced [OF I]) simp_all
  then show ?thesis using sleep by simp
qed

lemma cluster_inv:
  assumes "(cluster_step P)\<^sup>*\<^sup>* s0 s" and "cluster_start s0" and "\<And>t. stamp (cl_world s0) = Some t \<Longrightarrow> t \<le> clock (cl_world s0)"
  shows "stamp_inv s"
  using assms(1)
proof (induction rule: rtranclp_induct)
  case base
  then show ?case using assms(2,3) by (intro stamp_invI) (auto simp: cluster_start_def)
next
  case (step s1 s2)
  then show ?case using cluster_step_inv by blast
qed

end

subsection \<open>The executable world\<close>

definition sim_stamp :: "world \<Rightarrow> time option" where
  "sim_stamp w = Option.bind (map_of (sim_db w) (fixUpKey keySegPowerStatusMaster)) as_time"

definition sim_now :: "world \<Rightarrow> int" where
  "sim_now w = sim_clock w - 1"

lemma sim_kv_clock:
  "sim_fault w = (f, w') \<Longrightarrow> sim_clock w' = sim_clock w"
  by (auto simp: sim_fault_def split: list.splits)

interpretation simstamp: master_stamp "simPM simEtcd answer" sim_stamp sim_now
proof (unfold_locales, goal_cases)
  case (7 w s e w')
  then show ?case
    by (auto simp: simPM_def ETCDStorage_provider_def ETCD_GetPowerStatusMaster_def kvGet_def sim_kvi_def sim_Get_def
      sim_stamp_def sim_now_def sim_kv_clock sim_fault_db split: prod.splits if_splits option.splits)
next
  case (8 t w e w')
  then show ?case
    by (auto simp: simPM_def ETCDStorage_provider_def ETCD_StorePowerStatusMaster_def kvStore_def sim_kvi_def sim_Store_def
      sim_stamp_def sim_now_def sim_kv_clock sim_fault_db split: prod.splits if_splits)
next
  case (9 new old w ok e w')
  then show ?case
    by (auto simp: simPM_def ETCDStorage_provider_def ETCD_TASPowerStatusMaster_def kvTAS_def sim_kvi_def sim_TAS_def
      sim_stamp_def sim_now_def sim_kv_clock sim_fault_db split: prod.splits if_splits option.splits)
qed (auto simp: simPM_def sim_stamp_def sim_now_def sim_runtime_def on_hw_def)

definition sim_vars :: pm_vars where
  "sim_vars = \<lparr>pv_hwStateMap = [], pv_monitorRunning = True, pv_isMaster = False, pv_sampleInterval = 10 * Second,
     pv_distLockMaxTime = 30 * Second, pv_vaultEnabled = True\<rparr>"

definition sim_cluster :: "world cluster" where
  "sim_cluster = \<lparr>cl_vars = (\<lambda>_. sim_vars), cl_last = (\<lambda>_. None), cl_world = sim_with [] [] []\<rparr>"




end
