(* ===== verification/Power_Capping.thy ===== *)
theory Power_Capping
  imports Domain_Globals Go_Json
begin

section \<open>Power capping\<close>

text \<open>
  \<^verbatim>\<open>internal/domain/power-cap.go\<close>: a snapshot or patch request becomes a task; a goroutine generates one or more
  operations per component from the HSM's data, checks them, sends them over Redfish, records each
  result, and finally folds the operations into the task (compression). The reaper deletes expired tasks
  and the oldest completed ones above a limit.

  \<open>PowerCapEnv\<close> adds to the globals of the domain layer: the validation of xnames (package
  \<^verbatim>\<open>xnametypes\<close>), the decoding of a Redfish body into the struct \<^verbatim>\<open>Power\<close>, and starting the goroutine. URLs
  built from the HSM's data are taken to parse. \<^verbatim>\<open>PowerConsumedWatts\<close> is converted by the code and not read
  afterwards; it is left out.
\<close>

subsection \<open>Redfish data\<close>

record HpePowerLimitRanges =
  hpr_MaximumPowerLimit :: "int option"
  hpr_MinimumPowerLimit :: "int option"

record PowerLimitOEMCray =
  plc_Min :: "int option"
  plc_Max :: "int option"

record PowerControlOEMCray =
  oec_PowerLimit :: "PowerLimitOEMCray option"
  oec_PowerResetWatts :: "int option"

text \<open>
  \<open>rpc_Cray\<close> is \<^verbatim>\<open>OEM.Cray\<close> where neither pointer is nil, \<open>rpc_LimitInWatts\<close> is \<^verbatim>\<open>PowerLimit.LimitInWatts\<close> where
  neither is. Of the limits of an Apollo 6500 only the watts are read.
\<close>

record rf_PowerControl =
  rpc_Name :: string
  rpc_Cray :: "PowerControlOEMCray option"
  rpc_PowerCapacityWatts :: "int option"
  rpc_LimitInWatts :: "int option"

record Power =
  pow_Name :: string
  pow_PowerCtl :: "rf_PowerControl list"
  pow_hasError :: bool
  pow_ActualPowerLimits :: "int option list"
  pow_PowerLimitRanges :: "HpePowerLimitRanges list"
  pow_PowerLimits :: "int option list"
  pow_PhysicalContext :: string
  pow_SetPoint :: "int option"
  pow_SettingRangeMax :: "int option"
  pow_SettingRangeMin :: "int option"

record 'w PowerCapEnv =
  pe_G :: "'w DOMAIN_GLOBALS"
  pe_ValidateCompIDs :: "xname list \<Rightarrow> bool \<Rightarrow> xname list \<times> xname list"
  pe_Unmarshal :: "string \<Rightarrow> error + Power"
  pe_go_doPowerCapTask :: "uuid \<Rightarrow> 'w \<Rightarrow> 'w"

definition isHpeServer :: "string \<Rightarrow> bool" where
  "isHpeServer powerURL = Contains powerURL ''Chassis/1/Power''"

definition isHpeApollo6500 :: "string \<Rightarrow> bool" where
  "isHpeApollo6500 powerURL = Contains powerURL ''AccPowerService/PowerLimit''"

subsection \<open>Requests\<close>

definition start_task :: "'w PowerCapEnv \<Rightarrow> PowerCapTask \<Rightarrow> ('w, uuid Passback) io" where
  "start_task E task w =
     (case dsp_StorePowerCapTask (g_DSP (pe_G E)) task w of
        (Some err, w) \<Rightarrow> (BuildErrorPassback StatusInternalServerError (Some err), w)
      | (None, w) \<Rightarrow> (BuildSuccessPassback StatusOK (pct_TaskID task), pe_go_doPowerCapTask E (pct_TaskID task) w))"

definition SnapshotPowerCap :: "'w PowerCapEnv \<Rightarrow> xname list \<Rightarrow> ('w, uuid Passback) io" where
  "SnapshotPowerCap E parameters w =
     (let (task, w) = NewPowerCapSnapshotTask (g_RT (pe_G E)) parameters (g_ExpireTimeMins (pe_G E)) w
      in start_task E task w)"

definition PatchPowerCap :: "'w PowerCapEnv \<Rightarrow> PowerCapComponentParameter list \<Rightarrow> ('w, uuid Passback) io" where
  "PatchPowerCap E parameters w =
     (let (task, w) = NewPowerCapPatchTask (g_RT (pe_G E)) parameters (g_ExpireTimeMins (pe_G E)) w
      in start_task E task w)"

record PowerCapTaskResp =
  pr_TaskID :: uuid
  pr_Type :: string
  pr_TaskCreateTime :: time
  pr_AutomaticExpirationTime :: time
  pr_TaskStatus :: string
  pr_TaskCounts :: PowerCapTaskCounts
  pr_Components :: "PowerCapComponent list"

definition count_op :: "PowerCapOperation \<Rightarrow> PowerCapTaskCounts \<Rightarrow> PowerCapTaskCounts" where
  "count_op op n =
     (let n = (if pco_Status op = PowerCapOpStatusNew then n\<lparr>pcn_New := pcn_New n + 1\<rparr>
               else if pco_Status op = PowerCapOpStatusInProgress then n\<lparr>pcn_InProgress := pcn_InProgress n + 1\<rparr>
               else if pco_Status op = PowerCapOpStatusFailed then n\<lparr>pcn_Failed := pcn_Failed n + 1\<rparr>
               else if pco_Status op = PowerCapOpStatusSucceeded then n\<lparr>pcn_Succeeded := pcn_Succeeded n + 1\<rparr>
               else if pco_Status op = PowerCapOpStatusUnsupported then n\<lparr>pcn_Unsupported := pcn_Unsupported n + 1\<rparr>
               else n)
      in n\<lparr>pcn_Total := pcn_Total n + 1\<rparr>)"

definition merge_comp :: "PowerCapComponent \<Rightarrow> PowerCapComponent \<Rightarrow> PowerCapComponent" where
  "merge_comp new c =
     (if pcc_Error new \<noteq> []
      then c\<lparr>pcc_Error := (if pcc_Error c \<noteq> [] then pcc_Error c @ ''; '' else pcc_Error c) @ pcc_Error new\<rparr>
      else
        let c = (if pcc_Limits new \<noteq> None \<and> pcc_Limits c \<noteq> None then c\<lparr>pcc_Limits := pcc_Limits new\<rparr> else c)
        in c\<lparr>pcc_PowerCapLimits := pcc_PowerCapLimits c @ pcc_PowerCapLimits new\<rparr>)"

definition add_comp ::
  "PowerCapOperation \<Rightarrow> (xname, PowerCapComponent) gomap \<Rightarrow> (xname, PowerCapComponent) gomap" where
  "add_comp op m =
     AList.update (pcc_Xname (pco_Component op))
       (case map_of m (pcc_Xname (pco_Component op)) of
          None \<Rightarrow> pco_Component op
        | Some c \<Rightarrow> merge_comp (pco_Component op) c) m"

definition buildPowerCapResponse :: "PowerCapTask \<Rightarrow> PowerCapOperation list \<Rightarrow> bool \<Rightarrow> PowerCapTaskResp" where
  "buildPowerCapResponse task ops full =
     (let rsp = \<lparr>pr_TaskID = pct_TaskID task, pr_Type = pct_Type task, pr_TaskCreateTime = pct_TaskCreateTime task,
           pr_AutomaticExpirationTime = pct_AutomaticExpirationTime task, pr_TaskStatus = pct_TaskStatus task,
           pr_TaskCounts = zero_pc_counts, pr_Components = []\<rparr>
      in if pct_IsCompressed task
         then rsp\<lparr>pr_TaskCounts := pct_TaskCounts task, pr_Components := (if full then pct_Components task else [])\<rparr>
         else rsp\<lparr>pr_TaskCounts := fold count_op ops zero_pc_counts,
                  pr_Components := (if full then map snd (fold add_comp ops []) else [])\<rparr>)"

fun get_powercap_loop ::
  "'w PowerCapEnv \<Rightarrow> PowerCapTask list \<Rightarrow> PowerCapTaskResp list \<Rightarrow> ('w, PowerCapTaskResp list Passback) io" where
  "get_powercap_loop E [] acc w = (BuildSuccessPassback StatusOK acc, w)"
| "get_powercap_loop E (task # tasks) acc w =
     (if pct_IsCompressed task then get_powercap_loop E tasks (acc @ [buildPowerCapResponse task [] False]) w
      else case dsp_GetAllPowerCapOperationsForTask (g_DSP (pe_G E)) (pct_TaskID task) w of
        ((_, Some err), w) \<Rightarrow> (BuildErrorPassback StatusInternalServerError (Some err), w)
      | ((ops, None), w) \<Rightarrow> get_powercap_loop E tasks (acc @ [buildPowerCapResponse task ops False]) w)"

definition GetPowerCap :: "'w PowerCapEnv \<Rightarrow> ('w, PowerCapTaskResp list Passback) io" where
  "GetPowerCap E w =
     (case dsp_GetAllPowerCapTasks (g_DSP (pe_G E)) w of
        ((_, Some err), w) \<Rightarrow> (BuildErrorPassback StatusInternalServerError (Some err), w)
      | ((tasks, None), w) \<Rightarrow> get_powercap_loop E tasks [] w)"

definition GetPowerCapQuery :: "'w PowerCapEnv \<Rightarrow> uuid \<Rightarrow> ('w, PowerCapTaskResp Passback) io" where
  "GetPowerCapQuery E taskID w =
     (case dsp_GetPowerCapTask (g_DSP (pe_G E)) taskID w of
        ((_, Some err), w) \<Rightarrow> (BuildErrorPassback StatusInternalServerError (Some err), w)
      | ((None, None), w) \<Rightarrow> (BuildErrorPassback StatusNotFound (Some ''TaskID does not exist''), w)
      | ((Some task, None), w) \<Rightarrow>
          if pct_IsCompressed task then (BuildSuccessPassback StatusOK (buildPowerCapResponse task [] True), w)
          else case dsp_GetAllPowerCapOperationsForTask (g_DSP (pe_G E)) taskID w of
            ((_, Some err), w) \<Rightarrow> (BuildErrorPassback StatusInternalServerError (Some err), w)
          | ((ops, None), w) \<Rightarrow> (BuildSuccessPassback StatusOK (buildPowerCapResponse task ops True), w))"

subsection \<open>Compression and the reaper\<close>

definition delete_ops :: "'w PowerCapEnv \<Rightarrow> uuid \<Rightarrow> PowerCapOperation list \<Rightarrow> 'w \<Rightarrow> 'w" where
  "delete_ops E tid ops w =
     fold (\<lambda>op w. snd (dsp_DeletePowerCapOperation (g_DSP (pe_G E)) tid (pco_OperationID op) w)) ops w"

definition compressAndCompleteTask :: "'w PowerCapEnv \<Rightarrow> PowerCapTask \<Rightarrow> 'w \<Rightarrow> 'w" where
  "compressAndCompleteTask E task w =
     (case dsp_GetAllPowerCapOperationsForTask (g_DSP (pe_G E)) (pct_TaskID task) w of
        ((_, Some err), w) \<Rightarrow> w
      | ((ops, None), w) \<Rightarrow>
          let rsp = buildPowerCapResponse task ops True in
          (case dsp_StorePowerCapTask (g_DSP (pe_G E))
                  (task\<lparr>pct_TaskCounts := pr_TaskCounts rsp, pct_Components := pr_Components rsp,
                        pct_TaskStatus := PowerCapTaskStatusCompleted, pct_IsCompressed := True\<rparr>) w of
             (Some err, w) \<Rightarrow> w
           | (None, w) \<Rightarrow> delete_ops E (pct_TaskID task) ops w))"

definition delete_task :: "'w PowerCapEnv \<Rightarrow> PowerCapTask \<Rightarrow> 'w \<Rightarrow> 'w" where
  "delete_task E task w =
     (case dsp_GetAllPowerCapOperationsForTask (g_DSP (pe_G E)) (pct_TaskID task) w of
        ((_, Some err), w) \<Rightarrow> w
      | ((ops, None), w) \<Rightarrow>
          snd (dsp_DeletePowerCapTask (g_DSP (pe_G E)) (pct_TaskID task) (delete_ops E (pct_TaskID task) ops w)))"

definition reap_task :: "'w PowerCapEnv \<Rightarrow> PowerCapTask \<Rightarrow> int \<times> 'w \<Rightarrow> int \<times> 'w" where
  "reap_task E task s =
     (let (now, w) = time_Now (g_RT (pe_G E)) (snd s) in
      if pct_AutomaticExpirationTime task < now then (fst s, delete_task E task w)
      else if pct_TaskStatus task = PowerCapTaskStatusCompleted
      then (fst s + 1, if pct_IsCompressed task then w else compressAndCompleteTask E task w)
      else (fst s, w))"

text \<open>
  \<open>tasksToDelete\<close> is an array of \<open>n\<close> slots filled from the front; its empty slots are left out here. A record goes
  before the first one that is younger, the others move up and the last falls out.
\<close>

fun insert_older :: "nat \<Rightarrow> PowerCapTask \<Rightarrow> PowerCapTask list \<Rightarrow> PowerCapTask list" where
  "insert_older 0 t ts = ts"
| "insert_older (Suc n) t [] = [t]"
| "insert_older (Suc n) t (u # us) =
     (if pct_TaskCreateTime u > pct_TaskCreateTime t then t # take n (u # us) else u # insert_older n t us)"

definition oldest_tasks :: "nat \<Rightarrow> PowerCapTask list \<Rightarrow> PowerCapTask list" where
  "oldest_tasks n tasks =
     fold (\<lambda>t acc. if pct_TaskStatus t = PowerCapTaskStatusCompleted then insert_older n t acc else acc) tasks []"

text \<open>A slot that stayed empty is a nil pointer and makes the last loop panic.\<close>

definition powerCapReaper :: "'w PowerCapEnv \<Rightarrow> 'w \<Rightarrow> 'w option" where
  "powerCapReaper E w =
     (case dsp_GetAllPowerCapTasks (g_DSP (pe_G E)) w of
        ((_, Some err), w) \<Rightarrow> Some w
      | ((tasks, None), w) \<Rightarrow>
          if tasks = [] then Some w
          else
            let (numComplete, w) = fold (reap_task E) tasks (0, w);
                numDelete = numComplete - g_MaxNumCompleted (pe_G E)
            in if g_MaxNumCompleted (pe_G E) \<le> 0 \<or> numDelete \<le> 0 then Some w
               else
                 let victims = oldest_tasks (nat numDelete) tasks
                 in if int (length victims) < numDelete then None else Some (fold (delete_task E) victims w))"

subsection \<open>Payloads\<close>

text \<open>
  The structs marshalled into request bodies, with the members that are set. The index of a control past the
  end of the list of controls panics, as does the first limit of an empty list.
\<close>

definition json_watts :: "int option \<Rightarrow> string" where
  "json_watts v = (case v of None \<Rightarrow> ''null'' | Some n \<Rightarrow> Itoa n)"

definition control_json :: "(string, PowerCap) gomap \<Rightarrow> PowerCapControls \<Rightarrow> string option" where
  "control_json caps limit =
     (case ctl_CurrentValue limit of
        None \<Rightarrow> None
      | Some v \<Rightarrow>
          let path = (case map_of caps (ctl_Name limit) of None \<Rightarrow> [] | Some c \<Rightarrow> pc_Path c);
              oid = (if path = [] then [] else [(''@odata.id'', json_string path)])
          in Some (json_object (if v > 0
                   then oid @ [(''ControlMode'', json_string ''Automatic''), (''SetPoint'', Itoa v)]
                   else oid @ [(''ControlMode'', json_string ''Disabled'')])))"

definition limit_json :: "int option \<Rightarrow> string" where
  "limit_json v = json_object [(''PowerLimit'', json_object [(''LimitInWatts'', json_watts v)])]"

definition set_limit :: "(string, PowerCap) gomap \<Rightarrow> PowerCapControls \<Rightarrow> string list \<Rightarrow> string list option" where
  "set_limit caps limit ctls =
     (let idx = (case map_of caps (ctl_Name limit) of None \<Rightarrow> 0 | Some c \<Rightarrow> pc_PwrCtlIndex c)
      in if idx < length ctls then Some (ctls[idx := limit_json (ctl_CurrentValue limit)]) else None)"

definition generatePowerCapPayload :: "PowerCapOperation \<Rightarrow> string option" where
  "generatePowerCapPayload op =
     (let limits = pcc_PowerCapLimits (pco_Component op) in
      if pco_PowerCapControlsCount op > 0
      then map_option (\<lambda>ms. json_object [(''Members'', json_array ms)])
             (foldM (\<lambda>l acc. map_option (\<lambda>m. acc @ [m]) (control_json (pco_PowerCaps op) l)) limits [])
      else if isHpeApollo6500 (pco_PowerCapURI op)
      then (case limits of
              [] \<Rightarrow> None
            | l # _ \<Rightarrow> Some (json_object [(''PowerLimits'', json_array [json_object
                [(''PowerLimitInWatts'', json_watts (ctl_CurrentValue l)), (''ZoneNumber'', ''0'')]])]))
      else map_option (\<lambda>ctls. json_object (if ctls = [] then [] else [(''PowerControl'', json_array ctls)]))
             (foldM (set_limit (pco_PowerCaps op)) limits (replicate (pco_PowerCapCtlInfoCount op) ''{}'')))"

subsection \<open>Reading limits\<close>

definition or_zero :: "int option \<Rightarrow> int" where
  "or_zero v = (case v of None \<Rightarrow> 0 | Some n \<Rightarrow> n)"

definition apollo_control :: "Power \<Rightarrow> nat \<times> int option \<Rightarrow> PowerCapControls" where
  "apollo_control p ipl =
     (let rg = (if fst ipl < length (pow_PowerLimitRanges p) then Some (pow_PowerLimitRanges p ! fst ipl) else None)
      in \<lparr>ctl_Name = ''Node Power Limit'', ctl_CurrentValue = Some (or_zero (snd ipl)),
          ctl_MaximumValue = Option.bind rg hpr_MaximumPowerLimit, ctl_MinimumValue = Option.bind rg hpr_MinimumPowerLimit\<rparr>)"

definition cray_limit :: "rf_PowerControl \<Rightarrow> PowerLimitOEMCray option" where
  "cray_limit pc = Option.bind (rpc_Cray pc) oec_PowerLimit"

definition standard_control :: "string \<Rightarrow> rf_PowerControl \<Rightarrow> PowerCapControls" where
  "standard_control uri pc =
     \<lparr>ctl_Name = (if isHpeServer uri then ''Node Power Limit'' else rpc_Name pc),
      ctl_CurrentValue = Some (or_zero (rpc_LimitInWatts pc)),
      ctl_MaximumValue = (case cray_limit pc of Some l \<Rightarrow> plc_Max l | None \<Rightarrow> rpc_PowerCapacityWatts pc),
      ctl_MinimumValue = (case cray_limit pc of Some l \<Rightarrow> plc_Min l | None \<Rightarrow> None)\<rparr>"

definition standard_limits :: "rf_PowerControl \<Rightarrow> PowerCapabilities" where
  "standard_limits pc =
     (case rpc_Cray pc of
        Some c \<Rightarrow> \<lparr>cap_HostLimitMax = Option.bind (oec_PowerLimit c) plc_Max,
                   cap_HostLimitMin = Option.bind (oec_PowerLimit c) plc_Min, cap_PowerupPower = oec_PowerResetWatts c\<rparr>
      | None \<Rightarrow> \<lparr>cap_HostLimitMax = rpc_PowerCapacityWatts pc, cap_HostLimitMin = None, cap_PowerupPower = None\<rparr>)"

definition parsePowerCapRFData ::
  "PowerCapOperation \<Rightarrow> Power \<Rightarrow> error + (PowerCapControls list \<times> PowerCapabilities option)" where
  "parsePowerCapRFData op p =
     (if pow_hasError p then Inl ''Invalid license for power capping''
      else if pco_PowerCapControlsCount op > 0
      then Inr ([\<lparr>ctl_Name = pow_Name p, ctl_CurrentValue = Some (or_zero (pow_SetPoint p)),
                 ctl_MaximumValue = pow_SettingRangeMax p, ctl_MinimumValue = pow_SettingRangeMin p\<rparr>],
                if ToLower (pow_PhysicalContext p) = ''chassis''
                then Some \<lparr>cap_HostLimitMax = pow_SettingRangeMax p, cap_HostLimitMin = pow_SettingRangeMin p,
                           cap_PowerupPower = None\<rparr>
                else None)
      else if pow_ActualPowerLimits p \<noteq> [] \<or> pow_PowerLimitRanges p \<noteq> [] \<or> pow_PowerLimits p \<noteq> []
      then let cs = map (apollo_control p) (enumerate 0 (pow_PowerLimits p))
           in Inr (cs, case cs of [] \<Rightarrow> None
                       | c # _ \<Rightarrow> Some \<lparr>cap_HostLimitMax = ctl_MaximumValue c, cap_HostLimitMin = ctl_MinimumValue c,
                                        cap_PowerupPower = None\<rparr>)
      else Inr (map (standard_control (pco_PowerCapURI op)) (pow_PowerCtl p),
                case pow_PowerCtl p of [] \<Rightarrow> None | pc # _ \<Rightarrow> Some (standard_limits pc)))"

subsection \<open>Generating operations\<close>

record 'w pc_run =
  run_task :: PowerCapTask
  run_goodOps :: "PowerCapOperation list"
  run_world :: 'w

text \<open>An operation is added to the task and stored; an error is only logged.\<close>

definition record_op :: "'w PowerCapEnv \<Rightarrow> PowerCapOperation \<Rightarrow> 'w pc_run \<Rightarrow> 'w pc_run" where
  "record_op E op r =
     r\<lparr>run_task := (run_task r)\<lparr>pct_OperationIDs := pct_OperationIDs (run_task r) @ [pco_OperationID op]\<rparr>,
       run_world := snd (dsp_StorePowerCapOperation (g_DSP (pe_G E)) op (run_world r))\<rparr>"

definition new_op :: "'w PowerCapEnv \<Rightarrow> 'w pc_run \<Rightarrow> PowerCapOperation \<times> 'w pc_run" where
  "new_op E r =
     (let (op, w) = NewPowerCapOperation (g_RT (pe_G E)) (pct_TaskID (run_task r)) (pct_Type (run_task r)) (run_world r)
      in (op, r\<lparr>run_world := w\<rparr>))"

definition fail_op :: "'w PowerCapEnv \<Rightarrow> error \<Rightarrow> xname \<Rightarrow> 'w pc_run \<Rightarrow> 'w pc_run" where
  "fail_op E msg x r =
     (let (op, r) = new_op E r
      in record_op E (op\<lparr>pco_Status := PowerCapOpStatusFailed,
           pco_Component := (pco_Component op)\<lparr>pcc_Xname := x, pcc_Error := msg\<rparr>\<rparr>) r)"

type_synonym patch_map = "(xname, (string, int) gomap) gomap"

definition patch_one :: "PowerCapComponentParameter \<Rightarrow> patch_map \<Rightarrow> patch_map" where
  "patch_one param m =
     AList.update (cmp_Xname param)
       (fold (\<lambda>c. AList.update (ccp_Name c) (ccp_Value c)) (cmp_Controls param)
         (case map_of m (cmp_Xname param) of None \<Rightarrow> [] | Some ctlMap \<Rightarrow> ctlMap)) m"

text \<open>The xnames of the task and the requested values; \<open>None\<close> when the parameters are nil.\<close>

definition task_parameters :: "PowerCapTask \<Rightarrow> (bool \<times> xname list \<times> patch_map) option" where
  "task_parameters task =
     (if pct_Type task = PowerCapTaskTypePatch
      then map_option (\<lambda>ps. (True, map cmp_Xname ps, fold patch_one ps [])) (pct_PatchParameters task)
      else map_option (\<lambda>xs. (False, xs, [])) (pct_SnapshotParameters task))"

definition requested :: "patch_map \<Rightarrow> xname \<Rightarrow> string \<Rightarrow> int option" where
  "requested pm x name = Option.bind (map_of pm x) (\<lambda>m. map_of m name)"

text \<open>The operations for one component, before they are checked.\<close>

definition deep_uri :: "string \<Rightarrow> string" where
  "deep_uri uri = path_Dir (path_Dir uri) @ ''/Controls.Deep''"

fun snapshot_ops ::
  "'w PowerCapEnv \<Rightarrow> (string, PowerCap) gomap \<Rightarrow> 'w pc_run \<Rightarrow> PowerCapOperation list \<times> 'w pc_run" where
  "snapshot_ops E [] r = ([], r)"
| "snapshot_ops E ((name, c) # caps) r =
     (let (op, r) = new_op E r; (ops, r) = snapshot_ops E caps r
      in (op\<lparr>pco_PowerCapURI := pc_Path c, pco_PowerCaps := [(name, c)]\<rparr> # ops, r))"

definition temp_ops ::
  "'w PowerCapEnv \<Rightarrow> bool \<Rightarrow> patch_map \<Rightarrow> xname \<Rightarrow> HsmData \<Rightarrow> 'w pc_run \<Rightarrow> PowerCapOperation list \<times> 'w pc_run" where
  "temp_ops E patch pm x d r =
     (if hd_PowerCapControlsCount d > 0
      then if patch
        then (case find (\<lambda>(name, c). requested pm x name \<noteq> None) (hd_PowerCaps d) of
                None \<Rightarrow> ([], r)
              | Some (name, c) \<Rightarrow>
                  let (op, r) = new_op E r
                  in ([op\<lparr>pco_PowerCapURI := deep_uri (pc_Path c), pco_PowerCaps := hd_PowerCaps d\<rparr>], r))
        else snapshot_ops E (hd_PowerCaps d) r
      else
        let (op, r) = new_op E r
        in ([op\<lparr>pco_PowerCapURI := hd_PowerCapURI d, pco_PowerCaps := hd_PowerCaps d\<rparr>], r))"

text \<open>
  The range check of one requested control: the state is the operation and whether it has a valid control.
  \<open>-1\<close> stands for a limit the HSM does not know, and \<open>0\<close> turns capping off.
\<close>

definition op_fail :: "error \<Rightarrow> PowerCapOperation \<Rightarrow> PowerCapOperation" where
  "op_fail msg op =
     op\<lparr>pco_Status := PowerCapOpStatusFailed, pco_Component := (pco_Component op)\<lparr>pcc_Error :=
       (if pcc_Error (pco_Component op) \<noteq> [] then pcc_Error (pco_Component op) @ ''; '' else []) @ msg\<rparr>\<rparr>"

definition below_min :: "int \<Rightarrow> PowerCap \<Rightarrow> bool" where
  "below_min val c \<longleftrightarrow> pc_Min c \<noteq> - 1 \<and> val \<noteq> 0 \<and> val < pc_Min c"

definition above_max :: "int \<Rightarrow> PowerCap \<Rightarrow> bool" where
  "above_max val c \<longleftrightarrow> pc_Max c \<noteq> - 1 \<and> val > pc_Max c"

definition check_control ::
  "patch_map \<Rightarrow> xname \<Rightarrow> string \<times> PowerCap \<Rightarrow> PowerCapOperation \<times> bool \<Rightarrow> PowerCapOperation \<times> bool" where
  "check_control pm x nc s =
     (case requested pm x (fst nc) of
        None \<Rightarrow> s
      | Some val \<Rightarrow>
          if below_min val (snd nc)
          then (op_fail (''Control ('' @ fst nc @ '') value ('' @ Itoa val @ '') is less than minimum ('' @
                  Itoa (pc_Min (snd nc)) @ '')'') (fst s), snd s)
          else if above_max val (snd nc)
          then (op_fail (''Control ('' @ fst nc @ '') value ('' @ Itoa val @ '') is more than maximum ('' @
                  Itoa (pc_Max (snd nc)) @ '')'') (fst s), snd s)
          else ((fst s)\<lparr>pco_Component := (pco_Component (fst s))\<lparr>pcc_PowerCapLimits :=
                   pcc_PowerCapLimits (pco_Component (fst s)) @
                   [\<lparr>ctl_Name = fst nc, ctl_CurrentValue = Some val,
                     ctl_MaximumValue = (if pc_Max (snd nc) \<noteq> - 1 then Some (pc_Max (snd nc)) else None),
                     ctl_MinimumValue = (if pc_Min (snd nc) \<noteq> - 1 then Some (pc_Min (snd nc)) else None)\<rparr>]\<rparr>\<rparr>, True))"

abbreviation "RoleManagement \<equiv> ''Management''"

text \<open>The checked operation, and whether it is to be sent.\<close>

definition check_op ::
  "'w PowerCapEnv \<Rightarrow> bool \<Rightarrow> patch_map \<Rightarrow> xname \<Rightarrow> HsmData \<Rightarrow> PowerCapOperation \<Rightarrow> PowerCapOperation \<times> bool" where
  "check_op E patch pm x d op =
     (let op = op\<lparr>pco_Component := (pco_Component op)\<lparr>pcc_Xname := x\<rparr>\<rparr>;
          failed = (\<lambda>st msg. (op\<lparr>pco_Status := st, pco_Component := (pco_Component op)\<lparr>pcc_Error := msg\<rparr>\<rparr>, False));
          (op, good) =
            (if hd_RfFQDN d = [] then failed PowerCapOpStatusFailed ''Missing RfFQDN''
             else if bc_Type (hd_BaseData d) \<noteq> HMSType_String (g_XN (pe_G E)) Node
             then failed PowerCapOpStatusUnsupported (''Type, '' @ bc_Type (hd_BaseData d) @ '' unsupported for power capping'')
             else if pco_PowerCapURI op = [] then failed PowerCapOpStatusFailed ''Missing Power Cap URI''
             else if bc_Role (hd_BaseData d) = RoleManagement
             then failed PowerCapOpStatusUnsupported ''Power capping Management nodes is not supported''
             else if patch \<and> isHpeApollo6500 (pco_PowerCapURI op) \<and> hd_PowerCapTargetURI d = []
             then failed PowerCapOpStatusFailed ''Missing Power Cap Target URI''
             else if patch then fold (check_control pm x) (pco_PowerCaps op) (op, False)
             else (op, True))
      in if good
         then (op\<lparr>pco_Status := PowerCapOpStatusInProgress, pco_RfFQDN := hd_RfFQDN d,
                 pco_PowerCapControlsCount := hd_PowerCapControlsCount d, pco_PowerCapCtlInfoCount := hd_PowerCapCtlInfoCount d,
                 pco_PowerCapTargetURI := hd_PowerCapTargetURI d\<rparr>, True)
         else (op, False))"

definition check_and_record ::
  "'w PowerCapEnv \<Rightarrow> bool \<Rightarrow> patch_map \<Rightarrow> xname \<Rightarrow> HsmData \<Rightarrow> PowerCapOperation \<Rightarrow> 'w pc_run \<Rightarrow> 'w pc_run" where
  "check_and_record E patch pm x d op r =
     (let (op, good) = check_op E patch pm x d op
      in record_op E op (if good then r\<lparr>run_goodOps := run_goodOps r @ [op]\<rparr> else r))"

definition undefined_controls ::
  "'w PowerCapEnv \<Rightarrow> xname \<Rightarrow> HsmData \<Rightarrow> (string, int) gomap \<Rightarrow> 'w pc_run \<Rightarrow> 'w pc_run" where
  "undefined_controls E x d ctlMap r =
     fold (\<lambda>name. if map_of (hd_PowerCaps d) name = None
             then fail_op E (''Skipping undefined control '' @ quoted name) x else id) (map fst ctlMap) r"

definition generate_one ::
  "'w PowerCapEnv \<Rightarrow> bool \<Rightarrow> patch_map \<Rightarrow> xname \<times> HsmData \<Rightarrow> 'w pc_run \<Rightarrow> 'w pc_run" where
  "generate_one E patch pm xd r =
     (let go_on = (\<lambda>r. let (ops, r) = temp_ops E patch pm (fst xd) (snd xd) r
                       in fold (check_and_record E patch pm (fst xd) (snd xd)) ops r)
      in if patch
         then (case map_of pm (fst xd) of
                 None \<Rightarrow> r
               | Some ctlMap \<Rightarrow>
                   let r = undefined_controls E (fst xd) (snd xd) ctlMap r
                   in if list_ex (\<lambda>(name, v). map_of (hd_PowerCaps (snd xd)) name \<noteq> None) ctlMap then go_on r else r)
         else go_on r)"

subsection \<open>Sending operations\<close>

definition zero_op :: PowerCapOperation where
  "zero_op = \<lparr>pco_OperationID = [], pco_TaskID = [], pco_Type = [], pco_Status = [],
     pco_Component = \<lparr>pcc_Xname = [], pcc_Error = [], pcc_Limits = None, pcc_PowerCapLimits = []\<rparr>,
     pco_RfFQDN = [], pco_PowerCapURI = [], pco_PowerCapTargetURI = [], pco_PowerCapControlsCount = 0,
     pco_PowerCapCtlInfoCount = 0, pco_PowerCaps = []\<rparr>"

text \<open>A snapshot is read with the prototype's GET. A payload that panics makes the goroutine panic.\<close>

definition cap_request :: "'w PowerCapEnv \<Rightarrow> bool \<Rightarrow> PowerCapOperation \<times> uuid \<Rightarrow> http_request list \<times> 'w \<Rightarrow>
  (http_request list \<times> 'w) option" where
  "cap_request E patch oi s =
     (let op = fst oi;
          (method, path) =
            (if \<not> patch then (''GET'', pco_RfFQDN op @ pco_PowerCapURI op)
             else if isHpeApollo6500 (pco_PowerCapURI op) then (''POST'', pco_RfFQDN op @ pco_PowerCapTargetURI op)
             else (''PATCH'', pco_RfFQDN op @ pco_PowerCapURI op));
          (auth, w) =
            (if g_VaultEnabled (pe_G E)
             then let ((user, pw, err), w) = cs_GetControllerCredentials (g_CS (pe_G E)) (pcc_Xname (pco_Component op)) (snd s)
                  in (if user = [] \<and> pw = [] then None else Some (user, pw), w)
             else (None, snd s))
      in map_option (\<lambda>payload. (fst s @ [\<lparr>rq_ID = snd oi, rq_Method = method, rq_URL = ''https://'' @ path,
             rq_Body = payload, rq_BasicAuth = auth\<rparr>], w))
           (if patch then generatePowerCapPayload op else Some []))"

text \<open>The error of a finished task, or its body; \<open>None\<close> when it has neither an error nor a response.\<close>

definition cap_reply :: "http_task_done \<Rightarrow> (error + string) option" where
  "cap_reply tdone =
     (case td_Err tdone of
        Some e \<Rightarrow> Some (Inl e)
      | None \<Rightarrow>
          (case td_Response tdone of
             None \<Rightarrow> None
           | Some r \<Rightarrow>
               if hr_StatusCode r < 200 \<and> hr_StatusCode r \<ge> 300
               then Some (Inl (''bad status code: '' @ Itoa (hr_StatusCode r)))
               else (case hr_Body r of
                       BodyNil \<Rightarrow> Some (Inl ''empty body'')
                     | BodyError e \<Rightarrow> Some (Inl e)
                     | BodyRead s \<Rightarrow> Some (Inr s))))"

definition failed_op :: "error \<Rightarrow> PowerCapOperation \<Rightarrow> PowerCapOperation" where
  "failed_op e op = op\<lparr>pco_Status := PowerCapOpStatusFailed, pco_Component := (pco_Component op)\<lparr>pcc_Error := e\<rparr>\<rparr>"

text \<open>A response that cannot be parsed leaves the limits nil.\<close>

definition finish_op :: "'w PowerCapEnv \<Rightarrow> bool \<Rightarrow> error + string \<Rightarrow> PowerCapOperation \<Rightarrow> PowerCapOperation" where
  "finish_op E patch rsp op =
     (case rsp of
        Inl e \<Rightarrow> failed_op e op
      | Inr body \<Rightarrow>
          if patch then op\<lparr>pco_Status := PowerCapOpStatusSucceeded\<rparr>
          else case pe_Unmarshal E body of
            Inl e \<Rightarrow> failed_op e op
          | Inr p \<Rightarrow>
              (case parsePowerCapRFData op p of
                 Inl e \<Rightarrow> failed_op e (op\<lparr>pco_Component := (pco_Component op)\<lparr>pcc_PowerCapLimits := [], pcc_Limits := None\<rparr>\<rparr>)
               | Inr (controls, limits) \<Rightarrow>
                   op\<lparr>pco_Status := PowerCapOpStatusSucceeded,
                      pco_Component := (pco_Component op)\<lparr>pcc_PowerCapLimits := controls, pcc_Limits := limits\<rparr>\<rparr>))"

definition receive_one ::
  "'w PowerCapEnv \<Rightarrow> bool \<Rightarrow> (uuid, PowerCapOperation) gomap \<Rightarrow> http_task_done \<Rightarrow> 'w \<Rightarrow> 'w option" where
  "receive_one E patch trsTaskMap tdone w =
     (let op = (case map_of trsTaskMap (td_ID tdone) of None \<Rightarrow> zero_op | Some op \<Rightarrow> op)
      in map_option (\<lambda>rsp. snd (dsp_StorePowerCapOperation (g_DSP (pe_G E)) (finish_op E patch rsp op) w)) (cap_reply tdone))"

text \<open>
  An error of \<^verbatim>\<open>Launch\<close> is only logged; the loop then waits for replies that never come.
\<close>

definition send_ops :: "'w PowerCapEnv \<Rightarrow> bool \<Rightarrow> PowerCapOperation list \<Rightarrow> 'w \<Rightarrow> 'w option" where
  "send_ops E patch ops w =
     (let (ids, w) = trs_CreateTaskList (g_RFTloc (pe_G E)) (length ops) w in
      if length ids < length ops then None
      else Option.bind (foldM (cap_request E patch) (zip ops ids) ([], w)) (\<lambda>(reqs, w).
        let ((replies, err), w) = trs_Launch (g_RFTloc (pe_G E)) reqs w in
        if length replies < length ops then None
        else map_option (trs_Close (g_RFTloc (pe_G E)) ids)
          (foldM (receive_one E patch (fold (\<lambda>(op, i). AList.update i op) (zip ops ids) [])) (take (length ops) replies) w)))"

text \<open>The components the HSM has no answer for, then the operations for the others.\<close>

definition hsm_failures ::
  "'w PowerCapEnv \<Rightarrow> xname list \<Rightarrow> (xname, HsmData) gomap \<Rightarrow> error option \<Rightarrow> 'w pc_run \<Rightarrow> 'w pc_run" where
  "hsm_failures E betterXnames hsmData err r =
     (if err \<noteq> None then fold (fail_op E ''Error retrieving HSM data'') betterXnames r
      else if length hsmData \<noteq> length betterXnames
      then fold (fail_op E ''Xname not found in HSM'') (filter (\<lambda>x. map_of hsmData x = None) betterXnames) r
      else r)"

definition generate_ops :: "'w PowerCapEnv \<Rightarrow> bool \<Rightarrow> patch_map \<Rightarrow> xname list \<Rightarrow> 'w pc_run \<Rightarrow> 'w pc_run" where
  "generate_ops E patch pm goodXnames r =
     (let betterXnames = fst (pe_ValidateCompIDs E goodXnames False);
          ((hsmData, err), w) = hsm_FillHSMData (g_HSM (pe_G E)) betterXnames (run_world r)
      in fold (generate_one E patch pm) hsmData (hsm_failures E betterXnames hsmData err (r\<lparr>run_world := w\<rparr>)))"

definition doPowerCapTask :: "'w PowerCapEnv \<Rightarrow> uuid \<Rightarrow> 'w \<Rightarrow> 'w option" where
  "doPowerCapTask E taskID w =
     (case dsp_GetPowerCapTask (g_DSP (pe_G E)) taskID w of
        ((_, Some err), w) \<Rightarrow> Some w
      | ((None, None), w) \<Rightarrow> Some w
      | ((Some task, None), w) \<Rightarrow>
          (case task_parameters task of
             None \<Rightarrow> None
           | Some (patch, xnames, pm) \<Rightarrow>
               let (goodXnames, badXnames) = pe_ValidateCompIDs E xnames True;
                   r = fold (fail_op E ''Invalid xname'') badXnames \<lparr>run_task = task, run_goodOps = [], run_world = w\<rparr>
               in if goodXnames = [] then Some (compressAndCompleteTask E (run_task r) (run_world r))
                  else
                    let r = generate_ops E patch pm goodXnames r
                    in if run_goodOps r = [] then Some (compressAndCompleteTask E (run_task r) (run_world r))
                       else
                         let task = (run_task r)\<lparr>pct_TaskStatus := PowerCapTaskStatusInProgress\<rparr>;
                             w = snd (dsp_StorePowerCapTask (g_DSP (pe_G E)) task (run_world r))
                         in map_option (compressAndCompleteTask E task) (send_ops E patch (run_goodOps r) w)))"

end
