(* ===== verification/Power_Cap_Store.thy ===== *)
theory Power_Cap_Store
  imports Etcd_Refinement
begin

section \<open>The storage contract for power capping\<close>

text \<open>
  The locale \<open>cap_store\<close> is what power capping relies on in a storage provider: \<open>ctasks\<close> maps a task ID to the
  stored task and \<open>cops\<close> maps a task ID and an operation ID to the stored operation. The ETCD provider implements
  it over every documented key-value store.
\<close>

locale cap_store =
  fixes D :: "'w StorageProvider"
    and inv :: "'w \<Rightarrow> bool"
    and ctasks :: "'w \<Rightarrow> uuid \<Rightarrow> PowerCapTask option"
    and cops :: "'w \<Rightarrow> uuid \<times> uuid \<Rightarrow> PowerCapOperation option"
  assumes ctasks_id: "inv w \<Longrightarrow> ctasks w i = Some t \<Longrightarrow> pct_TaskID t = i \<and> okid i"
    and cops_id: "inv w \<Longrightarrow> cops w (i, j) = Some op \<Longrightarrow> pco_TaskID op = i \<and> pco_OperationID op = j \<and> okid i \<and> okid j"
    and get_captask: "inv w \<Longrightarrow> dsp_GetPowerCapTask D i w = ((r, e), w') \<Longrightarrow>
      inv w' \<and> ctasks w' = ctasks w \<and> cops w' = cops w \<and> (e = None \<longrightarrow> r = ctasks w i)"
    and store_captask: "inv w \<Longrightarrow> okid (pct_TaskID t) \<Longrightarrow> dsp_StorePowerCapTask D t w = (e, w') \<Longrightarrow>
      inv w' \<and> cops w' = cops w \<and> may_set (ctasks w) (pct_TaskID t) (Some t) e (ctasks w')"
    and delete_captask: "inv w \<Longrightarrow> okid i \<Longrightarrow> dsp_DeletePowerCapTask D i w = (e, w') \<Longrightarrow>
      inv w' \<and> cops w' = cops w \<and> may_set (ctasks w) i None e (ctasks w')"
    and store_op: "inv w \<Longrightarrow> okid (pco_TaskID op) \<Longrightarrow> okid (pco_OperationID op) \<Longrightarrow> dsp_StorePowerCapOperation D op w = (e, w') \<Longrightarrow>
      inv w' \<and> ctasks w' = ctasks w \<and> may_set (cops w) (pco_TaskID op, pco_OperationID op) (Some op) e (cops w')"
    and delete_op: "inv w \<Longrightarrow> okid i \<Longrightarrow> okid j \<Longrightarrow> dsp_DeletePowerCapOperation D i j w = (e, w') \<Longrightarrow>
      inv w' \<and> ctasks w' = ctasks w \<and> may_set (cops w) (i, j) None e (cops w')"
    and all_ops: "inv w \<Longrightarrow> okid i \<Longrightarrow> dsp_GetAllPowerCapOperationsForTask D i w = ((ops, e), w') \<Longrightarrow>
      inv w' \<and> ctasks w' = ctasks w \<and> cops w' = cops w \<and>
      (e = None \<longrightarrow> distinct (map pco_OperationID ops) \<and> (\<forall>op. op \<in> set ops \<longleftrightarrow> cops w (i, pco_OperationID op) = Some op))"

subsection \<open>The ETCD provider\<close>

definition db_captasks :: "(string \<Rightarrow> kv_json option) \<Rightarrow> uuid \<Rightarrow> PowerCapTask option" where
  "db_captasks c i = Option.bind (c (''/pcs/powercaptask/'' @ i)) as_captask"

definition db_capops :: "(string \<Rightarrow> kv_json option) \<Rightarrow> uuid \<times> uuid \<Rightarrow> PowerCapOperation option" where
  "db_capops c ij = (if okid (fst ij) then Option.bind (c (''/pcs/powercapop/'' @ fst ij @ ''/'' @ snd ij)) as_capop else None)"

lemma as_captask_iff [simp]: "as_captask v = Some t \<longleftrightarrow> v = JPowerCapTask t"
  by (cases v) auto

lemma as_capop_iff [simp]: "as_capop v = Some t \<longleftrightarrow> v = JPowerCapOp t"
  by (cases v) auto

lemma cap_keys:
  "fixUpKey (keySegPowerCap @ ''/'' @ i) = ''/pcs/powercaptask/'' @ i"
  "fixUpKey (keySegPowerCapOp @ ''/'' @ s) = ''/pcs/powercapop/'' @ s"
  by (simp_all add: fixUpKey_def HasPrefix_def)

lemma doc_at_captask_key:
  "doc_at (''/pcs/powercaptask/'' @ i) v \<Longrightarrow> \<exists>t. v = JPowerCapTask t \<and> pct_TaskID t = i \<and> okid i"
  by (cases v) (auto simp: HasPrefix_def)

lemma doc_at_capop_key:
  "doc_at (''/pcs/powercapop/'' @ s) v \<Longrightarrow>
     \<exists>t. v = JPowerCapOp t \<and> s = pco_TaskID t @ ''/'' @ pco_OperationID t \<and> okid (pco_TaskID t) \<and> okid (pco_OperationID t)"
  by (cases v) (auto simp: HasPrefix_def)

lemma db_cap_set [simp]:
  "db_captasks (c(''/pcs/powercaptask/'' @ i \<mapsto> JPowerCapTask t)) = (db_captasks c)(i \<mapsto> t)"
  "db_captasks (c(''/pcs/powercaptask/'' @ i := None)) = (db_captasks c)(i := None)"
  "db_captasks (c(''/pcs/powercapop/'' @ s := x)) = db_captasks c"
  "db_capops (c(''/pcs/powercaptask/'' @ i := x)) = db_capops c"
  by (auto simp: db_captasks_def db_capops_def fun_eq_iff)

lemma db_capops_set:
  "okid i \<Longrightarrow> db_capops (c(''/pcs/powercapop/'' @ i @ ''/'' @ j \<mapsto> JPowerCapOp k)) = (db_capops c)((i, j) \<mapsto> k)"
  "okid i \<Longrightarrow> db_capops (c(''/pcs/powercapop/'' @ i @ ''/'' @ j := None)) = (db_capops c)((i, j) := None)"
  by (auto simp: db_capops_def fun_eq_iff okid_def)

lemma may_set_captask:
  assumes "may_set c (''/pcs/powercaptask/'' @ i) v e c'" and "etcd_inv c"
    and "v = None \<or> v = Some (JPowerCapTask t) \<and> pct_TaskID t = i \<and> okid i"
  shows "etcd_inv c' \<and> db_capops c' = db_capops c \<and>
    may_set (db_captasks c) i (if v = None then None else Some t) e (db_captasks c')"
  using assms by (auto simp: may_set_def intro: etcd_inv_clear etcd_inv_set simp del: append_Cons append_Nil)

lemma may_set_capop:
  assumes "may_set c (''/pcs/powercapop/'' @ i @ ''/'' @ j) v e c'" and "etcd_inv c" and "okid i"
    and "v = None \<or> v = Some (JPowerCapOp k) \<and> pco_TaskID k = i \<and> pco_OperationID k = j \<and> okid j"
  shows "etcd_inv c' \<and> db_captasks c' = db_captasks c \<and>
    may_set (db_capops c) (i, j) (if v = None then None else Some k) e (db_capops c')"
  using assms by (auto simp: may_set_def db_capops_set intro: etcd_inv_clear etcd_inv_set simp del: append_Cons append_Nil)

context etcd_kv
begin

lemma etcd_all_capops:
  assumes "etcd_inv (contents w)" and "okid i" and "ETCD_GetAllPowerCapOperationsForTask E i w = ((ks, e), w')"
  shows "contents w' = contents w \<and>
    (e = None \<longrightarrow> distinct (map pco_OperationID ks) \<and>
       (\<forall>k. k \<in> set ks \<longleftrightarrow> db_capops (contents w) (i, pco_OperationID k) = Some k))"
proof -
  let ?p = "''/pcs/powercapop/'' @ i"
  let ?mk = "\<lambda>k. ?p @ ''/'' @ pco_OperationID k"
  have run: "kvGetAll E as_capop (?p @ keyMin) (?p @ keyMax) w = ((ks, e), w')"
    using assms(3) by (simp add: ETCD_GetAllPowerCapOperationsForTask_def fixUpKey_def HasPrefix_def)
  have doc: "\<exists>a. v = JPowerCapOp a \<and> c = CHR ''/'' \<and> r = pco_OperationID a"
    if "contents w (?p @ c # r) = Some v" for v c r
  proof -
    have "doc_at (''/pcs/powercapop/'' @ (i @ c # r)) v"
      using assms(1) that by (simp add: etcd_inv_def typed_docs_def)
    then obtain a where "v = JPowerCapOp a" "i @ c # r = pco_TaskID a @ ''/'' @ pco_OperationID a" "okid (pco_TaskID a)"
      using doc_at_capop_key by blast
    then show ?thesis using assms(2) by (auto simp: okid_def)
  qed
  have res: "contents w' = contents w \<and> (e = None \<longrightarrow> distinct (map ?mk ks) \<and>
      (\<forall>a. a \<in> set ks \<longleftrightarrow> (\<exists>k v. contents w k = Some v \<and> (\<exists>c r. k = ?p @ c # r) \<and> as_capop v = Some a)))"
    by (rule kvGetAll_ok [OF run]) (use doc in \<open>force simp: less_char_def\<close>)
  have "(\<exists>k v. contents w k = Some v \<and> (\<exists>c r. k = ?p @ c # r) \<and> as_capop v = Some a) \<longleftrightarrow>
        db_capops (contents w) (i, pco_OperationID a) = Some a" for a
  proof
    assume "\<exists>k v. contents w k = Some v \<and> (\<exists>c r. k = ?p @ c # r) \<and> as_capop v = Some a"
    then obtain c r where "contents w (?p @ c # r) = Some (JPowerCapOp a)" by auto
    then show "db_capops (contents w) (i, pco_OperationID a) = Some a"
      using doc assms(2) by (fastforce simp: db_capops_def)
  next
    assume "db_capops (contents w) (i, pco_OperationID a) = Some a"
    then have "contents w (?p @ CHR ''/'' # pco_OperationID a) = Some (JPowerCapOp a)"
      using assms(2) by (auto simp: db_capops_def split: Option.bind_splits)
    then show "\<exists>k v. contents w k = Some v \<and> (\<exists>c r. k = ?p @ c # r) \<and> as_capop v = Some a"
      by force
  qed
  moreover have "distinct (map ?mk ks) \<Longrightarrow> distinct (map pco_OperationID ks)"
    by (auto simp: distinct_map inj_on_def)
  ultimately show ?thesis using res by auto
qed

end

sublocale etcd_kv \<subseteq> caps: cap_store "ETCDStorage_provider R X E"
  "\<lambda>w. etcd_inv (contents w)" "\<lambda>w. db_captasks (contents w)" "\<lambda>w. db_capops (contents w)"
proof (unfold_locales, goal_cases)
  case (1 w i t)
  then have "contents w (''/pcs/powercaptask/'' @ i) = Some (JPowerCapTask t)"
    by (auto simp: db_captasks_def split: Option.bind_splits)
  then have "doc_at (''/pcs/powercaptask/'' @ i) (JPowerCapTask t)"
    using 1 unfolding etcd_inv_def typed_docs_def by blast
  then show ?case using doc_at_captask_key by blast
next
  case (2 w i j op)
  then show ?case
    using doc_at_capop_key [of "i @ ''/'' @ j" "JPowerCapOp op"]
    by (fastforce simp: etcd_inv_def typed_docs_def db_capops_def okid_def split: Option.bind_splits if_splits)
next
  case (3 w i r e w')
  then show ?case
    using kvGet_ok [of as_captask "keySegPowerCap @ ''/'' @ i" w r e w']
    by (auto simp: provider_sel ETCD_GetPowerCapTask_def db_captasks_def cap_keys [simplified])
next
  case (4 w t e w')
  then show ?case
    using kv_store [of "''/pcs/powercaptask/'' @ pct_TaskID t" "JPowerCapTask t" w e w']
      may_set_captask [of "contents w" "pct_TaskID t" "Some (JPowerCapTask t)" e "contents w'" t]
    by (simp add: provider_sel ETCD_StorePowerCapTask_def kvStore_def cap_keys [simplified])
next
  case (5 w i e w')
  then show ?case
    using kv_delete [of "''/pcs/powercaptask/'' @ i" w e w']
      may_set_captask [of "contents w" i None e "contents w'"]
    by (simp add: provider_sel ETCD_DeletePowerCapTask_def kvDelete_def cap_keys [simplified])
next
  case (6 w op e w')
  then show ?case
    using kv_store [of "''/pcs/powercapop/'' @ pco_TaskID op @ ''/'' @ pco_OperationID op" "JPowerCapOp op" w e w']
      may_set_capop [of "contents w" "pco_TaskID op" "pco_OperationID op" "Some (JPowerCapOp op)" e "contents w'" op]
    by (simp add: provider_sel ETCD_StorePowerCapOperation_def kvStore_def cap_keys [simplified])
next
  case (7 w i j e w')
  then show ?case
    using kv_delete [of "''/pcs/powercapop/'' @ i @ ''/'' @ j" w e w']
      may_set_capop [of "contents w" i j None e "contents w'"]
    by (simp add: provider_sel ETCD_DeletePowerCapOperation_def kvDelete_def cap_keys [simplified])
next
  case (8 w i ops e w')
  then show ?case using etcd_all_capops [of w i ops e w'] by (simp add: provider_sel)
qed

subsection \<open>A store that does not fail\<close>

locale calm_cap_store = cap_store +
  assumes calm_get_task: "inv w \<Longrightarrow> dsp_GetPowerCapTask D i w = ((r, e), w') \<Longrightarrow> e = None"
    and calm_store_task: "inv w \<Longrightarrow> dsp_StorePowerCapTask D t w = (e, w') \<Longrightarrow> e = None"
    and calm_store_op: "inv w \<Longrightarrow> dsp_StorePowerCapOperation D op w = (e, w') \<Longrightarrow> e = None"
    and calm_all_ops: "inv w \<Longrightarrow> okid i \<Longrightarrow> dsp_GetAllPowerCapOperationsForTask D i w = ((ops, e), w') \<Longrightarrow> e = None"
    and calm_delete_op: "inv w \<Longrightarrow> dsp_DeletePowerCapOperation D i j w = (e, w') \<Longrightarrow> e = None"

text \<open>\<open>calm\<close> holds of the states from which the calls of the key-value store succeed.\<close>

locale calm_kv = etcd_kv E contents R X
  for E :: "'w ETCDStorage" and contents :: "'w \<Rightarrow> string \<Rightarrow> kv_json option" and R :: "'w runtime" and X :: xnametypes +
  fixes calm :: "'w \<Rightarrow> bool"
  assumes calm_Store: "calm w \<Longrightarrow> kvi_Store (e_kvHandle E) k v w = (e, w') \<Longrightarrow> e = None \<and> calm w'"
    and calm_Get: "calm w \<Longrightarrow> kvi_Get (e_kvHandle E) k w = ((r, e), w') \<Longrightarrow> e = None \<and> calm w'"
    and calm_Delete: "calm w \<Longrightarrow> kvi_Delete (e_kvHandle E) k w = (e, w') \<Longrightarrow> e = None \<and> calm w'"
    and calm_GetRange: "calm w \<Longrightarrow> kvi_GetRange (e_kvHandle E) lo hi w = ((kvs, e), w') \<Longrightarrow> e = None \<and> calm w'"

lemma kv_reads_world:
  "snd (kvGet S dec k w) = snd (kvi_Get (e_kvHandle S) (fixUpKey k) w)"
  "snd (kvGetAll S dec lo hi w) = snd (kvi_GetRange (e_kvHandle S) lo hi w)"
  by (auto simp: kvGet_def kvGetAll_def split: prod.splits option.splits)

lemmas etcd_cap_calls = ETCD_StorePowerCapOperation_def ETCD_StorePowerCapTask_def ETCD_GetPowerCapTask_def
  ETCD_GetAllPowerCapOperationsForTask_def ETCD_DeletePowerCapOperation_def ETCD_DeletePowerCapTask_def

context calm_kv
begin

lemma calm_kvGet:
  assumes "calm w" and "kvGet E dec k w = ((a, e), w')" and "\<forall>v. contents w (fixUpKey k) = Some v \<longrightarrow> dec v \<noteq> None"
  shows "e = None \<and> calm w'"
proof -
  obtain v e1 w1 where g: "kvi_Get (e_kvHandle E) (fixUpKey k) w = ((v, e1), w1)" by (rule pair2E)
  then show ?thesis using assms calm_Get [OF assms(1) g] kv_get [OF g] by (auto simp: kvGet_def split: option.splits)
qed

lemma calm_kvGetAll:
  assumes "calm w" and "kvGetAll E dec (p @ keyMin) (p @ keyMax) w = ((xs, e), w')"
    and dec: "\<And>c r v. contents w (p @ c # r) = Some v \<Longrightarrow> dec v \<noteq> None"
  shows "e = None \<and> calm w'"
proof -
  obtain kvs e1 w1 where g: "kvi_GetRange (e_kvHandle E) (p @ keyMin) (p @ keyMax) w = ((kvs, e1), w1)" by (rule pair2E)
  have e1: "e1 = None" "calm w1" using calm_GetRange [OF assms(1) g] by auto
  have "dec v \<noteq> None" if "(k, v) \<in> set kvs" for k v
  proof -
    have "contents w k = Some v" "p @ keyMin \<le> k" "k \<le> p @ keyMax" using kv_range [OF g] e1(1) that by blast+
    then show ?thesis using dec range_prefix [of p "CHR '' ''" "[]" k "CHR ''~''" "[]"] by auto
  qed
  then have "snd (decode_all dec kvs [] None) = None" using decode_all_ok [of kvs dec "[]"] by fastforce
  then show ?thesis using assms(2) g e1 by (auto simp: kvGetAll_def)
qed

lemma captask_doc:
  assumes "etcd_inv (contents w)" and "contents w (''/pcs/powercaptask/'' @ i) = Some v"
  shows "as_captask v \<noteq> None"
proof -
  have "doc_at (''/pcs/powercaptask/'' @ i) v" using assms unfolding etcd_inv_def typed_docs_def by blast
  then show ?thesis using doc_at_captask_key by fastforce
qed

lemma capop_doc:
  assumes "etcd_inv (contents w)" and "contents w (''/pcs/powercapop/'' @ s) = Some v"
  shows "as_capop v \<noteq> None"
proof -
  have "doc_at (''/pcs/powercapop/'' @ s) v" using assms unfolding etcd_inv_def typed_docs_def by blast
  then show ?thesis using doc_at_capop_key by fastforce
qed

text \<open>The calls of the provider from a calm state.\<close>

lemma calm_cap_calls:
  assumes "calm w" and "etcd_inv (contents w)"
  shows "ETCD_GetPowerCapTask E i w = ((r, e), w') \<Longrightarrow> e = None \<and> calm w'"
    and "ETCD_StorePowerCapTask E t w = (e, w') \<Longrightarrow> e = None \<and> calm w'"
    and "ETCD_StorePowerCapOperation E op w = (e, w') \<Longrightarrow> e = None \<and> calm w'"
    and "ETCD_DeletePowerCapTask E i w = (e, w') \<Longrightarrow> e = None \<and> calm w'"
    and "ETCD_DeletePowerCapOperation E i j w = (e, w') \<Longrightarrow> e = None \<and> calm w'"
    and "ETCD_GetAllPowerCapOperationsForTask E i w = ((ops, e), w') \<Longrightarrow> e = None \<and> calm w'"
proof -
  show "ETCD_GetPowerCapTask E i w = ((r, e), w') \<Longrightarrow> e = None \<and> calm w'"
    unfolding ETCD_GetPowerCapTask_def
    by (erule calm_kvGet [OF assms(1)]) (unfold cap_keys, use captask_doc [OF assms(2)] in blast)
  show "ETCD_GetAllPowerCapOperationsForTask E i w = ((ops, e), w') \<Longrightarrow> e = None \<and> calm w'"
    unfolding ETCD_GetAllPowerCapOperationsForTask_def Let_def cap_keys
    by (erule calm_kvGetAll [OF assms(1)]) (rule capop_doc [OF assms(2)], simp)
qed (use calm_Store [OF assms(1)] calm_Delete [OF assms(1)] in \<open>auto simp: etcd_cap_calls kvStore_def kvDelete_def\<close>)

end

sublocale calm_kv \<subseteq> calmcaps: calm_cap_store "ETCDStorage_provider R X E"
  "\<lambda>w. etcd_inv (contents w) \<and> calm w" "\<lambda>w. db_captasks (contents w)" "\<lambda>w. db_capops (contents w)"
proof (unfold_locales, goal_cases)
  case (1 w i t) then show ?case using caps.ctasks_id by blast
next
  case (2 w i j op) then show ?case using caps.cops_id by blast
next
  case (3 w i r e w')
  then show ?case using caps.get_captask [of w i r e w'] calm_cap_calls(1) [of w i r e w'] by (simp add: provider_sel)
next
  case (4 w t e w')
  then show ?case using caps.store_captask [of w t e w'] calm_cap_calls(2) [of w t e w'] by (simp add: provider_sel)
next
  case (5 w i e w')
  then show ?case using caps.delete_captask [of w i e w'] calm_cap_calls(4) [of w i e w'] by (simp add: provider_sel)
next
  case (6 w op e w')
  then show ?case using caps.store_op [of w op e w'] calm_cap_calls(3) [of w op e w'] by (simp add: provider_sel)
next
  case (7 w i j e w')
  then show ?case using caps.delete_op [of w i j e w'] calm_cap_calls(5) [of w i j e w'] by (simp add: provider_sel)
next
  case (8 w i ops e w')
  then show ?case using caps.all_ops [of w i ops e w'] calm_cap_calls(6) [of w i ops e w'] by (simp add: provider_sel)
next
  case (9 w i r e w') then show ?case using calm_cap_calls(1) [of w i r e w'] by (simp add: provider_sel)
next
  case (10 w t e w') then show ?case using calm_cap_calls(2) [of w t e w'] by (simp add: provider_sel)
next
  case (11 w op e w') then show ?case using calm_cap_calls(3) [of w op e w'] by (simp add: provider_sel)
next
  case (12 w i ops e w') then show ?case using calm_cap_calls(6) [of w i ops e w'] by (simp add: provider_sel)
next
  case (13 w i j e w') then show ?case using calm_cap_calls(5) [of w i j e w'] by (simp add: provider_sel)
qed

end
