(* ===== verification/Power_Cap_Requests.thy ===== *)
theory Power_Cap_Requests
  imports Power_Capping Power_Cap_Store Sim_Domain
begin

section \<open>What a power capping task sends\<close>

text \<open>
  The traffic of a power capping task, over any providers whose calls other than \<^verbatim>\<open>Launch\<close> send nothing to
  the hardware (the locale \<open>cap_traffic\<close>): every request goes to a node that is no management node, over the
  address the HSM gave for it, and a limit it sets is the one requested last for that control and inside the
  range the HSM knows.
\<close>

subsection \<open>Requested values\<close>

text \<open>The pairs of component and control of a patch request with their values, in the order of the request.\<close>

definition patch_values :: "PowerCapComponentParameter list \<Rightarrow> ((xname \<times> string) \<times> int) list" where
  "patch_values ps = concat (map (\<lambda>p. map (\<lambda>c. ((cmp_Xname p, ccp_Name c), ccp_Value c)) (cmp_Controls p)) ps)"

lemma control_fold:
  "map_of (fold (\<lambda>c. AList.update (ccp_Name c) (ccp_Value c)) cs m) n =
     (case map_of (rev (map (\<lambda>c. (ccp_Name c, ccp_Value c)) cs)) n of None \<Rightarrow> map_of m n | Some v \<Rightarrow> Some v)"
proof (induction cs arbitrary: m)
  case (Cons c cs)
  then show ?case by (auto simp: update_conv' map_add_def split: option.splits)
qed simp

lemma tagged_map_of:
  "map_of (rev (map (\<lambda>c. ((y, ccp_Name c), ccp_Value c)) cs)) (x, n) =
     (if x = y then map_of (rev (map (\<lambda>c. (ccp_Name c, ccp_Value c)) cs)) n else None)"
proof (induction cs)
  case (Cons c cs)
  then show ?case by (auto simp: map_add_def split: option.splits)
qed simp

lemma requested_patch_one:
  "requested (patch_one p m) x n =
     (case map_of (rev (patch_values [p])) (x, n) of None \<Rightarrow> requested m x n | Some v \<Rightarrow> Some v)"
  by (auto simp: patch_one_def requested_def patch_values_def update_conv' control_fold tagged_map_of split: option.splits)

lemma patch_values_Cons: "patch_values (p # ps) = patch_values [p] @ patch_values ps"
  by (simp add: patch_values_def)

lemma requested_fold:
  "requested (fold patch_one ps m) x n =
     (case map_of (rev (patch_values ps)) (x, n) of None \<Rightarrow> requested m x n | Some v \<Rightarrow> Some v)"
proof (induction ps arbitrary: m)
  case Nil
  then show ?case by (simp add: patch_values_def)
next
  case (Cons p ps)
  then show ?case
    by (subst patch_values_Cons) (auto simp: requested_patch_one map_add_def split: option.splits)
qed

lemma requested_last: "requested (fold patch_one ps []) x n = map_of (rev (patch_values ps)) (x, n)"
  unfolding requested_fold by (simp add: requested_def split: option.split)

subsection \<open>Checked operations\<close>

definition limit_in_range :: "patch_map \<Rightarrow> xname \<times> HsmData \<Rightarrow> PowerCapControls \<Rightarrow> bool" where
  "limit_in_range pm xd l \<longleftrightarrow>
     list_ex (\<lambda>(name, c). name = ctl_Name l \<and> requested pm (fst xd) name = ctl_CurrentValue l \<and>
        (case ctl_CurrentValue l of None \<Rightarrow> False | Some v \<Rightarrow> \<not> below_min v c \<and> \<not> above_max v c)) (hd_PowerCaps (snd xd))"

definition allowed_op :: "'w PowerCapEnv \<Rightarrow> bool \<Rightarrow> patch_map \<Rightarrow> xname \<times> HsmData \<Rightarrow> PowerCapOperation \<Rightarrow> bool" where
  "allowed_op E patch pm xd op \<longleftrightarrow>
     pcc_Xname (pco_Component op) = fst xd \<and> pco_RfFQDN op = hd_RfFQDN (snd xd) \<and> hd_RfFQDN (snd xd) \<noteq> [] \<and>
     bc_Type (hd_BaseData (snd xd)) = HMSType_String (g_XN (pe_G E)) Node \<and>
     bc_Role (hd_BaseData (snd xd)) \<noteq> RoleManagement \<and> pco_PowerCapURI op \<noteq> [] \<and>
     pco_PowerCapTargetURI op = hd_PowerCapTargetURI (snd xd) \<and>
     pco_PowerCapControlsCount op = hd_PowerCapControlsCount (snd xd) \<and>
     pco_PowerCapCtlInfoCount op = hd_PowerCapCtlInfoCount (snd xd) \<and>
     (patch \<longrightarrow>
        (isHpeApollo6500 (pco_PowerCapURI op) \<longrightarrow> pco_PowerCapTargetURI op \<noteq> []) \<and>
        pco_PowerCaps op = hd_PowerCaps (snd xd) \<and>
        pcc_PowerCapLimits (pco_Component op) \<noteq> [] \<and> list_all (limit_in_range pm xd) (pcc_PowerCapLimits (pco_Component op)))"

definition add_limit :: "PowerCapControls \<Rightarrow> PowerCapOperation \<Rightarrow> PowerCapOperation" where
  "add_limit l op = op\<lparr>pco_Component := (pco_Component op)\<lparr>pcc_PowerCapLimits := pcc_PowerCapLimits (pco_Component op) @ [l]\<rparr>\<rparr>"

lemma check_control_cases:
  obtains (skip) "requested pm x (fst nc) = None" "check_control pm x nc (op, good) = (op, good)"
  | (fail) msg val where "requested pm x (fst nc) = Some val" "check_control pm x nc (op, good) = (op_fail msg op, good)"
  | (take) l val where "requested pm x (fst nc) = Some val" "check_control pm x nc (op, good) = (add_limit l op, True)"
      "ctl_Name l = fst nc" "ctl_CurrentValue l = Some val" "\<not> below_min val (snd nc)" "\<not> above_max val (snd nc)"
proof (cases "requested pm x (fst nc)")
  case None
  then show ?thesis using skip by (simp add: check_control_def)
next
  case (Some val)
  note step = check_control_def [of pm x nc "(op, good)", unfolded Some option.case fst_conv snd_conv]
  consider "below_min val (snd nc)" | "\<not> below_min val (snd nc)" "above_max val (snd nc)"
    | "\<not> below_min val (snd nc)" "\<not> above_max val (snd nc)" by blast
  then show ?thesis
  proof cases
    case 1
    show ?thesis by (rule fail [OF Some step [unfolded if_P [OF 1]]])
  next
    case 2
    show ?thesis by (rule fail [OF Some step [unfolded if_not_P [OF 2(1)] if_P [OF 2(2)]]])
  next
    case 3
    show ?thesis
      by (rule take [OF Some step [unfolded if_not_P [OF 3(1)] if_not_P [OF 3(2)] add_limit_def [symmetric]]])
        (simp_all add: 3)
  qed
qed

lemma op_fail_sel [simp]:
  "pcc_PowerCapLimits (pco_Component (op_fail msg op)) = pcc_PowerCapLimits (pco_Component op)"
  "pcc_Xname (pco_Component (op_fail msg op)) = pcc_Xname (pco_Component op)"
  "pco_PowerCapURI (op_fail msg op) = pco_PowerCapURI op" "pco_PowerCaps (op_fail msg op) = pco_PowerCaps op"
  "pco_OperationID (op_fail msg op) = pco_OperationID op" "pco_TaskID (op_fail msg op) = pco_TaskID op"
  "pco_Status (op_fail msg op) = PowerCapOpStatusFailed"
  by (simp_all add: op_fail_def)

lemma add_limit_sel [simp]:
  "pcc_PowerCapLimits (pco_Component (add_limit l op)) = pcc_PowerCapLimits (pco_Component op) @ [l]"
  "pcc_Xname (pco_Component (add_limit l op)) = pcc_Xname (pco_Component op)"
  "pco_PowerCapURI (add_limit l op) = pco_PowerCapURI op" "pco_PowerCaps (add_limit l op) = pco_PowerCaps op"
  "pco_OperationID (add_limit l op) = pco_OperationID op" "pco_TaskID (add_limit l op) = pco_TaskID op"
  "pco_Status (add_limit l op) = pco_Status op"
  by (simp_all add: add_limit_def)

text \<open>
  The range checks leave the identity of the operation alone; the limits they add are in range; and an
  operation for which some control was requested ends up with a limit or failed.
\<close>

lemma check_control_fold:
  assumes "set caps \<subseteq> set (hd_PowerCaps d)" and "list_all (limit_in_range pm (x, d)) (pcc_PowerCapLimits (pco_Component op))"
    and "good \<longrightarrow> pcc_PowerCapLimits (pco_Component op) \<noteq> []"
    and "fold (check_control pm x) caps (op, good) = (op', good')"
  shows "list_all (limit_in_range pm (x, d)) (pcc_PowerCapLimits (pco_Component op')) \<and>
    (good' \<longrightarrow> pcc_PowerCapLimits (pco_Component op') \<noteq> []) \<and>
    pcc_Xname (pco_Component op') = pcc_Xname (pco_Component op) \<and> pco_PowerCapURI op' = pco_PowerCapURI op \<and>
    pco_PowerCaps op' = pco_PowerCaps op \<and> pco_OperationID op' = pco_OperationID op \<and> pco_TaskID op' = pco_TaskID op \<and>
    (good \<or> pco_Status op = PowerCapOpStatusFailed \<or> (\<exists>nc \<in> set caps. requested pm x (fst nc) \<noteq> None) \<longrightarrow>
      good' \<or> pco_Status op' = PowerCapOpStatusFailed)"
  using assms
proof (induction caps arbitrary: op good)
  case (Cons nc caps)
  show ?case
  proof (cases rule: check_control_cases [of pm x nc op good])
    case skip
    then show ?thesis using Cons.IH [of op good] Cons.prems by simp
  next
    case (fail msg val)
    then show ?thesis using Cons.IH [of "op_fail msg op" good] Cons.prems by simp
  next
    case (take l val)
    then have "limit_in_range pm (x, d) l"
      using Cons.prems(1) by (cases nc) (auto simp: limit_in_range_def list_ex_iff)
    then show ?thesis using take Cons.IH [of "add_limit l op" True] Cons.prems by simp
  qed
qed simp

text \<open>An operation has ended when it is neither new nor in progress.\<close>

definition ended :: "PowerCapOperation \<Rightarrow> bool" where
  "ended op \<longleftrightarrow> pco_Status op \<in> {PowerCapOpStatusFailed, PowerCapOpStatusSucceeded, PowerCapOpStatusUnsupported}"

text \<open>What the loop over the components hands to the checks.\<close>

definition raw_op :: "bool \<Rightarrow> patch_map \<Rightarrow> xname \<times> HsmData \<Rightarrow> PowerCapOperation \<Rightarrow> bool" where
  "raw_op patch pm xd op \<longleftrightarrow> pcc_PowerCapLimits (pco_Component op) = [] \<and>
     (patch \<longrightarrow> pco_PowerCaps op = hd_PowerCaps (snd xd) \<and> (\<exists>nc \<in> set (hd_PowerCaps (snd xd)). requested pm (fst xd) (fst nc) \<noteq> None))"

lemma check_op_result:
  assumes "check_op E patch pm x d op = (op', good)" and "raw_op patch pm (x, d) op"
  shows "(if good then allowed_op E patch pm (x, d) op' \<and> pco_Status op' = PowerCapOpStatusInProgress else ended op') \<and>
    pco_OperationID op' = pco_OperationID op \<and> pco_TaskID op' = pco_TaskID op"
proof (cases patch)
  case False
  then show ?thesis using assms
    by (auto simp: check_op_def allowed_op_def raw_op_def ended_def Let_def split: if_splits prod.splits)
next
  case True
  let ?op = "op\<lparr>pco_Component := (pco_Component op)\<lparr>pcc_Xname := x\<rparr>\<rparr>"
  obtain op1 good1 where f: "fold (check_control pm x) (hd_PowerCaps d) (?op, False) = (op1, good1)" by fastforce
  then have "list_all (limit_in_range pm (x, d)) (pcc_PowerCapLimits (pco_Component op1)) \<and>
      (good1 \<longrightarrow> pcc_PowerCapLimits (pco_Component op1) \<noteq> []) \<and> pcc_Xname (pco_Component op1) = x \<and>
      pco_PowerCapURI op1 = pco_PowerCapURI op \<and> pco_PowerCaps op1 = pco_PowerCaps op \<and>
      pco_OperationID op1 = pco_OperationID op \<and> pco_TaskID op1 = pco_TaskID op \<and> (good1 \<or> pco_Status op1 = PowerCapOpStatusFailed)"
    using check_control_fold [of "hd_PowerCaps d" d pm x ?op False op1 good1] assms(2) True by (simp add: raw_op_def)
  then show ?thesis using assms True f
    by (auto simp: check_op_def allowed_op_def raw_op_def ended_def Let_def split: if_splits prod.splits)
qed

lemma new_op_raw:
  "new_op E r = (op, r') \<Longrightarrow> pcc_PowerCapLimits (pco_Component op) = [] \<and> pco_TaskID op = pct_TaskID (run_task r) \<and>
     run_task r' = run_task r \<and> run_goodOps r' = run_goodOps r"
  by (auto simp: new_op_def NewPowerCapOperation_def split: prod.splits)

subsection \<open>Invariants of the generating loops\<close>

text \<open>
  The loops of \<open>doPowerCapTask\<close> change the state through \<open>new_op\<close> and \<open>record_op\<close> only. A property \<open>I\<close> of the run
  that both keep is kept by all of them; \<open>P\<close> is what is known of the identifiers of a new operation.
\<close>

locale op_recorder =
  fixes E :: "'w PowerCapEnv" and patch :: bool and pm :: patch_map and hsmData :: "(xname, HsmData) gomap"
    and I :: "'w pc_run \<Rightarrow> bool" and P :: "uuid \<Rightarrow> uuid \<Rightarrow> bool"
  assumes on_new: "I r \<Longrightarrow> new_op E r = (op, r') \<Longrightarrow> I r' \<and> P (pco_TaskID op) (pco_OperationID op)"
    and on_ended: "I r \<Longrightarrow> P (pco_TaskID op) (pco_OperationID op) \<Longrightarrow> ended op \<Longrightarrow> I (record_op E op r)"
    and on_good: "I r \<Longrightarrow> P (pco_TaskID op) (pco_OperationID op) \<Longrightarrow> pco_Status op = PowerCapOpStatusInProgress \<Longrightarrow>
      xd \<in> set hsmData \<Longrightarrow> allowed_op E patch pm xd op \<Longrightarrow> I (record_op E op (r\<lparr>run_goodOps := run_goodOps r @ [op]\<rparr>))"
begin

lemma fail_op_keeps: "I r \<Longrightarrow> I (fail_op E msg x r)"
  using on_new [of r] on_ended by (auto simp: fail_op_def ended_def split: prod.splits)

lemma fold_fail_keeps: "I r \<Longrightarrow> I (fold (fail_op E msg) xs r)"
  by (induction xs arbitrary: r) (auto simp: fail_op_keeps)

lemma undefined_controls_keeps: "I r \<Longrightarrow> I (undefined_controls E x d ctlMap r)"
proof -
  have "I r \<Longrightarrow> I (fold (\<lambda>name. if map_of (hd_PowerCaps d) name = None then fail_op E (f name) x else id) ns r)" for ns f
    by (induction ns arbitrary: r) (auto simp: fail_op_keeps)
  then show "I r \<Longrightarrow> ?thesis" unfolding undefined_controls_def .
qed

lemma snapshot_ops_keeps:
  "I r \<Longrightarrow> snapshot_ops E caps r = (ops, r') \<Longrightarrow> I r' \<and>
     (\<forall>op \<in> set ops. P (pco_TaskID op) (pco_OperationID op) \<and> pcc_PowerCapLimits (pco_Component op) = [])"
proof (induction caps arbitrary: ops r r')
  case (Cons nc caps)
  obtain op r1 where n: "new_op E r = (op, r1)" by fastforce
  obtain ops2 r2 where s: "snapshot_ops E caps r1 = (ops2, r2)" by fastforce
  have "I r2 \<and> (\<forall>op \<in> set ops2. P (pco_TaskID op) (pco_OperationID op) \<and> pcc_PowerCapLimits (pco_Component op) = [])"
    using Cons.IH [OF _ s] on_new [OF Cons.prems(1) n] by blast
  then show ?case
    using Cons.prems(2) n s on_new [OF Cons.prems(1) n] new_op_raw [OF n] by (cases nc) auto
qed simp

lemma temp_ops_keeps:
  assumes "I r" and "temp_ops E patch pm x d r = (ops, r')"
    and "patch \<longrightarrow> (\<exists>nc \<in> set (hd_PowerCaps d). requested pm x (fst nc) \<noteq> None)"
  shows "I r' \<and> (\<forall>op \<in> set ops. P (pco_TaskID op) (pco_OperationID op) \<and> raw_op patch pm (x, d) op)"
proof -
  obtain op r1 where n: "new_op E r = (op, r1)" by fastforce
  note new = on_new [OF assms(1) n] new_op_raw [OF n]
  show ?thesis
    using assms n new snapshot_ops_keeps [of r "hd_PowerCaps d" ops r']
    by (auto simp: temp_ops_def raw_op_def find_None_iff split: if_splits option.splits)
qed

lemma check_and_record_keeps:
  assumes "I r" and "xd \<in> set hsmData" and "P (pco_TaskID op) (pco_OperationID op)" and "raw_op patch pm xd op"
  shows "I (check_and_record E patch pm (fst xd) (snd xd) op r)"
proof -
  obtain op' good where c: "check_op E patch pm (fst xd) (snd xd) op = (op', good)" by fastforce
  show ?thesis
    using check_op_result [OF c] assms c on_ended [of r op'] on_good [of r op' xd]
    by (auto simp: check_and_record_def)
qed

lemma fold_check_keeps:
  "I r \<Longrightarrow> xd \<in> set hsmData \<Longrightarrow> \<forall>op \<in> set ops. P (pco_TaskID op) (pco_OperationID op) \<and> raw_op patch pm xd op \<Longrightarrow>
    I (fold (check_and_record E patch pm (fst xd) (snd xd)) ops r)"
  by (induction ops arbitrary: r) (auto simp: check_and_record_keeps)

lemma generate_one_keeps:
  assumes "I r" and "xd \<in> set hsmData"
  shows "I (generate_one E patch pm xd r)"
proof -
  let ?go = "\<lambda>r. let (ops, r) = temp_ops E patch pm (fst xd) (snd xd) r
                    in fold (check_and_record E patch pm (fst xd) (snd xd)) ops r"
  have go: "I (?go r1)" if "I r1" and "patch \<longrightarrow> (\<exists>nc \<in> set (hd_PowerCaps (snd xd)). requested pm (fst xd) (fst nc) \<noteq> None)" for r1
  proof -
    obtain ops r2 where t: "temp_ops E patch pm (fst xd) (snd xd) r1 = (ops, r2)" by fastforce
    show ?thesis using temp_ops_keeps [OF that(1) t that(2)] assms(2) by (simp add: t fold_check_keeps)
  qed
  show ?thesis
  proof (cases patch)
    case False
    then show ?thesis using go [OF assms(1)] by (simp add: generate_one_def)
  next
    case True
    show ?thesis
    proof (cases "map_of pm (fst xd)")
      case None
      then show ?thesis using True assms by (simp add: generate_one_def)
    next
      case (Some ctlMap)
      let ?r = "undefined_controls E (fst xd) (snd xd) ctlMap r"
      have I: "I ?r" using assms by (simp add: undefined_controls_keeps)
      show ?thesis
      proof (cases "list_ex (\<lambda>(name, v). map_of (hd_PowerCaps (snd xd)) name \<noteq> None) ctlMap")
        case False
        then show ?thesis using True Some I by (simp add: generate_one_def)
      next
        case ex: True
        then obtain name v c where "(name, v) \<in> set ctlMap" "map_of (hd_PowerCaps (snd xd)) name = Some c"
          by (auto simp: list_ex_iff)
        then have "(name, c) \<in> set (hd_PowerCaps (snd xd)) \<and> requested pm (fst xd) name \<noteq> None"
          using Some by (force simp: requested_def map_of_eq_None_iff dest: map_of_SomeD)
        then have "\<exists>nc \<in> set (hd_PowerCaps (snd xd)). requested pm (fst xd) (fst nc) \<noteq> None" by force
        then show ?thesis using True Some ex go [OF I] by (simp add: generate_one_def)
      qed
    qed
  qed
qed

lemma hsm_failures_keeps: "I r \<Longrightarrow> I (hsm_failures E xs m err r)"
  by (simp add: hsm_failures_def fold_fail_keeps)

lemma generate_keeps: "I r \<Longrightarrow> set m \<subseteq> set hsmData \<Longrightarrow> I (fold (generate_one E patch pm) m r)"
  by (induction m arbitrary: r) (auto simp: generate_one_keeps)

end

subsection \<open>The traffic\<close>

text \<open>\<open>sent\<close> is the log of requests to the hardware.\<close>

locale cap_traffic =
  fixes E :: "'w PowerCapEnv" and sent :: "'w \<Rightarrow> http_request list"
  assumes sent_uuid: "sent (snd (uuid_New (g_RT (pe_G E)) w)) = sent w"
    and sent_store_op: "sent (snd (dsp_StorePowerCapOperation (g_DSP (pe_G E)) op w)) = sent w"
    and sent_store_task: "sent (snd (dsp_StorePowerCapTask (g_DSP (pe_G E)) task w)) = sent w"
    and sent_get_task: "sent (snd (dsp_GetPowerCapTask (g_DSP (pe_G E)) i w)) = sent w"
    and sent_all_ops: "sent (snd (dsp_GetAllPowerCapOperationsForTask (g_DSP (pe_G E)) i w)) = sent w"
    and sent_delete_op: "sent (snd (dsp_DeletePowerCapOperation (g_DSP (pe_G E)) i j w)) = sent w"
    and sent_hsm: "sent (snd (hsm_FillHSMData (g_HSM (pe_G E)) xs w)) = sent w"
    and sent_create: "sent (snd (trs_CreateTaskList (g_RFTloc (pe_G E)) n w)) = sent w"
    and sent_creds: "sent (snd (cs_GetControllerCredentials (g_CS (pe_G E)) x w)) = sent w"
    and sent_close: "sent (trs_Close (g_RFTloc (pe_G E)) ids w) = sent w"
    and sent_launch: "sent (snd (trs_Launch (g_RFTloc (pe_G E)) rqs w)) = sent w @ rqs"

sublocale cap_traffic \<subseteq> gen: op_recorder E patch pm hsmData
  "\<lambda>r. sent (run_world r) = s \<and> (\<forall>op \<in> set (run_goodOps r). \<exists>xd \<in> set hsmData. allowed_op E patch pm xd op)" "\<lambda>i j. True"
  for patch pm hsmData s
proof (unfold_locales, goal_cases)
  case (1 r op r')
  then show ?case
    using sent_uuid [of "run_world r"] by (auto simp: new_op_def NewPowerCapOperation_def split: prod.splits)
qed (auto simp: record_op_def sent_store_op)

text \<open>The request of an operation.\<close>

definition request_of :: "bool \<Rightarrow> PowerCapOperation \<Rightarrow> http_request \<Rightarrow> bool" where
  "request_of patch op rq \<longleftrightarrow>
     (if patch
      then generatePowerCapPayload op = Some (rq_Body rq) \<and>
        (if isHpeApollo6500 (pco_PowerCapURI op)
         then rq_Method rq = ''POST'' \<and> rq_URL rq = ''https://'' @ pco_RfFQDN op @ pco_PowerCapTargetURI op
         else rq_Method rq = ''PATCH'' \<and> rq_URL rq = ''https://'' @ pco_RfFQDN op @ pco_PowerCapURI op)
      else rq_Method rq = ''GET'' \<and> rq_URL rq = ''https://'' @ pco_RfFQDN op @ pco_PowerCapURI op)"

lemma list_all2_right: "list_all2 R xs ys \<Longrightarrow> y \<in> set ys \<Longrightarrow> \<exists>x \<in> set xs. R x y"
  by (induction rule: list_all2_induct) auto

context cap_traffic
begin

lemma sent_delete_ops: "sent (delete_ops E i ops w) = sent w"
  unfolding delete_ops_def by (rule fold_inv_rule) (simp_all add: sent_delete_op)

lemma sent_compress: "sent (compressAndCompleteTask E task w) = sent w"
proof -
  obtain ops e w1 where g: "dsp_GetAllPowerCapOperationsForTask (g_DSP (pe_G E)) (pct_TaskID task) w = ((ops, e), w1)"
    by (metis surj_pair)
  then have "sent w1 = sent w" using sent_all_ops [of "pct_TaskID task" w] by simp
  then show ?thesis
    using g sent_store_task [of _ w1]
    by (auto simp: compressAndCompleteTask_def Let_def sent_delete_ops split: option.splits prod.splits) (metis snd_conv)+
qed

lemma generate_ops_traffic:
  assumes "run_goodOps r = []"
  shows "sent (run_world (generate_ops E patch pm xs r)) = sent (run_world r) \<and>
    (\<forall>op \<in> set (run_goodOps (generate_ops E patch pm xs r)). \<exists>ys w1 m e w2. \<exists>xd \<in> set m.
       hsm_FillHSMData (g_HSM (pe_G E)) ys w1 = ((m, e), w2) \<and> allowed_op E patch pm xd op)"
proof -
  let ?ys = "fst (pe_ValidateCompIDs E xs False)"
  obtain m e w2 where h: "hsm_FillHSMData (g_HSM (pe_G E)) ?ys (run_world r) = ((m, e), w2)" by (metis surj_pair)
  then have s: "sent w2 = sent (run_world r)" using sent_hsm [of ?ys "run_world r"] by simp
  let ?r = "hsm_failures E ?ys m e (r\<lparr>run_world := w2\<rparr>)"
  have "sent (run_world ?r) = sent (run_world r) \<and> (\<forall>op \<in> set (run_goodOps ?r). \<exists>xd \<in> set m. allowed_op E patch pm xd op)"
    by (rule gen.hsm_failures_keeps) (use s assms in simp)
  from gen.generate_keeps [OF this order.refl] show ?thesis
    using h by (simp add: generate_ops_def Let_def) blast
qed

lemma cap_requests_traffic:
  assumes "foldM (cap_request E patch) ois (rqs, w) = Some (rqs', w')"
  shows "sent w' = sent w \<and> (\<exists>new. rqs' = rqs @ new \<and> list_all2 (\<lambda>(op, i) rq. rq_ID rq = i \<and> request_of patch op rq) ois new)"
  using assms
proof (induction ois arbitrary: rqs w)
  case (Cons oi ois)
  then obtain rqs1 w1 where one: "cap_request E patch oi (rqs, w) = Some (rqs1, w1)"
    and rest: "foldM (cap_request E patch) ois (rqs1, w1) = Some (rqs', w')" by (auto split: Option.bind_splits)
  have "sent w1 = sent w \<and> (\<exists>rq. rqs1 = rqs @ [rq] \<and> rq_ID rq = snd oi \<and> request_of patch (fst oi) rq)"
    using one sent_creds [of "pcc_Xname (pco_Component (fst oi))" w]
    by (auto simp: cap_request_def request_of_def Let_def split: if_splits prod.splits)
  then obtain rq where rq: "sent w1 = sent w" "rqs1 = rqs @ [rq]" "rq_ID rq = snd oi" "request_of patch (fst oi) rq" by blast
  obtain new where "sent w' = sent w1" "rqs' = rqs1 @ new" "list_all2 (\<lambda>(op, i) rq. rq_ID rq = i \<and> request_of patch op rq) ois new"
    using Cons.IH [OF rest] by blast
  then show ?case using rq by (intro conjI exI [of _ "rq # new"]) (auto split: prod.splits)
qed simp

lemma send_ops_traffic:
  assumes "send_ops E patch ops w = Some w'"
  shows "\<exists>rqs. sent w' = sent w @ rqs \<and> list_all2 (request_of patch) ops rqs"
proof -
  obtain ids w1 where c: "trs_CreateTaskList (g_RFTloc (pe_G E)) (length ops) w = (ids, w1)" by fastforce
  obtain rqs w2 where f: "foldM (cap_request E patch) (zip ops ids) ([], w1) = Some (rqs, w2)" and len: "length ops \<le> length ids"
    using assms c by (auto simp: send_ops_def Let_def split: if_splits Option.bind_splits)
  obtain replies err w3 where l: "trs_Launch (g_RFTloc (pe_G E)) rqs w2 = ((replies, err), w3)" by (metis surj_pair)
  obtain w4 where r: "foldM (receive_one E patch (fold (\<lambda>(op, i). AList.update i op) (zip ops ids) [])) (take (length ops) replies) w3 = Some w4"
    and w': "w' = trs_Close (g_RFTloc (pe_G E)) ids w4"
    using assms c f l len by (auto simp: send_ops_def Let_def split: if_splits)
  have "sent w4 = sent w3"
    by (rule foldM_invariant [OF r]) (auto simp: receive_one_def sent_store_op Let_def)
  moreover have "sent w1 = sent w" using sent_create [of "length ops" w] c by simp
  moreover have "sent w3 = sent w2 @ rqs" using sent_launch [of rqs w2] l by simp
  moreover have q: "sent w2 = sent w1" "list_all2 (\<lambda>(op, i) rq. rq_ID rq = i \<and> request_of patch op rq) (zip ops ids) rqs"
    using cap_requests_traffic [OF f] by simp_all
  moreover have "list_all2 (request_of patch) (map fst (zip ops ids)) rqs"
    unfolding list_all2_map1 by (rule list_all2_mono [OF q(2)]) auto
  ultimately show ?thesis using w' len by (auto simp: sent_close map_fst_zip_take)
qed

lemma doPowerCapTask_traffic:
  assumes "doPowerCapTask E taskID w = Some w'"
    and "dsp_GetPowerCapTask (g_DSP (pe_G E)) taskID w = ((Some task, None), w0)"
    and "task_parameters task = Some (patch, xnames, pm)"
  shows "\<exists>rqs. sent w' = sent w @ rqs \<and> (\<forall>rq \<in> set rqs. \<exists>op ys w1 m e w2. \<exists>xd \<in> set m.
    hsm_FillHSMData (g_HSM (pe_G E)) ys w1 = ((m, e), w2) \<and> allowed_op E patch pm xd op \<and> request_of patch op rq)"
proof -
  obtain good bad where v: "pe_ValidateCompIDs E xnames True = (good, bad)" by fastforce
  let ?r = "fold (fail_op E ''Invalid xname'') bad \<lparr>run_task = task, run_goodOps = [], run_world = w0\<rparr>"
  have s0: "sent w0 = sent w" using sent_get_task [of taskID w] assms(2) by simp
  have "sent (run_world ?r) = sent w \<and> (\<forall>op \<in> set (run_goodOps ?r). \<exists>xd \<in> set []. allowed_op E patch pm xd op)"
    by (rule gen.fold_fail_keeps) (simp add: s0)
  then have r: "sent (run_world ?r) = sent w" "run_goodOps ?r = []" by auto
  let ?g = "generate_ops E patch pm good ?r"
  note g = generate_ops_traffic [OF r(2), of patch pm good]
  show ?thesis
  proof (cases "good = [] \<or> run_goodOps ?g = []")
    case True
    then have "sent w' = sent w"
      using assms v r g by (auto simp: doPowerCapTask_def Let_def sent_compress split: if_splits)
    then show ?thesis by (intro exI [of _ "[]"]) simp
  next
    case False
    define w3 where "w3 = snd (dsp_StorePowerCapTask (g_DSP (pe_G E))
      ((run_task ?g)\<lparr>pct_TaskStatus := PowerCapTaskStatusInProgress\<rparr>) (run_world ?g))"
    obtain w4 where o: "send_ops E patch (run_goodOps ?g) w3 = Some w4" and w': "sent w' = sent w4"
      using assms v False by (auto simp: doPowerCapTask_def Let_def w3_def sent_compress)
    obtain rqs where rqs: "sent w4 = sent w3 @ rqs" "list_all2 (request_of patch) (run_goodOps ?g) rqs"
      using send_ops_traffic [OF o] by blast
    have ok: "\<exists>op ys w1 m e w2. \<exists>xd \<in> set m.
      hsm_FillHSMData (g_HSM (pe_G E)) ys w1 = ((m, e), w2) \<and> allowed_op E patch pm xd op \<and> request_of patch op rq" if mem: "rq \<in> set rqs" for rq
    proof -
      obtain op where "op \<in> set (run_goodOps ?g)" "request_of patch op rq"
        using list_all2_right [OF rqs(2) mem] by blast
      then show ?thesis using g by blast
    qed
    have "sent w' = sent w @ rqs" using rqs(1) w' g r(1) by (simp add: w3_def sent_store_task)
    then show ?thesis using ok by blast
  qed
qed

end

subsection \<open>The executable world\<close>

text \<open>
  The executable world for power capping: xnames are valid when the world knows their type, a Redfish body is
  read as one control with a limit of 400 watts.
\<close>

definition sim_Unmarshal :: "string \<Rightarrow> error + Power" where
  "sim_Unmarshal s = Inr \<lparr>pow_Name = ''Power'', pow_PowerCtl = [\<lparr>rpc_Name = ''Node Power Limit'', rpc_Cray = None,
     rpc_PowerCapacityWatts = Some 900, rpc_LimitInWatts = Some 400\<rparr>], pow_hasError = False, pow_ActualPowerLimits = [],
     pow_PowerLimitRanges = [], pow_PowerLimits = [], pow_PhysicalContext = [], pow_SetPoint = None,
     pow_SettingRangeMax = None, pow_SettingRangeMin = None\<rparr>"

definition simE :: "world PowerCapEnv" where
  "simE =
     \<lparr>pe_G = (simG 100)\<lparr>
        g_RT := sim_runtime\<lparr>uuid_New := (\<lambda>w. (sim_uuid (sim_uuids w mod 1000), w\<lparr>sim_uuids := sim_uuids w + 1\<rparr>))\<rparr>,
        g_XN := simXN\<lparr>HMSType_String := (\<lambda>t. if t = Node then ''Node'' else [])\<rparr>\<rparr>,
      pe_ValidateCompIDs = (\<lambda>xs dups. partition (\<lambda>x. GetHMSType simXN x \<noteq> HMSTypeInvalid) (if dups then xs else remdups xs)),
      pe_Unmarshal = sim_Unmarshal,
      pe_go_doPowerCapTask = (\<lambda>i. on_hw (\<lambda>h. h\<lparr>hw_started := hw_started h @ [i]\<rparr>))\<rparr>"

definition sim_sent :: "world \<Rightarrow> http_request list" where
  "sim_sent w = hw_sent (sim_hw w)"

lemma simE_sel [simp]:
  "g_DSP (pe_G simE) = ETCDStorage_provider sim_runtime simXN (sim_etcd 100 1000)" "g_HSM (pe_G simE) = simHSM"
  "g_RFTloc (pe_G simE) = simTRS" "pe_Unmarshal simE = sim_Unmarshal"
  "uuid_New (g_RT (pe_G simE)) w = (sim_uuid (sim_uuids w mod 1000), w\<lparr>sim_uuids := sim_uuids w + 1\<rparr>)"
  "cs_GetControllerCredentials (g_CS (pe_G simE)) x w = ((''user'', ''pw'', None), w)" "g_VaultEnabled (pe_G simE)"
  "HMSType_String (g_XN (pe_G simE)) Node = ''Node''"
  by (simp_all add: simE_def simG_def)

lemma sim_sent_fold: "sim_sent (fold sim_send rqs w) = sim_sent w @ rqs"
  by (induction rqs arbitrary: w) (auto simp: sim_send_def sim_sent_def on_hw_def Let_def split: option.splits)

lemma sim_fault_hw [simp]: "sim_hw (snd (sim_fault w)) = sim_hw w" "fst (sim_fault w) = b \<Longrightarrow> sim_hw (snd (sim_fault w)) = sim_hw w"
  by (auto simp: sim_fault_def split: list.splits)

lemma sim_calls_hw:
  "sim_hw (snd (sim_Store k v w)) = sim_hw w" "sim_hw (snd (sim_Get k w)) = sim_hw w"
  "sim_hw (snd (sim_Delete k w)) = sim_hw w" "sim_hw (snd (sim_GetRange lo hi w)) = sim_hw w"
  by (auto simp: sim_Store_def sim_Get_def sim_Delete_def sim_GetRange_def sim_fault_def Let_def split: list.splits prod.splits)

interpretation simcap: cap_traffic simE sim_sent
proof (unfold_locales, goal_cases)
  case 11
  show ?case by (simp add: simTRS_def sim_sent_fold)
qed (simp_all add: simTRS_def simHSM_def sim_sent_def sim_calls_hw provider_sel etcd_cap_calls kv_reads_world
  kvStore_def kvDelete_def sim_etcd_def sim_kvi_def Let_def)


text \<open>A patch request for one node, with one limit in range and one control the HSM does not know.\<close>

definition sim_cap_node :: HsmData where
  "sim_cap_node = \<lparr>hd_BaseData = \<lparr>bc_ID = ''x0c0s0b0n0'', bc_Type = ''Node'', bc_State = ''Ready'', bc_Role = ''Compute'', bc_Class = ''River''\<rparr>,
     hd_RfFQDN = ''b0'', hd_PowerActionURI = [], hd_AllowableActions = [], hd_PowerStatusURI = [], hd_Error = None,
     hd_PowerCapURI = ''/p'', hd_PowerCapTargetURI = [], hd_PowerCapControlsCount = 0, hd_PowerCapCtlInfoCount = 1,
     hd_PowerCaps = [(''L'', \<lparr>pc_Name = ''L'', pc_Path = ''/p'', pc_Min = 100, pc_Max = 900, pc_PwrCtlIndex = 0\<rparr>)],
     hd_PoweredBy = []\<rparr>"

definition sim_cap_task :: PowerCapTask where
  "sim_cap_task = \<lparr>pct_TaskID = sim_uuid 5, pct_Type = PowerCapTaskTypePatch, pct_SnapshotParameters = None,
     pct_PatchParameters = Some [\<lparr>cmp_Xname = ''x0c0s0b0n0'', cmp_Controls =
       [\<lparr>ccp_Name = ''L'', ccp_Value = 50\<rparr>, \<lparr>ccp_Name = ''M'', ccp_Value = 7\<rparr>, \<lparr>ccp_Name = ''L'', ccp_Value = 400\<rparr>]\<rparr>],
     pct_TaskCreateTime = 0, pct_AutomaticExpirationTime = 1000000, pct_TaskStatus = PowerCapTaskStatusNew,
     pct_OperationIDs = [], pct_IsCompressed = False, pct_TaskCounts = zero_pc_counts, pct_Components = []\<rparr>"

definition sim_cap_world :: world where
  "sim_cap_world = (sim_start (hw_empty\<lparr>hw_hsm := [(''x0c0s0b0n0'', sim_cap_node)]\<rparr>))\<lparr>
     sim_db := [(''/pcs/powercaptask/'' @ sim_uuid 5, JPowerCapTask sim_cap_task)], sim_uuids := 10\<rparr>"

lemma sim_cap_run:
  "dsp_GetPowerCapTask (g_DSP (pe_G simE)) (sim_uuid 5) sim_cap_world = ((Some sim_cap_task, None), sim_cap_world)"
  "map_option (\<lambda>w. map rq_URL (sim_sent w)) (doPowerCapTask simE (sim_uuid 5) sim_cap_world) = Some [''https://b0/p'']"
  by code_simp+


end
