(* ===== verification/Power_Cap_Tasks.thy ===== *)
theory Power_Cap_Tasks
  imports Power_Cap_Requests HSM_Components "HOL-Library.Multiset"
begin

section \<open>Power capping tasks come to an end\<close>

text \<open>
  Over a store that keeps its contract and does not fail, an HSM that answers, and a task runner that answers every
  request once (the locale \<open>cap_world\<close>), a power capping task runs to its end: no loop waits for ever and no index is
  out of range, every operation gets a result, and the task is stored completed with the results folded in and its
  operations deleted. A query then gives what it would have given before.
\<close>

subsection \<open>Counts\<close>

lemma count_op_fields:
  "pcn_Total (count_op op n) = pcn_Total n + 1"
  "pcn_New (count_op op n) = pcn_New n + (if pco_Status op = PowerCapOpStatusNew then 1 else 0)"
  "pcn_InProgress (count_op op n) = pcn_InProgress n + (if pco_Status op = PowerCapOpStatusInProgress then 1 else 0)"
  "pcn_Failed (count_op op n) = pcn_Failed n + (if pco_Status op = PowerCapOpStatusFailed then 1 else 0)"
  "pcn_Succeeded (count_op op n) = pcn_Succeeded n + (if pco_Status op = PowerCapOpStatusSucceeded then 1 else 0)"
  "pcn_Unsupported (count_op op n) = pcn_Unsupported n + (if pco_Status op = PowerCapOpStatusUnsupported then 1 else 0)"
  by (auto simp: count_op_def Let_def)

lemma count_ended:
  assumes "list_all ended ops"
  shows "pcn_New (fold count_op ops n) = pcn_New n \<and> pcn_InProgress (fold count_op ops n) = pcn_InProgress n \<and>
    pcn_Total (fold count_op ops n) = pcn_Total n + int (length ops) \<and>
    pcn_Failed (fold count_op ops n) + pcn_Succeeded (fold count_op ops n) + pcn_Unsupported (fold count_op ops n) =
      pcn_Failed n + pcn_Succeeded n + pcn_Unsupported n + int (length ops)"
  using assms by (induction ops arbitrary: n) (auto simp: count_op_fields ended_def)

subsection \<open>Payloads\<close>

text \<open>The index of every power cap is inside the list of controls of its component.\<close>

definition caps_indexed :: "HsmData \<Rightarrow> bool" where
  "caps_indexed d \<longleftrightarrow> list_all (\<lambda>(name, c). pc_PwrCtlIndex c <
     (if hd_PowerCapControlsCount d > 0 then hd_PowerCapControlsCount d else hd_PowerCapCtlInfoCount d)) (hd_PowerCaps d)"

lemma limit_in_rangeD:
  "limit_in_range pm xd l \<Longrightarrow> ctl_CurrentValue l \<noteq> None \<and> (\<exists>c. map_of (hd_PowerCaps (snd xd)) (ctl_Name l) = Some c)"
  by (auto simp: limit_in_range_def list_ex_iff split: option.splits dest: weak_map_of_SomeI)

lemma payload_returns:
  assumes "allowed_op E True pm xd op" and "caps_indexed (snd xd)"
  shows "generatePowerCapPayload op \<noteq> None"
proof -
  let ?limits = "pcc_PowerCapLimits (pco_Component op)"
  have lim: "ctl_CurrentValue l \<noteq> None \<and> (\<exists>c. map_of (pco_PowerCaps op) (ctl_Name l) = Some c)" if "l \<in> set ?limits" for l
    using that assms(1) limit_in_rangeD [of pm xd l] by (simp add: allowed_op_def list_all_iff)
  have "\<exists>ms. foldM (\<lambda>l acc. map_option (\<lambda>m. acc @ [m]) (control_json (pco_PowerCaps op) l)) ?limits [] = Some ms \<and> True"
    by (rule foldM_total) (use lim in \<open>auto simp: control_json_def Let_def split: option.split\<close>)
  moreover have "\<exists>ms. foldM (set_limit (pco_PowerCaps op)) ?limits (replicate (pco_PowerCapCtlInfoCount op) ''{}'') = Some ms \<and>
      length ms = pco_PowerCapCtlInfoCount op" if "pco_PowerCapControlsCount op = 0"
  proof (rule foldM_total)
    fix l ctls assume "l \<in> set ?limits" and len: "length (ctls :: string list) = pco_PowerCapCtlInfoCount op"
    then obtain c where "map_of (pco_PowerCaps op) (ctl_Name l) = Some c" using lim by blast
    moreover from this have "pc_PwrCtlIndex c < pco_PowerCapCtlInfoCount op"
      using assms that by (auto simp: caps_indexed_def allowed_op_def list_all_iff dest!: map_of_SomeD)
    ultimately show "\<exists>s'. set_limit (pco_PowerCaps op) l ctls = Some s' \<and> length s' = pco_PowerCapCtlInfoCount op"
      using len by (simp add: set_limit_def)
  qed simp
  moreover have "?limits \<noteq> []" using assms(1) by (simp add: allowed_op_def)
  ultimately show ?thesis
    by (auto simp: generatePowerCapPayload_def Let_def split: list.splits)
qed

subsection \<open>The interface\<close>

locale cap_world = calm_cap_store "g_DSP (pe_G E)" inv ctasks cops
  for E :: "'w PowerCapEnv" and inv :: "'w \<Rightarrow> bool" and ctasks :: "'w \<Rightarrow> uuid \<Rightarrow> PowerCapTask option"
    and cops :: "'w \<Rightarrow> uuid \<times> uuid \<Rightarrow> PowerCapOperation option" +
  assumes new_uuid: "inv w \<Longrightarrow> uuid_New (g_RT (pe_G E)) w = (i, w') \<Longrightarrow>
      inv w' \<and> ctasks w' = ctasks w \<and> cops w' = cops w \<and> okid i"
    and ask_hsm: "inv w \<Longrightarrow> hsm_FillHSMData (g_HSM (pe_G E)) xs w = ((m, he), w') \<Longrightarrow>
      inv w' \<and> ctasks w' = ctasks w \<and> cops w' = cops w \<and> list_all (\<lambda>(x, d). caps_indexed d) m"
    and ask_creds: "inv w \<Longrightarrow> cs_GetControllerCredentials (g_CS (pe_G E)) x w = (cr, w') \<Longrightarrow>
      inv w' \<and> ctasks w' = ctasks w \<and> cops w' = cops w"
    and new_requests: "inv w \<Longrightarrow> trs_CreateTaskList (g_RFTloc (pe_G E)) n w = (ids, w') \<Longrightarrow>
      inv w' \<and> ctasks w' = ctasks w \<and> cops w' = cops w \<and> length ids = n \<and> distinct ids"
    and launch: "inv w \<Longrightarrow> trs_Launch (g_RFTloc (pe_G E)) rqs w = ((ds, le), w') \<Longrightarrow>
      inv w' \<and> ctasks w' = ctasks w \<and> cops w' = cops w \<and> mset (map td_ID ds) = mset (map rq_ID rqs) \<and>
      list_all (\<lambda>d. td_Err d \<noteq> None \<or> td_Response d \<noteq> None) ds"
    and close: "inv w \<Longrightarrow> inv (trs_Close (g_RFTloc (pe_G E)) ids w) \<and>
      ctasks (trs_Close (g_RFTloc (pe_G E)) ids w) = ctasks w \<and> cops (trs_Close (g_RFTloc (pe_G E)) ids w) = cops w"

subsection \<open>Compression\<close>

definition folded_task :: "PowerCapTask \<Rightarrow> PowerCapOperation list \<Rightarrow> PowerCapTask" where
  "folded_task task ops = task\<lparr>pct_TaskCounts := fold count_op ops zero_pc_counts, pct_Components := map snd (fold add_comp ops []),
     pct_TaskStatus := PowerCapTaskStatusCompleted, pct_IsCompressed := True\<rparr>"

context calm_cap_store
begin

lemma calm_delete_ops:
  assumes "inv w" and "okid i" and "\<forall>op \<in> set ops. okid (pco_OperationID op)"
  shows "inv (fold (\<lambda>op w. snd (dsp_DeletePowerCapOperation D i (pco_OperationID op) w)) ops w) \<and>
    ctasks (fold (\<lambda>op w. snd (dsp_DeletePowerCapOperation D i (pco_OperationID op) w)) ops w) = ctasks w \<and>
    cops (fold (\<lambda>op w. snd (dsp_DeletePowerCapOperation D i (pco_OperationID op) w)) ops w) =
      (\<lambda>(k, j). if k = i \<and> j \<in> pco_OperationID ` set ops then None else cops w (k, j))"
  using assms
proof (induction ops arbitrary: w)
  case (Cons op ops)
  obtain e w1 where d: "dsp_DeletePowerCapOperation D i (pco_OperationID op) w = (e, w1)" by fastforce
  have "inv w1 \<and> ctasks w1 = ctasks w \<and> cops w1 = (cops w)((i, pco_OperationID op) := None)"
    using delete_op [OF Cons.prems(1,2) _ d] calm_delete_op [OF Cons.prems(1) d] Cons.prems(3) by (simp add: may_set_def)
  then show ?case using Cons.IH [of w1] Cons.prems d by (auto simp: fun_eq_iff)
qed auto

lemma compress_folds:
  assumes "D = g_DSP (pe_G E)" and "inv w" and "okid (pct_TaskID task)" and "\<not> pct_IsCompressed task"
  shows "\<exists>ops. distinct ops \<and> (\<forall>op. op \<in> set ops \<longleftrightarrow> cops w (pct_TaskID task, pco_OperationID op) = Some op) \<and>
    inv (compressAndCompleteTask E task w) \<and>
    ctasks (compressAndCompleteTask E task w) = (ctasks w)(pct_TaskID task \<mapsto> folded_task task ops) \<and>
    cops (compressAndCompleteTask E task w) = (\<lambda>(k, j). if k = pct_TaskID task then None else cops w (k, j))"
proof -
  let ?i = "pct_TaskID task"
  obtain ops e w1 where g: "dsp_GetAllPowerCapOperationsForTask D ?i w = ((ops, e), w1)" by (metis surj_pair)
  have e: "e = None" by (rule calm_all_ops [OF assms(2,3) g])
  have w1: "inv w1" "ctasks w1 = ctasks w" "cops w1 = cops w" and dist: "distinct ops"
    and mem: "op \<in> set ops \<longleftrightarrow> cops w (?i, pco_OperationID op) = Some op" for op
    using all_ops [OF assms(2,3) g] e by (auto simp: distinct_map)
  obtain e2 w2 where s: "dsp_StorePowerCapTask D (folded_task task ops) w1 = (e2, w2)" by fastforce
  have e2: "e2 = None" by (rule calm_store_task [OF w1(1) s])
  have w2: "inv w2" "ctasks w2 = (ctasks w)(?i \<mapsto> folded_task task ops)" "cops w2 = cops w"
    using store_captask [OF w1(1) _ s] assms(3) e2 w1 by (auto simp: may_set_def folded_task_def)
  have run: "compressAndCompleteTask E task w =
      fold (\<lambda>op w. snd (dsp_DeletePowerCapOperation D ?i (pco_OperationID op) w)) ops w2"
    using g e s e2 assms(1,4)
    by (simp add: compressAndCompleteTask_def buildPowerCapResponse_def Let_def delete_ops_def folded_task_def)
  have ids: "\<forall>op \<in> set ops. okid (pco_OperationID op)" using mem cops_id [OF assms(2)] by blast
  have gone: "j \<in> pco_OperationID ` set ops" if "cops w (?i, j) = Some op" for j op
    using that mem [of op] cops_id [OF assms(2) that] by auto
  note del = calm_delete_ops [OF w2(1) assms(3) ids, folded run]
  have "cops (compressAndCompleteTask E task w) = (\<lambda>(k, j). if k = ?i then None else cops w (k, j))"
  proof (rule ext, clarify)
    fix k j
    have "\<not> (k = ?i \<and> j \<in> pco_OperationID ` set ops) \<Longrightarrow> k = ?i \<Longrightarrow> cops w (k, j) = None" using gone [of j] by fastforce
    then show "cops (compressAndCompleteTask E task w) (k, j) = (if k = ?i then None else cops w (k, j))"
      using del w2(3) by auto
  qed
  then show ?thesis
    using mem dist del [THEN conjunct1] del [THEN conjunct2, THEN conjunct1] w2(2) by (intro exI [of _ ops]) simp
qed

end

subsection \<open>The run\<close>

text \<open>
  The invariant of a run: only the operations of the task change, and an operation that has not ended is one of
  those still to be sent.
\<close>

definition run_inv ::
  "('w \<Rightarrow> bool) \<Rightarrow> ('w \<Rightarrow> uuid \<Rightarrow> PowerCapTask option) \<Rightarrow> ('w \<Rightarrow> uuid \<times> uuid \<Rightarrow> PowerCapOperation option) \<Rightarrow>
   PowerCapTask \<Rightarrow> 'w \<Rightarrow> uuid set \<Rightarrow> 'w \<Rightarrow> bool" where
  "run_inv good ctasks cops task w0 pending w \<longleftrightarrow> good w \<and> ctasks w = ctasks w0 \<and>
     (\<forall>i j. i \<noteq> pct_TaskID task \<longrightarrow> cops w (i, j) = cops w0 (i, j)) \<and>
     (\<forall>j op. cops w (pct_TaskID task, j) = Some op \<longrightarrow> ended op \<or> j \<in> pending)"

definition gen_inv ::
  "('w \<Rightarrow> bool) \<Rightarrow> ('w \<Rightarrow> uuid \<Rightarrow> PowerCapTask option) \<Rightarrow> ('w \<Rightarrow> uuid \<times> uuid \<Rightarrow> PowerCapOperation option) \<Rightarrow>
   'w PowerCapEnv \<Rightarrow> bool \<Rightarrow> patch_map \<Rightarrow> PowerCapTask \<Rightarrow> 'w \<Rightarrow> 'w pc_run \<Rightarrow> bool" where
  "gen_inv good ctasks cops E patch pm task w0 r \<longleftrightarrow>
     run_inv good ctasks cops task w0 (pco_OperationID ` set (run_goodOps r)) (run_world r) \<and>
     (\<exists>ids. run_task r = task\<lparr>pct_OperationIDs := ids\<rparr>) \<and>
     (\<forall>op \<in> set (run_goodOps r). pco_TaskID op = pct_TaskID task \<and> okid (pco_OperationID op) \<and>
        (\<exists>xd. caps_indexed (snd xd) \<and> allowed_op E patch pm xd op))"

lemma run_inv_frame:
  "run_inv good ctasks cops task w0 pend w \<Longrightarrow> good w' \<and> ctasks w' = ctasks w \<and> cops w' = cops w \<Longrightarrow>
     run_inv good ctasks cops task w0 pend w'"
  by (simp add: run_inv_def)

lemma run_invD: "run_inv good ctasks cops task w0 pend w \<Longrightarrow> good w"
  by (simp add: run_inv_def)

context cap_world
begin

lemma run_inv_store:
  assumes "run_inv inv ctasks cops task w0 pend w" and "okid (pct_TaskID task)"
    and "pco_TaskID op = pct_TaskID task" and "okid (pco_OperationID op)"
    and "dsp_StorePowerCapOperation (g_DSP (pe_G E)) op w = (e, w')"
    and "ended op \<or> pco_OperationID op \<in> pend"
  shows "run_inv inv ctasks cops task w0 pend w'" and "ended op \<Longrightarrow> run_inv inv ctasks cops task w0 (pend - {pco_OperationID op}) w'"
proof -
  have i: "inv w" using assms(1) by (simp add: run_inv_def)
  have "inv w' \<and> ctasks w' = ctasks w \<and> cops w' = (cops w)((pct_TaskID task, pco_OperationID op) \<mapsto> op)"
    using store_op [OF i _ assms(4,5)] calm_store_op [OF i assms(5)] assms(2,3) by (simp add: may_set_def)
  then show "run_inv inv ctasks cops task w0 pend w'" and "ended op \<Longrightarrow> run_inv inv ctasks cops task w0 (pend - {pco_OperationID op}) w'"
    using assms(1,6) by (auto simp: run_inv_def)
qed

end

sublocale cap_world \<subseteq> gen: op_recorder E patch pm hsmData
  "\<lambda>r. okid (pct_TaskID task) \<and> list_all (\<lambda>(x, d). caps_indexed d) hsmData \<and> gen_inv inv ctasks cops E patch pm task w0 r"
  "\<lambda>i j. i = pct_TaskID task \<and> okid j"
  for patch pm hsmData task w0
proof (unfold_locales, goal_cases)
  case (1 r op r')
  then have r: "inv (run_world r)" by (auto simp: gen_inv_def dest: run_invD)
  obtain i w' where u: "uuid_New (g_RT (pe_G E)) (run_world r) = (i, w')" by fastforce
  note run_inv_frame [of inv ctasks cops task w0 _ "run_world r" w']
  with 1 new_uuid [OF r u] u show ?case
    by (auto simp: new_op_def NewPowerCapOperation_def gen_inv_def)
next
  case (2 r op)
  obtain e w' where s: "dsp_StorePowerCapOperation (g_DSP (pe_G E)) op (run_world r) = (e, w')" by fastforce
  show ?case using 2 run_inv_store(1) [of task w0 _ "run_world r" op e w', OF _ _ _ _ s] s
    by (auto simp: record_op_def gen_inv_def)
next
  case (3 r op xd)
  obtain e w' where s: "dsp_StorePowerCapOperation (g_DSP (pe_G E)) op (run_world r) = (e, w')" by fastforce
  have "run_inv inv ctasks cops task w0 (insert (pco_OperationID op) (pco_OperationID ` set (run_goodOps r))) (run_world r)"
    using 3 by (auto simp: gen_inv_def run_inv_def)
  from run_inv_store(1) [OF this _ _ _ s] 3 s show ?case
    by (fastforce simp: record_op_def gen_inv_def list_all_iff)
qed

lemma fail_ops_goodOps: "run_goodOps (fold (fail_op E msg) xs r) = run_goodOps r"
proof (induction xs arbitrary: r)
  case (Cons x xs)
  have "run_goodOps (fail_op E msg x r) = run_goodOps r"
    by (auto simp: fail_op_def new_op_def record_op_def split: prod.splits)
  then show ?case using Cons by simp
qed simp

lemma task_map_acc:
  "length ids = length ops \<Longrightarrow> distinct ids \<Longrightarrow>
     map_of (fold (\<lambda>(op, i). AList.update i op) (zip ops ids) acc) = map_of acc ++ map_of (zip ids ops)"
proof (induction ops arbitrary: ids acc)
  case (Cons op ops)
  then obtain i js where ids: "ids = i # js" by (cases ids) auto
  then have "map_of (zip js ops) i = None" using Cons.prems by (auto simp: map_of_zip_is_None)
  then have swap: "(map_of acc)(i \<mapsto> op) ++ map_of (zip js ops) = (map_of acc ++ map_of (zip js ops))(i \<mapsto> op)"
    by (intro map_add_upd_left) (simp add: domIff)
  have "map_of (fold (\<lambda>(op, i). AList.update i op) (zip (op # ops) ids) acc) =
      map_of (fold (\<lambda>(op, i). AList.update i op) (zip ops js) (AList.update i op acc))" by (simp add: ids)
  also have "\<dots> = map_of (AList.update i op acc) ++ map_of (zip js ops)"
    by (rule Cons.IH) (use Cons.prems ids in auto)
  also have "\<dots> = map_of acc ++ map_of (zip ids (op # ops))"
    unfolding ids zip_Cons_Cons map_of.simps fst_conv snd_conv map_add_upd update_conv' swap ..
  finally show ?case .
qed simp

lemmas task_map = task_map_acc [where acc = "[]", simplified]

lemma zip_known: "length ids = length ops \<Longrightarrow> i \<in> set ids \<Longrightarrow> \<exists>op \<in> set ops. map_of (zip ids ops) i = Some op"
  by (metis map_of_zip_is_Some map_of_SomeD set_zip_rightD)

lemma zip_image: "length ids = length ops \<Longrightarrow> distinct ids \<Longrightarrow> (\<lambda>i. f (the (map_of (zip ids ops) i))) ` set ids = f ` set ops"
proof (induction ids ops rule: list_induct2)
  case (Cons i ids op ops)
  then have "(\<lambda>j. f (the (map_of (zip (i # ids) (op # ops)) j))) ` set ids = f ` set ops"
    by (auto intro!: image_cong simp flip: Cons.IH)
  then show ?case by simp
qed simp

lemma cap_request_returns:
  assumes "patch \<longrightarrow> generatePowerCapPayload (fst oi) \<noteq> None"
    and "cs_GetControllerCredentials (g_CS (pe_G E)) (pcc_Xname (pco_Component (fst oi))) w = (c, w1)"
  shows "\<exists>rq w2. cap_request E patch oi (rqs, w) = Some (rqs @ [rq], w2) \<and> rq_ID rq = snd oi \<and> (w2 = w \<or> w2 = w1)"
  using assms
  by (cases c; cases patch; cases "isHpeApollo6500 (pco_PowerCapURI (fst oi))"; cases "g_VaultEnabled (pe_G E)")
    (auto simp: cap_request_def Let_def)

context cap_world
begin

lemma generate_ops_inv:
  assumes "gen_inv inv ctasks cops E patch pm task w0 r" and "okid (pct_TaskID task)"
  shows "gen_inv inv ctasks cops E patch pm task w0 (generate_ops E patch pm xs r)"
proof -
  let ?ys = "fst (pe_ValidateCompIDs E xs False)"
  obtain m e w2 where h: "hsm_FillHSMData (g_HSM (pe_G E)) ?ys (run_world r) = ((m, e), w2)" by (metis surj_pair)
  have i: "inv (run_world r)" using assms(1) by (auto simp: gen_inv_def dest: run_invD)
  have m: "list_all (\<lambda>(x, d). caps_indexed d) m" using ask_hsm [OF i h] by blast
  have "gen_inv inv ctasks cops E patch pm task w0 (r\<lparr>run_world := w2\<rparr>)"
    using assms(1) ask_hsm [OF i h] run_inv_frame [of inv ctasks cops task w0 _ "run_world r" w2] by (auto simp: gen_inv_def)
  then have "okid (pct_TaskID task) \<and> list_all (\<lambda>(x, d). caps_indexed d) m \<and>
      gen_inv inv ctasks cops E patch pm task w0 (hsm_failures E ?ys m e (r\<lparr>run_world := w2\<rparr>))"
    using assms(2) m by (intro gen.hsm_failures_keeps) simp
  from gen.generate_keeps [OF this order.refl] show ?thesis using h by (simp add: generate_ops_def Let_def)
qed

lemma cap_requests_return:
  assumes "run_inv inv ctasks cops task w0 pend w"
    and "\<forall>op \<in> fst ` set ois. patch \<longrightarrow> generatePowerCapPayload op \<noteq> None"
  shows "\<exists>new w'. foldM (cap_request E patch) ois (rqs, w) = Some (rqs @ new, w') \<and> map rq_ID new = map snd ois \<and>
    run_inv inv ctasks cops task w0 pend w'"
  using assms
proof (induction ois arbitrary: rqs w)
  case (Cons oi ois)
  obtain c w1 where c: "cs_GetControllerCredentials (g_CS (pe_G E)) (pcc_Xname (pco_Component (fst oi))) w = (c, w1)" by fastforce
  obtain rq w2 where one: "cap_request E patch oi (rqs, w) = Some (rqs @ [rq], w2)" "rq_ID rq = snd oi"
    and w2: "w2 = w \<or> w2 = w1"
    using cap_request_returns [of patch oi E w c w1 rqs] Cons.prems(2) c by auto
  have "run_inv inv ctasks cops task w0 pend w2"
    using w2 Cons.prems(1) run_inv_frame [OF Cons.prems(1) ask_creds [OF run_invD [OF Cons.prems(1)] c]] by blast
  with Cons.IH [of w2 "rqs @ [rq]"] Cons.prems(2) obtain new w' where
    "foldM (cap_request E patch) ois (rqs @ [rq], w2) = Some ((rqs @ [rq]) @ new, w')" "map rq_ID new = map snd ois"
    "run_inv inv ctasks cops task w0 pend w'" by auto
  then show ?case using one by (intro exI [of _ "rq # new"] exI [of _ w']) simp
qed simp

lemma reply_of_answer: "td_Err d \<noteq> None \<or> td_Response d \<noteq> None \<Longrightarrow> \<exists>rsp. cap_reply d = Some rsp"
  by (auto simp: cap_reply_def split: option.splits body.splits)

lemma finish_op_ends:
  "ended (finish_op E patch rsp op) \<and> pco_TaskID (finish_op E patch rsp op) = pco_TaskID op \<and>
   pco_OperationID (finish_op E patch rsp op) = pco_OperationID op"
  by (auto simp: finish_op_def failed_op_def ended_def split: sum.splits)

text \<open>Every reply ends one operation; the operations still pending are those of the replies to come.\<close>

lemma receive_all:
  assumes "run_inv inv ctasks cops task w0 ((\<lambda>d. pco_OperationID (the (map_of tm (td_ID d)))) ` set ds) w"
    and "okid (pct_TaskID task)"
    and "\<forall>d \<in> set ds. (td_Err d \<noteq> None \<or> td_Response d \<noteq> None) \<and>
      (\<exists>op. map_of tm (td_ID d) = Some op \<and> pco_TaskID op = pct_TaskID task \<and> okid (pco_OperationID op))"
  shows "\<exists>w'. foldM (receive_one E patch tm) ds w = Some w' \<and> run_inv inv ctasks cops task w0 {} w'"
  using assms
proof (induction ds arbitrary: w)
  case (Cons d ds)
  let ?pend = "\<lambda>ds. (\<lambda>d. pco_OperationID (the (map_of tm (td_ID d)))) ` set ds"
  obtain op where op: "map_of tm (td_ID d) = Some op" "pco_TaskID op = pct_TaskID task" "okid (pco_OperationID op)"
    using Cons.prems(3) by auto
  obtain rsp where rsp: "cap_reply d = Some rsp" using Cons.prems(3) reply_of_answer by auto
  obtain e w1 where s: "dsp_StorePowerCapOperation (g_DSP (pe_G E)) (finish_op E patch rsp op) w = (e, w1)" by fastforce
  have one: "receive_one E patch tm d w = Some w1" using op(1) rsp s by (simp add: receive_one_def)
  note fin = finish_op_ends [of patch rsp op]
  have "run_inv inv ctasks cops task w0 (?pend (d # ds) - {pco_OperationID (finish_op E patch rsp op)}) w1"
    by (rule run_inv_store(2) [OF Cons.prems(1,2) _ _ s]) (use fin op in auto)
  then have "run_inv inv ctasks cops task w0 (?pend ds) w1"
    using fin op(1) by (auto simp: run_inv_def)
  from Cons.IH [OF this Cons.prems(2)] Cons.prems(3) one show ?case by simp
qed simp

lemma send_ops_return:
  assumes "run_inv inv ctasks cops task w0 (pco_OperationID ` set ops) w" and "okid (pct_TaskID task)"
    and ops: "\<forall>op \<in> set ops. pco_TaskID op = pct_TaskID task \<and> okid (pco_OperationID op) \<and>
      (\<exists>xd. caps_indexed (snd xd) \<and> allowed_op E patch pm xd op)"
  shows "\<exists>w'. send_ops E patch ops w = Some w' \<and> run_inv inv ctasks cops task w0 {} w'"
proof -
  let ?pend = "pco_OperationID ` set ops"
  obtain ids w1 where c: "trs_CreateTaskList (g_RFTloc (pe_G E)) (length ops) w = (ids, w1)" by fastforce
  note c' = new_requests [OF run_invD [OF assms(1)] c]
  have w1: "run_inv inv ctasks cops task w0 ?pend w1" by (rule run_inv_frame [OF assms(1)]) (use c' in blast)
  have payload: "patch \<longrightarrow> generatePowerCapPayload op \<noteq> None" if "op \<in> set ops" for op
    using ops that payload_returns by (cases patch) fastforce+
  obtain rqs w2 where rqs: "foldM (cap_request E patch) (zip ops ids) ([], w1) = Some (rqs, w2)"
    "map rq_ID rqs = ids" "run_inv inv ctasks cops task w0 ?pend w2"
    using cap_requests_return [OF w1, of "zip ops ids" patch "[]"] payload c' map_fst_zip [of ops ids]
    by (auto simp flip: set_map)
  obtain ds e w3 where l: "trs_Launch (g_RFTloc (pe_G E)) rqs w2 = ((ds, e), w3)" by (metis surj_pair)
  note l' = launch [OF run_invD [OF rqs(3)] l]
  have w3: "run_inv inv ctasks cops task w0 ?pend w3" by (rule run_inv_frame [OF rqs(3)]) (use l' in blast)
  have ds: "mset (map td_ID ds) = mset ids" using l' rqs(2) by simp
  then have len: "length ds = length ops" using c' by (metis length_map size_mset)
  define tm where "tm = fold (\<lambda>(op, i). AList.update i op) (zip ops ids) []"
  have tm: "map_of tm = map_of (zip ids ops)" unfolding tm_def by (rule task_map) (use c' in simp_all)
  have set_ds: "td_ID ` set ds = set ids" using mset_eq_setD [OF ds] by simp
  have "(\<lambda>d. pco_OperationID (the (map_of tm (td_ID d)))) ` set ds = (\<lambda>i. pco_OperationID (the (map_of (zip ids ops) i))) ` (td_ID ` set ds)"
    by (simp add: image_image tm)
  then have pend: "(\<lambda>d. pco_OperationID (the (map_of tm (td_ID d)))) ` set ds = ?pend"
    using zip_image [of ids ops pco_OperationID] c' by (simp add: set_ds)
  have known: "\<forall>d \<in> set ds. \<exists>op \<in> set ops. map_of tm (td_ID d) = Some op"
    unfolding tm using zip_known [of ids ops] c' set_ds by blast
  obtain w4 where "foldM (receive_one E patch tm) ds w3 = Some w4" "run_inv inv ctasks cops task w0 {} w4"
    using receive_all [of task w0 tm ds w3 patch] w3 assms(2) pend known ops l' by (fastforce simp: list_all_iff)
  then show ?thesis
    using c c' rqs l len close [of w4 ids] run_inv_frame [of inv ctasks cops task w0 "{}" w4 "trs_Close (g_RFTloc (pe_G E)) ids w4"]
    by (auto simp: send_ops_def tm_def dest: run_invD)
qed

text \<open>A run whose operations have all ended is folded into the task.\<close>

lemma compress_run:
  assumes "run_inv inv ctasks cops task w0 {} w" and "okid (pct_TaskID task)" and "\<not> pct_IsCompressed task"
    and "task' = task\<lparr>pct_OperationIDs := ids, pct_TaskStatus := st\<rparr>"
  shows "\<exists>ops. list_all ended ops \<and> inv (compressAndCompleteTask E task' w) \<and>
    ctasks (compressAndCompleteTask E task' w) = (ctasks w0)(pct_TaskID task \<mapsto> folded_task (task\<lparr>pct_OperationIDs := ids\<rparr>) ops) \<and>
    cops (compressAndCompleteTask E task' w) = (\<lambda>(k, j). if k = pct_TaskID task then None else cops w0 (k, j))"
proof -
  have task': "okid (pct_TaskID task')" "\<not> pct_IsCompressed task'" "pct_TaskID task' = pct_TaskID task"
    "folded_task task' ops = folded_task (task\<lparr>pct_OperationIDs := ids\<rparr>) ops" for ops
    using assms(2-4) by (simp_all add: folded_task_def)
  obtain ops where ops: "\<forall>op. op \<in> set ops \<longleftrightarrow> cops w (pct_TaskID task, pco_OperationID op) = Some op"
    and w': "inv (compressAndCompleteTask E task' w)"
      "ctasks (compressAndCompleteTask E task' w) = (ctasks w)(pct_TaskID task \<mapsto> folded_task task' ops)"
      "cops (compressAndCompleteTask E task' w) = (\<lambda>(k, j). if k = pct_TaskID task then None else cops w (k, j))"
    using compress_folds [OF refl run_invD [OF assms(1)] task'(1,2)] unfolding task'(3) by blast
  have ct: "ctasks w = ctasks w0" and other: "\<And>i j. i \<noteq> pct_TaskID task \<Longrightarrow> cops w (i, j) = cops w0 (i, j)"
    and fin: "\<And>j op. cops w (pct_TaskID task, j) = Some op \<Longrightarrow> ended op"
    using assms(1) by (auto simp: run_inv_def)
  have "list_all ended ops" using ops fin by (auto simp: list_all_iff)
  moreover have "(\<lambda>(k, j). if k = pct_TaskID task then None else cops w (k, j)) =
      (\<lambda>(k, j). if k = pct_TaskID task then None else cops w0 (k, j))" using other by (auto simp: fun_eq_iff)
  ultimately show ?thesis
    using w' ct unfolding task'(4) by (intro exI [of _ ops]) simp
qed

lemma doPowerCapTask_completes:
  assumes "inv w" and "ctasks w i = Some task" and "\<not> pct_IsCompressed task" and "task_parameters task = Some (patch, xnames, pm)"
    and "\<forall>j op. cops w (i, j) = Some op \<longrightarrow> ended op"
  shows "\<exists>w' ids ops. doPowerCapTask E i w = Some w' \<and> list_all ended ops \<and> inv w' \<and>
    ctasks w' = (ctasks w)(i \<mapsto> folded_task (task\<lparr>pct_OperationIDs := ids\<rparr>) ops) \<and>
    cops w' = (\<lambda>(k, j). if k = i then None else cops w (k, j))"
proof -
  have i: "pct_TaskID task = i" "okid i" using ctasks_id [OF assms(1,2)] by blast+
  obtain t e w0 where g: "dsp_GetPowerCapTask (g_DSP (pe_G E)) i w = ((t, e), w0)" by (metis surj_pair)
  have e: "e = None" "t = Some task" "inv w0" "ctasks w0 = ctasks w" "cops w0 = cops w"
    using get_captask [OF assms(1) g] calm_get_task [OF assms(1) g] assms(2) by auto
  obtain good bad where v: "pe_ValidateCompIDs E xnames True = (good, bad)" by fastforce
  define r where "r = fold (fail_op E ''Invalid xname'') bad \<lparr>run_task = task, run_goodOps = [], run_world = w0\<rparr>"
  have "okid (pct_TaskID task) \<and> list_all (\<lambda>(x, d). caps_indexed d) ([] :: (xname, HsmData) gomap) \<and> gen_inv inv ctasks cops E patch pm task w r"
    unfolding r_def by (rule gen.fold_fail_keeps) (use i e assms(5) in \<open>auto simp: gen_inv_def run_inv_def intro!: exI [of _ "pct_OperationIDs task"]\<close>)
  then have r: "gen_inv inv ctasks cops E patch pm task w r" by blast
  have goods: "run_goodOps r = []" by (simp add: r_def fail_ops_goodOps)
  define q where "q = (if good = [] then r else generate_ops E patch pm good r)"
  have q: "gen_inv inv ctasks cops E patch pm task w q" using r generate_ops_inv i by (simp add: q_def)
  then obtain ids where ids: "run_task q = task\<lparr>pct_OperationIDs := ids\<rparr>"
    and qi: "run_inv inv ctasks cops task w (pco_OperationID ` set (run_goodOps q)) (run_world q)" by (auto simp: gen_inv_def)
  show ?thesis
  proof (cases "run_goodOps q = []")
    case True
    have "doPowerCapTask E i w = Some (compressAndCompleteTask E (run_task q) (run_world q))"
      using g e v assms(4) True goods by (auto simp: doPowerCapTask_def Let_def q_def split: if_splits simp flip: r_def)
    then show ?thesis
      using compress_run [of task w "run_world q" "run_task q" "pct_TaskStatus task" ids] qi True i assms(3) ids by auto
  next
    case False
    define task' where "task' = (run_task q)\<lparr>pct_TaskStatus := PowerCapTaskStatusInProgress\<rparr>"
    obtain e1 w1 where s: "dsp_StorePowerCapTask (g_DSP (pe_G E)) task' (run_world q) = (e1, w1)" by fastforce
    have t': "pct_TaskID task' = i" using i by (simp add: task'_def ids)
    have w1: "inv w1" "cops w1 = cops (run_world q)" "ctasks w1 = (ctasks w)(i \<mapsto> task')"
      using store_captask [OF run_invD [OF qi] _ s] calm_store_task [OF run_invD [OF qi] s] t' i qi
      by (auto simp: may_set_def run_inv_def)
    have "run_inv inv ctasks cops task w1 (pco_OperationID ` set (run_goodOps q)) w1"
      using qi w1 by (auto simp: run_inv_def)
    then obtain w2 where w2: "send_ops E patch (run_goodOps q) w1 = Some w2" "run_inv inv ctasks cops task w1 {} w2"
      using send_ops_return [of task w1 "run_goodOps q" w1 patch pm] q i by (auto simp: gen_inv_def)
    have run: "doPowerCapTask E i w = Some (compressAndCompleteTask E task' w2)"
      using g e v assms(4) False goods s w2(1) by (auto simp: doPowerCapTask_def Let_def q_def task'_def split: if_splits simp flip: r_def)
    have same: "cops w1 (k, j) = cops w (k, j)" if "k \<noteq> i" for k j
      using that qi w1(2) i by (simp add: run_inv_def)
    obtain ops where "list_all ended ops" "inv (compressAndCompleteTask E task' w2)"
      "ctasks (compressAndCompleteTask E task' w2) = (ctasks w1)(i \<mapsto> folded_task (task\<lparr>pct_OperationIDs := ids\<rparr>) ops)"
      "cops (compressAndCompleteTask E task' w2) = (\<lambda>(k, j). if k = i then None else cops w1 (k, j))"
      using compress_run [OF w2(2) _ assms(3), of task' PowerCapTaskStatusInProgress ids] i ids by (auto simp: task'_def)
    moreover have "(\<lambda>(k, j). if k = i then None else cops w1 (k, j)) = (\<lambda>(k, j). if k = i then None else cops w (k, j))"
      using same by (auto simp: fun_eq_iff)
    ultimately show ?thesis using run w1(3) by (intro exI [of _ "compressAndCompleteTask E task' w2"] exI [of _ ids] exI [of _ ops]) simp
  qed
qed

end

subsection \<open>Queries\<close>

context calm_cap_store
begin

lemma query_uncompressed:
  assumes "D = g_DSP (pe_G E)" and "inv w" and "ctasks w i = Some task" and "\<not> pct_IsCompressed task"
  shows "\<exists>ops. distinct ops \<and> (\<forall>op. op \<in> set ops \<longleftrightarrow> cops w (i, pco_OperationID op) = Some op) \<and>
    fst (GetPowerCapQuery E i w) = BuildSuccessPassback StatusOK (buildPowerCapResponse task ops True)"
proof -
  obtain t e w1 where g: "dsp_GetPowerCapTask D i w = ((t, e), w1)" by (metis surj_pair)
  have t: "e = None" "t = Some task" and w1: "inv w1" "cops w1 = cops w"
    using get_captask [OF assms(2) g] calm_get_task [OF assms(2) g] assms(3) by auto
  obtain ops e2 w2 where a: "dsp_GetAllPowerCapOperationsForTask D i w1 = ((ops, e2), w2)" by (metis surj_pair)
  have i: "okid i" using ctasks_id [OF assms(2,3)] by blast
  have "e2 = None" by (rule calm_all_ops [OF w1(1) i a])
  then show ?thesis
    using g a t all_ops [OF w1(1) i a] w1(2) assms(1,4)
    by (intro exI [of _ ops]) (auto simp: GetPowerCapQuery_def distinct_map)
qed

lemma query_folded:
  assumes "D = g_DSP (pe_G E)" and "inv w" and "ctasks w i = Some (folded_task task ops)" and "\<not> pct_IsCompressed task"
  shows "fst (GetPowerCapQuery E i w) =
    BuildSuccessPassback StatusOK ((buildPowerCapResponse task ops True)\<lparr>pr_TaskStatus := PowerCapTaskStatusCompleted\<rparr>)"
proof -
  obtain t e w1 where g: "dsp_GetPowerCapTask D i w = ((t, e), w1)" by (metis surj_pair)
  have "e = None" "t = Some (folded_task task ops)"
    using get_captask [OF assms(2) g] calm_get_task [OF assms(2) g] assms(3) by auto
  then show ?thesis
    using g assms(1,4) by (simp add: GetPowerCapQuery_def folded_task_def buildPowerCapResponse_def Let_def)
qed

end

subsection \<open>What the HSM client hands over\<close>

text \<open>The client keeps the index of every power cap inside the list it was read from.\<close>

lemma update_caps: "nc \<in> set (AList.update n c m) \<Longrightarrow> nc = (n, c) \<or> nc \<in> set m"
  by (induction m) (auto split: if_splits)

lemma caps_fold:
  assumes step: "\<And>i c m. i < n \<Longrightarrow> (\<forall>nc \<in> set m. pc_PwrCtlIndex (snd nc) < n) \<Longrightarrow> (\<forall>nc \<in> set (f (i, c) m). pc_PwrCtlIndex (snd nc) < n)"
  shows "k + length cs \<le> n \<Longrightarrow> \<forall>nc \<in> set m. pc_PwrCtlIndex (snd nc) < n \<Longrightarrow>
    \<forall>nc \<in> set (fold f (enumerate k cs) m). pc_PwrCtlIndex (snd nc) < n"
proof (induction cs arbitrary: k m)
  case (Cons c cs)
  have "\<forall>nc \<in> set (f (k, c) m). pc_PwrCtlIndex (snd nc) < n" using step [of k m c] Cons.prems by simp
  then show ?case using Cons.IH [of "Suc k" "f (k, c) m"] Cons.prems(1) by simp
qed simp

lemma extract_caps_indexed:
  assumes "hd_PowerCaps d = []"
  shows "caps_indexed (extractPowerCapInfo d si)"
proof -
  have 1: "\<forall>nc \<in> set (fold control_cap (enumerate 0 (si_Controls si)) []). pc_PwrCtlIndex (snd nc) < length (si_Controls si)"
    by (rule caps_fold) (auto simp: control_cap_def dest!: update_caps)
  have 2: "\<forall>nc \<in> set (fold (powerctl_cap (si_PowerURL si)) (enumerate 0 (si_PowerCtl si)) []). pc_PwrCtlIndex (snd nc) < length (si_PowerCtl si)"
    by (rule caps_fold) (auto simp: powerctl_cap_def Let_def dest!: update_caps split: prod.splits)
  show ?thesis
    using 1 2 assms
    by (cases "si_PowerCtl si"; cases "si_Controls si")
      (fastforce simp: caps_indexed_def extractPowerCapInfo_def Let_def list_all_iff split: option.splits)+
qed

lemma endpoint_caps_indexed: 
  assumes "hd_PowerCaps d = []"
  shows "caps_indexed (endpoint_data ep d)"
proof -
  have keep: "hd_PowerCaps (set_reset a d) = hd_PowerCaps d" "hd_PowerCaps (set_power_uris ep d) = hd_PowerCaps d" for a d
    by (auto simp: set_reset_def set_power_uris_def split: option.split)
  have none: "hd_PowerCaps d = [] \<Longrightarrow> caps_indexed d" for d by (simp add: caps_indexed_def)
  show ?thesis
    using assms by (cases "ep_ComponentEndpointType ep")
      (auto simp: endpoint_data_def keep none extract_caps_indexed split: option.split)
qed

subsection \<open>The executable world\<close>

definition sim_cap_calm :: "world \<Rightarrow> bool" where
  "sim_cap_calm w \<longleftrightarrow> sim_faults w = [] \<and> hw_effects (sim_hw w) = [] \<and> list_all (\<lambda>(x, d). caps_indexed d) (hw_hsm (sim_hw w))"

interpretation sim_calm: calm_kv "sim_etcd 100 1000" "\<lambda>w. map_of (sim_db w)" sim_runtime simXN sim_cap_calm
proof (unfold_locales, goal_cases)
qed (auto simp: sim_etcd_def sim_defs sim_cap_calm_def Let_def split: prod.splits)

lemma sim_send_calm:
  assumes "sim_cap_calm w"
  shows "sim_cap_calm (fold sim_send rqs w) \<and> sim_db (fold sim_send rqs w) = sim_db w"
  using assms
  by (induction rqs arbitrary: w) (auto simp: sim_send_def sim_cap_calm_def on_hw_def Let_def)

lemma nat_digits_length: "n < 10 ^ Suc k \<Longrightarrow> length (nat_digits n) \<le> Suc k"
proof (induction k arbitrary: n)
  case (Suc k)
  then have "n div 10 < 10 ^ Suc k" by auto
  then show ?case using Suc.IH [of "n div 10"] by (subst nat_digits.simps) auto
qed (subst nat_digits.simps, simp)

lemma nat_digits_in: "\<forall>d < (10 :: nat). char_of (48 + d) \<in> H \<Longrightarrow> set (nat_digits n) \<subseteq> H"
proof (induction n rule: nat_digits.induct)
  case (1 n)
  then show ?case by (subst nat_digits.simps) auto
qed

lemma nat_digits_hex: "set (nat_digits n) \<subseteq> set ''0123456789abcdef-''"
proof (rule nat_digits_in)
  have "list_all (\<lambda>d. char_of (48 + d) \<in> set ''0123456789abcdef-'') [0..<10]" by code_simp
  then show "\<forall>d < (10 :: nat). char_of (48 + d) \<in> set ''0123456789abcdef-''" by (simp add: list_all_iff)
qed

lemma sim_uuid_ok:
  assumes "n < 1000"
  shows "okid (sim_uuid n)"
proof -
  have "length (nat_digits n) \<le> 3" using nat_digits_length [of n 2] assms by simp
  then have "length (sim_uuid n) = 36" by (simp add: sim_uuid_def Let_def)
  moreover have "set (sim_uuid n) \<subseteq> insert (CHR ''0'') (set (nat_digits n))" by (auto simp: sim_uuid_def Let_def)
  moreover have "CHR ''0'' \<in> set ''0123456789abcdef-''" by simp
  ultimately show ?thesis unfolding okid_def list_all_iff using nat_digits_hex [of n] by blast
qed

interpretation simcw: cap_world simE "\<lambda>w. sim_inv w \<and> sim_cap_calm w" "\<lambda>w. db_captasks (map_of (sim_db w))"
  "\<lambda>w. db_capops (map_of (sim_db w))"
proof (rule cap_world.intro)
  show "calm_cap_store (g_DSP (pe_G simE)) (\<lambda>w. sim_inv w \<and> sim_cap_calm w) (\<lambda>w. db_captasks (map_of (sim_db w)))
    (\<lambda>w. db_capops (map_of (sim_db w)))"
    unfolding simE_sel by (rule sim_calm.calmcaps.calm_cap_store_axioms)
  show "cap_world_axioms simE (\<lambda>w. sim_inv w \<and> sim_cap_calm w) (\<lambda>w. db_captasks (map_of (sim_db w)))
    (\<lambda>w. db_capops (map_of (sim_db w)))"
  proof (unfold_locales, goal_cases)
    case (1 w i w')
    then show ?case by (auto simp: sim_uuid_ok sim_cap_calm_def)
  next
    case (2 w xs m e w')
    then show ?case by (auto simp: simHSM_def sim_cap_calm_def list_all_iff)
  next
    case (5 w rqs ds e w')
    then show ?case using sim_send_calm [of w rqs] by (auto simp: simTRS_def comp_def list_all_iff simp del: mset_map)
  qed (auto simp: simTRS_def sim_create_ids sim_cap_calm_def)
qed


lemma sim_cap_world_good: "sim_inv sim_cap_world \<and> sim_cap_calm sim_cap_world"
  "db_captasks (map_of (sim_db sim_cap_world)) (sim_uuid 5) = Some sim_cap_task"
  "db_capops (map_of (sim_db sim_cap_world)) (i, j) = None"
proof -
  have db: "sim_db sim_cap_world = [(''/pcs/powercaptask/'' @ sim_uuid 5, JPowerCapTask sim_cap_task)]" by (simp add: sim_cap_world_def)
  show "db_captasks (map_of (sim_db sim_cap_world)) (sim_uuid 5) = Some sim_cap_task" by (simp add: db db_captasks_def)
  show "db_capops (map_of (sim_db sim_cap_world)) (i, j) = None" by (simp add: db db_capops_def)
  have "sim_inv sim_cap_world"
    by (auto simp: db etcd_inv_def typed_docs_def unpaged_def sim_cap_task_def sim_uuid_ok split: if_splits)
  moreover have "sim_cap_calm sim_cap_world"
    by (simp add: sim_cap_world_def sim_cap_calm_def sim_start_def hw_empty_def sim_cap_node_def caps_indexed_def)
  ultimately show "sim_inv sim_cap_world \<and> sim_cap_calm sim_cap_world" ..
qed


text \<open>
  C18: Compression does not change what a query answers. A query of a stored task that is not compressed and
  a query after it was compressed both give the response built from the operations of the task, each operation once; the
  second shows the task as completed.
\<close>

theorem powercap_query_after_compression:
  assumes "calm_cap_store (g_DSP (pe_G E)) good ctasks cops" and "good w" and "ctasks w i = Some task" and "\<not> pct_IsCompressed task"
  shows "\<exists>before after. mset after = mset before \<and>
    (\<forall>op. op \<in> set before \<longleftrightarrow> cops w (i, pco_OperationID op) = Some op) \<and>
    fst (GetPowerCapQuery E i w) = BuildSuccessPassback StatusOK (buildPowerCapResponse task before True) \<and>
    fst (GetPowerCapQuery E i (compressAndCompleteTask E task w)) =
      BuildSuccessPassback StatusOK
        ((buildPowerCapResponse task after True)\<lparr>pr_TaskStatus := PowerCapTaskStatusCompleted\<rparr>)"
proof -
  note S = assms(1)
  have i: "pct_TaskID task = i" "okid i"
    using cap_store.ctasks_id [OF calm_cap_store.axioms(1) [OF S] assms(2,3)] by blast+
  obtain before where b: "distinct before" "\<forall>op. op \<in> set before \<longleftrightarrow> cops w (i, pco_OperationID op) = Some op"
    "fst (GetPowerCapQuery E i w) = BuildSuccessPassback StatusOK (buildPowerCapResponse task before True)"
    using calm_cap_store.query_uncompressed [OF S refl assms(2-4)] by blast
  obtain after where a: "distinct after" "\<forall>op. op \<in> set after \<longleftrightarrow> cops w (i, pco_OperationID op) = Some op"
    "good (compressAndCompleteTask E task w)"
    "ctasks (compressAndCompleteTask E task w) = (ctasks w)(i \<mapsto> folded_task task after)"
    using calm_cap_store.compress_folds [OF S refl assms(2) _ assms(4)] i by metis
  have "set after = set before" using a(2) b(2) by blast
  then have "mset after = mset before" using a(1) b(1) by (simp add: set_eq_iff_mset_eq_distinct)
  moreover have "fst (GetPowerCapQuery E i (compressAndCompleteTask E task w)) = BuildSuccessPassback StatusOK
      ((buildPowerCapResponse task after True)\<lparr>pr_TaskStatus := PowerCapTaskStatusCompleted\<rparr>)"
    by (rule calm_cap_store.query_folded [OF S refl a(3) _ assms(4)]) (simp add: a(4))
  ultimately show ?thesis using b by blast
qed

theorem powercap_query_after_compression_witness:
  "\<exists>ops. fst (GetPowerCapQuery simE (sim_uuid 5) (compressAndCompleteTask simE sim_cap_task sim_cap_world)) =
     BuildSuccessPassback StatusOK ((buildPowerCapResponse sim_cap_task ops True)\<lparr>pr_TaskStatus := PowerCapTaskStatusCompleted\<rparr>)"
proof -
  have "\<not> pct_IsCompressed sim_cap_task" by (simp add: sim_cap_task_def)
  then show ?thesis
    using powercap_query_after_compression [OF simcw.calm_cap_store_axioms sim_cap_world_good(1,2)] by blast
qed

end
