(* ===== verification/Task_Runner.thy ===== *)
theory Task_Runner
  imports Domain_Globals "HOL-Library.Word"
begin

section \<open>The task runner\<close>

text \<open>
  \<^verbatim>\<open>internal/taskrun\<close>: \<^verbatim>\<open>TRSHTTPLocal\<close> sends lists of HTTP requests, one goroutine per request, and hands the finished
  tasks back over a channel. \<open>trs_env\<close> holds the code outside: the retrying HTTP client (\<^verbatim>\<open>retryablehttp\<close>), the
  certificates of the standard library, \<^verbatim>\<open>SetHTTPUserAgent\<close> of \<^verbatim>\<open>hms-base\<close>, and the state of contexts.

  The caller's task array is shared with the goroutines: a task is named by the number of its launch and its index in the
  array, and the channel of a launch carries indices. A time stamp is only tested for being empty, which is \<open>None\<close>; a
  context and its cancel function are set together (\<open>ht_context\<close>). Logging is left out. A nil pointer, a write to a nil
  map and closing a closed channel are panics: the function has no result (\<open>None\<close>).
\<close>

subsection \<open>Tasks (models.go)\<close>

record RetryPolicy =
  rp_Retries :: int
  rp_BackoffTimeout :: duration

record HttpTxPolicy =
  tx_Enabled :: bool
  tx_MaxIdleConns :: int
  tx_MaxIdleConnsPerHost :: int
  tx_IdleConnTimeout :: duration
  tx_ResponseHeaderTimeout :: duration
  tx_TLSHandshakeTimeout :: duration
  tx_DisableKeepAlives :: bool

record ClientPolicy =
  cp_Retry :: RetryPolicy
  cp_Tx :: HttpTxPolicy

record trs_request =
  tq_Method :: string
  tq_URL :: string
  tq_Body :: string
  tq_BasicAuth :: "(string \<times> string) option"
  tq_Headers :: "(string \<times> string) list"
  tq_Response :: "http_response option"

record trs_context =
  cx_timeout :: duration
  cx_retryMax :: int
  cx_cancelled :: bool

record HttpTask =
  ht_id :: uuid
  ht_ServiceName :: string
  ht_Request :: "trs_request option"
  ht_TimeStamp :: "time option"
  ht_Err :: "error option"
  ht_Timeout :: duration
  ht_CPolicy :: ClientPolicy
  ht_Ignore :: bool
  ht_context :: "trs_context option"
  ht_forceInsecure :: bool

definition uuid_Nil :: uuid where
  "uuid_Nil = ''00000000-0000-0000-0000-000000000000''"

definition Validate :: "HttpTask \<Rightarrow> bool \<times> error option" where
  "Validate ht =
     (if ht_TimeStamp ht = None then (False, Some ''Timstamp is empty'')
      else if ht_Request ht = None then (False, Some ''Request is nil'')
      else if ht_ServiceName ht = [] then (False, Some ''ServiceName is empty'')
      else if ht_id ht = uuid_Nil then (False, Some ''ID is nil'')
      else (True, None))"

definition SetIDIfNotPopulated :: "'w runtime \<Rightarrow> HttpTask \<Rightarrow> ('w, HttpTask) io" where
  "SetIDIfNotPopulated R ht w =
     (if ht_id ht = uuid_Nil then let (i, w) = uuid_New R w in (ht\<lparr>ht_id := i\<rparr>, w) else (ht, w))"

fun create_tasks :: "'w runtime \<Rightarrow> HttpTask \<Rightarrow> nat \<Rightarrow> ('w, HttpTask list) io" where
  "create_tasks R source 0 w = ([], w)"
| "create_tasks R source (Suc n) w =
     (let (now, w) = time_Now R w; (i, w) = uuid_New R w; (rest, w) = create_tasks R source n w
      in (source\<lparr>ht_TimeStamp := Some now, ht_id := i\<rparr> # rest, w))"

text \<open>Making a slice of negative length is a panic.\<close>

definition createHTTPTaskArray :: "'w runtime \<Rightarrow> HttpTask \<Rightarrow> int \<Rightarrow> ('w, HttpTask list) go" where
  "createHTTPTaskArray R source nitems w = (if nitems < 0 then None else Some (create_tasks R source (nat nitems) w))"

definition CreateTaskList :: "'w runtime \<Rightarrow> HttpTask \<Rightarrow> int \<Rightarrow> ('w, HttpTask list) go" where
  "CreateTaskList = createHTTPTaskArray"

subsection \<open>Clients\<close>

datatype client_type = secure | insecure

record retry_client =
  rcl_type :: client_type
  rcl_RootCAs :: "string list option"
  rcl_Tx :: "HttpTxPolicy option"
  rcl_RetryMax :: int
  rcl_RetryWaitMax :: duration

record clientPack =
  pk_secure :: "retry_client option"
  pk_insecure :: retry_client

record TRSHTTPLocalSecurity =
  sec_CACertBundleData :: string
  sec_ClientCertData :: string
  sec_ClientKeyData :: string

text \<open>The value of \<open>tl_taskMap\<close> names the launch and the index of the task.\<close>

record TRSHTTPLocal =
  tl_svcName :: string
  tl_cancelled :: bool
  tl_CACertPool :: "string list option"
  tl_ClientCert :: "string option"
  tl_clientMap :: "(ClientPolicy, clientPack) gomap option"
  tl_taskMap :: "(uuid, nat \<times> nat) gomap option"

record 'w trs_env =
  te_RT :: "'w runtime"
  te_SetHTTPUserAgent :: "trs_request \<Rightarrow> string \<Rightarrow> trs_request"
  te_FromRequest :: "trs_request \<Rightarrow> error option"
  te_Do :: "retry_client \<Rightarrow> trs_request \<Rightarrow> trs_context \<Rightarrow> ('w, http_response option \<times> error option) io"
  te_ctxErr :: "trs_context \<Rightarrow> ('w, bool) io"
  te_SystemCertPool :: "string list option"
  te_AppendCertsFromPEM :: "string list \<Rightarrow> string \<Rightarrow> string list"
  te_X509KeyPair :: "string \<Rightarrow> string \<Rightarrow> error + string"

definition DFLT_RETRY_MAX :: int where "DFLT_RETRY_MAX = 3"
definition DFLT_BACKOFF_MAX :: int where "DFLT_BACKOFF_MAX = 5"
definition DFLT_CTX_TIMEOUT :: int where "DFLT_CTX_TIMEOUT = 30"

definition TRS_Init :: "string \<Rightarrow> TRSHTTPLocal \<Rightarrow> TRSHTTPLocal" where
  "TRS_Init serviceName tloc =
     tloc\<lparr>tl_cancelled := False,
          tl_taskMap := (case tl_taskMap tloc of None \<Rightarrow> Some [] | m \<Rightarrow> m),
          tl_clientMap := (case tl_clientMap tloc of None \<Rightarrow> Some [] | m \<Rightarrow> m),
          tl_svcName := serviceName\<rparr>"

definition SetSecurity :: "'w trs_env \<Rightarrow> TRSHTTPLocalSecurity \<Rightarrow> TRSHTTPLocal \<Rightarrow> error option \<times> TRSHTTPLocal" where
  "SetSecurity E params tloc =
     (if sec_CACertBundleData params = [] then (Some ''CA cert bundle required.'', tloc)
      else
        let pool = (case te_SystemCertPool E of None \<Rightarrow> [] | Some p \<Rightarrow> p);
            tloc = tloc\<lparr>tl_CACertPool := Some (te_AppendCertsFromPEM E pool (sec_CACertBundleData params))\<rparr>
        in if sec_ClientCertData params \<noteq> [] \<and> sec_ClientKeyData params \<noteq> []
           then (case te_X509KeyPair E (sec_ClientCertData params) (sec_ClientKeyData params) of
                   Inl err \<Rightarrow> (Some err, tloc\<lparr>tl_ClientCert := None\<rparr>)
                 | Inr cert \<Rightarrow> (None, tloc\<lparr>tl_ClientCert := Some cert\<rparr>))
           else (None, tloc))"

definition createClient :: "HttpTask \<Rightarrow> TRSHTTPLocal \<Rightarrow> client_type \<Rightarrow> retry_client" where
  "createClient task tloc clientType =
     \<lparr>rcl_type = clientType, rcl_RootCAs = (if clientType = insecure then None else tl_CACertPool tloc),
      rcl_Tx = (if tx_Enabled (cp_Tx (ht_CPolicy task)) then Some (cp_Tx (ht_CPolicy task)) else None),
      rcl_RetryMax = (if rp_Retries (cp_Retry (ht_CPolicy task)) \<ge> 0 then rp_Retries (cp_Retry (ht_CPolicy task))
                      else DFLT_RETRY_MAX),
      rcl_RetryWaitMax = (if rp_BackoffTimeout (cp_Retry (ht_CPolicy task)) > 0
                          then rp_BackoffTimeout (cp_Retry (ht_CPolicy task)) else DFLT_BACKOFF_MAX * Second)\<rparr>"

subsection \<open>Retries and idle connections\<close>

record trsRoundTripper =
  rt_skipCloseCount :: "64 word"
  rt_timeLastClosed :: time

text \<open>The function is given the close function of the transport, which may be nil.\<close>

definition CloseIdleConnections ::
  "'w runtime \<Rightarrow> ('w \<Rightarrow> 'w) option \<Rightarrow> trsRoundTripper \<Rightarrow> ('w, trsRoundTripper) io" where
  "CloseIdleConnections R closeFn c w =
     (let go_on = (\<lambda>c w. case closeFn of
                     None \<Rightarrow> (c, w)
                   | Some f \<Rightarrow> let (now, w) = time_Now R w in (c\<lparr>rt_timeLastClosed := now\<rparr>, f w))
      in if rt_skipCloseCount c > 0
         then
           let c = c\<lparr>rt_skipCloseCount := rt_skipCloseCount c - 1\<rparr>;
               (c, w) = (if rt_skipCloseCount c = 0
                         then let (now, w) = time_Now R w in (c\<lparr>rt_timeLastClosed := now\<rparr>, w) else (c, w));
               (now, w) = time_Now R w
           in if now - rt_timeLastClosed c > 2 * 60 * Minute then go_on (c\<lparr>rt_skipCloseCount := 0\<rparr>) w else (c, w)
         else go_on c w)"

record trsWrappedReq =
  wr_retryMax :: int
  wr_retryCount :: int

text \<open>
  The parameters: which errors are \<^verbatim>\<open>context.DeadlineExceeded\<close>, the default policy of \<^verbatim>\<open>retryablehttp\<close>, and \<^verbatim>\<open>http.StatusText\<close>.
\<close>

definition trsCheckRetry ::
  "(error \<Rightarrow> bool) \<Rightarrow> (http_response option \<Rightarrow> error option \<Rightarrow> bool \<times> error option) \<Rightarrow> (int \<Rightarrow> string) \<Rightarrow>
   http_response option \<Rightarrow> error option \<Rightarrow> trsWrappedReq \<times> trsRoundTripper \<Rightarrow>
   (bool \<times> error option) \<times> trsWrappedReq \<times> trsRoundTripper" where
  "trsCheckRetry isDeadline DefaultRetryPolicy statusText resp err s =
     (let (wr, c) = s; skip = (\<lambda>c. c\<lparr>rt_skipCloseCount := rt_skipCloseCount c + 1\<rparr>) in
      if (case err of None \<Rightarrow> False | Some e \<Rightarrow> e = ''net/http: request canceled'' \<or> isDeadline e)
      then ((False, err), wr, skip c)
      else
        let (shouldRetry, defaultRPErr) = DefaultRetryPolicy resp err in
        if shouldRetry
        then
          let wr = wr\<lparr>wr_retryCount := wr_retryCount wr + 1\<rparr> in
          if wr_retryCount wr > wr_retryMax wr
          then ((False, case err of
                   Some e \<Rightarrow> Some e
                 | None \<Rightarrow> Some (case resp of
                     Some r \<Rightarrow> ''retries exhausted: last attempt received status '' @ Itoa (hr_StatusCode r) @ '' ('' @
                               statusText (hr_StatusCode r) @ '')''
                   | None \<Rightarrow> ''retries exhausted'')), wr, skip c)
          else ((True, defaultRPErr), wr, c)
        else ((False, defaultRPErr), wr, c))"

subsection \<open>Executing a task\<close>

definition get_client :: "TRSHTTPLocal \<Rightarrow> HttpTask \<Rightarrow> (clientPack \<times> TRSHTTPLocal) option" where
  "get_client tloc task =
     (case tl_clientMap tloc of
        None \<Rightarrow> None
      | Some m \<Rightarrow>
          (case map_of m (ht_CPolicy task) of
             Some cpack \<Rightarrow> Some (cpack, tloc)
           | None \<Rightarrow>
               let cpack = \<lparr>pk_secure = (if tl_CACertPool tloc \<noteq> None then Some (createClient task tloc secure) else None),
                            pk_insecure = createClient task tloc insecure\<rparr>
               in Some (cpack, tloc\<lparr>tl_clientMap := Some (AList.update (ht_CPolicy task) cpack m)\<rparr>)))"

definition task_context :: "HttpTask \<Rightarrow> clientPack \<Rightarrow> trs_context" where
  "task_context task cpack =
     \<lparr>cx_timeout = (if ht_Timeout task > 0 then ht_Timeout task else DFLT_CTX_TIMEOUT * Second),
      cx_retryMax = rcl_RetryMax (pk_insecure cpack), cx_cancelled = False\<rparr>"

text \<open>The attempt with the secure client, and with the insecure one when there is none or it failed in time.\<close>

definition send_task ::
  "'w trs_env \<Rightarrow> TRSHTTPLocal \<Rightarrow> clientPack \<Rightarrow> HttpTask \<Rightarrow> trs_request \<Rightarrow> trs_context \<Rightarrow>
   ('w, http_response option \<times> error option) io" where
  "send_task E tloc cpack task rq cx w =
     (case pk_secure cpack of
        None \<Rightarrow> te_Do E (pk_insecure cpack) rq cx w
      | Some sec \<Rightarrow>
          if ht_forceInsecure task \<or> tl_CACertPool tloc = None then te_Do E (pk_insecure cpack) rq cx w
          else
            let ((resp, err), w) = te_Do E sec rq cx w in
            if err = None then ((resp, err), w)
            else
              let (expired, w) = te_ctxErr E cx w in
              if expired then ((resp, err), w) else te_Do E (pk_insecure cpack) rq cx w)"

text \<open>The task that is sent to the channel.\<close>

definition ExecuteTask :: "'w trs_env \<Rightarrow> TRSHTTPLocal \<Rightarrow> HttpTask \<Rightarrow> ('w, HttpTask \<times> TRSHTTPLocal) go" where
  "ExecuteTask E tloc task w =
     Option.bind (get_client tloc task) (\<lambda>(cpack, tloc).
       case Validate task of
         (False, err) \<Rightarrow> Some ((task\<lparr>ht_Err := err\<rparr>, tloc), w)
       | (True, _) \<Rightarrow>
           (case ht_Request task of
              None \<Rightarrow> None
            | Some rq \<Rightarrow>
                let rq = te_SetHTTPUserAgent E rq (tl_svcName tloc);
                    cx = task_context task cpack;
                    task = task\<lparr>ht_Request := Some rq, ht_context := Some cx\<rparr>
                in (case te_FromRequest E rq of
                      Some err \<Rightarrow> Some ((task\<lparr>ht_Err := Some err\<rparr>, tloc), w)
                    | None \<Rightarrow>
                        let ((resp, err), w) = send_task E tloc cpack task rq cx w
                        in Some ((task\<lparr>ht_Request := Some (rq\<lparr>tq_Response := resp\<rparr>), ht_Err := err\<rparr>, tloc), w))))"

subsection \<open>The runner\<close>

text \<open>
  Launches are numbered; \<open>rn_arrays ! n\<close> is the task array of launch \<open>n\<close>, \<open>rn_chans ! n\<close> its channel and \<open>rn_go\<close> the goroutines
  that have not ended. \<open>ch_received\<close> records what the receiver has taken from the channel.
\<close>

record channel =
  ch_cap :: nat
  ch_buf :: "nat list"
  ch_closed :: bool
  ch_received :: "nat list"

record runner =
  rn_loc :: TRSHTTPLocal
  rn_arrays :: "HttpTask list list"
  rn_chans :: "channel list"
  rn_go :: "(nat \<times> nat) list"

definition new_channel :: "nat \<Rightarrow> channel" where
  "new_channel k = \<lparr>ch_cap = k, ch_buf = [], ch_closed = False, ch_received = []\<rparr>"

definition ready_task :: "'w trs_env \<Rightarrow> string \<Rightarrow> HttpTask \<Rightarrow> ('w, HttpTask) io" where
  "ready_task E svcName task w =
     (let task = task\<lparr>ht_Request := map_option (\<lambda>rq. te_SetHTTPUserAgent E (rq\<lparr>tq_Response := None\<rparr>) svcName) (ht_Request task)\<rparr>;
          (task, w) = SetIDIfNotPopulated (te_RT E) task w;
          task = (if ht_ServiceName task = [] then task\<lparr>ht_ServiceName := svcName\<rparr> else task)
      in case ht_TimeStamp task of
           None \<Rightarrow> let (now, w) = time_Now (te_RT E) w in (task\<lparr>ht_TimeStamp := Some now\<rparr>, w)
         | Some _ \<Rightarrow> (task, w))"

text \<open>The loop of \<open>Launch\<close>: the prepared tasks, the entries for the task map, and the state outside.\<close>

fun launch_loop :: "'w trs_env \<Rightarrow> string \<Rightarrow> nat \<Rightarrow> HttpTask list \<Rightarrow> ('w, HttpTask list \<times> (uuid \<times> nat) list) io" where
  "launch_loop E svcName k [] w = (([], []), w)"
| "launch_loop E svcName k (task # tasks) w =
     (if ht_Ignore task
      then let ((ts, es), w) = launch_loop E svcName (Suc k) tasks w in ((task # ts, es), w)
      else
        let (task, w) = ready_task E svcName task w;
            ((ts, es), w) = launch_loop E svcName (Suc k) tasks w
        in ((task # ts, (ht_id task, k) # es), w))"

definition Launch :: "'w trs_env \<Rightarrow> HttpTask list \<Rightarrow> runner \<Rightarrow> ('w, (nat \<times> error option) \<times> runner) go" where
  "Launch E taskList r w =
     (let n = length (rn_chans r) in
      if taskList = []
      then Some (((n, Some ''Empty task list, nothing to do.''),
                  r\<lparr>rn_arrays := rn_arrays r @ [[]], rn_chans := rn_chans r @ [new_channel 1]\<rparr>), w)
      else
        let ((ts, es), w) = launch_loop E (tl_svcName (rn_loc r)) 0 taskList w in
        (case tl_taskMap (rn_loc r) of
           None \<Rightarrow>
             if es = []
             then Some (((n, None), r\<lparr>rn_arrays := rn_arrays r @ [ts], rn_chans := rn_chans r @ [new_channel (length taskList)]\<rparr>), w)
             else None
         | Some m \<Rightarrow>
             Some (((n, None),
               r\<lparr>rn_loc := (rn_loc r)\<lparr>tl_taskMap := Some (fold (\<lambda>(i, k). AList.update i (n, k)) es m)\<rparr>,
                 rn_arrays := rn_arrays r @ [ts], rn_chans := rn_chans r @ [new_channel (length taskList)],
                 rn_go := rn_go r @ map (\<lambda>(i, k). (n, k)) es\<rparr>), w)))"

text \<open>The goroutine of task \<open>k\<close> of launch \<open>n\<close> runs and sends; the receiver takes the oldest finished task.\<close>

definition finish_task :: "nat \<Rightarrow> nat \<Rightarrow> HttpTask \<Rightarrow> TRSHTTPLocal \<Rightarrow> runner \<Rightarrow> runner" where
  "finish_task n k task tloc r =
     r\<lparr>rn_loc := tloc, rn_arrays := (rn_arrays r)[n := (rn_arrays r ! n)[k := task]],
       rn_chans := (rn_chans r)[n := (rn_chans r ! n)\<lparr>ch_buf := ch_buf (rn_chans r ! n) @ [k]\<rparr>],
       rn_go := remove1 (n, k) (rn_go r)\<rparr>"

definition receive_task :: "nat \<Rightarrow> runner \<Rightarrow> runner" where
  "receive_task n r =
     r\<lparr>rn_chans := (rn_chans r)[n := (rn_chans r ! n)\<lparr>ch_buf := tl (ch_buf (rn_chans r ! n)),
         ch_received := ch_received (rn_chans r ! n) @ [hd (ch_buf (rn_chans r ! n))]\<rparr>]\<rparr>"

subsection \<open>The other operations\<close>

fun TRS_Check :: "HttpTask list \<Rightarrow> bool option" where
  "TRS_Check [] = Some False"
| "TRS_Check (v # vs) =
     (if ht_Ignore v then TRS_Check vs
      else case ht_Request v of
        None \<Rightarrow> None
      | Some rq \<Rightarrow> if tq_Response rq = None \<and> ht_Err v = None then Some True else TRS_Check vs)"

definition Alive :: "TRSHTTPLocal \<Rightarrow> bool \<times> error option" where
  "Alive tloc = (if tl_taskMap tloc = None then (False, Some ''taskMap is nil'') else (True, None))"

definition cancel_task :: "HttpTask \<Rightarrow> HttpTask option" where
  "cancel_task v = map_option (\<lambda>cx. v\<lparr>ht_context := Some (cx\<lparr>cx_cancelled := True\<rparr>)\<rparr>) (ht_context v)"

fun TRS_Cancel :: "HttpTask list \<Rightarrow> HttpTask list option" where
  "TRS_Cancel [] = Some []"
| "TRS_Cancel (v # vs) =
     Option.bind (if ht_Ignore v then Some v else cancel_task v) (\<lambda>v. map_option (Cons v) (TRS_Cancel vs))"

definition drainAndCloseBody :: "http_response option \<Rightarrow> http_response option" where
  "drainAndCloseBody resp = map_option (\<lambda>r. r\<lparr>hr_Body := BodyNil\<rparr>) resp"

definition close_task :: "HttpTask \<Rightarrow> HttpTask option" where
  "close_task v =
     (if ht_Ignore v then Some v
      else case ht_Request v of
        None \<Rightarrow> None
      | Some rq \<Rightarrow> cancel_task (v\<lparr>ht_Request := Some (rq\<lparr>tq_Response := drainAndCloseBody (tq_Response rq)\<rparr>)\<rparr>))"

fun TRS_Close :: "HttpTask list \<Rightarrow> TRSHTTPLocal \<Rightarrow> (HttpTask list \<times> TRSHTTPLocal) option" where
  "TRS_Close [] tloc = Some ([], tloc)"
| "TRS_Close (v # vs) tloc =
     Option.bind (close_task v) (\<lambda>v'.
       map_option (\<lambda>(vs, tloc). (v' # vs, tloc))
         (TRS_Close vs (tloc\<lparr>tl_taskMap := map_option (AList.delete (ht_id v)) (tl_taskMap tloc)\<rparr>)))"

text \<open>The caller closes the channel after the last reply.\<close>

definition close_chan :: "channel \<Rightarrow> channel option" where
  "close_chan c = (if ch_closed c then None else Some (c\<lparr>ch_closed := True\<rparr>))"

definition cleanup_task :: "uuid \<times> nat \<times> nat \<Rightarrow> runner \<Rightarrow> runner option" where
  "cleanup_task e r =
     (case e of (i, n, k) \<Rightarrow>
        Option.bind (cancel_task (rn_arrays r ! n ! k)) (\<lambda>v.
          map_option (\<lambda>c. r\<lparr>rn_arrays := (rn_arrays r)[n := (rn_arrays r ! n)[k := v]], rn_chans := (rn_chans r)[n := c],
              rn_loc := (rn_loc r)\<lparr>tl_taskMap := map_option (AList.delete i) (tl_taskMap (rn_loc r))\<rparr>\<rparr>)
            (close_chan (rn_chans r ! n))))"

definition Cleanup :: "runner \<Rightarrow> runner option" where
  "Cleanup r =
     (let tloc = (rn_loc r)\<lparr>tl_cancelled := True, tl_clientMap := map_option (\<lambda>_. []) (tl_clientMap (rn_loc r))\<rparr>
      in foldM cleanup_task (case tl_taskMap tloc of None \<Rightarrow> [] | Some m \<Rightarrow> m) (r\<lparr>rn_loc := tloc\<rparr>))"

subsection \<open>Interleavings\<close>

text \<open>
  The users of the runner launch task lists, receive finished tasks, and close a list and its channel when every task
  that is not ignored has come back; the goroutines run in any order, and the state outside changes at any time.
\<close>

definition launched :: "HttpTask list \<Rightarrow> nat list" where
  "launched ts = filter (\<lambda>k. \<not> ht_Ignore (ts ! k)) [0..<length ts]"

inductive trs_step :: "'w trs_env \<Rightarrow> runner \<times> 'w \<Rightarrow> runner \<times> 'w \<Rightarrow> bool" for E where
  step_launch: "Launch E tasks r w = Some ((res, r'), w') \<Longrightarrow> trs_step E (r, w) (r', w')"
| step_execute: "(n, k) \<in> set (rn_go r) \<Longrightarrow> ExecuteTask E (rn_loc r) (rn_arrays r ! n ! k) w = Some ((task, tloc), w') \<Longrightarrow>
    length (ch_buf (rn_chans r ! n)) < ch_cap (rn_chans r ! n) \<Longrightarrow> \<not> ch_closed (rn_chans r ! n) \<Longrightarrow>
    trs_step E (r, w) (finish_task n k task tloc r, w')"
| step_receive: "n < length (rn_chans r) \<Longrightarrow> ch_buf (rn_chans r ! n) \<noteq> [] \<Longrightarrow> trs_step E (r, w) (receive_task n r, w)"
| step_close: "n < length (rn_chans r) \<Longrightarrow> length (ch_received (rn_chans r ! n)) = length (launched (rn_arrays r ! n)) \<Longrightarrow>
    TRS_Close (rn_arrays r ! n) (rn_loc r) = Some (tasks, tloc) \<Longrightarrow> close_chan (rn_chans r ! n) = Some c \<Longrightarrow>
    trs_step E (r, w) (r\<lparr>rn_loc := tloc, rn_arrays := (rn_arrays r)[n := tasks], rn_chans := (rn_chans r)[n := c]\<rparr>, w)"
| step_outside: "trs_step E (r, w) (r, w')"

definition new_runner :: "string \<Rightarrow> runner" where
  "new_runner svcName =
     \<lparr>rn_loc = TRS_Init svcName \<lparr>tl_svcName = [], tl_cancelled = False, tl_CACertPool = None, tl_ClientCert = None,
        tl_clientMap = None, tl_taskMap = None\<rparr>, rn_arrays = [], rn_chans = [], rn_go = []\<rparr>"

end
