(* ===== verification/Task_Runner_Delivery.thy ===== *)
theory Task_Runner_Delivery
  imports Task_Runner Sim_World "HOL-Library.Multiset"
begin

section \<open>The task runner delivers\<close>

text \<open>
  In every interleaving of launches, goroutines, receivers and closings, no goroutine blocks on its channel or sends to
  a closed one, and every task that is not ignored comes back exactly once, with a response or an error. The HTTP client
  is only assumed to return a response or an error (the locale \<open>answering_client\<close>).
\<close>

definition answered :: "HttpTask \<Rightarrow> bool" where
  "answered t \<longleftrightarrow> ht_Err t \<noteq> None \<or> (case ht_Request t of None \<Rightarrow> False | Some rq \<Rightarrow> tq_Response rq \<noteq> None)"

definition go_of :: "nat \<Rightarrow> runner \<Rightarrow> nat list" where
  "go_of n r = map snd (filter (\<lambda>p. fst p = n) (rn_go r))"

lemma go_of_update [simp]:
  "go_of n (r\<lparr>rn_arrays := a\<rparr>) = go_of n r" "go_of n (r\<lparr>rn_chans := c\<rparr>) = go_of n r" "go_of n (r\<lparr>rn_loc := l\<rparr>) = go_of n r"
  by (simp_all add: go_of_def)

locale answering_client =
  fixes E :: "'w trs_env"
  assumes do_answers: "te_Do E c rq cx w = ((resp, err), w') \<Longrightarrow> resp \<noteq> None \<or> err \<noteq> None"
begin

lemma send_task_answers: "send_task E tloc cpack task rq cx w = ((resp, err), w') \<Longrightarrow> resp \<noteq> None \<or> err \<noteq> None"
  by (auto simp: send_task_def Let_def dest: do_answers split: option.splits if_splits prod.splits)

lemma ExecuteTask_returns:
  assumes "tl_clientMap tloc \<noteq> None"
  shows "\<exists>task' tloc' w'. ExecuteTask E tloc task w = Some ((task', tloc'), w') \<and> answered task' \<and>
    ht_Ignore task' = ht_Ignore task \<and> ht_id task' = ht_id task \<and> tl_clientMap tloc' \<noteq> None \<and>
    tl_taskMap tloc' = tl_taskMap tloc"
proof -
  have "\<exists>cpack tloc1. get_client tloc task = Some (cpack, tloc1) \<and> tl_clientMap tloc1 \<noteq> None \<and> tl_taskMap tloc1 = tl_taskMap tloc"
    using assms by (auto simp: get_client_def Let_def split: option.split)
  then obtain cpack tloc1 where g: "get_client tloc task = Some (cpack, tloc1)" and m: "tl_clientMap tloc1 \<noteq> None" "tl_taskMap tloc1 = tl_taskMap tloc" by blast
  show ?thesis
  proof (cases "fst (Validate task)")
    case False
    then obtain err where "Validate task = (False, Some err)"
      by (auto simp: Validate_def split: if_splits)
    then show ?thesis using g m by (simp add: ExecuteTask_def answered_def)
  next
    case True
    then obtain e where v: "Validate task = (True, e)" by (cases "Validate task") auto
    then obtain rq where rq: "ht_Request task = Some rq" by (auto simp: Validate_def split: if_splits)
    let ?rq = "te_SetHTTPUserAgent E rq (tl_svcName tloc1)" and ?cx = "task_context task cpack"
    let ?task = "task\<lparr>ht_Request := Some ?rq, ht_context := Some ?cx\<rparr>"
    obtain resp err w' where s: "send_task E tloc1 cpack ?task ?rq ?cx w = ((resp, err), w')" by (metis surj_pair)
    show ?thesis
      using g m v rq s send_task_answers [OF s]
      by (cases "te_FromRequest E ?rq") (auto simp: ExecuteTask_def answered_def Let_def)
  qed
qed

lemma ExecuteTask_result:
  "tl_clientMap tloc \<noteq> None \<Longrightarrow> ExecuteTask E tloc task w = Some ((task', tloc'), w') \<Longrightarrow>
     answered task' \<and> ht_Ignore task' = ht_Ignore task \<and> ht_id task' = ht_id task \<and> tl_clientMap tloc' \<noteq> None \<and>
     tl_taskMap tloc' = tl_taskMap tloc"
  using ExecuteTask_returns [of tloc task w] by auto

end

subsection \<open>Launching\<close>

lemma ready_task_keeps: "ready_task E svc t w = (t', w') \<Longrightarrow> ht_Ignore t' = ht_Ignore t"
  by (auto simp: ready_task_def SetIDIfNotPopulated_def Let_def split: option.splits if_splits prod.splits)

lemma launch_loop_result:
  "launch_loop E svc k tasks w = ((ts, es), w') \<Longrightarrow>
     map ht_Ignore ts = map ht_Ignore tasks \<and> map snd es = filter (\<lambda>j. \<not> ht_Ignore (tasks ! (j - k))) [k..<k + length tasks]"
proof (induction E svc k tasks w arbitrary: ts es w' rule: launch_loop.induct)
  case (2 E svc k task tasks w)
  have shift: "filter (\<lambda>j. \<not> ht_Ignore ((task # tasks) ! (j - k))) [Suc k..<k + length (task # tasks)] =
      filter (\<lambda>j. \<not> ht_Ignore (tasks ! (j - Suc k))) [Suc k..<Suc k + length tasks]"
    by (rule filter_cong) (auto simp: nth_Cons' Suc_diff_Suc)
  have split: "[k..<k + length (task # tasks)] = k # [Suc k..<k + length (task # tasks)]"
    by (rule upt_conv_Cons) simp
  show ?case
  proof (cases "ht_Ignore task")
    case True
    obtain ts1 es1 w1 where l: "launch_loop E svc (Suc k) tasks w = ((ts1, es1), w1)" by (metis surj_pair)
    then show ?thesis using 2(1) [OF True l] 2(3) True shift unfolding split by auto
  next
    case False
    obtain t1 w1 where r: "ready_task E svc task w = (t1, w1)" by fastforce
    obtain ts1 es1 w2 where l: "launch_loop E svc (Suc k) tasks w1 = ((ts1, es1), w2)" by (metis surj_pair)
    show ?thesis
      using 2(2) [OF False r [symmetric] refl l] 2(3) False shift ready_task_keeps [OF r] r l unfolding split by auto
  qed
qed simp

lemma launched_cong:
  assumes "map ht_Ignore ts = map ht_Ignore us"
  shows "launched ts = launched us"
proof -
  have len: "length ts = length us" using assms by (rule map_eq_imp_length_eq)
  have "ht_Ignore (ts ! k) = ht_Ignore (us ! k)" if "k < length us" for k
    using assms len that by (metis nth_map)
  then show ?thesis unfolding launched_def len by (intro filter_cong) auto
qed

lemma launched_distinct: "distinct (launched ts)"
  by (simp add: launched_def)

lemma launched_length: "length (launched ts) \<le> length ts"
  unfolding launched_def by (metis length_filter_le length_upt diff_zero)

lemma launch_loop_launched: "launch_loop E svc 0 tasks w = ((ts, es), w') \<Longrightarrow> map snd es = launched ts \<and> length ts = length tasks"
  using launch_loop_result [of E svc 0 tasks w ts es w'] launched_cong [of ts tasks]
  by (auto simp: launched_def dest: map_eq_imp_length_eq)

subsection \<open>The invariant\<close>

text \<open>
  Every launched task is with its goroutine, in the channel or with the receiver; those of the last two kinds have an
  answer. A closed channel has no goroutine left.
\<close>

definition chan_inv :: "HttpTask list \<Rightarrow> channel \<Rightarrow> nat list \<Rightarrow> bool" where
  "chan_inv ts c gs \<longleftrightarrow> mset (ch_received c) + mset (ch_buf c) + mset gs = mset (launched ts) \<and> length ts \<le> ch_cap c \<and>
     (ch_closed c \<longrightarrow> gs = []) \<and> (\<forall>k \<in> set (ch_received c) \<union> set (ch_buf c). answered (ts ! k))"

definition runner_inv :: "runner \<Rightarrow> bool" where
  "runner_inv r \<longleftrightarrow> length (rn_arrays r) = length (rn_chans r) \<and> tl_clientMap (rn_loc r) \<noteq> None \<and> tl_taskMap (rn_loc r) \<noteq> None \<and>
     (\<forall>p \<in> set (rn_go r). fst p < length (rn_chans r)) \<and>
     (\<forall>n < length (rn_chans r). chan_inv (rn_arrays r ! n) (rn_chans r ! n) (go_of n r))"

lemma runner_invD:
  "runner_inv r \<Longrightarrow> n < length (rn_chans r) \<Longrightarrow> chan_inv (rn_arrays r ! n) (rn_chans r ! n) (go_of n r)"
  by (simp add: runner_inv_def)

lemma chan_inv_set: "chan_inv ts c gs \<Longrightarrow> set (ch_received c) \<union> set (ch_buf c) \<union> set gs = set (launched ts)"
  unfolding chan_inv_def by (metis set_mset_mset set_mset_union)

lemma chan_inv_room:
  assumes "chan_inv ts c gs" and "k \<in> set gs"
  shows "length (ch_buf c) < ch_cap c" and "\<not> ch_closed c" and "k < length ts"
proof -
  have "size (mset (ch_received c) + mset (ch_buf c) + mset gs) = length (launched ts)"
    using assms(1) by (simp add: chan_inv_def)
  then have "length (ch_received c) + length (ch_buf c) + length gs = length (launched ts)" by simp
  moreover have "0 < length gs" using assms(2) by (cases gs) auto
  moreover have "length ts \<le> ch_cap c" using assms(1) by (simp add: chan_inv_def)
  ultimately show "length (ch_buf c) < ch_cap c" using launched_length [of ts] by linarith
  show "\<not> ch_closed c" using assms by (auto simp: chan_inv_def)
  show "k < length ts" using chan_inv_set [OF assms(1)] assms(2) by (auto simp: launched_def)
qed

lemma go_remove1:
  "(n, k) \<in> set ps \<Longrightarrow> mset (map snd (filter (\<lambda>p. fst p = n) ps)) =
     add_mset k (mset (map snd (filter (\<lambda>p. fst p = n) (remove1 (n, k) ps))))"
  "m \<noteq> n \<Longrightarrow> filter (\<lambda>p. fst p = m) (remove1 (n, k) ps) = filter (\<lambda>p. fst p = m) ps"
  by (induction ps) auto

lemma go_of_finish:
  "(n, k) \<in> set (rn_go r) \<Longrightarrow> mset (go_of n r) = add_mset k (mset (go_of n (finish_task n k t l r)))"
  "m \<noteq> n \<Longrightarrow> go_of m (finish_task n k t l r) = go_of m r"
  by (simp_all add: go_of_def finish_task_def go_remove1 del: mset_map mset_filter)

lemma go_of_outside: "\<forall>p \<in> set (rn_go r). fst p < n \<Longrightarrow> go_of n r = []"
  by (auto simp: go_of_def filter_empty_conv)

lemma set_go_of: "k \<in> set (go_of n r) \<longleftrightarrow> (n, k) \<in> set (rn_go r)"
  by (force simp: go_of_def)

lemma TRS_Close_keeps:
  "TRS_Close ts tloc = Some (ts', tloc') \<Longrightarrow> length ts' = length ts \<and> tl_clientMap tloc' = tl_clientMap tloc \<and>
     (tl_taskMap tloc' = None \<longleftrightarrow> tl_taskMap tloc = None) \<and>
     (\<forall>k < length ts. ht_Ignore (ts' ! k) = ht_Ignore (ts ! k) \<and> ht_id (ts' ! k) = ht_id (ts ! k) \<and> (answered (ts ! k) \<longrightarrow> answered (ts' ! k)))"
proof (induction ts tloc arbitrary: ts' tloc' rule: TRS_Close.induct)
  case (2 v vs tloc)
  obtain v' vs' where v: "close_task v = Some v'" and ts': "ts' = v' # vs'"
    and rest: "TRS_Close vs (tloc\<lparr>tl_taskMap := map_option (AList.delete (ht_id v)) (tl_taskMap tloc)\<rparr>) = Some (vs', tloc')"
    using 2(2) by (auto split: Option.bind_splits)
  have "ht_Ignore v' = ht_Ignore v \<and> ht_id v' = ht_id v \<and> (answered v \<longrightarrow> answered v')"
    using v by (auto simp: close_task_def cancel_task_def drainAndCloseBody_def answered_def split: if_splits option.splits)
  then show ?case using 2(1) [OF v rest] ts' by (auto simp: nth_Cons split: nat.splits)
qed simp

context answering_client
begin

lemma execute_inv:
  assumes "runner_inv r" and "(n, k) \<in> set (rn_go r)"
    and "ExecuteTask E (rn_loc r) (rn_arrays r ! n ! k) w = Some ((task, tloc), w')"
  shows "runner_inv (finish_task n k task tloc r)"
    and "map ht_id (rn_arrays (finish_task n k task tloc r) ! m) = map ht_id (rn_arrays r ! m)"
    and "map ht_Ignore (rn_arrays (finish_task n k task tloc r) ! m) = map ht_Ignore (rn_arrays r ! m)"
proof -
  let ?r = "finish_task n k task tloc r" and ?ts = "rn_arrays r ! n" and ?c = "rn_chans r ! n"
  have n: "n < length (rn_chans r)" "length (rn_arrays r) = length (rn_chans r)"
    using assms(1,2) by (auto simp: runner_inv_def)
  have ex: "answered task" "ht_Ignore task = ht_Ignore (?ts ! k)" "ht_id task = ht_id (?ts ! k)" "tl_clientMap tloc \<noteq> None"
    and tm: "tl_taskMap tloc = tl_taskMap (rn_loc r)"
    using ExecuteTask_result [OF _ assms(3)] assms(1) by (auto simp: runner_inv_def)
  have k: "k < length ?ts" using chan_inv_room(3) [OF runner_invD [OF assms(1) n(1)]] assms(2) by (simp add: set_go_of)
  have ign: "map ht_Ignore (?ts[k := task]) = map ht_Ignore ?ts" and ids: "map ht_id (?ts[k := task]) = map ht_id ?ts"
    using ex(2,3) k by (simp_all add: map_update list_update_same_conv)
  show "map ht_id (rn_arrays ?r ! m) = map ht_id (rn_arrays r ! m)" "map ht_Ignore (rn_arrays ?r ! m) = map ht_Ignore (rn_arrays r ! m)"
    using ids ign n by (auto simp: finish_task_def nth_list_update)
  have new: "chan_inv (?ts[k := task]) (?c\<lparr>ch_buf := ch_buf ?c @ [k]\<rparr>) (go_of n ?r)"
    using runner_invD [OF assms(1) n(1)] go_of_finish(1) [OF assms(2), of task tloc] ex(1) k launched_cong [OF ign]
      chan_inv_room(2) [OF runner_invD [OF assms(1) n(1)]] assms(2)
    by (auto simp: chan_inv_def nth_list_update set_go_of)
  have "chan_inv (rn_arrays ?r ! m) (rn_chans ?r ! m) (go_of m ?r)" if "m < length (rn_chans r)" for m
    using that new n runner_invD [OF assms(1) that] go_of_finish(2) [of m n k task tloc r]
    by (cases "m = n") (auto simp: finish_task_def)
  then show "runner_inv ?r"
    using assms(1) n ex(4) tm by (auto simp: runner_inv_def finish_task_def dest: notin_set_remove1)
qed

end

lemma receive_inv:
  assumes "runner_inv r" and "n < length (rn_chans r)" and "ch_buf (rn_chans r ! n) \<noteq> []"
  shows "runner_inv (receive_task n r)"
proof -
  let ?c = "rn_chans r ! n"
  have go: "go_of m (receive_task n r) = go_of m r" for m by (simp add: go_of_def receive_task_def)
  obtain k ks where b: "ch_buf ?c = k # ks" using assms(3) by (cases "ch_buf ?c") auto
  have "chan_inv (rn_arrays r ! n) (?c\<lparr>ch_buf := ks, ch_received := ch_received ?c @ [k]\<rparr>) (go_of n r)"
    using runner_invD [OF assms(1,2)] b by (auto simp: chan_inv_def)
  then have "chan_inv (rn_arrays r ! m) (rn_chans (receive_task n r) ! m) (go_of m r)" if "m < length (rn_chans r)" for m
    using that runner_invD [OF assms(1) that] b by (cases "m = n") (auto simp: receive_task_def)
  then show ?thesis using assms(1) go by (auto simp: runner_inv_def receive_task_def)
qed

lemma close_inv:
  assumes "runner_inv r" and "n < length (rn_chans r)"
    and "length (ch_received (rn_chans r ! n)) = length (launched (rn_arrays r ! n))"
    and "TRS_Close (rn_arrays r ! n) (rn_loc r) = Some (ts, tloc)" and "close_chan (rn_chans r ! n) = Some c"
  shows "runner_inv (r\<lparr>rn_loc := tloc, rn_arrays := (rn_arrays r)[n := ts], rn_chans := (rn_chans r)[n := c]\<rparr>)" (is "runner_inv ?r")
    and "map ht_id ts = map ht_id (rn_arrays r ! n)" and "map ht_Ignore ts = map ht_Ignore (rn_arrays r ! n)"
proof -
  let ?ts = "rn_arrays r ! n" and ?c = "rn_chans r ! n"
  note K = TRS_Close_keeps [OF assms(4)]
  show ids: "map ht_id ts = map ht_id ?ts" and ign: "map ht_Ignore ts = map ht_Ignore ?ts"
    using K by (auto intro: nth_equalityI)
  have c: "c = ?c\<lparr>ch_closed := True\<rparr>" using assms(5) by (simp add: close_chan_def split: if_splits)
  have go: "go_of m ?r = go_of m r" for m by (simp add: go_of_def)
  note I = runner_invD [OF assms(1,2)]
  have "size (mset (ch_received ?c) + mset (ch_buf ?c) + mset (go_of n r)) = length (launched ?ts)"
    using I by (simp add: chan_inv_def)
  then have none: "ch_buf ?c = []" "go_of n r = []" using assms(3) by simp_all
  have "k < length ?ts" if "k \<in> set (ch_received ?c)" for k
    using chan_inv_set [OF I] that by (auto simp: launched_def)
  then have "chan_inv ts c (go_of n r)"
    using I K none launched_cong [OF ign] unfolding c by (auto simp: chan_inv_def)
  then have "chan_inv (rn_arrays ?r ! m) (rn_chans ?r ! m) (go_of m r)" if "m < length (rn_chans r)" for m
    using that runner_invD [OF assms(1) that] assms(1) by (cases "m = n") (auto simp: runner_inv_def)
  then show "runner_inv ?r" using assms(1) K go by (auto simp: runner_inv_def)
qed

lemma runner_launch_inv:
  assumes "runner_inv r" and "Launch E tasks r w = Some (((n, e), r'), w')"
  shows "runner_inv r' \<and> n = length (rn_chans r) \<and> length (rn_chans r') = Suc n \<and>
    (\<forall>m < n. rn_arrays r' ! m = rn_arrays r ! m \<and> rn_chans r' ! m = rn_chans r ! m) \<and>
    (tasks \<noteq> [] \<longrightarrow> e = None \<and> map ht_Ignore (rn_arrays r' ! n) = map ht_Ignore tasks)"
proof -
  have len: "length (rn_arrays r) = length (rn_chans r)" using assms(1) by (simp add: runner_inv_def)
  have out: "go_of (length (rn_chans r)) r = []" by (rule go_of_outside) (use assms(1) in \<open>simp add: runner_inv_def\<close>)
  show ?thesis
  proof (cases "tasks = []")
    case True
    have r': "r' = r\<lparr>rn_arrays := rn_arrays r @ [[]], rn_chans := rn_chans r @ [new_channel 1]\<rparr>" "n = length (rn_chans r)"
      using assms(2) True by (auto simp: Launch_def Let_def)
    have "chan_inv (rn_arrays r' ! m) (rn_chans r' ! m) (go_of m r')" if "m < length (rn_chans r')" for m
      using that runner_invD [OF assms(1), of m] out len
      by (cases "m = n") (auto simp: r' nth_append chan_inv_def new_channel_def launched_def)
    then show ?thesis using assms(1) True len r' by (auto simp: runner_inv_def nth_append less_Suc_eq)
  next
    case False
    obtain ts es w1 where l: "launch_loop E (tl_svcName (rn_loc r)) 0 tasks w = ((ts, es), w1)" by (metis surj_pair)
    obtain m where m: "tl_taskMap (rn_loc r) = Some m" using assms(1) by (auto simp: runner_inv_def)
    have r': "r' = r\<lparr>rn_loc := (rn_loc r)\<lparr>tl_taskMap := Some (fold (\<lambda>(i, k). AList.update i (n, k)) es m)\<rparr>,
          rn_arrays := rn_arrays r @ [ts], rn_chans := rn_chans r @ [new_channel (length tasks)],
          rn_go := rn_go r @ map (\<lambda>(i, k). (n, k)) es\<rparr>" "n = length (rn_chans r)" "e = None"
      using assms(2) False l m by (auto simp: Launch_def Let_def)
    note L = launch_loop_launched [OF l] launch_loop_result [OF l]
    have new: "go_of n r' = launched ts"
    proof -
      have "filter (\<lambda>p. fst p = n) (map (\<lambda>(i, k). (n, k)) es) = map (\<lambda>(i, k). (n, k)) es" by (auto simp: filter_id_conv)
      then show ?thesis using out L(1) by (auto simp: go_of_def r'(1) r'(2) [symmetric] comp_def split_def)
    qed
    have old: "go_of k r' = go_of k r" if "k < n" for k
      using that by (auto simp: go_of_def r'(1) filter_empty_conv)
    have "chan_inv (rn_arrays r' ! k) (rn_chans r' ! k) (go_of k r')" if "k < Suc n" for k
      using that runner_invD [OF assms(1), of k] len new old [of k] L
      by (cases "k = n") (auto simp: r'(1) r'(2) nth_append chan_inv_def new_channel_def)
    then show ?thesis
      using assms(1) False len L r'(2,3) by (auto simp: r'(1) runner_inv_def nth_append)
  qed
qed

subsection \<open>Every interleaving\<close>

definition pending :: "nat \<Rightarrow> runner \<Rightarrow> nat" where
  "pending n r = 2 * length (go_of n r) + length (ch_buf (rn_chans r ! n))"

definition same_tasks :: "runner \<Rightarrow> runner \<Rightarrow> bool" where
  "same_tasks r r' \<longleftrightarrow> length (rn_chans r) \<le> length (rn_chans r') \<and>
     (\<forall>m < length (rn_chans r). map ht_id (rn_arrays r' ! m) = map ht_id (rn_arrays r ! m) \<and>
        map ht_Ignore (rn_arrays r' ! m) = map ht_Ignore (rn_arrays r ! m))"

context answering_client
begin

lemma step_inv:
  assumes "trs_step E s s'" and "runner_inv (fst s)"
  shows "runner_inv (fst s') \<and> same_tasks (fst s) (fst s')"
  using assms
proof (induction rule: trs_step.induct)
  case (step_launch tasks r w res r' w')
  obtain n e where "res = (n, e)" by fastforce
  then show ?case using step_launch runner_launch_inv [of r E tasks w n e r' w'] by (auto simp: same_tasks_def)
next
  case (step_execute n k r w task tloc w')
  then have i: "runner_inv r" by simp
  show ?case
    using execute_inv(1) [OF i step_execute(1,2)] execute_inv(2,3) [OF i step_execute(1,2)]
    by (auto simp: same_tasks_def finish_task_def)
next
  case (step_receive n r w)
  then show ?case using receive_inv [of r n] by (auto simp: same_tasks_def receive_task_def)
next
  case (step_close n r tasks tloc c w)
  then have i: "runner_inv r" by simp
  note C = close_inv [OF i step_close(1-4)]
  have "n < length (rn_arrays r)" using i step_close(1) by (simp add: runner_inv_def)
  then have "map ht_id ((rn_arrays r)[n := tasks] ! m) = map ht_id (rn_arrays r ! m) \<and>
      map ht_Ignore ((rn_arrays r)[n := tasks] ! m) = map ht_Ignore (rn_arrays r ! m)" for m
    using C by (cases "m = n") simp_all
  then show ?case using C by (simp add: same_tasks_def)
qed (simp add: same_tasks_def)

lemma steps_inv:
  assumes "(trs_step E)\<^sup>*\<^sup>* s s'" and "runner_inv (fst s)"
  shows "runner_inv (fst s') \<and> same_tasks (fst s) (fst s')"
  using assms
proof (induction rule: rtranclp_induct)
  case (step s1 s2)
  then show ?case using step_inv [OF step(2)] by (fastforce simp: same_tasks_def)
qed (simp add: same_tasks_def)

lemma goroutine_can_finish:
  assumes "runner_inv r" and "(n, k) \<in> set (rn_go r)"
  shows "\<exists>t l w'. trs_step E (r, w) (finish_task n k t l r, w')"
proof -
  have n: "n < length (rn_chans r)" using assms by (auto simp: runner_inv_def)
  have room: "length (ch_buf (rn_chans r ! n)) < ch_cap (rn_chans r ! n)" "\<not> ch_closed (rn_chans r ! n)"
    using chan_inv_room [OF runner_invD [OF assms(1) n], of k] assms(2) by (auto simp: set_go_of)
  obtain t l w' where "ExecuteTask E (rn_loc r) (rn_arrays r ! n ! k) w = Some ((t, l), w')"
    using ExecuteTask_returns [of "rn_loc r" "rn_arrays r ! n ! k" w] assms(1) by (auto simp: runner_inv_def)
  from step_execute [OF assms(2) this room] show ?thesis by (intro exI)
qed

lemma delivery_completes:
  assumes "runner_inv r" and "n < length (rn_chans r)"
  shows "\<exists>r' w'. (trs_step E)\<^sup>*\<^sup>* (r, w) (r', w') \<and> pending n r' = 0"
  using assms
proof (induction "pending n r" arbitrary: r w rule: less_induct)
  case less
  have next_step: ?case if s: "trs_step E (r, w) (r1, w1)" and d: "pending n r1 < pending n r" for r1 w1
  proof -
    have "runner_inv r1" "n < length (rn_chans r1)" using step_inv [OF s] less.prems by (auto simp: same_tasks_def)
    then obtain r' w' where "(trs_step E)\<^sup>*\<^sup>* (r1, w1) (r', w')" "pending n r' = 0" using less.hyps [OF d] by blast
    then show ?thesis using converse_rtranclp_into_rtranclp [of "trs_step E", OF s] by blast
  qed
  consider "pending n r = 0" | "ch_buf (rn_chans r ! n) \<noteq> []" | k where "(n, k) \<in> set (rn_go r)"
  proof (cases "go_of n r")
    case Nil
    then show ?thesis using that by (cases "ch_buf (rn_chans r ! n)") (auto simp: pending_def)
  next
    case (Cons k ks)
    then show ?thesis using that(3) set_go_of [of k n r] by auto
  qed
  then show ?case
  proof cases
    case 1
    then show ?thesis by blast
  next
    case 2
    then have "pending n (receive_task n r) < pending n r"
      using less.prems(2) by (cases "ch_buf (rn_chans r ! n)") (auto simp: pending_def receive_task_def)
    then show ?thesis using next_step [OF step_receive [OF less.prems(2) 2]] by blast
  next
    case 3
    obtain t l w' where s: "trs_step E (r, w) (finish_task n k t l r, w')" using goroutine_can_finish [OF less.prems(1) 3] by blast
    have "size (mset (go_of n r)) = Suc (size (mset (go_of n (finish_task n k t l r))))"
      using go_of_finish(1) [OF 3, of t l] by simp
    then have "pending n (finish_task n k t l r) < pending n r"
      using less.prems(2) by (simp add: pending_def) (simp add: finish_task_def)
    then show ?thesis using next_step [OF s] by blast
  qed
qed

end

lemma new_runner_inv: "runner_inv (new_runner svc)"
  by (simp add: runner_inv_def new_runner_def TRS_Init_def)

text \<open>
  C8: The task runner delivers. However the goroutines, launches and receivers interleave, a launch of a
  task list is accepted, what its receiver has taken from the channel are different tasks of the list that are not
  ignored, each with a response or an error and the identifier it was launched with; no goroutine of the launch is ever stopped
  from sending its result; and all of these tasks can still be received from wherever the run stands.
\<close>

theorem task_runner_delivers:
  assumes "answering_client E" and "(trs_step E)\<^sup>*\<^sup>* (new_runner svc, w0) (r, w)" and "tasks \<noteq> []"
    and "Launch E tasks r w = Some (((n, e), r1), w1)" and "(trs_step E)\<^sup>*\<^sup>* (r1, w1) (r2, w2)"
  shows "e = None \<and> distinct (ch_received (rn_chans r2 ! n)) \<and>
    (\<forall>k \<in> set (ch_received (rn_chans r2 ! n)). k < length tasks \<and> \<not> ht_Ignore (tasks ! k) \<and>
       answered (rn_arrays r2 ! n ! k) \<and> ht_id (rn_arrays r2 ! n ! k) = ht_id (rn_arrays r1 ! n ! k)) \<and>
    (\<forall>k. (n, k) \<in> set (rn_go r2) \<longrightarrow> (\<exists>t l w3. trs_step E (r2, w2) (finish_task n k t l r2, w3))) \<and>
    (\<exists>r3 w3. (trs_step E)\<^sup>*\<^sup>* (r2, w2) (r3, w3) \<and>
       set (ch_received (rn_chans r3 ! n)) = {k. k < length tasks \<and> \<not> ht_Ignore (tasks ! k)})"
proof -
  note A = assms(1)
  have r: "runner_inv r" using answering_client.steps_inv [OF A assms(2)] new_runner_inv by simp
  note L = runner_launch_inv [OF r assms(4)]
  have r2: "runner_inv r2" "same_tasks r1 r2" using answering_client.steps_inv [OF A assms(5)] L by simp_all
  have n: "n < length (rn_chans r1)" "n < length (rn_chans r2)" using L r2(2) by (auto simp: same_tasks_def)
  have ids: "map ht_id (rn_arrays r2 ! n) = map ht_id (rn_arrays r1 ! n)"
    and ign: "map ht_Ignore (rn_arrays r2 ! n) = map ht_Ignore tasks"
    using r2(2) n(1) L assms(3) by (auto simp: same_tasks_def)
  note I = runner_invD [OF r2(1) n(2)]
  have launched: "set (launched (rn_arrays r2 ! n)) = {k. k < length tasks \<and> \<not> ht_Ignore (tasks ! k)}"
    using launched_cong [OF ign] by (auto simp: launched_def)
  have dist: "distinct (ch_received (rn_chans r2 ! n))"
    using I launched_distinct [of "rn_arrays r2 ! n"] unfolding chan_inv_def
    by (metis distinct_append mset_append mset_eq_imp_distinct_iff)
  have len: "length (rn_arrays r2 ! n) = length tasks" using map_eq_imp_length_eq [OF ign] .
  have each: "k < length tasks \<and> \<not> ht_Ignore (tasks ! k) \<and> answered (rn_arrays r2 ! n ! k) \<and>
      ht_id (rn_arrays r2 ! n ! k) = ht_id (rn_arrays r1 ! n ! k)" if "k \<in> set (ch_received (rn_chans r2 ! n))" for k
  proof -
    have k: "k < length tasks \<and> \<not> ht_Ignore (tasks ! k)" using chan_inv_set [OF I] launched that by auto
    moreover have "answered (rn_arrays r2 ! n ! k)" using I that by (simp add: chan_inv_def)
    moreover have "ht_id (rn_arrays r2 ! n ! k) = ht_id (rn_arrays r1 ! n ! k)"
      using ids k len map_eq_imp_length_eq [OF ids] by (metis nth_map)
    ultimately show ?thesis by blast
  qed
  obtain r3 w3 where s3: "(trs_step E)\<^sup>*\<^sup>* (r2, w2) (r3, w3)" "pending n r3 = 0"
    using answering_client.delivery_completes [OF A r2(1) n(2)] by blast
  have r3: "runner_inv r3" "same_tasks r2 r3" using answering_client.steps_inv [OF A s3(1)] r2 by simp_all
  have n3: "n < length (rn_chans r3)" "map ht_Ignore (rn_arrays r3 ! n) = map ht_Ignore (rn_arrays r2 ! n)"
    using r3(2) n by (auto simp: same_tasks_def)
  have "set (ch_received (rn_chans r3 ! n)) = set (launched (rn_arrays r3 ! n))"
    using chan_inv_set [OF runner_invD [OF r3(1) n3(1)]] s3(2) by (simp add: pending_def)
  then have "set (ch_received (rn_chans r3 ! n)) = {k. k < length tasks \<and> \<not> ht_Ignore (tasks ! k)}"
    using launched launched_cong [OF n3(2)] by simp
  then show ?thesis
    using L assms(3) dist each answering_client.goroutine_can_finish [OF A r2(1)] s3(1) by blast
qed

subsection \<open>A runner whose requests are answered\<close>

text \<open>The client answers every request with 204; the runtime is that of the simulated world.\<close>

definition sim_trs_env :: "'h sim trs_env" where
  "sim_trs_env =
     \<lparr>te_RT = sim_runtime, te_SetHTTPUserAgent = (\<lambda>rq svc. rq\<lparr>tq_Headers := AList.update ''User-Agent'' svc (tq_Headers rq)\<rparr>),
      te_FromRequest = (\<lambda>rq. None),
      te_Do = (\<lambda>c rq cx w. ((Some \<lparr>hr_StatusCode = 204, hr_Status = ''204 No Content'', hr_Body = BodyNil\<rparr>, None), w)),
      te_ctxErr = (\<lambda>cx w. (cx_cancelled cx, w)), te_SystemCertPool = None, te_AppendCertsFromPEM = (\<lambda>p d. p @ [d]),
      te_X509KeyPair = (\<lambda>c k. Inr c)\<rparr>"

interpretation sim_client: answering_client sim_trs_env
  by unfold_locales (auto simp: sim_trs_env_def)

definition sim_http_task :: "string \<Rightarrow> bool \<Rightarrow> HttpTask" where
  "sim_http_task url ign =
     \<lparr>ht_id = uuid_Nil, ht_ServiceName = [],
      ht_Request = Some \<lparr>tq_Method = ''GET'', tq_URL = url, tq_Body = [], tq_BasicAuth = None, tq_Headers = [], tq_Response = None\<rparr>,
      ht_TimeStamp = None, ht_Err = None, ht_Timeout = 0,
      ht_CPolicy = \<lparr>cp_Retry = \<lparr>rp_Retries = 3, rp_BackoffTimeout = 0\<rparr>, cp_Tx = \<lparr>tx_Enabled = False, tx_MaxIdleConns = 0,
        tx_MaxIdleConnsPerHost = 0, tx_IdleConnTimeout = 0, tx_ResponseHeaderTimeout = 0, tx_TLSHandshakeTimeout = 0,
        tx_DisableKeepAlives = False\<rparr>\<rparr>,
      ht_Ignore = ign, ht_context = None, ht_forceInsecure = False\<rparr>"

lemma sim_http_task_Ignore [simp]: "ht_Ignore (sim_http_task u i) = i"
  by (simp add: sim_http_task_def)

abbreviation sim_http_tasks :: "HttpTask list" where
  "sim_http_tasks \<equiv> [sim_http_task ''a'' False, sim_http_task ''b'' True, sim_http_task ''c'' False]"

lemma sim_launch:
  "Launch sim_trs_env sim_http_tasks (new_runner ''pcs'') w =
     Some (((0, None), snd (fst (the (Launch sim_trs_env sim_http_tasks (new_runner ''pcs'') w)))),
       snd (the (Launch sim_trs_env sim_http_tasks (new_runner ''pcs'') w)))"
  by (simp add: Launch_def new_runner_def TRS_Init_def split_def Let_def)

theorem task_runner_delivers_witness:
  "\<exists>r1 w1 r2 w2 r3 w3. Launch sim_trs_env sim_http_tasks (new_runner ''pcs'') (sim_start ()) = Some (((0, None), r1), w1) \<and>
     (trs_step sim_trs_env)\<^sup>*\<^sup>* (r1, w1) (r2, w2) \<and> rn_go r2 = [(0, 0)] \<and> (trs_step sim_trs_env)\<^sup>*\<^sup>* (r2, w2) (r3, w3) \<and>
     set (ch_received (rn_chans r3 ! 0)) = {0, 2}"
proof -
  obtain r1 w1 where l: "Launch sim_trs_env sim_http_tasks (new_runner ''pcs'') (sim_start ()) = Some (((0, None), r1), w1)"
    using sim_launch by blast
  then have go: "rn_go r1 = [(0, 0), (0, 2)]" and "runner_inv r1"
    using runner_launch_inv [OF new_runner_inv l] by (auto simp: Launch_def new_runner_def TRS_Init_def split_def Let_def)
  then obtain t l' w2 where s: "trs_step sim_trs_env (r1, w1) (finish_task 0 2 t l' r1, w2)"
    using sim_client.goroutine_can_finish [of r1 0 2 w1] by auto
  from go have "rn_go (finish_task 0 2 t l' r1) = [(0, 0)]" by (simp add: finish_task_def)
  moreover have "{k. k < length sim_http_tasks \<and> \<not> ht_Ignore (sim_http_tasks ! k)} = {0, 2}"
    by (auto simp: less_Suc_eq numeral_2_eq_2)
  moreover have s2: "(trs_step sim_trs_env)\<^sup>*\<^sup>* (r1, w1) (finish_task 0 2 t l' r1, w2)" using s by (rule r_into_rtranclp)
  moreover obtain r3 w3 where "(trs_step sim_trs_env)\<^sup>*\<^sup>* (finish_task 0 2 t l' r1, w2) (r3, w3)"
      "set (ch_received (rn_chans r3 ! 0)) = {k. k < length sim_http_tasks \<and> \<not> ht_Ignore (sim_http_tasks ! k)}"
    using task_runner_delivers [OF sim_client.answering_client_axioms rtranclp.rtrancl_refl _ l s2] by blast
  ultimately show ?thesis using l by (intro exI conjI) auto
qed

end
