(* ===== verification/Task_Runner_Limits.thy ===== *)
theory Task_Runner_Limits
  imports Task_Runner_Delivery
begin

section \<open>Retries and idle connections of the task runner\<close>

text \<open>
  The retry budget of a task is that of its policy, whichever clients were made before and however many attempts the
  secure and the insecure client make; a request that is given up keeps one later call from closing idle connections.
\<close>

definition policy_retries :: "ClientPolicy \<Rightarrow> int" where
  "policy_retries p = (if rp_Retries (cp_Retry p) \<ge> 0 then rp_Retries (cp_Retry p) else DFLT_RETRY_MAX)"

text \<open>Every client pack was made for the policy it is filed under.\<close>

definition clients_ok :: "TRSHTTPLocal \<Rightarrow> bool" where
  "clients_ok tloc \<longleftrightarrow> (\<forall>m p pk. tl_clientMap tloc = Some m \<longrightarrow> map_of m p = Some pk \<longrightarrow>
     rcl_RetryMax (pk_insecure pk) = policy_retries p \<and>
     (\<forall>sec. pk_secure pk = Some sec \<longrightarrow> rcl_RetryMax sec = policy_retries p))"

lemma createClient_retries [simp]: "rcl_RetryMax (createClient task tloc ty) = policy_retries (ht_CPolicy task)"
  by (simp add: createClient_def policy_retries_def)

lemma get_client_ok:
  assumes "get_client tloc task = Some (cpack, tloc')" and "clients_ok tloc"
  shows "clients_ok tloc'" and "rcl_RetryMax (pk_insecure cpack) = policy_retries (ht_CPolicy task)"
  using assms by (auto simp: get_client_def clients_ok_def Let_def update_conv' split: option.splits if_splits)

lemma ExecuteTask_clients:
  assumes "ExecuteTask E tloc task w = Some ((task', tloc'), w')" and "clients_ok tloc"
  shows "clients_ok tloc'"
proof -
  obtain valid e where v: "Validate task = (valid, e)" by (cases "Validate task")
  obtain cpack where "get_client tloc task = Some (cpack, tloc')"
    using assms(1) v by (cases valid) (auto simp: ExecuteTask_def Let_def split_def bind_eq_Some_conv split: option.splits)
  then show ?thesis using get_client_ok(1) assms(2) by blast
qed

lemma TRS_Close_clients: "TRS_Close vs tloc = Some (vs', tloc') \<Longrightarrow> clients_ok tloc \<Longrightarrow> clients_ok tloc'"
  by (induction vs tloc arbitrary: vs' rule: TRS_Close.induct) (auto simp: bind_eq_Some_conv clients_ok_def)

lemma step_clients: "trs_step E s s' \<Longrightarrow> clients_ok (rn_loc (fst s)) \<Longrightarrow> clients_ok (rn_loc (fst s'))"
proof (induction rule: trs_step.induct)
  case (step_launch tasks r w res r' w')
  then show ?case by (auto simp: Launch_def Let_def clients_ok_def split: if_splits prod.splits option.splits)
qed (auto simp: finish_task_def receive_task_def dest: ExecuteTask_clients TRS_Close_clients)

lemma reachable_clients: "(trs_step E)\<^sup>*\<^sup>* (new_runner svc, w0) (r, w) \<Longrightarrow> clients_ok (rn_loc r)"
proof (induction "(r, w)" arbitrary: r w rule: rtranclp_induct)
  case base
  then show ?case by (simp add: clients_ok_def new_runner_def TRS_Init_def)
next
  case (step s)
  then show ?case using step_clients [of E s] by (cases s) auto
qed

subsection \<open>Retries\<close>

text \<open>The answers of \<open>trsCheckRetry\<close> to the outcomes of a series of attempts.\<close>

fun retry_answers ::
  "(error \<Rightarrow> bool) \<Rightarrow> (http_response option \<Rightarrow> error option \<Rightarrow> bool \<times> error option) \<Rightarrow> (int \<Rightarrow> string) \<Rightarrow>
   (http_response option \<times> error option) list \<Rightarrow> trsWrappedReq \<times> trsRoundTripper \<Rightarrow>
   (bool \<times> error option) list \<times> trsWrappedReq \<times> trsRoundTripper" where
  "retry_answers D P T [] s = ([], s)"
| "retry_answers D P T ((resp, err) # os) s =
     (let (a, s) = trsCheckRetry D P T resp err s; (as, s) = retry_answers D P T os s in (a # as, s))"

lemma trsCheckRetry_count:
  assumes "trsCheckRetry D P T resp err (wr, c) = ((b, e), wr', c')"
  shows "wr_retryMax wr' = wr_retryMax wr" and "wr_retryCount wr \<le> wr_retryCount wr'"
    and "b \<Longrightarrow> wr_retryCount wr' = wr_retryCount wr + 1 \<and> wr_retryCount wr' \<le> wr_retryMax wr"
    and "\<not> b \<Longrightarrow> fst (P resp err) \<Longrightarrow> e \<noteq> None"
  using assms by (auto simp: trsCheckRetry_def Let_def split: if_splits prod.splits option.splits)

lemma retry_answers_bound:
  "retry_answers D P T os (wr, c) = (as, wr', c') \<Longrightarrow>
     wr_retryMax wr' = wr_retryMax wr \<and> length (filter fst as) \<le> nat (wr_retryMax wr - wr_retryCount wr) \<and>
     wr_retryCount wr \<le> wr_retryCount wr'"
proof (induction os arbitrary: wr c as)
  case (Cons out os)
  obtain resp err where o: "out = (resp, err)" by (cases out)
  obtain b e wr1 c1 where a: "trsCheckRetry D P T resp err (wr, c) = ((b, e), wr1, c1)" by (metis surj_pair)
  obtain as2 where r: "retry_answers D P T os (wr1, c1) = (as2, wr', c')" "as = (b, e) # as2"
    using Cons.prems o a by (auto split: prod.splits)
  show ?case using trsCheckRetry_count [OF a] Cons.IH [OF r(1)] r(2) by (cases b) auto
qed simp

lemma retry_answers_given_up:
  "i < length os \<Longrightarrow> \<not> fst (fst (retry_answers D P T os s) ! i) \<Longrightarrow> fst (P (fst (os ! i)) (snd (os ! i))) \<Longrightarrow>
     snd (fst (retry_answers D P T os s) ! i) \<noteq> None"
proof (induction os arbitrary: s i)
  case (Cons out os)
  obtain resp err where o: "out = (resp, err)" by (cases out)
  obtain wr c where s: "s = (wr, c)" by (cases s)
  obtain b e wr1 c1 where a: "trsCheckRetry D P T resp err (wr, c) = ((b, e), wr1, c1)" by (metis surj_pair)
  show ?case
    using Cons.prems Cons.IH [of "i - 1" "(wr1, c1)"] trsCheckRetry_count(4) [OF a] o a
    by (cases i) (auto simp: s split_def Let_def)
qed simp



subsection \<open>Idle connections\<close>

definition given_up :: "(error \<Rightarrow> bool) \<Rightarrow> (http_response option \<Rightarrow> error option \<Rightarrow> bool \<times> error option) \<Rightarrow>
    http_response option \<times> error option \<Rightarrow> bool \<times> error option \<Rightarrow> bool" where
  "given_up D P out a \<longleftrightarrow> \<not> fst a \<and> ((\<exists>e. snd out = Some e \<and> (e = ''net/http: request canceled'' \<or> D e)) \<or>
     fst (P (fst out) (snd out)))"

lemma skip_counts_given_up:
  "retry_answers D P T os (wr, c) = (as, wr', c') \<Longrightarrow>
     rt_timeLastClosed c' = rt_timeLastClosed c \<and>
     rt_skipCloseCount c' = rt_skipCloseCount c + of_nat (length (filter (case_prod (given_up D P)) (zip os as)))"
proof (induction os arbitrary: wr c as)
  case (Cons out os)
  obtain resp err where o: "out = (resp, err)" by (cases out)
  obtain b e wr1 c1 where a: "trsCheckRetry D P T resp err (wr, c) = ((b, e), wr1, c1)" by (metis surj_pair)
  obtain as2 where r: "retry_answers D P T os (wr1, c1) = (as2, wr', c')" "as = (b, e) # as2"
    using Cons.prems o a by (auto split: prod.splits)
  have "rt_timeLastClosed c1 = rt_timeLastClosed c \<and>
      rt_skipCloseCount c1 = rt_skipCloseCount c + (if given_up D P out (b, e) then 1 else 0)"
    using a by (auto simp: trsCheckRetry_def given_up_def o Let_def split: if_splits prod.splits option.splits)
  then show ?case using Cons.IH [OF r(1)] r(2) by simp
qed simp

fun close_idle :: "'w runtime \<Rightarrow> ('w \<Rightarrow> 'w) option \<Rightarrow> nat \<Rightarrow> trsRoundTripper \<Rightarrow> ('w, trsRoundTripper) io" where
  "close_idle R f 0 c w = (c, w)"
| "close_idle R f (Suc n) c w = (let (c, w) = CloseIdleConnections R f c w in close_idle R f n c w)"

lemma unat_of_nat_small: "n < 2 ^ 64 \<Longrightarrow> unat (of_nat n :: 64 word) = n"
  by (simp add: unsigned_of_nat take_bit_nat_eq_self_iff)

lemma close_idle_skips:
  assumes "\<And>v. time_Now R v = (clock v, v)"
  shows "rt_skipCloseCount c = of_nat n \<Longrightarrow> n < 2 ^ 64 \<Longrightarrow> clock w - rt_timeLastClosed c \<le> 2 * 60 * Minute \<Longrightarrow>
    \<exists>c'. close_idle R f n c w = (c', w) \<and> rt_skipCloseCount c' = 0"
proof (induction n arbitrary: c)
  case (Suc n)
  let ?c = "c\<lparr>rt_skipCloseCount := rt_skipCloseCount c - 1\<rparr>"
  let ?c1 = "if n = 0 then ?c\<lparr>rt_timeLastClosed := clock w\<rparr> else ?c"
  have pos: "rt_skipCloseCount c > 0" and n0: "rt_skipCloseCount c - 1 = 0 \<longleftrightarrow> n = 0"
    using Suc.prems(1) unat_of_nat_small [OF Suc.prems(2)] unat_of_nat_small [of n] Suc.prems(2)
    by (auto simp: word_less_nat_alt simp del: of_nat_Suc) (simp add: unsigned_eq_0_iff [symmetric])
  then have "CloseIdleConnections R f c w = (?c1, w)"
    using Suc.prems(3) by (auto simp: CloseIdleConnections_def assms Minute_def Second_def Let_def)
  then show ?case using Suc.IH [of ?c1] Suc.prems by (simp add: Minute_def Second_def)
qed simp

text \<open>
  Requests that were given up (cancelled, out of time, or out of retries) do not cost the others their idle
  connections: after a series of attempts that gave up \<open>n\<close> requests, the next \<open>n\<close> calls that would close the idle connections leave them
  alone, and the one after that closes them (when the last closing is less than two hours ago and fewer than \<open>2 ^ 64\<close> requests
  were given up).
\<close>

theorem given_up_requests_keep_connections:
  assumes "\<And>v. time_Now R v = (clock v, v)" and "rt_skipCloseCount c = 0" and "clock w - rt_timeLastClosed c \<le> 2 * 60 * Minute"
    and "retry_answers D P T outcomes (wr, c) = (answers, wr', c')"
    and "n = length (filter (case_prod (given_up D P)) (zip outcomes answers))" and "n < 2 ^ 64"
  shows "snd (close_idle R (Some f) n c' w) = w \<and> snd (close_idle R (Some f) (Suc n) c' w) = f w"
proof -
  have c': "rt_timeLastClosed c' = rt_timeLastClosed c" "rt_skipCloseCount c' = of_nat n"
    using skip_counts_given_up [OF assms(4)] assms(2,5) by simp_all
  obtain c2 where c2: "close_idle R (Some f) n c' w = (c2, w)" "rt_skipCloseCount c2 = 0"
    using close_idle_skips [where f = "Some f" and w = w, OF assms(1) c'(2) assms(6)] assms(3) c'(1) by auto
  have last: "close_idle R g (Suc m) d v = (let (d, v) = close_idle R g m d v in CloseIdleConnections R g d v)" for g m d v
    by (induction m arbitrary: d v) (auto simp: split_def Let_def)
  show ?thesis using c2 by (simp only: last) (simp add: CloseIdleConnections_def assms(1) Let_def)
qed

theorem given_up_requests_keep_connections_witness:
  "let R = \<lparr>uuid_New = (\<lambda>w. ([], w)), time_Now = (\<lambda>w. (7, w)), time_Sleep = (\<lambda>d w. w)\<rparr>;
       c = \<lparr>rt_skipCloseCount = 0, rt_timeLastClosed = 0\<rparr>; wr = \<lparr>wr_retryMax = 1, wr_retryCount = 0\<rparr>;
       c' = snd (snd (retry_answers (\<lambda>e. False) (\<lambda>resp err. (True, None)) (\<lambda>s. [])
              [(None, Some ''net/http: request canceled''), (None, None), (None, None)] (wr, c)))
   in snd (close_idle R (Some Suc) 2 c' 0) = 0 \<and> snd (close_idle R (Some Suc) 3 c' 0) = 1"
proof -
  let ?R = "\<lparr>uuid_New = (\<lambda>w. ([], w)), time_Now = (\<lambda>w. (7, w)), time_Sleep = (\<lambda>d w. w)\<rparr> :: nat runtime"
  let ?c = "\<lparr>rt_skipCloseCount = 0, rt_timeLastClosed = 0\<rparr>" and ?wr = "\<lparr>wr_retryMax = 1, wr_retryCount = 0\<rparr>"
  let ?os = "[(None, Some ''net/http: request canceled''), (None, None), (None, None)]"
  let ?P = "\<lambda>resp err. (True, None)" and ?D = "\<lambda>e. False" and ?T = "\<lambda>s. []"
  let ?run = "retry_answers ?D ?P ?T ?os (?wr, ?c)"
  have run: "?run = (fst ?run, fst (snd ?run), snd (snd ?run))" by simp
  have "2 = length (filter (case_prod (given_up ?D ?P)) (zip ?os (fst ?run)))"
    by (simp add: trsCheckRetry_def given_up_def)
  then have "snd (close_idle ?R (Some Suc) 2 (snd (snd ?run)) 0) = 0 \<and> snd (close_idle ?R (Some Suc) (Suc 2) (snd (snd ?run)) 0) = 1"
    using given_up_requests_keep_connections [of ?R "\<lambda>v. 7" ?c 0 ?D ?P ?T ?os ?wr "fst ?run" "fst (snd ?run)" "snd (snd ?run)" 2 Suc]
    by (simp add: Minute_def Second_def)
  then show ?thesis unfolding Let_def by (simp only: eval_nat_numeral)
qed

subsection \<open>Closing a task list\<close>

definition closed_task :: "HttpTask \<Rightarrow> HttpTask \<Rightarrow> bool" where
  "closed_task v v' \<longleftrightarrow>
     (if ht_Ignore v then v' = v
      else \<exists>rq cx. ht_Request v = Some rq \<and> ht_context v = Some cx \<and>
        v' = v\<lparr>ht_Request := Some (rq\<lparr>tq_Response := map_option (\<lambda>resp. resp\<lparr>hr_Body := BodyNil\<rparr>) (tq_Response rq)\<rparr>),
               ht_context := Some (cx\<lparr>cx_cancelled := True\<rparr>)\<rparr>)"

lemma close_task_Some: "close_task v = Some v' \<longleftrightarrow> closed_task v v'"
  by (auto simp: close_task_def closed_task_def cancel_task_def drainAndCloseBody_def split: option.splits)

lemma TRS_Close_Some:
  "TRS_Close vs tloc = Some (vs', tloc') \<longleftrightarrow> list_all2 closed_task vs vs' \<and>
     tloc' = tloc\<lparr>tl_taskMap := map_option (fold (\<lambda>v. AList.delete (ht_id v)) vs) (tl_taskMap tloc)\<rparr>"
proof (induction vs tloc arbitrary: vs' rule: TRS_Close.induct)
  case (2 v vs tloc)
  then show ?case
    by (cases vs') (auto simp: bind_eq_Some_conv close_task_Some option.map_comp comp_def)
qed (auto simp: id_def option.map_ident)

lemma fold_delete_gone: "i \<in> ht_id ` set vs \<Longrightarrow> map_of (fold (\<lambda>v. AList.delete (ht_id v)) vs m) i = None"
proof (induction vs arbitrary: m)
  case (Cons v vs)
  have keep: "map_of (fold (\<lambda>v. AList.delete (ht_id v)) us m) i = None" if "map_of m i = None" for us m
    using that by (induction us arbitrary: m) (simp_all add: delete_conv')
  show ?case using Cons keep [of "AList.delete (ht_id v) m" vs] by (auto simp: delete_conv')
qed simp

text \<open>
  Closing a task list crashes exactly when a task that is not ignored has no request or was never given a
  context, as happens to a task that fails validation; otherwise every such task is cancelled, its response body is
  closed, and no task of the list stays in the task map.
\<close>

theorem close_outcome:
  "case TRS_Close tasks tloc of
     None \<Rightarrow> \<exists>v \<in> set tasks. \<not> ht_Ignore v \<and> (ht_Request v = None \<or> ht_context v = None)
   | Some (tasks', tloc') \<Rightarrow> list_all2 closed_task tasks tasks' \<and> tl_clientMap tloc' = tl_clientMap tloc \<and>
       ht_id ` set tasks \<inter> (case tl_taskMap tloc' of None \<Rightarrow> {} | Some m \<Rightarrow> dom (map_of m)) = {}"
proof (cases "TRS_Close tasks tloc")
  case None
  have "\<exists>v \<in> set tasks. \<not> Ex (closed_task v)"
  proof (rule ccontr)
    assume "\<not> ?thesis"
    then have "list_all2 closed_task tasks (map (\<lambda>v. SOME v'. closed_task v v') tasks)"
      by (auto simp: list_all2_conv_all_nth intro: someI_ex)
    then show False using None TRS_Close_Some by (metis option.distinct(1))
  qed
  then obtain v where v: "v \<in> set tasks" "\<not> closed_task v w" for w by blast
  have "\<not> ht_Ignore v \<and> (ht_Request v = None \<or> ht_context v = None)"
  proof (rule ccontr)
    assume "\<not> ?thesis"
    then have "\<exists>w. closed_task v w" by (cases "ht_Ignore v") (auto simp: closed_task_def)
    then show False using v(2) by blast
  qed
  then show ?thesis using None v(1) by auto
next
  case (Some out)
  have "ht_id ` set tasks \<inter> dom (map_of (fold (\<lambda>v. AList.delete (ht_id v)) tasks m)) = {}" for m :: "(uuid \<times> nat \<times> nat) list"
    using fold_delete_gone [of _ tasks m] by (auto simp: dom_def)
  then show ?thesis
    using Some TRS_Close_Some [of tasks tloc "fst out" "snd out"] by (cases "tl_taskMap tloc") (simp_all add: split_def)
qed

end
