(* ===== verification/Api_Handlers.thy ===== *)
theory Api_Handlers
  imports Power_Capping Power_Status Transition_Lifecycle
begin

section \<open>The HTTP API\<close>

text \<open>
  \<^verbatim>\<open>internal/api\<close>: the handlers decode a request, call the domain layer and write its answer (a \<^verbatim>\<open>Passback\<close>).

  A request is what the handlers look at: its body (\<open>None\<close> is nil, \<open>Inl\<close> an error of reading it), its path parameters and
  its query, and the headers the authentication looks at. A response is the headers, status and values written so far, as \<^verbatim>\<open>net/http\<close> keeps them: the first status
  counts, a write without a status sets 200, headers set later are not sent, and a status outside 100 to 999 panics. The
  body is the value that is encoded as JSON. \<open>api_env\<close> holds the decoders of the request bodies, \<^verbatim>\<open>uuid.Parse\<close> and the
  xname check; the objects a \<^verbatim>\<open>Passback\<close> may carry are the datatype \<open>api_obj\<close>, and a type assertion that fails panics.
\<close>

subsection \<open>Requests and responses\<close>

record api_request =
  aq_Body :: "(error + string) option"
  aq_URLParam :: "string \<Rightarrow> string"
  aq_Query :: "string \<Rightarrow> string list"
  aq_Header :: "string \<Rightarrow> string"

record PowerStatusParameter =
  psp_Xnames :: "xname list"
  psp_PowerStateFilter :: string
  psp_ManagementStateFilter :: string

record healthRsp =
  hlt_KvStore :: string
  hlt_DistLocking :: string
  hlt_StateManager :: string
  hlt_Vault :: string
  hlt_TaskRunner :: string

datatype api_obj =
    ObjUUIDs "uuid list"
  | ObjUUID uuid
  | ObjTransitionCreation TransitionCreation
  | ObjTransition TransitionResp
  | ObjTransitions "TransitionResp list"
  | ObjAbort string
  | ObjPowerCapTaskCreation uuid
  | ObjPowerCapTask PowerCapTaskResp
  | ObjPowerCapTasks "PowerCapTaskResp list"
  | ObjPowerStatus "PowerStatusComponent list"
  | ObjHealth healthRsp

datatype api_payload = PayloadProblem Problem7807 | PayloadIDList "uuid list" | PayloadIDResp uuid | PayloadObj api_obj | PayloadText string

record api_response =
  ar_Header :: "(string \<times> string) list"
  ar_Status :: "int option"
  ar_Body :: "api_payload list"

definition new_response :: api_response where
  "new_response = \<lparr>ar_Header = [], ar_Status = None, ar_Body = []\<rparr>"

definition Header_Add :: "string \<Rightarrow> string \<Rightarrow> api_response \<Rightarrow> api_response" where
  "Header_Add k v r = (if ar_Status r = None then r\<lparr>ar_Header := ar_Header r @ [(k, v)]\<rparr> else r)"

definition WriteHeader :: "int \<Rightarrow> api_response \<Rightarrow> api_response option" where
  "WriteHeader code r =
     (if code < 100 \<or> code > 999 then None
      else Some (if ar_Status r = None then r\<lparr>ar_Status := Some code\<rparr> else r))"

text \<open>None of the values the handlers write makes \<^verbatim>\<open>json.Marshal\<close> fail.\<close>

definition WriteJSON :: "api_payload \<Rightarrow> api_response \<Rightarrow> api_response" where
  "WriteJSON p r = r\<lparr>ar_Status := (case ar_Status r of None \<Rightarrow> Some StatusOK | s \<Rightarrow> s), ar_Body := ar_Body r @ [p]\<rparr>"

definition WriteHeaders :: "api_obj Passback \<Rightarrow> api_response \<Rightarrow> api_response option" where
  "WriteHeaders pb r =
     (if pb_IsError pb
      then map_option (WriteJSON (PayloadProblem (pb_Error pb)))
             (WriteHeader (pb_StatusCode pb) (Header_Add ''Content-Type'' ''application/problem+json'' r))
      else case pb_Obj pb of
        Some obj \<Rightarrow>
          map_option (WriteJSON (case obj of ObjUUIDs val \<Rightarrow> PayloadIDList val | ObjUUID val \<Rightarrow> PayloadIDResp val | _ \<Rightarrow> PayloadObj obj))
            (WriteHeader (pb_StatusCode pb) (Header_Add ''Content-Type'' ''application/json'' r))
      | None \<Rightarrow> WriteHeader (pb_StatusCode pb) r)"

definition WriteHeadersWithLocation :: "api_obj Passback \<Rightarrow> string \<Rightarrow> api_response \<Rightarrow> api_response option" where
  "WriteHeadersWithLocation pb location r = WriteHeaders pb (Header_Add ''Location'' location r)"

subsection \<open>What the handlers call\<close>

record 'w api_env =
  ap_E :: "'w PowerCapEnv"
  ap_PM :: "'w PowerMonitor"
  ap_uuid_Parse :: "string \<Rightarrow> error + uuid"
  ap_TransitionParameter :: "string \<Rightarrow> error + TransitionParameter"
  ap_PowerCapSnapshotParameter :: "string \<Rightarrow> error + xname list"
  ap_PowerCapPatchParameter :: "string \<Rightarrow> error + PowerCapComponentParameter list"
  ap_PowerStatusParameter :: "string \<Rightarrow> error + PowerStatusParameter"

abbreviation ap_G :: "'w api_env \<Rightarrow> 'w DOMAIN_GLOBALS" where
  "ap_G A \<equiv> pe_G (ap_E A)"

text \<open>A \<^verbatim>\<open>Passback\<close> of the domain layer, with its object as an interface value.\<close>

definition as_obj :: "('a \<Rightarrow> api_obj) \<Rightarrow> 'a Passback \<Rightarrow> api_obj Passback" where
  "as_obj f pb = \<lparr>pb_StatusCode = pb_StatusCode pb, pb_Obj = map_option f (pb_Obj pb), pb_Error = pb_Error pb, pb_IsError = pb_IsError pb\<rparr>"

text \<open>Writing the answer is the last thing a handler does.\<close>

definition answer :: "api_obj Passback \<Rightarrow> 'w \<Rightarrow> (api_response \<times> 'w) option" where
  "answer pb w = map_option (\<lambda>r. (r, w)) (WriteHeaders pb new_response)"

definition GetUUIDFromVars :: "'w api_env \<Rightarrow> string \<Rightarrow> api_request \<Rightarrow> api_obj Passback" where
  "GetUUIDFromVars A key req =
     (case ap_uuid_Parse A (aq_URLParam req key) of
        Inl err \<Rightarrow> BuildErrorPassback StatusBadRequest (Some err)
      | Inr u \<Rightarrow> BuildSuccessPassback StatusOK (ObjUUID u))"

text \<open>The part the handlers with a body share: read it, decode it, and go on with the parameters.\<close>

definition decode_body ::
  "(string \<Rightarrow> error + 'p) \<Rightarrow> api_request \<Rightarrow> ('p \<Rightarrow> ('w, api_response) go) \<Rightarrow> ('w, api_response) go" where
  "decode_body decode req continue w =
     (case aq_Body req of
        None \<Rightarrow> answer (BuildErrorPassback StatusBadRequest (Some ''empty body not allowed'')) w
      | Some (Inl err) \<Rightarrow> answer (BuildErrorPassback StatusInternalServerError (Some err)) w
      | Some (Inr body) \<Rightarrow>
          (case decode body of
             Inl err \<Rightarrow> answer (BuildErrorPassback StatusBadRequest (Some err)) w
           | Inr parameters \<Rightarrow> continue parameters w))"

subsection \<open>Transitions (transitions.go)\<close>

text \<open>
  The answer to a request that creates something: the type assertion \<open>assert\<close> gives its ID for the header \<^verbatim>\<open>Location\<close>.
\<close>

definition created :: "string \<Rightarrow> (api_obj \<Rightarrow> uuid option) \<Rightarrow> api_obj Passback \<Rightarrow> ('w, api_response) go" where
  "created path assert pb w =
     (if \<not> pb_IsError pb
      then Option.bind (Option.bind (pb_Obj pb) assert) (\<lambda>i.
             map_option (\<lambda>r. (r, w)) (WriteHeadersWithLocation pb (path @ i) new_response))
      else answer pb w)"

fun assert_TransitionCreation :: "api_obj \<Rightarrow> uuid option" where
  "assert_TransitionCreation (ObjTransitionCreation c) = Some (tcr_TransitionID c)"
| "assert_TransitionCreation _ = None"

fun assert_PowerCapTaskCreation :: "api_obj \<Rightarrow> uuid option" where
  "assert_PowerCapTaskCreation (ObjPowerCapTaskCreation i) = Some i"
| "assert_PowerCapTaskCreation _ = None"

fun assert_UUID :: "api_obj \<Rightarrow> uuid option" where
  "assert_UUID (ObjUUID u) = Some u"
| "assert_UUID _ = None"

text \<open>The handlers with a UUID in the path.\<close>

definition with_uuid :: "'w api_env \<Rightarrow> string \<Rightarrow> api_request \<Rightarrow> (uuid \<Rightarrow> ('w, api_response) go) \<Rightarrow> ('w, api_response) go" where
  "with_uuid A key req continue w =
     (let pb = GetUUIDFromVars A key req in
      if pb_IsError pb then answer pb w
      else Option.bind (Option.bind (pb_Obj pb) assert_UUID) (\<lambda>u. continue u w))"

definition CreateTransition :: "'w api_env \<Rightarrow> api_request \<Rightarrow> ('w, api_response) go" where
  "CreateTransition A req =
     decode_body (ap_TransitionParameter A) req (\<lambda>parameters w.
       case ToTransition (g_RT (ap_G A)) parameters (g_ExpireTimeMins (ap_G A)) w of
         ((_, Some err), w) \<Rightarrow> answer (BuildErrorPassback StatusBadRequest (Some err)) w
       | ((transition, None), w) \<Rightarrow>
           Option.bind (TriggerTransition (ap_G A) transition w) (\<lambda>(pb, w).
             created ''../transitions/'' assert_TransitionCreation (as_obj ObjTransitionCreation pb) w))"

definition GetTransitions :: "'w api_env \<Rightarrow> api_request \<Rightarrow> ('w, api_response) go" where
  "GetTransitions A req w =
     (if aq_URLParam req ''transitionID'' \<noteq> []
      then with_uuid A ''transitionID'' req (\<lambda>transitionID w.
             Option.bind (GetTransition (ap_G A) transitionID w) (\<lambda>(pb, w). answer (as_obj ObjTransition pb) w)) w
      else Option.bind (GetTransitionStatuses (ap_G A) w) (\<lambda>(pb, w). answer (as_obj ObjTransitions pb) w))"

definition api_AbortTransitionID :: "'w api_env \<Rightarrow> api_request \<Rightarrow> ('w, api_response) go" where
  "api_AbortTransitionID A req =
     with_uuid A ''transitionID'' req (\<lambda>transitionID w.
       Option.bind (AbortTransitionID (ap_G A) transitionID w) (\<lambda>(pb, w). answer (as_obj ObjAbort pb) w))"

subsection \<open>Power capping (power-cap.go)\<close>

definition api_SnapshotPowerCap :: "'w api_env \<Rightarrow> api_request \<Rightarrow> ('w, api_response) go" where
  "api_SnapshotPowerCap A req =
     decode_body (ap_PowerCapSnapshotParameter A) req (\<lambda>parameters w.
       if parameters = []
       then answer (BuildErrorPassback StatusBadRequest (Some ''Xname list is empty. A list of xnames is required'')) w
       else let (pb, w) = SnapshotPowerCap (ap_E A) parameters w
            in created ''../power-cap/'' assert_PowerCapTaskCreation (as_obj ObjPowerCapTaskCreation pb) w)"

definition bad_control :: "PowerCapControlParameter \<Rightarrow> bool" where
  "bad_control ctl \<longleftrightarrow> ccp_Name ctl = [] \<or> ccp_Value ctl < 0"

definition bad_controls :: "PowerCapComponentParameter list \<Rightarrow> xname list" where
  "bad_controls comps = map cmp_Xname (filter (\<lambda>c. list_ex bad_control (cmp_Controls c)) comps)"

definition api_PatchPowerCap :: "'w api_env \<Rightarrow> api_request \<Rightarrow> ('w, api_response) go" where
  "api_PatchPowerCap A req =
     decode_body (ap_PowerCapPatchParameter A) req (\<lambda>parameters w.
       let badCtls = bad_controls parameters in
       if length badCtls > 0
       then answer (BuildErrorPassback StatusBadRequest (Some
              (''Invalid control parameters for xnames detected '' @ concat (map (\<lambda>x. x @ '' '') badCtls)))) w
       else let (pb, w) = PatchPowerCap (ap_E A) parameters w
            in created ''../power-cap/'' assert_PowerCapTaskCreation (as_obj ObjPowerCapTaskCreation pb) w)"

definition api_GetPowerCap :: "'w api_env \<Rightarrow> api_request \<Rightarrow> ('w, api_response) go" where
  "api_GetPowerCap A req w = (let (pb, w) = GetPowerCap (ap_E A) w in answer (as_obj ObjPowerCapTasks pb) w)"

definition api_GetPowerCapQuery :: "'w api_env \<Rightarrow> api_request \<Rightarrow> ('w, api_response) go" where
  "api_GetPowerCapQuery A req =
     with_uuid A ''taskID'' req (\<lambda>taskID w.
       let (pb, w) = GetPowerCapQuery (ap_E A) taskID w in answer (as_obj ObjPowerCapTask pb) w)"

subsection \<open>Power status (power-status.go)\<close>

definition doGetPowerStatus ::
  "'w api_env \<Rightarrow> xname list \<Rightarrow> string \<Rightarrow> string \<Rightarrow> ('w, api_response) go" where
  "doGetPowerStatus A xnamesReq powerStateFilterReq managementStateFilterReq w =
     (case ToPowerStateFilter powerStateFilterReq of
        (_, Some err) \<Rightarrow> answer (BuildErrorPassback StatusBadRequest (Some err)) w
      | (psf, None) \<Rightarrow>
          (case ToManagementStateFilter managementStateFilterReq of
             (_, Some err) \<Rightarrow> answer (BuildErrorPassback StatusBadRequest (Some err)) w
           | (msf, None) \<Rightarrow>
               let (xnames, badXnames) = pe_ValidateCompIDs (ap_E A) xnamesReq True in
               if length badXnames > 0
               then answer (BuildErrorPassback StatusBadRequest (Some
                      (''invalid xnames detected:'' @ concat (map (\<lambda>x. '' '' @ x) badXnames)))) w
               else let (pb, w) = GetPowerStatus (ap_PM A) xnames psf msf w in answer (as_obj ObjPowerStatus pb) w))"

text \<open>\<^verbatim>\<open>Values.Get\<close>: the first value, or the empty string.\<close>

definition query_get :: "api_request \<Rightarrow> string \<Rightarrow> string" where
  "query_get req key = (case aq_Query req key of [] \<Rightarrow> [] | v # _ \<Rightarrow> v)"

definition api_GetPowerStatus :: "'w api_env \<Rightarrow> api_request \<Rightarrow> ('w, api_response) go" where
  "api_GetPowerStatus A req =
     doGetPowerStatus A (aq_Query req ''xname'') (query_get req ''powerStateFilter'') (query_get req ''managementStateFilter'')"

definition PostPowerStatus :: "'w api_env \<Rightarrow> api_request \<Rightarrow> ('w, api_response) go" where
  "PostPowerStatus A req =
     decode_body (ap_PowerStatusParameter A) req (\<lambda>parameters.
       doGetPowerStatus A (psp_Xnames parameters) (psp_PowerStateFilter parameters) (psp_ManagementStateFilter parameters))"

subsection \<open>Health (health.go) and the index (service.go)\<close>

text \<open>The handles may be nil (\<open>None\<close>). \<open>hg_TaskType\<close> is the name of the type of the task runner.\<close>

record 'w health_globals =
  hg_DSP :: "('w, error option) io option"
  hg_DistLock :: "('w, error option) io option"
  hg_HSM :: "('w, error option) io option"
  hg_VaultEnabled :: bool
  hg_CS :: "('w, bool) io option"
  hg_RFTloc :: "('w, bool \<times> error option) io option"
  hg_TaskType :: string

definition GetLiveness :: "api_request \<Rightarrow> ('w, api_response) go" where
  "GetLiveness req w = map_option (\<lambda>r. (r, w)) (WriteHeader 204 new_response)"

definition pings :: "('w, error option) io option \<Rightarrow> ('w, bool) go" where
  "pings p w = map_option (\<lambda>f. let (err, w) = f w in (err = None, w)) p"

definition GetReadiness :: "'w health_globals \<Rightarrow> api_request \<Rightarrow> ('w, api_response) go" where
  "GetReadiness H req w =
     Option.bind (pings (hg_DSP H) w) (\<lambda>(dsp, w).
     Option.bind (pings (hg_DistLock H) w) (\<lambda>(dl, w).
     Option.bind (pings (hg_HSM H) w) (\<lambda>(hsm, w).
     Option.bind (if hg_VaultEnabled H then map_option (\<lambda>f. f w) (hg_CS H) else Some (True, w)) (\<lambda>(cs, w).
     Option.bind (map_option (\<lambda>f. f w) (hg_RFTloc H)) (\<lambda>((alive, terr), w).
       map_option (\<lambda>r. (r, w))
         (WriteHeader (if dsp \<and> dl \<and> hsm \<and> cs \<and> alive \<and> terr = None then 204 else 503) new_response))))))"

definition ping_text :: "('w, error option) io option \<Rightarrow> ('w, string) io" where
  "ping_text p w =
     (case p of
        None \<Rightarrow> (''not connected'', w)
      | Some f \<Rightarrow> let (err, w) = f w in (if err = None then ''connected, responsive'' else ''connected, not responsive'', w))"

definition GetHealth :: "'w health_globals \<Rightarrow> api_request \<Rightarrow> ('w, api_response) go" where
  "GetHealth H req w =
     (let (kv, w) = ping_text (hg_DSP H) w;
          (dl, w) = ping_text (hg_DistLock H) w;
          (sm, w) = ping_text (hg_HSM H) w;
          (vault, w) =
            (if \<not> hg_VaultEnabled H then (''disabled'', w)
             else case hg_CS H of
               None \<Rightarrow> (''not connected'', w)
             | Some f \<Rightarrow> let (ready, w) = f w in (if ready then ''connected, responsive'' else ''connected, not responsive'', w));
          (tr, w) =
            (case hg_RFTloc H of
               None \<Rightarrow> (''not connected'', w)
             | Some f \<Rightarrow>
                 let ((alive, terr), w) = f w;
                     s = (if terr \<noteq> None then ''not connected, not responsive''
                          else if \<not> alive then ''connected, not responsive'' else ''connected, responsive'')
                 in (s @ '', '' @ (if Contains (ToLower (hg_TaskType H)) ''local'' then ''local mode'' else ''remote mode''), w))
      in answer \<lparr>pb_StatusCode = StatusOK, pb_Obj = Some (ObjHealth \<lparr>hlt_KvStore = kv, hlt_DistLocking = dl, hlt_StateManager = sm,
           hlt_Vault = vault, hlt_TaskRunner = tr\<rparr>),
           pb_Error = \<lparr>p_Type = [], p_Detail = [], p_Instance = [], p_Status = 0, p_Title = []\<rparr>, pb_IsError = False\<rparr> w)"

definition Index :: "api_request \<Rightarrow> ('w, api_response) go" where
  "Index req w = map_option (\<lambda>r. (r, w)) (WriteHeader StatusOK (WriteJSON (PayloadText ''hms-power-control'') new_response))"

subsection \<open>Routes (routers.go)\<close>

record 'w Route =
  rt_Name :: string
  rt_Method :: string
  rt_Pattern :: string
  rt_HandlerFunc :: "api_request \<Rightarrow> ('w, api_response) go"

definition route :: "string \<Rightarrow> string \<Rightarrow> string \<Rightarrow> (api_request \<Rightarrow> ('w, api_response) go) \<Rightarrow> 'w Route" where
  "route n m p h = \<lparr>rt_Name = n, rt_Method = m, rt_Pattern = p, rt_HandlerFunc = h\<rparr>"

definition protectedRoutes :: "'w api_env \<Rightarrow> 'w Route list" where
  "protectedRoutes A =
     [route ''Index'' ''GET'' ''/'' Index,
      route ''GetTransitions'' ''GET'' ''/transitions'' (GetTransitions A),
      route ''CreateTransition'' ''POST'' ''/transitions'' (CreateTransition A),
      route ''GetTransitionID'' ''GET'' ''/transitions/{transitionID}'' (GetTransitions A),
      route ''AbortTransitionID'' ''DELETE'' ''/transitions/{transitionID}'' (api_AbortTransitionID A),
      route ''GetPowerStatus'' ''GET'' ''/power-status'' (api_GetPowerStatus A),
      route ''PostPowerStatus'' ''POST'' ''/power-status'' (PostPowerStatus A),
      route ''SnapshotPowerCap'' ''POST'' ''/power-cap/snapshot'' (api_SnapshotPowerCap A),
      route ''PatchPowerCap'' ''PATCH'' ''/power-cap'' (api_PatchPowerCap A),
      route ''GetPowerCap'' ''GET'' ''/power-cap'' (api_GetPowerCap A),
      route ''GetPowerCapQuery'' ''GET'' ''/power-cap/{taskID}'' (api_GetPowerCapQuery A)]"

definition publicRoutes :: "'w health_globals \<Rightarrow> 'w Route list" where
  "publicRoutes H =
     [route ''GetLiveness'' ''GET'' ''/liveness'' GetLiveness,
      route ''GetReadiness'' ''GET'' ''/readiness'' (GetReadiness H),
      route ''GetHealth'' ''GET'' ''/health'' (GetHealth H)]"

text \<open>What is registered with the router: method, pattern and handler; \<open>Wrap\<close> is the authentication.\<close>

definition registerRoutes ::
  "'w api_env \<Rightarrow> 'w health_globals \<Rightarrow> ((api_request \<Rightarrow> ('w, api_response) go) \<Rightarrow> api_request \<Rightarrow> ('w, api_response) go) \<Rightarrow>
   (string \<times> string \<times> (api_request \<Rightarrow> ('w, api_response) go)) list" where
  "registerRoutes A H Wrap =
     concat (map (\<lambda>r. [(rt_Method r, rt_Pattern r, Wrap (rt_HandlerFunc r)),
                       (rt_Method r, ''/v1'' @ rt_Pattern r, Wrap (rt_HandlerFunc r))]) (protectedRoutes A)) @
     concat (map (\<lambda>r. [(rt_Method r, rt_Pattern r, rt_HandlerFunc r),
                       (rt_Method r, ''/v1'' @ rt_Pattern r, rt_HandlerFunc r)]) (publicRoutes H))"

end
