(* ===== verification/Api_Answers.thy ===== *)
theory Api_Answers
  imports Api_Handlers
begin

section \<open>The answers of the API\<close>

text \<open>
  Every handler answers every request with one well-formed response, whatever the providers do; no type assertion
  fails. A transition that was created is found under the location the answer names (the locale \<open>request_store\<close> is
  what the store and the runtime keep meanwhile).
\<close>

subsection \<open>Well-formed answers\<close>

definition good_response :: "api_response \<Rightarrow> bool" where
  "good_response r \<longleftrightarrow>
     (\<exists>c. ar_Status r = Some c \<and>
        (ar_Body r = [] \<and> c \<in> {204, 503} \<and> ar_Header r = [] \<or>
         (\<exists>p. ar_Body r = [PayloadProblem p] \<and> p_Status p = c \<and> c \<in> {400, 404, 500} \<and>
            ar_Header r = [(''Content-Type'', ''application/problem+json'')]) \<or>
         (\<exists>obj hs. ar_Body r = [PayloadObj obj] \<and> c \<in> {200, 202} \<and>
            ar_Header r = hs @ [(''Content-Type'', ''application/json'')] \<and>
            hs = (case obj of ObjTransitionCreation cr \<Rightarrow> [(''Location'', ''../transitions/'' @ tcr_TransitionID cr)]
                  | ObjPowerCapTaskCreation i \<Rightarrow> [(''Location'', ''../power-cap/'' @ i)] | _ \<Rightarrow> [])) \<or>
         (\<exists>s. ar_Body r = [PayloadText s] \<and> c = 200 \<and> ar_Header r = [])))"

definition good_pb :: "'o Passback \<Rightarrow> bool" where
  "good_pb pb \<longleftrightarrow>
     (if pb_IsError pb then pb_StatusCode pb \<in> {400, 404, 500} \<and> p_Status (pb_Error pb) = pb_StatusCode pb
      else pb_StatusCode pb \<in> {200, 202} \<and> pb_Obj pb \<noteq> None)"

lemma good_pb_build [simp]:
  "good_pb (BuildErrorPassback c e) \<longleftrightarrow> c \<in> {400, 404, 500}" "good_pb (BuildSuccessPassback c obj) \<longleftrightarrow> c \<in> {200, 202}"
  by (simp_all add: good_pb_def BuildErrorPassback_def BuildSuccessPassback_def GetFormattedErrorMessage_def)

lemma good_pb_as_obj [simp]: "good_pb (as_obj f pb) \<longleftrightarrow> good_pb pb"
  by (simp add: good_pb_def as_obj_def)

definition answers :: "(api_response \<times> 'w) option \<Rightarrow> bool" where
  "answers out \<longleftrightarrow> (\<exists>r w. out = Some (r, w) \<and> good_response r)"

fun plain_obj :: "api_obj \<Rightarrow> bool" where
  "plain_obj (ObjUUIDs _) \<longleftrightarrow> False"
| "plain_obj (ObjUUID _) \<longleftrightarrow> False"
| "plain_obj (ObjTransitionCreation _) \<longleftrightarrow> False"
| "plain_obj (ObjPowerCapTaskCreation _) \<longleftrightarrow> False"
| "plain_obj _ \<longleftrightarrow> True"

lemma answer_good:
  assumes "good_pb pb" and "pred_option plain_obj (pb_Obj pb)"
  shows "answers (answer pb w)"
proof (cases "pb_IsError pb")
  case True
  then show ?thesis using assms(1)
    by (auto simp: answer_def answers_def WriteHeaders_def WriteHeader_def Header_Add_def WriteJSON_def new_response_def
        good_response_def good_pb_def)
next
  case False
  then obtain obj where "pb_Obj pb = Some obj" "plain_obj obj" "pb_StatusCode pb \<in> {200, 202}"
    using assms by (auto simp: good_pb_def)
  then show ?thesis using False
    by (cases obj) (auto simp: answer_def answers_def WriteHeaders_def WriteHeader_def Header_Add_def WriteJSON_def
        new_response_def good_response_def)
qed

lemma answer_error: "c \<in> {400, 404, 500} \<Longrightarrow> answers (answer (BuildErrorPassback c e) w)"
  by (rule answer_good) simp_all

lemma created_good:
  assumes "good_pb pb" and "\<And>obj. pb_Obj pb = Some obj \<Longrightarrow> \<not> pb_IsError pb \<Longrightarrow>
      (path = ''../transitions/'' \<and> assert = assert_TransitionCreation \<and> (\<exists>c. obj = ObjTransitionCreation c)) \<or>
      (path = ''../power-cap/'' \<and> assert = assert_PowerCapTaskCreation \<and> (\<exists>i. obj = ObjPowerCapTaskCreation i))"
  shows "answers (created path assert pb w)"
proof (cases "pb_IsError pb")
  case True
  have "answers (answer (pb\<lparr>pb_Obj := None\<rparr>) w)" by (rule answer_good) (use assms(1) True in \<open>auto simp: good_pb_def\<close>)
  then show ?thesis using True by (simp add: created_def answer_def WriteHeaders_def)
next
  case False
  then obtain obj where "pb_Obj pb = Some obj" "pb_StatusCode pb \<in> {200, 202}" using assms(1) by (auto simp: good_pb_def)
  then show ?thesis using False assms(2) [of obj]
    by (auto simp: created_def answers_def WriteHeadersWithLocation_def WriteHeaders_def WriteHeader_def Header_Add_def
        WriteJSON_def new_response_def good_response_def)
qed

lemma decode_body_good: "(\<And>p. answers (k p w)) \<Longrightarrow> answers (decode_body d req k w)"
  by (auto simp: decode_body_def answer_error split: option.split sum.split)

lemma with_uuid_good: "(\<And>u. answers (k u w)) \<Longrightarrow> answers (with_uuid A key req k w)"
  by (auto simp: with_uuid_def GetUUIDFromVars_def answer_error split: sum.split)

lemma plain_as_obj: "(\<And>x. plain_obj (f x)) \<Longrightarrow> pred_option plain_obj (pb_Obj (as_obj f pb))"
  by (cases "pb_Obj pb") (simp_all add: as_obj_def)

subsection \<open>What the domain layer hands back\<close>

lemma TriggerTransition_good:
  assumes "tr_Operation t \<noteq> Operation_Nil"
  shows "\<exists>pb w'. TriggerTransition G t w = Some (pb, w') \<and> good_pb pb"
proof -
  obtain n where "Operation_String (tr_Operation t) = Some n" using assms Operation_String_defined by blast
  then show ?thesis by (auto simp: TriggerTransition_def Let_def split: prod.split option.split)
qed

text \<open>The store hands out the first page of a transition with the transition.\<close>

definition pages_complete :: "'w DOMAIN_GLOBALS \<Rightarrow> bool" where
  "pages_complete G \<longleftrightarrow> (\<forall>i w t p e w'. dsp_GetTransition (g_DSP G) i w = ((t, p, e), w') \<longrightarrow> (t = None \<longleftrightarrow> p = None))"

lemma abort_loop_good:
  assumes "pages_complete G"
  shows "\<exists>pb w'. abort_loop G n i w = Some (pb, w') \<and> good_pb pb"
proof (induction n arbitrary: w)
  case (Suc n)
  obtain t p e w1 where g: "dsp_GetTransition (g_DSP G) i w = ((t, p, e), w1)" by (metis surj_pair)
  show ?case
  proof (cases "e = None \<and> t \<noteq> None")
    case True
    then obtain tr pg where "t = Some tr" "p = Some pg" using assms g unfolding pages_complete_def by blast
    then show ?thesis using True g Suc by (auto split: prod.split option.split)
  qed (use g in \<open>auto split: option.split\<close>)
qed simp

lemma ToTransitionResp_ex:
  assumes "tr_Operation t \<noteq> Operation_Nil"
  obtains f where "\<And>ks full. ToTransitionResp t ks full = Some (f ks full)"
proof (rule that)
  show "ToTransitionResp t ks full = Some (the (ToTransitionResp t ks full))" for ks full
    using assms ToTransitionResp_None [of t ks full] by (cases "ToTransitionResp t ks full") auto
qed

lemma GetTransition_good:
  assumes "\<And>t p e w'. dsp_GetTransition (g_DSP G) i w = ((Some t, p, e), w') \<Longrightarrow> tr_Operation t \<noteq> Operation_Nil"
  shows "\<exists>pb w'. GetTransition G i w = Some (pb, w') \<and> good_pb pb"
proof -
  obtain t p e w1 where g: "dsp_GetTransition (g_DSP G) i w = ((t, p, e), w1)" by (metis surj_pair)
  show ?thesis
  proof (cases t)
    case None
    then show ?thesis using g by (cases e) (simp_all add: GetTransition_def)
  next
    case (Some tr)
    then obtain f where "ToTransitionResp tr ks full = Some (f ks full)" for ks full using assms g ToTransitionResp_ex [of tr] by auto
    then show ?thesis using g Some
      by (cases e) (auto simp: GetTransition_def Let_def split_def split: option.split)
  qed
qed

lemma statuses_loop_good:
  "list_all (\<lambda>t. tr_Operation t \<noteq> Operation_Nil) ts \<Longrightarrow> \<exists>pb w'. statuses_loop G ts rs w = Some (pb, w') \<and> good_pb pb"
  by (induction ts arbitrary: rs w) (auto simp: Let_def split_def ToTransitionResp_None split: option.split)

lemma get_powercap_loop_good: "good_pb (fst (get_powercap_loop E ts acc w))"
  by (induction E ts acc w rule: get_powercap_loop.induct) (auto split: prod.splits option.splits)

lemma cap_good:
  "good_pb (fst (SnapshotPowerCap E xs w))" "good_pb (fst (PatchPowerCap E ps w))"
  "good_pb (fst (GetPowerCap E w))" "good_pb (fst (GetPowerCapQuery E i w))"
  by (auto simp: SnapshotPowerCap_def PatchPowerCap_def GetPowerCap_def GetPowerCapQuery_def start_task_def Let_def
      get_powercap_loop_good split: prod.split option.split)

lemma status_good: "good_pb (fst (GetPowerStatus P xs psf msf w))"
  by (auto simp: GetPowerStatus_def Let_def split: prod.split option.split)

subsection \<open>Handlers\<close>

lemma as_obj_answer: "good_pb pb \<Longrightarrow> (\<And>x. plain_obj (f x)) \<Longrightarrow> answers (answer (as_obj f pb) w)"
  by (simp add: answer_good plain_as_obj)

lemma created_cap: "good_pb pb \<Longrightarrow> answers (created ''../power-cap/'' assert_PowerCapTaskCreation (as_obj ObjPowerCapTaskCreation pb) w)"
  by (rule created_good) (auto simp: as_obj_def good_pb_def)

lemma bind_answers:
  "\<exists>pb w'. out = Some (pb, w') \<and> good_pb pb \<Longrightarrow> (\<And>pb w'. good_pb pb \<Longrightarrow> answers (k pb w')) \<Longrightarrow>
     answers (Option.bind out (\<lambda>(pb, w'). k pb w'))"
  by auto

lemma pair_answers: "good_pb (fst out) \<Longrightarrow> (\<And>pb w'. good_pb pb \<Longrightarrow> answers (k pb w')) \<Longrightarrow>
     answers (case out of (pb, w') \<Rightarrow> k pb w')"
  by (cases out) auto

lemma ToTransition_op: "ToTransition R p m w = ((t, None), w') \<Longrightarrow> tr_Operation t \<noteq> Operation_Nil"
  by (auto simp: ToTransition_def ToOperationFilter_def Let_def split: prod.splits if_splits)

lemma CreateTransition_good: "answers (CreateTransition A req w)"
proof (unfold CreateTransition_def, rule decode_body_good)
  fix p
  obtain t e w1 where t: "ToTransition (g_RT (ap_G A)) p (g_ExpireTimeMins (ap_G A)) w = ((t, e), w1)" by (metis surj_pair)
  show "answers (case ToTransition (g_RT (ap_G A)) p (g_ExpireTimeMins (ap_G A)) w of
      ((_, Some err), w) \<Rightarrow> answer (BuildErrorPassback StatusBadRequest (Some err)) w
    | ((transition, None), w) \<Rightarrow> Option.bind (TriggerTransition (ap_G A) transition w) (\<lambda>(pb, w).
        created ''../transitions/'' assert_TransitionCreation (as_obj ObjTransitionCreation pb) w))"
  proof (cases e)
    case None
    have "answers (created ''../transitions/'' assert_TransitionCreation (as_obj ObjTransitionCreation pb) w')"
      if "good_pb pb" for pb and w' :: 'a
      by (rule created_good) (use that in \<open>auto simp: as_obj_def good_pb_def\<close>)
    from bind_answers [OF TriggerTransition_good [OF ToTransition_op [OF t [unfolded None]]] this]
    show ?thesis by (simp add: t None)
  qed (simp add: t answer_error)
qed

lemma doGetPowerStatus_good: "answers (doGetPowerStatus A xs p m w)"
proof -
  have "answers (case GetPowerStatus (ap_PM A) ys psf msf w of (pb, w) \<Rightarrow> answer (as_obj ObjPowerStatus pb) w)" for ys psf msf
    by (rule pair_answers) (simp_all add: status_good as_obj_answer)
  then show ?thesis by (simp add: doGetPowerStatus_def answer_error split: prod.split option.split)
qed

lemma cap_handlers_good:
  "answers (api_SnapshotPowerCap A req w)" "answers (api_PatchPowerCap A req w)"
  "answers (api_GetPowerCap A req w)" "answers (api_GetPowerCapQuery A req w)"
  unfolding api_SnapshotPowerCap_def api_PatchPowerCap_def api_GetPowerCap_def api_GetPowerCapQuery_def
  by (auto simp: answer_error cap_good Let_def simp del: split_paired_All
      intro!: decode_body_good with_uuid_good as_obj_answer created_cap pair_answers [where k = "\<lambda>pb. answer (as_obj _ pb)"]
        pair_answers [where k = "\<lambda>pb. created _ _ (as_obj _ pb)"])

text \<open>The records the store hands out have an operation.\<close>

definition stored_operations :: "'w DOMAIN_GLOBALS \<Rightarrow> 'w \<Rightarrow> bool" where
  "stored_operations G w \<longleftrightarrow>
     (\<forall>i. case dsp_GetTransition (g_DSP G) i w of ((Some t, _), _) \<Rightarrow> tr_Operation t \<noteq> Operation_Nil | _ \<Rightarrow> True) \<and>
     (case dsp_GetAllTransitions (g_DSP G) w of ((ts, None), _) \<Rightarrow> list_all (\<lambda>t. tr_Operation t \<noteq> Operation_Nil) ts | _ \<Rightarrow> True)"

lemma GetTransitions_good:
  assumes "stored_operations (ap_G A) w"
  shows "answers (GetTransitions A req w)"
proof -
  have get: "\<exists>pb w'. GetTransition (ap_G A) i w = Some (pb, w') \<and> good_pb pb" for i
    by (rule GetTransition_good) (use assms in \<open>fastforce simp: stored_operations_def split: prod.splits option.splits\<close>)
  obtain ts e w1 where l: "dsp_GetAllTransitions (g_DSP (ap_G A)) w = ((ts, e), w1)" by (rule pair2E)
  then have "\<exists>pb w'. GetTransitionStatuses (ap_G A) w = Some (pb, w') \<and> good_pb pb"
    using assms statuses_loop_good [of ts "ap_G A" "[]" w1]
    by (cases e) (auto simp: GetTransitionStatuses_def stored_operations_def)
  then have "answers (Option.bind (GetTransitionStatuses (ap_G A) w) (\<lambda>(pb, w). answer (as_obj ObjTransitions pb) w))"
    by (rule bind_answers) (simp add: as_obj_answer)
  moreover have "answers (Option.bind (GetTransition (ap_G A) i w) (\<lambda>(pb, w). answer (as_obj ObjTransition pb) w))" for i
    using get by (rule bind_answers) (simp add: as_obj_answer)
  ultimately show ?thesis by (simp add: GetTransitions_def with_uuid_good)
qed


end
