(* ===== verification/Api_Roundtrip.thy ===== *)
theory Api_Roundtrip
  imports Api_Answers Power_Cap_Requests Power_Monitoring
begin

section \<open>Creating and reading a transition over the API\<close>

text \<open>
  What the store, the clock, the source of UUIDs and the start of a goroutine keep while a request is answered (the
  locale \<open>request_store\<close>), and that a transition created by one request is answered by the next.
\<close>

locale request_store = quiet_store "ap_G A" inv trans tasks fits
  for A :: "'w api_env" and inv :: "'w \<Rightarrow> bool" and trans :: "'w \<Rightarrow> uuid \<Rightarrow> Transition option"
    and tasks :: "'w \<Rightarrow> uuid \<times> uuid \<Rightarrow> TransitionTask option" and fits :: "Transition \<Rightarrow> bool" +
  assumes uuid_quiet: "\<And>w i w'. inv w \<Longrightarrow> uuid_New (g_RT (ap_G A)) w = (i, w') \<Longrightarrow>
      inv w' \<and> trans w' = trans w \<and> tasks w' = tasks w"
    and start_quiet: "\<And>w i. inv w \<Longrightarrow> inv (g_go_doTransition (ap_G A) i w) \<and>
      trans (g_go_doTransition (ap_G A) i w) = trans w \<and> tasks (g_go_doTransition (ap_G A) i w) = tasks w"
begin

lemma ToTransition_quiet:
  assumes "inv w" and "ToTransition (g_RT (ap_G A)) p m w = (out, w')"
  shows "inv w' \<and> trans w' = trans w \<and> tasks w' = tasks w"
proof -
  obtain i w1 n1 w2 n2 w3 n3 w4 where s: "uuid_New (g_RT (ap_G A)) w = (i, w1)" "time_Now (g_RT (ap_G A)) w1 = (n1, w2)"
      "time_Now (g_RT (ap_G A)) w2 = (n2, w3)" "time_Now (g_RT (ap_G A)) w3 = (n3, w4)"
    by (metis surj_pair)
  have "w' = w4" using assms(2) s by (auto simp: ToTransition_def split: prod.splits)
  moreover have w1: "inv w1 \<and> trans w1 = trans w \<and> tasks w1 = tasks w" using uuid_quiet [OF assms(1) s(1)] .
  moreover have w2: "inv w2 \<and> trans w2 = trans w1 \<and> tasks w2 = tasks w1" using now_quiet w1 s(2) by blast
  moreover have w3: "inv w3 \<and> trans w3 = trans w2 \<and> tasks w3 = tasks w2" using now_quiet w2 s(3) by blast
  moreover have "inv w4 \<and> trans w4 = trans w3 \<and> tasks w4 = tasks w3" using now_quiet w3 s(4) by blast
  ultimately show ?thesis by simp
qed

lemma stored_operations:
  assumes "inv w" and "\<And>i t. trans w i = Some t \<Longrightarrow> tr_Operation t \<noteq> Operation_Nil"
  shows "stored_operations (ap_G A) w"
proof -
  obtain ts e w1 where l: "dsp_GetAllTransitions (g_DSP (ap_G A)) w = ((ts, e), w1)" by (rule pair2E)
  have "e = None \<Longrightarrow> list_all (\<lambda>t. tr_Operation t \<noteq> Operation_Nil) ts"
    using all_trans [OF assms(1) l] assms(2) by (auto simp: list_all_iff)
  moreover have "case dsp_GetTransition (g_DSP (ap_G A)) i w of ((Some t, _), _) \<Rightarrow> tr_Operation t \<noteq> Operation_Nil | _ \<Rightarrow> True" for i
    using assms(1) by (cases rule: get_cases [where i = i]) (auto dest: assms(2) split: option.split)
  ultimately show ?thesis using l by (auto simp: stored_operations_def split: option.split)
qed

lemma trigger:
  assumes "inv w" and "okid (tr_TransitionID t)" and "fits t" and "Operation_String (tr_Operation t) = Some n"
  obtains (failed) e w' where "TriggerTransition (ap_G A) t w = Some (BuildErrorPassback StatusInternalServerError (Some e), w')"
      "inv w'" "tasks w' = tasks w" "trans w' = trans w \<or> trans w' = (trans w)(tr_TransitionID t \<mapsto> t)"
  | (stored) w' where "TriggerTransition (ap_G A) t w =
        Some (BuildSuccessPassback StatusOK \<lparr>tcr_TransitionID = tr_TransitionID t, tcr_Operation = n\<rparr>, w')"
      "inv w'" "tasks w' = tasks w" "trans w' = (trans w)(tr_TransitionID t \<mapsto> t)"
proof -
  obtain e w1 where s: "dsp_StoreTransition (g_DSP (ap_G A)) t w = (e, w1)" by fastforce
  note L = store [OF assms(1-3) s]
  show thesis
  proof (cases e)
    case (Some x)
    then show ?thesis using s L failed by (auto simp: TriggerTransition_def may_set_def)
  next
    case None
    then show ?thesis
      using s L assms(4) stored start_quiet [of w1 "tr_TransitionID t"] may_set_ok [of "trans w"]
      by (auto simp: TriggerTransition_def)
  qed
qed

lemma get_stored:
  assumes "inv w" and "trans w i = Some t" and "\<not> tr_IsCompressed t" and "\<And>j. tasks w (i, j) = None"
    and "Operation_String (tr_Operation t) = Some n"
  shows "\<exists>pb w'. GetTransition (ap_G A) i w = Some (pb, w') \<and> trans w' = trans w \<and>
    ((\<exists>e. pb = BuildErrorPassback StatusInternalServerError (Some e)) \<or>
     pb = BuildSuccessPassback StatusOK (the (ToTransitionResp t [] True)))"
  using assms(1)
proof (cases rule: get_cases [where i = i])
  case (1 e w1)
  then show ?thesis by (auto simp: GetTransition_def)
next
  case (2 w1)
  have "okid i" using trans_id [OF assms(1,2)] by simp
  from 2(2) this show ?thesis
  proof (cases rule: all_tasks_cases)
    case (1 ks e w2)
    then show ?thesis using 2 assms(2,3) by (auto simp: GetTransition_def)
  next
    case (2 ks w2)
    then have "ks = []" using \<open>tasks w1 = tasks w\<close> assms(4) by (cases ks) auto
    then show ?thesis
      using 2 \<open>dsp_GetTransition (g_DSP (ap_G A)) i w = _\<close> \<open>trans w1 = trans w\<close> assms(2,3,5)
      by (simp add: GetTransition_def ToTransitionResp_uncompressed)
  qed
qed

end

lemma answer_success:
  assumes "plain_obj obj"
  shows "answer (BuildSuccessPassback 200 obj) w =
    Some (\<lparr>ar_Header = [(''Content-Type'', ''application/json'')], ar_Status = Some 200, ar_Body = [PayloadObj obj]\<rparr>, w)"
  using assms by (cases obj) (simp_all add: answer_def WriteHeaders_def WriteHeader_def Header_Add_def WriteJSON_def new_response_def)

lemma answer_failure:
  "answer (BuildErrorPassback 500 e) w = Some (\<lparr>ar_Header = [(''Content-Type'', ''application/problem+json'')],
     ar_Status = Some 500, ar_Body = [PayloadProblem (GetFormattedErrorMessage e 500)]\<rparr>, w)"
  by (simp add: answer_def WriteHeaders_def WriteHeader_def Header_Add_def WriteJSON_def new_response_def BuildErrorPassback_def)

lemma as_obj_build [simp]:
  "as_obj f (BuildErrorPassback c e) = BuildErrorPassback c e"
  "as_obj f (BuildSuccessPassback c x) = BuildSuccessPassback c (f x)"
  by (simp_all add: as_obj_def BuildErrorPassback_def BuildSuccessPassback_def)

text \<open>
  C32: A request to create a transition with a valid operation is answered with 200 and the location of the new transition,
  and the store then holds exactly one more record, the new one; a request for that location is
  answered with the new transition (its own ID, operation and times, no tasks yet), or with an error of the store. If
  creating is answered with 500, nothing but the new record may have been stored.
\<close>

theorem created_transition_is_found:
  assumes "request_store A okw recs tasks fits" and "okw w"
    and "aq_Body req = Some (Inr body)" and "ap_TransitionParameter A body = Inr p"
    and "ToTransition (g_RT (ap_G A)) p (g_ExpireTimeMins (ap_G A)) w = ((t, None), w1)"
    and "okid (tr_TransitionID t)" and "fits t" and "\<And>j. tasks w (tr_TransitionID t, j) = None"
    and "ap_uuid_Parse A (aq_URLParam req' ''transitionID'') = Inr (tr_TransitionID t)" and "aq_URLParam req' ''transitionID'' \<noteq> []"
  shows "\<exists>resp w'. CreateTransition A req w = Some (resp, w') \<and> okw w' \<and> tasks w' = tasks w \<and>
    (ar_Status resp = Some 500 \<and> recs w' \<in> {recs w, (recs w)(tr_TransitionID t \<mapsto> t)} \<or>
     ar_Status resp = Some 200 \<and> (''Location'', ''../transitions/'' @ tr_TransitionID t) \<in> set (ar_Header resp) \<and>
     recs w' = (recs w)(tr_TransitionID t \<mapsto> t) \<and>
     (\<exists>resp' w''. GetTransitions A req' w' = Some (resp', w'') \<and>
        (ar_Status resp' = Some 500 \<or>
         ar_Status resp' = Some 200 \<and>
         (\<exists>n. Operation_String (fst (ToOperationFilter (tp_Operation p))) = Some n \<and>
           ar_Body resp' = [PayloadObj (ObjTransition \<lparr>rsp_TransitionID = tr_TransitionID t, rsp_Operation = n,
             rsp_CreateTime = tr_CreateTime t, rsp_AutomaticExpirationTime = tr_AutomaticExpirationTime t,
             rsp_TransitionStatus = ''new'', rsp_TaskCounts = zero_counts, rsp_Tasks = []\<rparr>)]))))"
proof -
  note L = request_store.ToTransition_quiet [OF assms(1,2,5)]
  have t: "tr_Operation t = fst (ToOperationFilter (tp_Operation p))" "\<not> tr_IsCompressed t" "tr_Status t = ''new''"
    using assms(5) by (auto simp: ToTransition_def split: prod.splits)
  obtain n where n: "Operation_String (tr_Operation t) = Some n" using ToTransition_op [OF assms(5)] Operation_String_defined by blast
  let ?i = "tr_TransitionID t"
  have run: "CreateTransition A req w = Option.bind (TriggerTransition (ap_G A) t w1) (\<lambda>(pb, w).
      created ''../transitions/'' assert_TransitionCreation (as_obj ObjTransitionCreation pb) w)"
    using assms(3-5) by (simp add: CreateTransition_def decode_body_def)
  from L have w1: "okw w1" by simp
  show ?thesis
  proof (cases rule: request_store.trigger [OF assms(1) w1 assms(6,7) n, case_names failed stored])
    case (failed e w')
    then show ?thesis using run L by (auto simp: created_def answer_failure)
  next
    case (stored w')
    have "tasks w' (?i, j) = None" for j using stored(3) L assms(8) by simp
    then obtain pb w'' where g: "GetTransition (ap_G A) ?i w' = Some (pb, w'')" "recs w'' = recs w'"
        "(\<exists>e. pb = BuildErrorPassback 500 (Some e)) \<or> pb = BuildSuccessPassback 200 (the (ToTransitionResp t [] True))"
      using request_store.get_stored [OF assms(1) stored(2), of ?i t n] stored(4) t(2) n by auto
    have "GetTransitions A req' w' = answer (as_obj ObjTransition pb) w''"
      using assms(9,10) g(1) by (simp add: GetTransitions_def with_uuid_def GetUUIDFromVars_def)
    then have "\<exists>resp' w''. GetTransitions A req' w' = Some (resp', w'') \<and> (ar_Status resp' = Some 500 \<or>
        ar_Status resp' = Some 200 \<and> ar_Body resp' = [PayloadObj (ObjTransition (the (ToTransitionResp t [] True)))])"
      using g(3) by (auto simp: answer_failure answer_success)
    moreover have "the (ToTransitionResp t [] True) = \<lparr>rsp_TransitionID = ?i, rsp_Operation = n,
        rsp_CreateTime = tr_CreateTime t, rsp_AutomaticExpirationTime = tr_AutomaticExpirationTime t,
        rsp_TransitionStatus = ''new'', rsp_TaskCounts = zero_counts, rsp_Tasks = []\<rparr>"
      using t n by (simp add: ToTransitionResp_uncompressed task_counts_def status_count_def zero_counts_def)
    moreover have "CreateTransition A req w = Some (\<lparr>ar_Header = [(''Location'', ''../transitions/'' @ ?i),
        (''Content-Type'', ''application/json'')], ar_Status = Some 200,
        ar_Body = [PayloadObj (ObjTransitionCreation \<lparr>tcr_TransitionID = ?i, tcr_Operation = n\<rparr>)]\<rparr>, w')"
      using run stored(1) by (simp add: created_def WriteHeadersWithLocation_def WriteHeaders_def WriteHeader_def Header_Add_def
          WriteJSON_def new_response_def)
    ultimately show ?thesis using stored L n t(1) by auto
  qed
qed

subsection \<open>The API on the executable world\<close>

text \<open>The decoders read a body as the name of an operation, a component or a filter.\<close>

definition simA :: "world api_env" where
  "simA =
     \<lparr>ap_E = simE, ap_PM = simPM simEtcd (\<lambda>u. sim_said ''On''), ap_uuid_Parse = (\<lambda>s. if okid s then Inr s else Inl ''invalid UUID''),
      ap_TransitionParameter = (\<lambda>s. Inr \<lparr>tp_Operation = s, tp_TaskDeadline = None,
        tp_Location = [\<lparr>loc_Xname = ''x0c0s1b0n0'', loc_DeputyKey = []\<rparr>]\<rparr>),
      ap_PowerCapSnapshotParameter = (\<lambda>s. Inr [s]),
      ap_PowerCapPatchParameter = (\<lambda>s. Inr [\<lparr>cmp_Xname = s, cmp_Controls = []\<rparr>]),
      ap_PowerStatusParameter = (\<lambda>s. Inr \<lparr>psp_Xnames = [], psp_PowerStateFilter = s, psp_ManagementStateFilter = []\<rparr>)\<rparr>"

definition sim_get_request :: "uuid \<Rightarrow> api_request" where
  "sim_get_request i = \<lparr>aq_Body = None, aq_URLParam = (\<lambda>k. if k = ''transitionID'' then i else []), aq_Query = (\<lambda>k. []), aq_Header = (\<lambda>k. [])\<rparr>"

definition sim_post_request :: "string \<Rightarrow> api_request" where
  "sim_post_request body = \<lparr>aq_Body = Some (Inr body), aq_URLParam = (\<lambda>k. []), aq_Query = (\<lambda>k. []), aq_Header = (\<lambda>k. [])\<rparr>"

lemma simA_sel [simp]:
  "ap_E simA = simE" "ap_uuid_Parse simA s = (if okid s then Inr s else Inl ''invalid UUID'')" "aq_URLParam (sim_get_request i) ''transitionID'' = i"
  "aq_Body (sim_post_request body) = Some (Inr body)"
  by (simp_all add: simA_def sim_get_request_def sim_post_request_def)

lemma simE_quiet:
  "time_Now (g_RT (pe_G simE)) w = (n, w') \<Longrightarrow> sim_db w' = sim_db w"
  "sim_db (g_go_doTransition (pe_G simE) i w) = sim_db w"
  by (auto simp: simE_def simG_def sim_runtime_def on_hw_def)

interpretation simreq: request_store simA sim_inv sim_trans sim_tasks sim_fits
  by (unfold request_store_def quiet_store_def domain_store_def quiet_store_axioms_def request_store_axioms_def)
    (auto simp: sim_etcd.etcd.transition_store_axioms simE_quiet(2) dest: simE_quiet(1))

lemma sim_pages: "pages_complete (ap_G simA)"
  by (auto simp: pages_complete_def ETCDStorage_provider_def ETCD_GetTransition_def split: prod.splits option.splits if_splits)

abbreviation sim_post_world :: world where
  "sim_post_world \<equiv> sim_with [sim_transition 7 ''new'' [] Operation_On] [] []"

lemma sim_post_inv: "sim_inv sim_post_world"
  by (rule sim_with_inv) simp_all

lemma sim_post_trans: "sim_trans sim_post_world i = Some t \<Longrightarrow> tr_Operation t = Operation_On"
  by (auto simp: db_trans_def sim_with_def split: if_splits)


definition sim_parameter :: TransitionParameter where
  "sim_parameter = \<lparr>tp_Operation = ''Off'', tp_TaskDeadline = None, tp_Location = [\<lparr>loc_Xname = ''x0c0s1b0n0'', loc_DeputyKey = []\<rparr>]\<rparr>"

lemma sim_ToTransition:
  obtains t w1 where "ToTransition (g_RT (ap_G simA)) sim_parameter (g_ExpireTimeMins (ap_G simA)) sim_post_world = ((t, None), w1)"
    "tr_TransitionID t = sim_uuid 100" "sim_fits t"
proof -
  let ?out = "ToTransition (g_RT (ap_G simA)) sim_parameter (g_ExpireTimeMins (ap_G simA)) sim_post_world"
  have u: "sim_uuids sim_post_world mod 1000 = 100" by (simp add: sim_with_def)
  have "ToOperationFilter ''Off'' = (Operation_Off, None)" by code_simp
  then have "snd (fst ?out) = None" "tr_TransitionID (fst (fst ?out)) = sim_uuid 100"
      "length (tr_Tasks (fst (fst ?out))) + length (tr_Location (fst (fst ?out))) + length (tr_TaskIDs (fst (fst ?out))) < 1000"
    using u by (auto simp: ToTransition_def sim_parameter_def split_def Let_def)
  then show thesis using that [of "fst (fst ?out)" "snd ?out"] sim_fits_small by (metis prod.collapse)
qed

theorem created_transition_is_found_witness:
  "\<exists>resp w'. CreateTransition simA (sim_post_request ''Off'') sim_post_world = Some (resp, w') \<and>
     (ar_Status resp = Some 500 \<or> ar_Status resp = Some 200 \<and>
       (''Location'', ''../transitions/'' @ sim_uuid 100) \<in> set (ar_Header resp) \<and>
       (\<exists>resp' w''. GetTransitions simA (sim_get_request (sim_uuid 100)) w' = Some (resp', w'')))"
proof -
  obtain t w1 where t: "ToTransition (g_RT (ap_G simA)) sim_parameter (g_ExpireTimeMins (ap_G simA)) sim_post_world = ((t, None), w1)"
    "tr_TransitionID t = sim_uuid 100" "sim_fits t" by (rule sim_ToTransition)
  have id: "okid (sim_uuid 100)" "sim_uuid 100 \<noteq> []" by code_simp+
  have p: "ap_TransitionParameter simA ''Off'' = Inr sim_parameter" by (simp add: simA_def sim_parameter_def)
  have none: "sim_tasks sim_post_world (tr_TransitionID t, j) = None" for j
    by (simp add: db_tasks_def sim_with_def)
  have "okid (tr_TransitionID t)" "ap_uuid_Parse simA (aq_URLParam (sim_get_request (sim_uuid 100)) ''transitionID'') = Inr (tr_TransitionID t)"
    "aq_URLParam (sim_get_request (sim_uuid 100)) ''transitionID'' \<noteq> []" using t(2) id by simp_all
  note R = created_transition_is_found [where req' = "sim_get_request (sim_uuid 100)" and req = "sim_post_request ''Off''",
    OF simreq.request_store_axioms sim_post_inv _ p t(1) this(1) t(3) none this(2,3)]
  show ?thesis using R t(2) by auto
qed

end
