(* ===== verification/Api_Rejections.thy ===== *)
theory Api_Rejections
  imports Api_Roundtrip
begin

section \<open>Rejected requests\<close>

text \<open>
  A request answered with 400 (a bad body, operation, name, filter, control or identifier, or aborting what is completed) has
  changed no record.
\<close>

definition harmless :: "('w \<Rightarrow> 'm) \<Rightarrow> 'w \<Rightarrow> (api_response \<times> 'w) option \<Rightarrow> bool" where
  "harmless view w out \<longleftrightarrow> (case out of Some (r, w') \<Rightarrow> ar_Status r = Some 400 \<longrightarrow> view w' = view w | None \<Rightarrow> True)"

lemma harmlessI: "(\<And>r w'. out = Some (r, w') \<Longrightarrow> ar_Status r = Some 400 \<Longrightarrow> view w' = view w) \<Longrightarrow> harmless view w out"
  by (auto simp: harmless_def split: option.split)

lemma answer_harmless: "view w' = view w \<Longrightarrow> harmless view w (answer pb w')"
  by (auto simp: harmless_def answer_def split: option.split)

lemma decode_body_harmless: "(\<And>p. harmless view w (k p w)) \<Longrightarrow> harmless view w (decode_body d req k w)"
  by (auto simp: decode_body_def answer_harmless split: option.split sum.split)

lemma with_uuid_harmless:
  "(\<And>u. ap_uuid_Parse A (aq_URLParam req key) = Inr u \<Longrightarrow> harmless view w (k u w)) \<Longrightarrow> harmless view w (with_uuid A key req k w)"
  by (auto simp: with_uuid_def GetUUIDFromVars_def answer_harmless split: sum.split)

text \<open>The status of an answer is that of the \<^verbatim>\<open>Passback\<close>.\<close>

lemma WriteHeader_status: "WriteHeader c r = Some r' \<Longrightarrow> ar_Status r = None \<Longrightarrow> ar_Status r' = Some c"
  by (auto simp: WriteHeader_def split: if_splits)

lemma WriteJSON_status: "ar_Status r = Some c \<Longrightarrow> ar_Status (WriteJSON p r) = Some c"
  by (simp add: WriteJSON_def)

lemma WriteHeaders_status:
  assumes "WriteHeaders pb r = Some r'" and "ar_Status r = None"
  shows "ar_Status r' = Some (pb_StatusCode pb)"
proof -
  have h: "ar_Status (Header_Add k v r) = None" for k v using assms(2) by (simp add: Header_Add_def)
  show ?thesis
    using assms h by (auto simp: WriteHeaders_def split: if_splits option.splits dest!: WriteHeader_status intro!: WriteJSON_status)
qed

lemma other_status_harmless:
  assumes "pb_StatusCode pb \<noteq> 400"
  shows "harmless view w (answer pb w')" and "harmless view w (created p f pb w')"
proof -
  have "ar_Status new_response = None" "ar_Status (Header_Add k v new_response) = None" for k v
    by (simp_all add: new_response_def Header_Add_def)
  note H = WriteHeaders_status [OF _ this(1)] WriteHeaders_status [OF _ this(2)]
  show a: "harmless view w (answer pb w')"
    using assms H(1) by (intro harmlessI) (fastforce simp: answer_def)
  show "harmless view w (created p f pb w')"
    using a assms H(2)
    by (auto simp: created_def WriteHeadersWithLocation_def bind_eq_Some_conv intro!: harmlessI)
qed

lemma domain_status:
  "TriggerTransition G t w = Some (pb, w') \<Longrightarrow> pb_StatusCode pb \<noteq> 400"
  "GetTransition G i w = Some (pb2, w') \<Longrightarrow> pb_StatusCode pb2 \<noteq> 400"
  by (auto simp: TriggerTransition_def GetTransition_def Let_def split: prod.splits option.splits)

lemma statuses_status: "statuses_loop G ts rs w = Some (pb, w') \<Longrightarrow> pb_StatusCode pb \<noteq> 400"
  by (induction ts arbitrary: rs w) (auto simp: Let_def split: prod.splits option.splits)

lemma powercap_loop_status: "pb_StatusCode (fst (get_powercap_loop E ts acc w)) \<noteq> 400"
  by (induction E ts acc w rule: get_powercap_loop.induct) (auto split: prod.splits option.splits)

lemma cap_status:
  "pb_StatusCode (fst (SnapshotPowerCap E xs w)) \<noteq> 400" "pb_StatusCode (fst (PatchPowerCap E ps w)) \<noteq> 400"
  "pb_StatusCode (fst (GetPowerCap E w)) \<noteq> 400" "pb_StatusCode (fst (GetPowerCapQuery E i w)) \<noteq> 400"
  by (auto simp: SnapshotPowerCap_def PatchPowerCap_def GetPowerCap_def GetPowerCapQuery_def start_task_def Let_def
      powercap_loop_status split: prod.split option.split)

lemma as_obj_status [simp]: "pb_StatusCode (as_obj f pb) = pb_StatusCode pb"
  by (simp add: as_obj_def)

lemma pair_harmless:
  "pb_StatusCode (fst out) \<noteq> 400 \<Longrightarrow> harmless view w (case out of (pb, w') \<Rightarrow> answer (as_obj f pb) w')"
  "pb_StatusCode (fst out2) \<noteq> 400 \<Longrightarrow> harmless view w (case out2 of (pb, w') \<Rightarrow> created p g (as_obj f2 pb) w')"
  by (cases out; simp add: other_status_harmless) (cases out2; simp add: other_status_harmless)

lemma bind_harmless:
  "(\<And>pb w'. out = Some (pb, w') \<Longrightarrow> harmless view w (k pb w')) \<Longrightarrow> harmless view w (Option.bind out (\<lambda>(pb, w'). k pb w'))"
  by (cases out) (auto simp: harmless_def)

lemma status_handler_harmless: "harmless view w (doGetPowerStatus A xs p m w)"
proof -
  have "pb_StatusCode (fst (GetPowerStatus (ap_PM A) ys psf msf w)) \<noteq> 400" for ys psf msf
    by (auto simp: GetPowerStatus_def Let_def split: prod.split option.split)
  then have "harmless view w (case GetPowerStatus (ap_PM A) ys psf msf w of (pb, w) \<Rightarrow> answer (as_obj ObjPowerStatus pb) w)" for ys psf msf
    by (rule pair_harmless(1))
  then show ?thesis by (simp add: doGetPowerStatus_def answer_harmless split: prod.split option.split)
qed

lemma cap_handlers_harmless:
  "harmless view w (api_SnapshotPowerCap A req w)" "harmless view w (api_PatchPowerCap A req w)"
  "harmless view w (api_GetPowerCap A req w)" "harmless view w (api_GetPowerCapQuery A req w)"
  unfolding api_SnapshotPowerCap_def api_PatchPowerCap_def api_GetPowerCap_def api_GetPowerCapQuery_def
  by (auto simp: answer_harmless cap_status Let_def intro!: decode_body_harmless with_uuid_harmless pair_harmless)

lemma GetTransitions_harmless: "harmless view w (GetTransitions A req w)"
proof -
  have "harmless view w (Option.bind (GetTransition (ap_G A) i w) (\<lambda>(pb, w). answer (as_obj ObjTransition pb) w))" for i
    by (rule bind_harmless) (simp add: other_status_harmless domain_status(2))
  moreover have "harmless view w (Option.bind (GetTransitionStatuses (ap_G A) w) (\<lambda>(pb, w). answer (as_obj ObjTransitions pb) w))"
    by (rule bind_harmless)
      (auto simp: GetTransitionStatuses_def split: prod.splits option.splits intro!: other_status_harmless dest: statuses_status)
  ultimately show ?thesis by (simp add: GetTransitions_def with_uuid_harmless)
qed

context request_store
begin

lemma create_harmless:
  assumes "inv w"
  shows "harmless (\<lambda>w. (trans w, tasks w)) w (CreateTransition A req w)"
proof (unfold CreateTransition_def, rule decode_body_harmless)
  fix p
  obtain t e w1 where t: "ToTransition (g_RT (ap_G A)) p (g_ExpireTimeMins (ap_G A)) w = ((t, e), w1)" by (metis surj_pair)
  have q: "trans w1 = trans w" "tasks w1 = tasks w" using ToTransition_quiet [OF assms t] by simp_all
  show "harmless (\<lambda>w. (trans w, tasks w)) w (case ToTransition (g_RT (ap_G A)) p (g_ExpireTimeMins (ap_G A)) w of
      ((_, Some err), w) \<Rightarrow> answer (BuildErrorPassback StatusBadRequest (Some err)) w
    | ((transition, None), w) \<Rightarrow> Option.bind (TriggerTransition (ap_G A) transition w) (\<lambda>(pb, w).
        created ''../transitions/'' assert_TransitionCreation (as_obj ObjTransitionCreation pb) w))"
  proof (cases e)
    case None
    have "harmless (\<lambda>w. (trans w, tasks w)) w (Option.bind (TriggerTransition (ap_G A) t w1) (\<lambda>(pb, w).
        created ''../transitions/'' assert_TransitionCreation (as_obj ObjTransitionCreation pb) w))"
      by (rule bind_harmless) (simp add: other_status_harmless domain_status(1))
    then show ?thesis by (simp add: t None)
  qed (simp add: t q answer_harmless)
qed

lemma abort_harmless:
  assumes "inv w" and "\<And>s u. ap_uuid_Parse A s = Inr u \<Longrightarrow> okid u"
    and "\<And>i t. trans w i = Some t \<Longrightarrow> fits (t\<lparr>tr_Status := TransitionStatusAbortSignaled\<rparr>)"
  shows "harmless (\<lambda>w. (trans w, tasks w)) w (api_AbortTransitionID A req w)"
proof (unfold api_AbortTransitionID_def AbortTransitionID_def, rule with_uuid_harmless)
  fix u
  assume "ap_uuid_Parse A (aq_URLParam req ''transitionID'') = Inr u"
  then have "okid u" using assms(2) by blast
  then obtain pb w' where a: "abort_loop (ap_G A) 3 u w = Some (pb, w')" "tasks w' = tasks w"
      "abort_outcome (trans w) u (pb_StatusCode pb) (trans w')"
    using abort_loop_outcome [OF assms(1), of u 3] assms(3) by blast
  show "harmless (\<lambda>w. (trans w, tasks w)) w (Option.bind (abort_loop (ap_G A) 3 u w) (\<lambda>(pb, w). answer (as_obj ObjAbort pb) w))"
  proof (cases "pb_StatusCode pb = 400")
    case True
    then show ?thesis using a by (simp add: abort_outcome_def answer_harmless)
  qed (simp add: a(1) other_status_harmless)
qed

end

text \<open>
  C33: A request that is answered with 400 has changed neither a transition nor a task, on any route: the body was missing or
  unreadable, the operation, a filter, an xname, a control or an identifier was not valid, or the transition to abort was already
  completed.
\<close>

theorem rejected_requests_change_nothing:
  assumes "request_store A okw recs tasks fits" and "okw w" and "\<And>s u. ap_uuid_Parse A s = Inr u \<Longrightarrow> okid u"
    and "\<And>i t. recs w i = Some t \<Longrightarrow> fits (t\<lparr>tr_Status := TransitionStatusAbortSignaled\<rparr>)"
    and "r \<in> set (protectedRoutes A)" and "rt_HandlerFunc r req w = Some (resp, w')" and "ar_Status resp = Some 400"
  shows "recs w' = recs w \<and> tasks w' = tasks w"
proof -
  let ?view = "\<lambda>w. (recs w, tasks w)"
  have "harmless ?view w (Index req w)"
    by (simp add: Index_def harmless_def WriteJSON_def WriteHeader_def new_response_def)
  moreover have "harmless ?view w (api_GetPowerStatus A req w)" "harmless ?view w (PostPowerStatus A req w)"
    by (simp_all add: api_GetPowerStatus_def PostPowerStatus_def status_handler_harmless decode_body_harmless)
  moreover note request_store.create_harmless [OF assms(1,2), where req = req] request_store.abort_harmless [OF assms(1-4), where req = req]
    cap_handlers_harmless [of ?view w A req] GetTransitions_harmless [of ?view w A req]
  ultimately have "list_all (\<lambda>r. harmless ?view w (rt_HandlerFunc r req w)) (protectedRoutes A)"
    by (simp add: protectedRoutes_def route_def)
  then show ?thesis using assms(5-7) by (auto simp: list_all_iff harmless_def)
qed

lemma sim_bad_operation: "ToOperationFilter ''explode'' = (Operation_Nil, Some ''invalid Operation type explode'')"
  by code_simp

theorem rejected_requests_change_nothing_witness:
  "\<exists>resp w'. CreateTransition simA (sim_post_request ''explode'') sim_post_world = Some (resp, w') \<and>
     ar_Status resp = Some 400 \<and> sim_trans w' = sim_trans sim_post_world \<and> sim_tasks w' = sim_tasks sim_post_world"
proof -
  let ?r = "route ''CreateTransition'' ''POST'' ''/transitions'' (CreateTransition simA)"
  obtain p where p: "ap_TransitionParameter simA ''explode'' = Inr p" "tp_Operation p = ''explode''" by (simp add: simA_def)
  obtain t e w1 where t: "ToTransition (g_RT (ap_G simA)) p (g_ExpireTimeMins (ap_G simA)) sim_post_world = ((t, e), w1)"
    by (metis surj_pair)
  then have "e = Some ''invalid Operation type explode''"
    using p(2) sim_bad_operation by (auto simp: ToTransition_def split: prod.splits)
  then obtain resp where run: "CreateTransition simA (sim_post_request ''explode'') sim_post_world = Some (resp, w1)" "ar_Status resp = Some 400"
    using t p(1) by (simp add: CreateTransition_def decode_body_def answer_def WriteHeaders_def WriteHeader_def WriteJSON_def
        Header_Add_def new_response_def)
  have fits: "sim_fits (u\<lparr>tr_Status := TransitionStatusAbortSignaled\<rparr>)" if "sim_trans sim_post_world i = Some u" for i u
    using that by (intro sim_fits_small) (auto simp: db_trans_def sim_with_def sim_transition_def split: if_splits)
  have mem: "?r \<in> set (protectedRoutes simA)" by (simp add: protectedRoutes_def)
  have ids: "okid u" if "ap_uuid_Parse simA s = Inr u" for s u using that by (simp split: if_splits)
  have call: "rt_HandlerFunc ?r (sim_post_request ''explode'') sim_post_world = Some (resp, w1)" using run(1) by (simp add: route_def)
  have "sim_trans w1 = sim_trans sim_post_world \<and> sim_tasks w1 = sim_tasks sim_post_world"
    by (rule rejected_requests_change_nothing [where fits = sim_fits, OF simreq.request_store_axioms sim_post_inv _ _ mem call run(2)])
      (erule ids, erule fits)
  then show ?thesis using run by blast
qed

end
