(* ===== verification/Postgres_Storage.thy ===== *)
theory Postgres_Storage
  imports Storage_Provider
begin

section \<open>The PostgreSQL storage provider\<close>

text \<open>
  \<^verbatim>\<open>internal/storage/storage_postgres_impl.go\<close>, with the tables of \<^verbatim>\<open>migrations/postgres\<close>: every method sends SQL
  statements. The database and the package \<^verbatim>\<open>sqlx\<close> are the record \<open>PgDB\<close>; a statement that writes is a constructor of
  \<open>pg_stmt\<close> with the arguments the method passes, and \<open>pg_meaning\<close> reads its SQL text on the tables (\<open>None\<close> is a violated
  constraint). A query is given the condition of its \<^verbatim>\<open>WHERE\<close>, and returns rows in no particular order.

  The tables are maps from the primary key to the row, a row is the struct it is scanned into: fields without a column
  (\<^verbatim>\<open>TaskIDs\<close>, \<^verbatim>\<open>OperationIDs\<close>, the Redfish data of an operation) come back empty, and \<open>rnd\<close> is the rounding of a time
  stamp to the resolution of the column type. Columns of type JSON hold the encoded struct and give it back. A method is only called after
  \<^verbatim>\<open>Init\<close>.
\<close>

subsection \<open>Tables and statements\<close>

record pg_tables =
  tb_master :: "time option"
  tb_status :: "xname \<Rightarrow> PowerStatusComponent option"
  tb_captasks :: "uuid \<Rightarrow> PowerCapTask option"
  tb_capops :: "uuid \<Rightarrow> PowerCapOperation option"
  tb_transitions :: "uuid \<Rightarrow> Transition option"
  tb_tasks :: "uuid \<Rightarrow> TransitionTask option"

datatype pg_stmt =
    UpsertMaster time
  | TasMaster time time
  | UpsertStatus PowerStatusComponent
  | DeleteStatus xname
  | UpsertCapTask PowerCapTask
  | UpsertCapOp PowerCapOperation
  | DeleteCapTask uuid
  | DeleteCapOp uuid
  | UpsertTransition Transition
  | UpsertTask TransitionTask
  | DeleteTransitionRow uuid
  | DeleteTaskRow uuid

definition status_row :: "(time \<Rightarrow> time) \<Rightarrow> PowerStatusComponent \<Rightarrow> PowerStatusComponent" where
  "status_row rnd psc = psc\<lparr>ps_LastUpdated := rnd (ps_LastUpdated psc)\<rparr>"

definition captask_row :: "(time \<Rightarrow> time) \<Rightarrow> PowerCapTask \<Rightarrow> PowerCapTask" where
  "captask_row rnd t = t\<lparr>pct_TaskCreateTime := rnd (pct_TaskCreateTime t),
     pct_AutomaticExpirationTime := rnd (pct_AutomaticExpirationTime t), pct_OperationIDs := []\<rparr>"

definition captask_update :: "PowerCapTask \<Rightarrow> PowerCapTask \<Rightarrow> PowerCapTask" where
  "captask_update row excluded = row\<lparr>pct_TaskStatus := pct_TaskStatus excluded,
     pct_SnapshotParameters := pct_SnapshotParameters excluded, pct_PatchParameters := pct_PatchParameters excluded,
     pct_IsCompressed := pct_IsCompressed excluded, pct_TaskCounts := pct_TaskCounts excluded,
     pct_Components := pct_Components excluded\<rparr>"

definition capop_row :: "PowerCapOperation \<Rightarrow> PowerCapOperation" where
  "capop_row op = op\<lparr>pco_RfFQDN := [], pco_PowerCapURI := [], pco_PowerCapTargetURI := [], pco_PowerCapControlsCount := 0,
     pco_PowerCapCtlInfoCount := 0, pco_PowerCaps := []\<rparr>"

definition capop_update :: "PowerCapOperation \<Rightarrow> PowerCapOperation \<Rightarrow> PowerCapOperation" where
  "capop_update row excluded = row\<lparr>pco_Status := pco_Status excluded, pco_Component := pco_Component excluded\<rparr>"

definition transition_row :: "(time \<Rightarrow> time) \<Rightarrow> Transition \<Rightarrow> Transition" where
  "transition_row rnd t = t\<lparr>tr_CreateTime := rnd (tr_CreateTime t), tr_LastActiveTime := rnd (tr_LastActiveTime t),
     tr_AutomaticExpirationTime := rnd (tr_AutomaticExpirationTime t), tr_TaskIDs := []\<rparr>"

definition transition_update :: "Transition \<Rightarrow> Transition \<Rightarrow> Transition" where
  "transition_update row excluded = row\<lparr>tr_LastActiveTime := tr_LastActiveTime excluded, tr_Status := tr_Status excluded,
     tr_IsCompressed := tr_IsCompressed excluded, tr_TaskCounts := tr_TaskCounts excluded, tr_Tasks := tr_Tasks excluded\<rparr>"

definition task_update :: "TransitionTask \<Rightarrow> TransitionTask \<Rightarrow> TransitionTask" where
  "task_update row excluded = row\<lparr>tt_State := tt_State excluded, tt_Status := tt_Status excluded,
     tt_StatusDesc := tt_StatusDesc excluded, tt_Error := tt_Error excluded\<rparr>"

text \<open>\<^verbatim>\<open>INSERT ... ON CONFLICT (key) DO UPDATE SET ...\<close>\<close>

definition upsert :: "('v \<Rightarrow> 'v \<Rightarrow> 'v) \<Rightarrow> 'k \<Rightarrow> 'v \<Rightarrow> ('k \<Rightarrow> 'v option) \<Rightarrow> 'k \<Rightarrow> 'v option" where
  "upsert upd k v m = m(k \<mapsto> (case m k of None \<Rightarrow> v | Some row \<Rightarrow> upd row v))"

text \<open>
  The operations of a task refer to it, and go with it (\<^verbatim>\<open>REFERENCES power_cap_tasks ON DELETE CASCADE\<close>).
\<close>

fun pg_meaning :: "(time \<Rightarrow> time) \<Rightarrow> pg_stmt \<Rightarrow> pg_tables \<Rightarrow> (pg_tables \<times> nat) option" where
  "pg_meaning rnd (UpsertMaster now) T = Some (T\<lparr>tb_master := Some (rnd now)\<rparr>, 1)"
| "pg_meaning rnd (TasMaster now test) T =
     Some (if tb_master T \<in> {None, Some (rnd test)} then (T\<lparr>tb_master := Some (rnd now)\<rparr>, 1) else (T, 0))"
| "pg_meaning rnd (UpsertStatus psc) T =
     Some (T\<lparr>tb_status := upsert (\<lambda>_ v. v) (ps_XName psc) (status_row rnd psc) (tb_status T)\<rparr>, 1)"
| "pg_meaning rnd (DeleteStatus x) T =
     Some (T\<lparr>tb_status := (tb_status T)(x := None)\<rparr>, if tb_status T x = None then 0 else 1)"
| "pg_meaning rnd (UpsertCapTask t) T =
     Some (T\<lparr>tb_captasks := upsert captask_update (pct_TaskID t) (captask_row rnd t) (tb_captasks T)\<rparr>, 1)"
| "pg_meaning rnd (UpsertCapOp op) T =
     (if tb_capops T (pco_OperationID op) = None \<and> tb_captasks T (pco_TaskID op) = None then None
      else Some (T\<lparr>tb_capops := upsert capop_update (pco_OperationID op) (capop_row op) (tb_capops T)\<rparr>, 1))"
| "pg_meaning rnd (DeleteCapTask i) T =
     Some (T\<lparr>tb_captasks := (tb_captasks T)(i := None),
             tb_capops := (\<lambda>j. case tb_capops T j of Some op \<Rightarrow> if pco_TaskID op = i then None else Some op | None \<Rightarrow> None)\<rparr>,
           if tb_captasks T i = None then 0 else 1)"
| "pg_meaning rnd (DeleteCapOp i) T =
     Some (T\<lparr>tb_capops := (tb_capops T)(i := None)\<rparr>, if tb_capops T i = None then 0 else 1)"
| "pg_meaning rnd (UpsertTransition t) T =
     Some (T\<lparr>tb_transitions := upsert transition_update (tr_TransitionID t) (transition_row rnd t) (tb_transitions T)\<rparr>, 1)"
| "pg_meaning rnd (UpsertTask k) T =
     Some (T\<lparr>tb_tasks := upsert task_update (tt_TaskID k) k (tb_tasks T)\<rparr>, 1)"
| "pg_meaning rnd (DeleteTransitionRow i) T =
     Some (T\<lparr>tb_transitions := (tb_transitions T)(i := None)\<rparr>, if tb_transitions T i = None then 0 else 1)"
| "pg_meaning rnd (DeleteTaskRow i) T =
     Some (T\<lparr>tb_tasks := (tb_tasks T)(i := None)\<rparr>, if tb_tasks T i = None then 0 else 1)"

text \<open>\<^verbatim>\<open>LIKE\<close>: \<^verbatim>\<open>%\<close> is any string, \<^verbatim>\<open>_\<close> any character, a backslash takes the next character literally.\<close>

fun sql_like :: "string \<Rightarrow> string \<Rightarrow> bool" where
  "sql_like [] s = (s = [])"
| "sql_like (p # ps) s =
     (if p = CHR ''%'' then list_ex (\<lambda>k. sql_like ps (drop k s)) [0..<Suc (length s)]
      else if p = CHR 0x5C then
        (case ps of [] \<Rightarrow> False | q # qs \<Rightarrow> (case s of [] \<Rightarrow> False | c # cs \<Rightarrow> q = c \<and> sql_like qs cs))
      else (case s of [] \<Rightarrow> False | c # cs \<Rightarrow> (p = CHR ''_'' \<or> p = c) \<and> sql_like ps cs))"

subsection \<open>The database\<close>

record 'w PgDB =
  db_Ping :: "('w, error option) io"
  db_Exec :: "pg_stmt \<Rightarrow> ('w, error + nat) io"
  db_SelectMaster :: "('w, error + time list) io"
  db_SelectStatus :: "(PowerStatusComponent \<Rightarrow> bool) \<Rightarrow> ('w, error + PowerStatusComponent list) io"
  db_SelectCapTasks :: "(PowerCapTask \<Rightarrow> bool) \<Rightarrow> ('w, error + PowerCapTask list) io"
  db_SelectCapOps :: "(PowerCapOperation \<Rightarrow> bool) \<Rightarrow> ('w, error + PowerCapOperation list) io"
  db_SelectTransitions :: "(Transition \<Rightarrow> bool) \<Rightarrow> ('w, error + Transition list) io"
  db_SelectTasks :: "(TransitionTask \<Rightarrow> bool) \<Rightarrow> ('w, error + TransitionTask list) io"
  db_Begin :: "('w, error option) io"
  tx_SelectTransitions :: "(Transition \<Rightarrow> bool) \<Rightarrow> ('w, error + Transition list) io"
  tx_Exec :: "pg_stmt \<Rightarrow> ('w, error + nat) io"
  tx_Commit :: "('w, error option) io"
  tx_Rollback :: "'w \<Rightarrow> 'w"

subsection \<open>Connecting\<close>

record PostgresConfig =
  pgc_Host :: string
  pgc_User :: string
  pgc_DBName :: string
  pgc_Password :: string
  pgc_Port :: nat
  pgc_RetryCount :: nat
  pgc_RetryWait :: nat
  pgc_Insecure :: bool
  pgc_Opts :: string
  pgc_ConnStr :: string

definition DefaultPostgresConfig :: PostgresConfig where
  "DefaultPostgresConfig =
     \<lparr>pgc_Host = ''localhost'', pgc_User = ''pcsuser'', pgc_DBName = ''pcsdb'', pgc_Password = [], pgc_Port = 5432,
      pgc_RetryCount = 5, pgc_RetryWait = 10, pgc_Insecure = False, pgc_Opts = [], pgc_ConnStr = []\<rparr>"

definition conn_str :: "PostgresConfig \<Rightarrow> string" where
  "conn_str c =
     (if pgc_ConnStr c = []
      then ''host='' @ pgc_Host c @ '' port='' @ nat_digits (pgc_Port c) @ '' dbname='' @ pgc_DBName c @ '' user='' @ pgc_User c @
           '' password='' @ pgc_Password c @ '' sslmode='' @ (if pgc_Insecure c then ''disable'' else ''verify-full'') @
           (if pgc_Opts c = [] then [] else '' '' @ pgc_Opts c)
      else pgc_ConnStr c)"

text \<open>
  The loops count \<open>ix\<close> up to \<open>n\<close>, sleeping after a failed attempt: the result is the number of the attempt that
  succeeded, or \<open>n + 1\<close>.
\<close>

function attempt_loop :: "'w runtime \<Rightarrow> ('w, error option) io \<Rightarrow> nat \<Rightarrow> nat \<Rightarrow> nat \<Rightarrow> ('w, nat) io" where
  "attempt_loop R try wait n ix w =
     (if ix \<le> n
      then (case try w of
              (None, w) \<Rightarrow> (ix, w)
            | (Some err, w) \<Rightarrow> attempt_loop R try wait n (Suc ix) (time_Sleep R (int wait * Second) w))
      else (ix, w))"
  by auto
termination
  by (relation "measure (\<lambda>(R, try, wait, n, ix, w). Suc n - ix)") auto

declare attempt_loop.simps [simp del]

text \<open>\<open>dial\<close> and \<open>ping\<close> are \<^verbatim>\<open>sql.Open\<close> on the connection string and \<^verbatim>\<open>db.Ping\<close>.\<close>

definition OpenDB ::
  "'w runtime \<Rightarrow> (string \<Rightarrow> ('w, error option) io) \<Rightarrow> ('w, error option) io \<Rightarrow> PostgresConfig \<Rightarrow> ('w, error option) io" where
  "OpenDB R dial ping c w =
     (let (ix, w) = attempt_loop R (dial (conn_str c)) (pgc_RetryWait c) (pgc_RetryCount c) 1 w;
          (ix, w) = attempt_loop R ping (pgc_RetryWait c) (pgc_RetryCount c) ix w
      in (if ix > pgc_RetryCount c then Some (''postgres ping attempts exhausted ('' @ nat_digits (pgc_RetryCount c) @ '')'') else None, w))"

definition PG_Init ::
  "'w runtime \<Rightarrow> (string \<Rightarrow> ('w, error option) io) \<Rightarrow> 'w PgDB \<Rightarrow> PostgresConfig \<Rightarrow> ('w, 'w PgDB option \<times> error option) io" where
  "PG_Init R dial db c w =
     (case OpenDB R dial (db_Ping db) c w of
        (Some err, w) \<Rightarrow> ((None, Some (''failed to open database connection: '' @ err)), w)
      | (None, w) \<Rightarrow> ((Some db, None), w))"

definition PG_Ping :: "'w PgDB option \<Rightarrow> ('w, error option) io" where
  "PG_Ping p w =
     (case p of
        None \<Rightarrow> (Some ''instance closed or not initialized'', w)
      | Some db \<Rightarrow> (case db_Ping db w of (Some err, w) \<Rightarrow> (Some (''ping failed: '' @ err), w) | (None, w) \<Rightarrow> (None, w)))"

text \<open>\<open>close\<close> is \<^verbatim>\<open>sqlx.DB.Close\<close>.\<close>

definition PG_Close :: "('w PgDB \<Rightarrow> ('w, error option) io) \<Rightarrow> 'w PgDB option \<Rightarrow> ('w, error option) io" where
  "PG_Close close p w = (case p of None \<Rightarrow> (None, w) | Some db \<Rightarrow> close db w)"

subsection \<open>Methods\<close>

text \<open>The result of a statement, and of reading one row (\<^verbatim>\<open>sqlx.Get\<close>, where no rows is not an error here) or all.\<close>

definition exec_err :: "(error \<Rightarrow> error) \<Rightarrow> (error + nat) \<times> 'w \<Rightarrow> error option \<times> 'w" where
  "exec_err f out = (case out of (Inl err, w) \<Rightarrow> (Some (f err), w) | (Inr _, w) \<Rightarrow> (None, w))"

definition get_row :: "(error \<Rightarrow> error) \<Rightarrow> (error + 'r list) \<times> 'w \<Rightarrow> ('r option \<times> error option) \<times> 'w" where
  "get_row f out =
     (case out of
        (Inl err, w) \<Rightarrow> ((None, Some (f err)), w)
      | (Inr [], w) \<Rightarrow> ((None, None), w)
      | (Inr (r # _), w) \<Rightarrow> ((Some r, None), w))"

definition get_rows :: "(error \<Rightarrow> error) \<Rightarrow> (error + 'r list) \<times> 'w \<Rightarrow> ('r list \<times> error option) \<times> 'w" where
  "get_rows f out = (case out of (Inl err, w) \<Rightarrow> (([], Some (f err)), w) | (Inr rs, w) \<Rightarrow> ((rs, None), w))"

definition PG_GetPowerStatusMaster :: "'w PgDB \<Rightarrow> ('w, time option \<times> error option) io" where
  "PG_GetPowerStatusMaster P w = get_row (\<lambda>e. ''failed to get power status master: '' @ e) (db_SelectMaster P w)"

definition PG_StorePowerStatusMaster :: "'w PgDB \<Rightarrow> time \<Rightarrow> ('w, error option) io" where
  "PG_StorePowerStatusMaster P now w =
     exec_err (\<lambda>e. ''failed to store power status master timestamp: '' @ e) (db_Exec P (UpsertMaster now) w)"

definition PG_TASPowerStatusMaster :: "'w PgDB \<Rightarrow> time \<Rightarrow> time \<Rightarrow> ('w, bool \<times> error option) io" where
  "PG_TASPowerStatusMaster P now testVal w =
     (case db_Exec P (TasMaster now testVal) w of
        (Inl err, w) \<Rightarrow> ((False, Some (''failed to store power status master timestamp: '' @ err)), w)
      | (Inr rowsAffected, w) \<Rightarrow> ((rowsAffected > 0, None), w))"

definition PG_StorePowerStatus :: "xnametypes \<Rightarrow> 'w PgDB \<Rightarrow> PowerStatusComponent \<Rightarrow> ('w, error option) io" where
  "PG_StorePowerStatus X P psc w =
     (if \<not> IsHMSCompIDValid X (ps_XName psc) then (Some (''invalid xname: '' @ ps_XName psc), w)
      else exec_err (\<lambda>e. ''failed to store power status component for '' @ [CHR 0x27] @ ps_XName psc @ [CHR 0x27] @ '': '' @ e)
             (db_Exec P (UpsertStatus psc) w))"

definition PG_DeletePowerStatus :: "xnametypes \<Rightarrow> 'w PgDB \<Rightarrow> xname \<Rightarrow> ('w, error option) io" where
  "PG_DeletePowerStatus X P x w =
     (if \<not> IsHMSCompIDValid X x then (Some (''invalid xname: '' @ x), w)
      else exec_err (\<lambda>e. ''failed to delete power status component for '' @ [CHR 0x27] @ x @ [CHR 0x27] @ '': '' @ e)
             (db_Exec P (DeleteStatus x) w))"

definition PG_GetPowerStatus :: "xnametypes \<Rightarrow> 'w PgDB \<Rightarrow> xname \<Rightarrow> ('w, PowerStatusComponent option \<times> error option) io" where
  "PG_GetPowerStatus X P x w =
     (if \<not> IsHMSCompIDValid X x then ((None, Some (''invalid xname: '' @ x)), w)
      else get_row id (db_SelectStatus P (\<lambda>r. ps_XName r = x) w))"

definition PG_GetAllPowerStatus :: "'w PgDB \<Rightarrow> ('w, PowerStatusComponent list \<times> error option) io" where
  "PG_GetAllPowerStatus P w =
     get_rows (\<lambda>e. ''failed to get all power status components: '' @ e) (db_SelectStatus P (\<lambda>r. True) w)"

definition PG_GetPowerStatusHierarchy :: "xnametypes \<Rightarrow> 'w PgDB \<Rightarrow> xname \<Rightarrow> ('w, PowerStatusComponent list \<times> error option) io" where
  "PG_GetPowerStatusHierarchy X P x w =
     (if \<not> IsHMSCompIDValid X x then (([], Some (''invalid xname: '' @ x)), w)
      else get_rows (\<lambda>e. ''failed to get power status hierarchy for '' @ [CHR 0x27] @ x @ [CHR 0x27] @ '': '' @ e)
             (db_SelectStatus P (\<lambda>r. sql_like (x @ ''%'') (ps_XName r)) w))"

definition PG_StorePowerCapTask :: "'w PgDB \<Rightarrow> PowerCapTask \<Rightarrow> ('w, error option) io" where
  "PG_StorePowerCapTask P task w =
     exec_err (\<lambda>e. ''Failed to store task '' @ [CHR 0x27] @ pct_TaskID task @ [CHR 0x27] @ '': '' @ e) (db_Exec P (UpsertCapTask task) w)"

definition PG_StorePowerCapOperation :: "'w PgDB \<Rightarrow> PowerCapOperation \<Rightarrow> ('w, error option) io" where
  "PG_StorePowerCapOperation P op w =
     exec_err (\<lambda>e. ''Failed to store operation '' @ [CHR 0x27] @ pco_OperationID op @ [CHR 0x27] @ '': '' @ e) (db_Exec P (UpsertCapOp op) w)"

definition PG_GetPowerCapTask :: "'w PgDB \<Rightarrow> uuid \<Rightarrow> ('w, PowerCapTask option \<times> error option) io" where
  "PG_GetPowerCapTask P taskID w =
     get_row (\<lambda>e. ''could not retrieve power cap task '' @ taskID @ '': '' @ e) (db_SelectCapTasks P (\<lambda>r. pct_TaskID r = taskID) w)"

definition PG_GetPowerCapOperation :: "'w PgDB \<Rightarrow> uuid \<Rightarrow> uuid \<Rightarrow> ('w, PowerCapOperation option \<times> error option) io" where
  "PG_GetPowerCapOperation P taskID opID w =
     get_row (\<lambda>e. ''could not retrieve power cap operation '' @ opID @ '': '' @ e) (db_SelectCapOps P (\<lambda>r. pco_OperationID r = opID) w)"

definition PG_GetAllPowerCapOperationsForTask :: "'w PgDB \<Rightarrow> uuid \<Rightarrow> ('w, PowerCapOperation list \<times> error option) io" where
  "PG_GetAllPowerCapOperationsForTask P taskID w = get_rows id (db_SelectCapOps P (\<lambda>r. pco_TaskID r = taskID) w)"

definition PG_GetAllPowerCapTasks :: "'w PgDB \<Rightarrow> ('w, PowerCapTask list \<times> error option) io" where
  "PG_GetAllPowerCapTasks P w = get_rows (\<lambda>e. ''could not retrieve power cap tasks: '' @ e) (db_SelectCapTasks P (\<lambda>r. True) w)"

definition PG_DeletePowerCapTask :: "'w PgDB \<Rightarrow> uuid \<Rightarrow> ('w, error option) io" where
  "PG_DeletePowerCapTask P taskID w = exec_err id (db_Exec P (DeleteCapTask taskID) w)"

definition PG_DeletePowerCapOperation :: "'w PgDB \<Rightarrow> uuid \<Rightarrow> uuid \<Rightarrow> ('w, error option) io" where
  "PG_DeletePowerCapOperation P taskID opID w = exec_err id (db_Exec P (DeleteCapOp opID) w)"

definition storeTransitionWithTx :: "'w PgDB \<Rightarrow> Transition \<Rightarrow> ('w, error option) io" where
  "storeTransitionWithTx P transition w =
     exec_err (\<lambda>e. ''Failed to store transition '' @ [CHR 0x27] @ tr_TransitionID transition @ [CHR 0x27] @ '': '' @ e)
       (tx_Exec P (UpsertTransition transition) w)"

text \<open>The deferred rollback runs on every way out; after a commit it does nothing.\<close>

definition PG_StoreTransition :: "'w PgDB \<Rightarrow> Transition \<Rightarrow> ('w, error option) io" where
  "PG_StoreTransition P transition w =
     (let name = [CHR 0x27] @ tr_TransitionID transition @ [CHR 0x27] in
      case db_Begin P w of
        (Some err, w) \<Rightarrow> (Some (''could not begin transaction for transition '' @ name @ '': '' @ err), w)
      | (None, w) \<Rightarrow>
          (case storeTransitionWithTx P transition w of
             (Some err, w) \<Rightarrow> (Some err, tx_Rollback P w)
           | (None, w) \<Rightarrow>
               (case tx_Commit P w of
                  (Some err, w) \<Rightarrow> (Some (''Failed to commit transition '' @ name @ '': '' @ err), tx_Rollback P w)
                | (None, w) \<Rightarrow> (None, tx_Rollback P w))))"

definition PG_StoreTransitionTask :: "'w PgDB \<Rightarrow> TransitionTask \<Rightarrow> ('w, error option) io" where
  "PG_StoreTransitionTask P op w =
     exec_err (\<lambda>e. ''Failed to store task '' @ [CHR 0x27] @ tt_TaskID op @ [CHR 0x27] @ '': '' @ e) (db_Exec P (UpsertTask op) w)"

definition PG_GetTransition :: "'w PgDB \<Rightarrow> uuid \<Rightarrow> ('w, Transition option \<times> Transition option \<times> error option) io" where
  "PG_GetTransition P transitionID w =
     (let ((t, err), w) = get_row id (db_SelectTransitions P (\<lambda>r. tr_TransitionID r = transitionID) w) in ((t, t, err), w))"

definition PG_GetTransitionTask :: "'w PgDB \<Rightarrow> uuid \<Rightarrow> uuid \<Rightarrow> ('w, TransitionTask option \<times> error option) io" where
  "PG_GetTransitionTask P transitionID taskID w = get_row id (db_SelectTasks P (\<lambda>r. tt_TaskID r = taskID) w)"

definition PG_GetAllTasksForTransition :: "'w PgDB \<Rightarrow> uuid \<Rightarrow> ('w, TransitionTask list \<times> error option) io" where
  "PG_GetAllTasksForTransition P transitionID w = get_rows id (db_SelectTasks P (\<lambda>r. tt_TransitionID r = transitionID) w)"

definition PG_GetAllTransitions :: "'w PgDB \<Rightarrow> ('w, Transition list \<times> error option) io" where
  "PG_GetAllTransitions P w = get_rows id (db_SelectTransitions P (\<lambda>r. True) w)"

definition PG_DeleteTransition :: "'w PgDB \<Rightarrow> uuid \<Rightarrow> ('w, error option) io" where
  "PG_DeleteTransition P transitionID w = exec_err id (db_Exec P (DeleteTransitionRow transitionID) w)"

definition PG_DeleteTransitionTask :: "'w PgDB \<Rightarrow> uuid \<Rightarrow> uuid \<Rightarrow> ('w, error option) io" where
  "PG_DeleteTransitionTask P transitionID taskID w = exec_err id (db_Exec P (DeleteTaskRow taskID) w)"

text \<open>\<^verbatim>\<open>cmp.Equal\<close> of the two, without the locations.\<close>

definition same_but_location :: "Transition \<Rightarrow> Transition \<Rightarrow> bool" where
  "same_but_location testVal current \<longleftrightarrow> testVal\<lparr>tr_Location := []\<rparr> = current\<lparr>tr_Location := []\<rparr>"

definition PG_TASTransition :: "'w PgDB \<Rightarrow> Transition \<Rightarrow> Transition \<Rightarrow> ('w, bool \<times> error option) io" where
  "PG_TASTransition P transition testVal w =
     (case db_Begin P w of
        (Some err, w) \<Rightarrow> ((False, Some (''could not begin TAS transaction: '' @ err)), w)
      | (None, w) \<Rightarrow>
          let (out, w) =
            (case tx_SelectTransitions P (\<lambda>r. tr_TransitionID r = tr_TransitionID transition) w of
               (Inr [], w) \<Rightarrow> ((False, None), w)
             | (Inl err, w) \<Rightarrow> ((False, Some (''could retrieve TAS transition: '' @ err)), w)
             | (Inr (current # _), w) \<Rightarrow>
                 if same_but_location testVal current
                 then (case storeTransitionWithTx P transition w of
                         (Some err, w) \<Rightarrow> ((False, Some (''could not replace TAS transition: '' @ err)), w)
                       | (None, w) \<Rightarrow>
                           (case tx_Commit P w of
                              (Some err, w) \<Rightarrow> ((False, Some (''could not commit TAS transition: '' @ err)), w)
                            | (None, w) \<Rightarrow> ((True, None), w)))
                 else ((False, None), w))
          in (out, tx_Rollback P w))"

definition PostgresStorage_provider :: "xnametypes \<Rightarrow> 'w PgDB \<Rightarrow> 'w StorageProvider" where
  "PostgresStorage_provider X P =
     \<lparr>dsp_Ping = PG_Ping (Some P),
      dsp_GetPowerStatusMaster = PG_GetPowerStatusMaster P,
      dsp_StorePowerStatusMaster = PG_StorePowerStatusMaster P,
      dsp_TASPowerStatusMaster = PG_TASPowerStatusMaster P,
      dsp_StorePowerStatus = PG_StorePowerStatus X P,
      dsp_DeletePowerStatus = PG_DeletePowerStatus X P,
      dsp_GetPowerStatus = PG_GetPowerStatus X P,
      dsp_GetAllPowerStatus = PG_GetAllPowerStatus P,
      dsp_GetPowerStatusHierarchy = PG_GetPowerStatusHierarchy X P,
      dsp_StorePowerCapTask = PG_StorePowerCapTask P,
      dsp_StorePowerCapOperation = PG_StorePowerCapOperation P,
      dsp_GetPowerCapTask = PG_GetPowerCapTask P,
      dsp_GetPowerCapOperation = PG_GetPowerCapOperation P,
      dsp_GetAllPowerCapOperationsForTask = PG_GetAllPowerCapOperationsForTask P,
      dsp_GetAllPowerCapTasks = PG_GetAllPowerCapTasks P,
      dsp_DeletePowerCapTask = PG_DeletePowerCapTask P,
      dsp_DeletePowerCapOperation = PG_DeletePowerCapOperation P,
      dsp_StoreTransition = PG_StoreTransition P,
      dsp_StoreTransitionTask = PG_StoreTransitionTask P,
      dsp_GetTransition = PG_GetTransition P,
      dsp_GetTransitionTask = PG_GetTransitionTask P,
      dsp_GetAllTasksForTransition = PG_GetAllTasksForTransition P,
      dsp_GetAllTransitions = PG_GetAllTransitions P,
      dsp_DeleteTransition = PG_DeleteTransition P,
      dsp_DeleteTransitionTask = PG_DeleteTransitionTask P,
      dsp_TASTransition = PG_TASTransition P\<rparr>"

end
