(* ===== verification/Postgres_Contract.thy ===== *)
theory Postgres_Contract
  imports Postgres_Storage
begin

section \<open>What the PostgreSQL provider keeps\<close>

text \<open>
  The locale \<open>postgres_db\<close> is the documented behaviour of the database towards one client while no other client writes:
  \<open>tabs\<close> are the committed tables and \<open>ptx\<close> the tables as the open transaction sees them; a statement that reports an error has happened or
  not. Over it the provider acts on the tables as the statements say. Two things the storage contract promises do not hold: a
  task that is stored again keeps its first reservation key, and a test-and-set is not atomic when two clients run it at
  once (at the isolation level \<^verbatim>\<open>READ COMMITTED\<close>, the default, which \<open>tas_step\<close> spells out).
\<close>

subsection \<open>The database\<close>

definition keyed :: "pg_tables \<Rightarrow> bool" where
  "keyed T \<longleftrightarrow> (\<forall>i t. tb_transitions T i = Some t \<longrightarrow> tr_TransitionID t = i) \<and> (\<forall>i k. tb_tasks T i = Some k \<longrightarrow> tt_TaskID k = i)"

lemma keyed_meaning: "pg_meaning rnd s T = Some (T', n) \<Longrightarrow> keyed T \<Longrightarrow> keyed T'"
  by (cases s) (auto simp: keyed_def upsert_def transition_row_def transition_update_def task_update_def split: if_splits option.splits)

locale postgres_db =
  fixes P :: "'w PgDB" and rnd :: "time \<Rightarrow> time" and tabs :: "'w \<Rightarrow> pg_tables" and ptx :: "'w \<Rightarrow> pg_tables option"
  assumes exec: "db_Exec P s w = (r, w') \<Longrightarrow>
      (case r of Inr n \<Rightarrow> pg_meaning rnd s (tabs w) = Some (tabs w', n)
       | Inl e \<Rightarrow> tabs w' = tabs w \<or> (\<exists>n. pg_meaning rnd s (tabs w) = Some (tabs w', n)))"
    and select_transitions: "db_SelectTransitions P c w = (rt, w') \<Longrightarrow> tabs w' = tabs w \<and>
      (\<forall>ts. rt = Inr ts \<longrightarrow> distinct (map tr_TransitionID ts) \<and> set ts = {t. \<exists>i. tb_transitions (tabs w) i = Some t \<and> c t})"
    and select_tasks: "db_SelectTasks P d w = (rk, w') \<Longrightarrow> tabs w' = tabs w \<and>
      (\<forall>ks. rk = Inr ks \<longrightarrow> distinct (map tt_TaskID ks) \<and> set ks = {k. \<exists>i. tb_tasks (tabs w) i = Some k \<and> d k})"
    and begin_tx: "db_Begin P w = (e, w') \<Longrightarrow> tabs w' = tabs w \<and> (e = None \<longrightarrow> ptx w' = Some (tabs w))"
    and select_tx: "tx_SelectTransitions P c w = (rt, w') \<Longrightarrow> ptx w = Some T \<Longrightarrow> tabs w' = tabs w \<and> ptx w' = Some T \<and>
      (\<forall>ts. rt = Inr ts \<longrightarrow> set ts = {t. \<exists>i. tb_transitions T i = Some t \<and> c t})"
    and exec_tx: "tx_Exec P s w = (r, w') \<Longrightarrow> ptx w = Some T \<Longrightarrow> tabs w' = tabs w \<and>
      (\<forall>n. r = Inr n \<longrightarrow> (\<exists>T'. pg_meaning rnd s T = Some (T', n) \<and> ptx w' = Some T'))"
    and commit: "tx_Commit P w = (e, w') \<Longrightarrow> ptx w = Some T \<Longrightarrow>
      (if e = None then tabs w' = T else tabs w' = tabs w \<or> tabs w' = T)"
    and rollback: "tabs (tx_Rollback P w) = tabs w"
begin

text \<open>Storing a transition inserts its row or updates five columns of it.\<close>

abbreviation stored :: "Transition \<Rightarrow> pg_tables \<Rightarrow> pg_tables" where
  "stored t T \<equiv> T\<lparr>tb_transitions := upsert transition_update (tr_TransitionID t) (transition_row rnd t) (tb_transitions T)\<rparr>"

lemma store_tx:
  assumes "storeTransitionWithTx P t w = (e, w')" and "ptx w = Some T"
  shows "tabs w' = tabs w" and "e = None \<Longrightarrow> ptx w' = Some (stored t T)"
proof -
  obtain r w1 where x: "tx_Exec P (UpsertTransition t) w = (r, w1)" by fastforce
  note L = exec_tx [OF x assms(2)]
  show "tabs w' = tabs w" "e = None \<Longrightarrow> ptx w' = Some (stored t T)"
    using assms(1) x L by (auto simp: storeTransitionWithTx_def exec_err_def split: sum.splits)
qed

lemma StoreTransition_tables:
  assumes "PG_StoreTransition P t w = (e, w')"
  shows "tabs w' = stored t (tabs w) \<or> e \<noteq> None \<and> tabs w' = tabs w"
proof -
  obtain e1 w1 where b: "db_Begin P w = (e1, w1)" by fastforce
  show ?thesis
  proof (cases e1)
    case (Some x)
    then show ?thesis using assms b begin_tx [OF b] by (auto simp: PG_StoreTransition_def)
  next
    case None
    then have p1: "tabs w1 = tabs w" "ptx w1 = Some (tabs w)" using begin_tx [OF b] by simp_all
    obtain e2 w2 where s: "storeTransitionWithTx P t w1 = (e2, w2)" by fastforce
    obtain e3 w3 where c: "tx_Commit P w2 = (e3, w3)" by fastforce
    show ?thesis
    proof (cases e2)
      case (Some x)
      then show ?thesis using assms b None s store_tx(1) [OF s p1(2)] p1(1) by (auto simp: PG_StoreTransition_def rollback)
    next
      case e2: None
      note p2 = store_tx [OF s p1(2)]
      show ?thesis
        using assms b None s e2 c p2 p1(1) commit [OF c p2(2) [OF e2]] by (cases e3) (auto simp: PG_StoreTransition_def rollback)
    qed
  qed
qed

lemma single_row:
  assumes "set ts = {t. \<exists>i. m i = Some t \<and> key t = j}" and "\<And>i t. m i = Some t \<Longrightarrow> key t = i"
  shows "case ts of [] \<Rightarrow> m j = None | t # _ \<Rightarrow> m j = Some t"
proof (cases ts)
  case Nil
  have False if "m j = Some t" for t using assms(1) assms(2) [OF that] that Nil by auto
  then show ?thesis using Nil by (cases "m j") auto
next
  case (Cons t us)
  then have "t \<in> set ts" by simp
  then have "t \<in> {t. \<exists>i. m i = Some t \<and> key t = j}" unfolding assms(1) .
  then show ?thesis using assms(2) Cons by auto
qed

lemma GetTransition_row:
  assumes "keyed (tabs w)" and "PG_GetTransition P i w = ((t, p, e), w')"
  shows "tabs w' = tabs w \<and> p = t \<and> (if e = None then t = tb_transitions (tabs w) i else t = None)"
proof -
  obtain r w1 where x: "db_SelectTransitions P (\<lambda>r. tr_TransitionID r = i) w = (r, w1)" by fastforce
  note L = select_transitions [OF x]
  have "case ts of [] \<Rightarrow> tb_transitions (tabs w) i = None | t # _ \<Rightarrow> tb_transitions (tabs w) i = Some t" if "r = Inr ts" for ts
    by (rule single_row [where key = tr_TransitionID]) (use L that assms(1) in \<open>auto simp: keyed_def\<close>)
  then show ?thesis
    using assms(2) x L by (auto simp: PG_GetTransition_def get_row_def split: sum.splits list.splits)
qed

lemma GetTransitionTask_row:
  assumes "keyed (tabs w)" and "PG_GetTransitionTask P i j w = ((k, e), w')"
  shows "tabs w' = tabs w \<and> (if e = None then k = tb_tasks (tabs w) j else k = None)"
proof -
  obtain r w1 where x: "db_SelectTasks P (\<lambda>r. tt_TaskID r = j) w = (r, w1)" by fastforce
  note L = select_tasks [OF x]
  have "case ks of [] \<Rightarrow> tb_tasks (tabs w) j = None | k # _ \<Rightarrow> tb_tasks (tabs w) j = Some k" if "r = Inr ks" for ks
    by (rule single_row [where key = tt_TaskID]) (use L that assms(1) in \<open>auto simp: keyed_def\<close>)
  then show ?thesis
    using assms(2) x L by (auto simp: PG_GetTransitionTask_def get_row_def split: sum.splits list.splits)
qed

lemma TASTransition_tables:
  assumes "keyed (tabs w)" and "PG_TASTransition P t test w = ((ok, e), w')"
  shows "if tabs w' = tabs w then ok \<longrightarrow> (\<exists>row. tb_transitions (tabs w) (tr_TransitionID t) = Some row \<and> same_but_location test row \<and> stored t (tabs w) = tabs w)
    else (ok \<or> e \<noteq> None) \<and> tabs w' = stored t (tabs w) \<and>
      (\<exists>row. tb_transitions (tabs w) (tr_TransitionID t) = Some row \<and> same_but_location test row)"
proof -
  let ?c = "\<lambda>r. tr_TransitionID r = tr_TransitionID t"
  obtain e1 w1 where b: "db_Begin P w = (e1, w1)" by fastforce
  show ?thesis
  proof (cases e1)
    case (Some x)
    then show ?thesis using assms(2) b begin_tx [OF b] by (auto simp: PG_TASTransition_def)
  next
    case None
    then have p1: "tabs w1 = tabs w" "ptx w1 = Some (tabs w)" using begin_tx [OF b] by simp_all
    obtain r w2 where q: "tx_SelectTransitions P ?c w1 = (r, w2)" by fastforce
    note L = select_tx [OF q p1(2)]
    have row: "case ts of [] \<Rightarrow> tb_transitions (tabs w) (tr_TransitionID t) = None
        | row # _ \<Rightarrow> tb_transitions (tabs w) (tr_TransitionID t) = Some row" if "r = Inr ts" for ts
      by (rule single_row [where key = tr_TransitionID]) (use L that assms(1) in \<open>auto simp: keyed_def\<close>)
    show ?thesis
    proof (cases "\<exists>row rows. r = Inr (row # rows) \<and> same_but_location test row")
      case False
      then show ?thesis
        using assms(2) b None q L p1(1) by (auto simp: PG_TASTransition_def rollback split: sum.splits list.splits if_splits)
    next
      case True
      then obtain cur rows where cur: "r = Inr (cur # rows)" "same_but_location test cur" by blast
      have here: "tb_transitions (tabs w) (tr_TransitionID t) = Some cur" using row [OF cur(1)] by simp
      obtain e3 w3 where s: "storeTransitionWithTx P t w2 = (e3, w3)" by fastforce
      note S = store_tx [OF s, of "tabs w"]
      obtain e4 w4 where c: "tx_Commit P w3 = (e4, w4)" by fastforce
      show ?thesis
      proof (cases e3)
        case (Some x)
        then show ?thesis using assms(2) b None q cur s S(1) L p1(1) by (auto simp: PG_TASTransition_def rollback)
      next
        case e3: None
        have "(if e4 = None then tabs w4 = stored t (tabs w) else tabs w4 = tabs w3 \<or> tabs w4 = stored t (tabs w))"
          using commit [OF c S(2) [OF _ e3]] L by simp
        then show ?thesis
          using assms(2) b None q cur s e3 c S(1) L p1(1) here by (cases e4) (auto simp: PG_TASTransition_def rollback)
      qed
    qed
  qed
qed

lemma StoreTransitionTask_tables:
  assumes "PG_StoreTransitionTask P k w = (e, w')"
  shows "tabs w' = (tabs w)\<lparr>tb_tasks := upsert task_update (tt_TaskID k) k (tb_tasks (tabs w))\<rparr> \<or> e \<noteq> None \<and> tabs w' = tabs w"
proof -
  obtain r w1 where x: "db_Exec P (UpsertTask k) w = (r, w1)" by fastforce
  show ?thesis using assms x exec [OF x] by (auto simp: PG_StoreTransitionTask_def exec_err_def split: sum.splits)
qed

end

subsection \<open>A database in memory\<close>

text \<open>
  The world is the log of the statements that were committed, and of the open transaction. Only a violated constraint makes a
  statement fail.
\<close>

record pg_log =
  lg_done :: "pg_stmt list"
  lg_tx :: "pg_stmt list option"

definition log_step :: "pg_stmt \<Rightarrow> pg_tables \<Rightarrow> pg_tables" where
  "log_step s T = (case pg_meaning id s T of None \<Rightarrow> T | Some (T', n) \<Rightarrow> T')"

definition no_tables :: pg_tables where
  "no_tables = \<lparr>tb_master = None, tb_status = Map.empty, tb_captasks = Map.empty, tb_capops = Map.empty,
     tb_transitions = Map.empty, tb_tasks = Map.empty\<rparr>"

definition log_tables :: "pg_stmt list \<Rightarrow> pg_tables" where
  "log_tables l = fold log_step l no_tables"

fun stmt_id :: "pg_stmt \<Rightarrow> uuid" where
  "stmt_id (UpsertTransition t) = tr_TransitionID t"
| "stmt_id (UpsertTask k) = tt_TaskID k"
| "stmt_id (UpsertCapTask t) = pct_TaskID t"
| "stmt_id (UpsertCapOp p) = pco_OperationID p"
| "stmt_id (UpsertStatus p) = ps_XName p"
| "stmt_id _ = []"

definition log_rows :: "(uuid \<Rightarrow> 'r option) \<Rightarrow> pg_stmt list \<Rightarrow> ('r \<Rightarrow> bool) \<Rightarrow> 'r list" where
  "log_rows m l c = filter c (List.map_filter m (remdups (map stmt_id l)))"

definition log_exec :: "pg_stmt \<Rightarrow> pg_stmt list \<Rightarrow> (error + nat) \<times> pg_stmt list" where
  "log_exec s l = (case pg_meaning id s (log_tables l) of None \<Rightarrow> (Inl ''constraint violated'', l) | Some (T, n) \<Rightarrow> (Inr n, l @ [s]))"

definition simDB :: "pg_log PgDB" where
  "simDB =
     \<lparr>db_Ping = (\<lambda>w. (None, w)),
      db_Exec = (\<lambda>s w. let (r, l) = log_exec s (lg_done w) in (r, w\<lparr>lg_done := l\<rparr>)),
      db_SelectMaster = (\<lambda>w. (Inr (case tb_master (log_tables (lg_done w)) of None \<Rightarrow> [] | Some t \<Rightarrow> [t]), w)),
      db_SelectStatus = (\<lambda>c w. (Inr (log_rows (tb_status (log_tables (lg_done w))) (lg_done w) c), w)),
      db_SelectCapTasks = (\<lambda>c w. (Inr (log_rows (tb_captasks (log_tables (lg_done w))) (lg_done w) c), w)),
      db_SelectCapOps = (\<lambda>c w. (Inr (log_rows (tb_capops (log_tables (lg_done w))) (lg_done w) c), w)),
      db_SelectTransitions = (\<lambda>c w. (Inr (log_rows (tb_transitions (log_tables (lg_done w))) (lg_done w) c), w)),
      db_SelectTasks = (\<lambda>c w. (Inr (log_rows (tb_tasks (log_tables (lg_done w))) (lg_done w) c), w)),
      db_Begin = (\<lambda>w. (None, w\<lparr>lg_tx := Some (lg_done w)\<rparr>)),
      tx_SelectTransitions = (\<lambda>c w. (case lg_tx w of None \<Rightarrow> Inl ''no transaction''
         | Some l \<Rightarrow> Inr (log_rows (tb_transitions (log_tables l)) l c), w)),
      tx_Exec = (\<lambda>s w. case lg_tx w of None \<Rightarrow> (Inl ''no transaction'', w)
         | Some l \<Rightarrow> let (r, l) = log_exec s l in (r, w\<lparr>lg_tx := Some l\<rparr>)),
      tx_Commit = (\<lambda>w. case lg_tx w of None \<Rightarrow> (Some ''no transaction'', w) | Some l \<Rightarrow> (None, w\<lparr>lg_done := l, lg_tx := None\<rparr>)),
      tx_Rollback = (\<lambda>w. w\<lparr>lg_tx := None\<rparr>)\<rparr>"

lemma log_tables_snoc: "log_tables (l @ [s]) = log_step s (log_tables l)"
  by (simp add: log_tables_def)

lemma log_keyed: "keyed (log_tables l)"
proof (induction l rule: rev_induct)
  case (snoc s l)
  then show ?case using keyed_meaning [of id s "log_tables l"]
    by (auto simp: log_tables_snoc log_step_def split: option.split)
qed (simp add: log_tables_def no_tables_def keyed_def)

lemma log_dom:
  "tb_transitions (log_tables l) i = Some t \<Longrightarrow> i \<in> stmt_id ` set l" "tb_tasks (log_tables l) j = Some k \<Longrightarrow> j \<in> stmt_id ` set l"
proof (induction l arbitrary: t k rule: rev_induct)
  case (snoc s l)
  {
    case 1
    then show ?case using snoc(1)
      by (cases s) (fastforce simp: log_tables_snoc log_step_def upsert_def split: option.splits if_splits)+
  next
    case 2
    then show ?case using snoc(2)
      by (cases s) (fastforce simp: log_tables_snoc log_step_def upsert_def split: option.splits if_splits)+
  }
qed (simp_all add: log_tables_def no_tables_def)

lemma log_rows_set:
  assumes "\<And>i r. m i = Some r \<Longrightarrow> i \<in> stmt_id ` set l" and "\<And>i r. m i = Some r \<Longrightarrow> key r = i"
  shows "set (log_rows m l c) = {r. \<exists>i. m i = Some r \<and> c r}" and "distinct (map key (log_rows m l c))"
proof -
  show "set (log_rows m l c) = {r. \<exists>i. m i = Some r \<and> c r}"
    using assms(1) by (auto simp: log_rows_def map_filter_def) (force simp: image_iff)
  have "map key (List.map_filter m is) = filter (\<lambda>i. m i \<noteq> None) is" for "is"
    using assms(2) by (induction "is") (auto simp: List.map_filter_simps split: option.split)
  then have "distinct (map key (List.map_filter m (remdups (map stmt_id l))))" by (metis distinct_filter distinct_remdups)
  then show "distinct (map key (log_rows m l c))" by (simp add: log_rows_def distinct_map_filter)
qed

lemma log_transition_rows:
  "set (log_rows (tb_transitions (log_tables l)) l c) = {t. \<exists>i. tb_transitions (log_tables l) i = Some t \<and> c t}"
  "distinct (map tr_TransitionID (log_rows (tb_transitions (log_tables l)) l c))"
proof -
  have k: "tr_TransitionID t = i" if "tb_transitions (log_tables l) i = Some t" for i t
    using log_keyed [of l] that by (simp add: keyed_def)
  show "set (log_rows (tb_transitions (log_tables l)) l c) = {t. \<exists>i. tb_transitions (log_tables l) i = Some t \<and> c t}"
    by (rule log_rows_set(1)) (erule log_dom(1), erule k)
  show "distinct (map tr_TransitionID (log_rows (tb_transitions (log_tables l)) l c))"
    by (rule log_rows_set(2)) (erule log_dom(1), erule k)
qed

lemma log_task_rows:
  "set (log_rows (tb_tasks (log_tables l)) l c) = {k. \<exists>i. tb_tasks (log_tables l) i = Some k \<and> c k}"
  "distinct (map tt_TaskID (log_rows (tb_tasks (log_tables l)) l c))"
proof -
  have k: "tt_TaskID k = i" if "tb_tasks (log_tables l) i = Some k" for i k
    using log_keyed [of l] that by (simp add: keyed_def)
  show "set (log_rows (tb_tasks (log_tables l)) l c) = {k. \<exists>i. tb_tasks (log_tables l) i = Some k \<and> c k}"
    by (rule log_rows_set(1)) (erule log_dom(2), erule k)
  show "distinct (map tt_TaskID (log_rows (tb_tasks (log_tables l)) l c))"
    by (rule log_rows_set(2)) (erule log_dom(2), erule k)
qed

lemma log_exec_tables:
  "log_exec s l = (r, l') \<Longrightarrow> (case r of Inr n \<Rightarrow> pg_meaning id s (log_tables l) = Some (log_tables l', n) | Inl e \<Rightarrow> l' = l)"
  by (auto simp: log_exec_def log_tables_snoc log_step_def split: option.splits)

interpretation simdb: postgres_db simDB id "\<lambda>w. log_tables (lg_done w)" "\<lambda>w. map_option log_tables (lg_tx w)"
proof (unfold_locales, goal_cases)
  case (1 s w r w')
  then show ?case using log_exec_tables [of s "lg_done w"] by (fastforce simp: simDB_def Let_def split: prod.splits sum.splits)
next
  case (5 c w rt w' T)
  then obtain l where "lg_tx w = Some l" "T = log_tables l" by auto
  then show ?case using 5 log_transition_rows(1) [of l c] by (simp add: simDB_def) blast
next
  case (6 s w r w' T)
  then obtain l where l: "lg_tx w = Some l" "T = log_tables l" by auto
  obtain r1 l1 where x: "log_exec s l = (r1, l1)" by fastforce
  show ?case using 6 l x log_exec_tables [OF x] by (auto simp: simDB_def)
qed (auto simp: simDB_def log_transition_rows log_task_rows)

end
