(* ===== verification/Postgres_Properties.thy ===== *)
theory Postgres_Properties
  imports Postgres_Contract Sim_Domain
begin

section \<open>Properties of the PostgreSQL provider\<close>

text \<open>
  Storing and reading over the contract \<open>postgres_db\<close>, and two concurrent test-and-sets over the statements of two transactions.
\<close>

text \<open>
  C36: Over a database that does what its statements say, a transition that is stored for the first time is read back without
  its task IDs and with its times rounded to the column's resolution; one that is stored again keeps its operation, deadline, creation and expiry time and locations, and takes
  over time of activity, status, compression, counts and tasks. No other row changes.
\<close>

theorem postgres_store_get:
  assumes "postgres_db P rnd tabs ptx" and "keyed (tabs w)" and "PG_StoreTransition P t w = (None, w1)"
    and "PG_GetTransition P (tr_TransitionID t) w1 = ((r, page, None), w2)"
  shows "page = r \<and>
    r = Some (case tb_transitions (tabs w) (tr_TransitionID t) of
          None \<Rightarrow> t\<lparr>tr_TaskIDs := [], tr_CreateTime := rnd (tr_CreateTime t), tr_LastActiveTime := rnd (tr_LastActiveTime t),
                    tr_AutomaticExpirationTime := rnd (tr_AutomaticExpirationTime t)\<rparr>
        | Some row \<Rightarrow> row\<lparr>tr_LastActiveTime := rnd (tr_LastActiveTime t), tr_Status := tr_Status t,
                    tr_IsCompressed := tr_IsCompressed t, tr_TaskCounts := tr_TaskCounts t, tr_Tasks := tr_Tasks t\<rparr>) \<and>
    tabs w2 = (tabs w)\<lparr>tb_transitions := (tb_transitions (tabs w))(tr_TransitionID t := r)\<rparr>"
proof -
  note S = postgres_db.StoreTransition_tables [OF assms(1,3)]
  then have t1: "tabs w1 = (tabs w)\<lparr>tb_transitions := upsert transition_update (tr_TransitionID t) (transition_row rnd t) (tb_transitions (tabs w))\<rparr>"
    by simp
  have "keyed (tabs w1)" using keyed_meaning [of rnd "UpsertTransition t" "tabs w" "tabs w1" 1] assms(2) t1 by simp
  from postgres_db.GetTransition_row [OF assms(1) this assms(4)] show ?thesis
    by (auto simp: t1 upsert_def transition_row_def transition_update_def split: option.splits)
qed

lemma simDB_run:
  "PG_StoreTransition simDB t w = (None, w\<lparr>lg_done := lg_done w @ [UpsertTransition t], lg_tx := None\<rparr>)"
  by (simp add: PG_StoreTransition_def storeTransitionWithTx_def exec_err_def simDB_def log_exec_def)

theorem postgres_store_get_witness:
  "let w1 = snd (PG_StoreTransition simDB (sim_transition 7 ''new'' [''x0c0s1b0n0''] Operation_On) \<lparr>lg_done = [], lg_tx = None\<rparr>);
       w2 = snd (PG_StoreTransition simDB ((sim_transition 7 ''in-progress'' [] Operation_Off)\<lparr>tr_TaskIDs := [sim_uuid 8]\<rparr>) w1);
       ((r, page, e), w3) = PG_GetTransition simDB (sim_uuid 7) w2
   in e = None \<longrightarrow> r = Some (sim_transition 7 ''in-progress'' [''x0c0s1b0n0''] Operation_On)"
proof -
  let ?a = "sim_transition 7 ''new'' [''x0c0s1b0n0''] Operation_On" and ?b = "(sim_transition 7 ''in-progress'' [] Operation_Off)\<lparr>tr_TaskIDs := [sim_uuid 8]\<rparr>"
  let ?w1 = "\<lparr>lg_done = [UpsertTransition ?a], lg_tx = None\<rparr>" and ?w2 = "\<lparr>lg_done = [UpsertTransition ?a, UpsertTransition ?b], lg_tx = None\<rparr>"
  have w2: "PG_StoreTransition simDB ?b ?w1 = (None, ?w2)" by (simp add: simDB_run)
  obtain r p e w3 where g: "PG_GetTransition simDB (sim_uuid 7) ?w2 = ((r, p, e), w3)" by (metis surj_pair)
  have id: "tr_TransitionID ?b = sim_uuid 7" by simp
  have row: "tb_transitions (log_tables [UpsertTransition ?a]) (sim_uuid 7) = Some ?a"
    by (simp add: log_tables_def log_step_def upsert_def no_tables_def transition_row_def sim_transition_def)
  have "r = Some (sim_transition 7 ''in-progress'' [''x0c0s1b0n0''] Operation_On)" if "e = None"
    using postgres_store_get [OF simdb.postgres_db_axioms _ w2, of r p w3] g that id row log_keyed
    by (simp add: sim_transition_def)
  then show ?thesis using g by (simp add: simDB_run)
qed

text \<open>
  C37: A task that is already stored keeps its reservation key, its deputy key and its operation whatever is stored later: only state,
  status, description and error are updated. The domain layer stores a task before it reserves the component and again with
  the key, so the key is never found in the database, and a restarted transition cannot release its reservations.
\<close>

theorem postgres_forgets_reservation:
  assumes "postgres_db P rnd tabs ptx" and "keyed (tabs w)" and "tb_tasks (tabs w) (tt_TaskID k) = Some old"
    and "PG_StoreTransitionTask P k w = (None, w1)" and "PG_GetTransitionTask P i (tt_TaskID k) w1 = ((r, None), w2)"
  shows "r = Some (old\<lparr>tt_State := tt_State k, tt_Status := tt_Status k, tt_StatusDesc := tt_StatusDesc k, tt_Error := tt_Error k\<rparr>)"
proof -
  have t1: "tabs w1 = (tabs w)\<lparr>tb_tasks := upsert task_update (tt_TaskID k) k (tb_tasks (tabs w))\<rparr>"
    using postgres_db.StoreTransitionTask_tables [OF assms(1,4)] by simp
  have "keyed (tabs w1)" using keyed_meaning [of rnd "UpsertTask k" "tabs w" "tabs w1" 1] assms(2) t1 by simp
  from postgres_db.GetTransitionTask_row [OF assms(1) this assms(5)] show ?thesis
    using assms(3) by (simp add: t1 upsert_def task_update_def)
qed

theorem postgres_forgets_reservation_witness:
  "let k = sim_task 7 8 ''x0c0s1b0n0'' ''in-progress'' Operation_On;
       w1 = snd (PG_StoreTransitionTask simDB (k\<lparr>tt_ReservationKey := ''key''\<rparr>) \<lparr>lg_done = [UpsertTask k], lg_tx = None\<rparr>);
       ((r, e), w2) = PG_GetTransitionTask simDB (sim_uuid 7) (sim_uuid 8) w1
   in e = None \<longrightarrow> r = Some k"
proof -
  let ?k = "sim_task 7 8 ''x0c0s1b0n0'' ''in-progress'' Operation_On"
  let ?k' = "?k\<lparr>tt_ReservationKey := ''key''\<rparr>" and ?w = "\<lparr>lg_done = [UpsertTask ?k], lg_tx = None\<rparr>"
  let ?w1 = "\<lparr>lg_done = [UpsertTask ?k, UpsertTask ?k'], lg_tx = None\<rparr>"
  have s: "PG_StoreTransitionTask simDB ?k' ?w = (None, ?w1)"
    by (simp add: PG_StoreTransitionTask_def exec_err_def simDB_def log_exec_def)
  have id: "tt_TaskID ?k' = sim_uuid 8" by (simp add: sim_task_def)
  have row: "tb_tasks (log_tables [UpsertTask ?k]) (sim_uuid 8) = Some ?k"
    by (simp add: log_tables_def log_step_def upsert_def no_tables_def sim_task_def)
  obtain r e w2 where g: "PG_GetTransitionTask simDB (sim_uuid 7) (sim_uuid 8) ?w1 = ((r, e), w2)" by (metis surj_pair)
  have "r = Some ?k" if "e = None"
    using postgres_forgets_reservation [OF simdb.postgres_db_axioms _ _ s, of ?k "sim_uuid 7" r w2] g that id row log_keyed
    by (simp add: sim_task_def)
  then show ?thesis using g s by simp
qed

subsection \<open>Two clients\<close>

text \<open>
  \<open>PG_TASTransition\<close> statement by statement, for several clients: \<open>TasSelect\<close> is about to read, \<open>TasStore\<close> to
  write after the comparison, \<open>TasCommit\<close> has written (and locked) the row and is about to commit. At \<^verbatim>\<open>READ COMMITTED\<close> a
  query sees what is committed when it starts, and a write waits for the lock and then works on the committed row.
\<close>

datatype tas_pc = TasSelect | TasStore | TasCommit | TasDone bool

record tas_client =
  tc_pc :: tas_pc
  tc_new :: Transition
  tc_test :: Transition

inductive tas_step :: "(time \<Rightarrow> time) \<Rightarrow> pg_tables \<times> tas_client list \<Rightarrow> pg_tables \<times> tas_client list \<Rightarrow> bool" for rnd where
  tas_select: "c < length cs \<Longrightarrow> tc_pc (cs ! c) = TasSelect \<Longrightarrow>
    pc = (case tb_transitions T (tr_TransitionID (tc_new (cs ! c))) of
            None \<Rightarrow> TasDone False
          | Some current \<Rightarrow> if same_but_location (tc_test (cs ! c)) current then TasStore else TasDone False) \<Longrightarrow>
    tas_step rnd (T, cs) (T, cs[c := (cs ! c)\<lparr>tc_pc := pc\<rparr>])"
| tas_store: "c < length cs \<Longrightarrow> tc_pc (cs ! c) = TasStore \<Longrightarrow>
    list_all (\<lambda>d. tc_pc d = TasCommit \<longrightarrow> tr_TransitionID (tc_new d) \<noteq> tr_TransitionID (tc_new (cs ! c))) cs \<Longrightarrow>
    tas_step rnd (T, cs) (T, cs[c := (cs ! c)\<lparr>tc_pc := TasCommit\<rparr>])"
| tas_commit: "c < length cs \<Longrightarrow> tc_pc (cs ! c) = TasCommit \<Longrightarrow>
    pg_meaning rnd (UpsertTransition (tc_new (cs ! c))) T = Some (T', n) \<Longrightarrow>
    tas_step rnd (T, cs) (T', cs[c := (cs ! c)\<lparr>tc_pc := TasDone True\<rparr>])"

definition tas_start :: "Transition \<Rightarrow> Transition \<Rightarrow> tas_client" where
  "tas_start new test = \<lparr>tc_pc = TasSelect, tc_new = new, tc_test = test\<rparr>"



end
