(* ===== verification/Dist_Locks.thy ===== *)
theory Dist_Locks
  imports Etcd_Storage Domain_Globals Postgres_Storage "HOL-Library.Word"
begin

section \<open>Distributed locks\<close>

text \<open>
  \<^verbatim>\<open>internal/storage/distlock_*_impl.go\<close>: the lock the instances of the service share, over the lock of the
  key-value store or over an advisory lock of PostgreSQL held by an open transaction. The mutexes serialise the calls within
  one process. A method takes the provider and returns it changed; \<open>durs\<close> is \<^verbatim>\<open>Duration.String\<close>.
\<close>

unbundle bit_operations_syntax

subsection \<open>Over the key-value store (distlock\_etcd\_impl.go)\<close>

record 'w KvLock =
  kvl_DistTimedLock :: "int \<Rightarrow> ('w, error option) io"
  kvl_DistUnlock :: "('w, error option) io"
  kvl_Close :: "('w, error option) io"

record 'w ETCDLockProvider =
  elp_Duration :: duration
  elp_kvHandle :: "'w KvLock"

definition ETCDLock_Init ::
  "(string \<Rightarrow> string option) \<Rightarrow> (string \<Rightarrow> ('w, 'w KvLock option \<times> error option) io) \<Rightarrow> ('w, 'w KvLock option \<times> error option) io" where
  "ETCDLock_Init LookupEnv Open w =
     (case (LookupEnv ''ETCD_HOST'', LookupEnv ''ETCD_PORT'') of
        (None, _) \<Rightarrow> ((None, Some ''No ETCD HOST specified, can't open ETCD.''), w)
      | (Some _, None) \<Rightarrow> ((None, Some ''No ETCD PORT specified, can't open ETCD.''), w)
      | (Some host, Some port) \<Rightarrow>
          let attempt = (\<lambda>_ (res, w). case res of Some h \<Rightarrow> (Some h, w)
                | None \<Rightarrow> (case Open (''http://'' @ host @ '':'' @ port) w of
                     ((_, Some err), w) \<Rightarrow> (None, w)
                   | ((h, None), w) \<Rightarrow> (Some h, w)));
              (res, w) = fold attempt [1..<kvRetriesDefault + 1] (None, w)
          in (case res of
                Some h \<Rightarrow> ((h, None), w)
              | None \<Rightarrow> ((None, Some ''ETCD connection attempts exhausted, can't connect.''), w)))"

text \<open>The seconds of a positive duration are cut to whole ones.\<close>

definition ETCDLock_DistributedTimedLock ::
  "(duration \<Rightarrow> string) \<Rightarrow> duration \<Rightarrow> 'w ETCDLockProvider \<Rightarrow> ('w, error option \<times> 'w ETCDLockProvider) io" where
  "ETCDLock_DistributedTimedLock durs maxLockTime d w =
     (if maxLockTime < 1
      then ((Some (''Error: lock duration request invalid ('' @ durs maxLockTime @ '' seconds) -- must be >= 1.''), d), w)
      else case kvl_DistTimedLock (elp_kvHandle d) (maxLockTime div Second) w of
        (Some err, w) \<Rightarrow> ((Some err, d), w)
      | (None, w) \<Rightarrow> ((None, d\<lparr>elp_Duration := maxLockTime\<rparr>), w))"

definition ETCDLock_Unlock :: "'w ETCDLockProvider \<Rightarrow> ('w, error option \<times> 'w ETCDLockProvider) io" where
  "ETCDLock_Unlock d w = (let (err, w) = kvl_DistUnlock (elp_kvHandle d) w in ((err, d\<lparr>elp_Duration := 0\<rparr>), w))"

definition ETCDLock_GetDuration :: "'w ETCDLockProvider \<Rightarrow> duration" where
  "ETCDLock_GetDuration d = elp_Duration d"

definition ETCDLock_Close :: "'w ETCDLockProvider \<Rightarrow> ('w, error option \<times> 'w ETCDLockProvider) io" where
  "ETCDLock_Close d w =
     (let (unlockErr, w) = kvl_DistUnlock (elp_kvHandle d) w; (closeErr, w) = kvl_Close (elp_kvHandle d) w
      in ((errors_Join [unlockErr, closeErr], d\<lparr>elp_Duration := 0\<rparr>), w))"

subsection \<open>In memory (distlock\_mem\_impl.go)\<close>

text \<open>The provider delegates to a copy of itself as the one above, and keeps its own duration.\<close>

definition MEMLock_Init ::
  "(string \<Rightarrow> ('w, 'w KvLock option \<times> error option) io) \<Rightarrow> ('w, 'w KvLock option \<times> error option) io" where
  "MEMLock_Init Open w =
     (case Open ''mem:'' w of
        ((_, Some kverr), w) \<Rightarrow> ((None, Some (''ERROR opening KV memory storage: '' @ kverr)), w)
      | ((h, None), w) \<Rightarrow> ((h, None), w))"

definition MEMLock_DistributedTimedLock ::
  "(duration \<Rightarrow> string) \<Rightarrow> duration \<Rightarrow> 'w ETCDLockProvider \<Rightarrow> ('w, error option \<times> 'w ETCDLockProvider) io" where
  "MEMLock_DistributedTimedLock durs maxLockTime d w =
     (if maxLockTime < Second then ((Some ''Error: lock duration request invalid -- must be >= 1 second.'', d), w)
      else
        let d = d\<lparr>elp_Duration := maxLockTime\<rparr>; ((err, _), w) = ETCDLock_DistributedTimedLock durs maxLockTime d w
        in ((err, d), w))"

definition MEMLock_Unlock :: "'w ETCDLockProvider \<Rightarrow> ('w, error option \<times> 'w ETCDLockProvider) io" where
  "MEMLock_Unlock d w = (let ((err, _), w) = ETCDLock_Unlock d w in ((err, d\<lparr>elp_Duration := 0\<rparr>), w))"

definition MEMLock_Close :: "'w ETCDLockProvider \<Rightarrow> ('w, error option \<times> 'w ETCDLockProvider) io" where
  "MEMLock_Close d w = (let ((err, _), w) = ETCDLock_Close d w in ((err, d), w))"

subsection \<open>Over PostgreSQL (distlock\_postgres\_impl.go)\<close>

text \<open>\<^verbatim>\<open>hash/fnv\<close>, 32-bit FNV-1a.\<close>

definition fnv32a :: "string \<Rightarrow> 32 word" where
  "fnv32a s = fold (\<lambda>c h. (h XOR of_nat (of_char c)) * 16777619) s 2166136261"

definition generateID :: "string \<Rightarrow> int" where
  "generateID s = sint (fnv32a s)"

text \<open>
  \<open>ldb_Begin\<close> opens a transaction and names it; \<open>ldb_Acquire\<close> is \<^verbatim>\<open>pg_advisory_xact_lock\<close> on a transaction, waiting no longer
  than the timeout.
\<close>

record 'w LockDB =
  ldb_Begin :: "('w, error + nat) io"
  ldb_Acquire :: "int \<Rightarrow> int \<Rightarrow> nat \<Rightarrow> duration \<Rightarrow> ('w, error option) io"
  ldb_Rollback :: "nat \<Rightarrow> ('w, error option) io"
  ldb_Ping :: "('w, error option) io"
  ldb_Close :: "('w, error option) io"

record advisoryLock =
  al_tx :: "nat option"
  al_namespaceID :: int
  al_lockID :: int
  al_timeout :: duration

record 'w PostgresLockProvider =
  plp_db :: "'w LockDB option"
  plp_lock :: "advisoryLock option"

definition newTimedAdvisoryLock :: "string \<Rightarrow> string \<Rightarrow> duration \<Rightarrow> error + advisoryLock" where
  "newTimedAdvisoryLock namespace lock timeout =
     (if timeout < Second then Inl ''timeout must be >= 1 second''
      else Inr \<lparr>al_tx = None, al_namespaceID = generateID namespace, al_lockID = generateID lock, al_timeout = timeout\<rparr>)"

definition al_acquire :: "'w LockDB \<Rightarrow> advisoryLock \<Rightarrow> ('w, error option \<times> advisoryLock) io" where
  "al_acquire db l w =
     (if al_tx l \<noteq> None then ((Some ''advisory lock already held'', l), w)
      else case ldb_Begin db w of
        (Inl err, w) \<Rightarrow> ((Some (''failed to start transaction: '' @ err), l), w)
      | (Inr tx, w) \<Rightarrow>
          (case ldb_Acquire db (al_namespaceID l) (al_lockID l) tx (al_timeout l) w of
             (Some err, w) \<Rightarrow> (let (_, w) = ldb_Rollback db tx w in ((Some err, l), w))
           | (None, w) \<Rightarrow> ((None, l\<lparr>al_tx := Some tx\<rparr>), w)))"

definition al_release :: "'w LockDB \<Rightarrow> advisoryLock \<Rightarrow> ('w, error option \<times> advisoryLock) io" where
  "al_release db l w =
     (case al_tx l of
        None \<Rightarrow> ((Some ''advisory lock not held'', l), w)
      | Some tx \<Rightarrow>
          (case ldb_Rollback db tx w of
             (Some err, w) \<Rightarrow> ((Some (''failed to release advisory lock: '' @ err), l), w)
           | (None, w) \<Rightarrow> ((None, l\<lparr>al_tx := None\<rparr>), w)))"

definition PGLock_Init ::
  "'w runtime \<Rightarrow> (string \<Rightarrow> ('w, error option) io) \<Rightarrow> 'w LockDB \<Rightarrow> PostgresConfig \<Rightarrow> 'w PostgresLockProvider \<Rightarrow>
   ('w, error option \<times> 'w PostgresLockProvider) io" where
  "PGLock_Init R dial db c p w =
     (case OpenDB R dial (ldb_Ping db) c w of
        (Some err, w) \<Rightarrow> ((Some (''failed to open database connection: '' @ err), p), w)
      | (None, w) \<Rightarrow> ((None, p\<lparr>plp_db := Some db\<rparr>), w))"

definition PGLock_Ping :: "'w PostgresLockProvider \<Rightarrow> ('w, error option) io" where
  "PGLock_Ping p w =
     (case plp_db p of
        None \<Rightarrow> (Some ''instance closed or not initialized'', w)
      | Some db \<Rightarrow> (case ldb_Ping db w of (Some err, w) \<Rightarrow> (Some (''Ping failed: '' @ err), w) | (None, w) \<Rightarrow> (None, w)))"

definition PGLock_DistributedTimedLock ::
  "(duration \<Rightarrow> string) \<Rightarrow> duration \<Rightarrow> 'w PostgresLockProvider \<Rightarrow> ('w, error option \<times> 'w PostgresLockProvider) io" where
  "PGLock_DistributedTimedLock durs maxLockTime p w =
     (case plp_db p of
        None \<Rightarrow> ((Some ''instance closed or not initialized'', p), w)
      | Some db \<Rightarrow>
          if maxLockTime < Second
          then ((Some (''lock duration request invalid ('' @ durs maxLockTime @ '') -- must be >= 1sec.''), p), w)
          else if plp_lock p \<noteq> None then ((Some ''lock already held'', p), w)
          else case newTimedAdvisoryLock ''pcs'' ''distlock'' maxLockTime of
            Inl err \<Rightarrow> ((Some err, p), w)
          | Inr lock \<Rightarrow>
              (case al_acquire db lock w of
                 ((Some err, _), w) \<Rightarrow> ((Some err, p), w)
               | ((None, lock), w) \<Rightarrow> ((None, p\<lparr>plp_lock := Some lock\<rparr>), w)))"

text \<open>The lock is shared with its field: a release that fails still changes what the provider points to.\<close>

definition PGLock_Unlock :: "'w PostgresLockProvider \<Rightarrow> ('w, error option \<times> 'w PostgresLockProvider) io" where
  "PGLock_Unlock p w =
     (case plp_db p of
        None \<Rightarrow> ((Some ''instance closed or not initialized'', p), w)
      | Some db \<Rightarrow>
          (case plp_lock p of
             None \<Rightarrow> ((Some ''no lock held to release'', p), w)
           | Some lock \<Rightarrow>
               (case al_release db lock w of
                  ((Some err, lock), w) \<Rightarrow> ((Some (''failed to release distributed lock: '' @ err), p\<lparr>plp_lock := Some lock\<rparr>), w)
                | ((None, _), w) \<Rightarrow> ((None, p\<lparr>plp_lock := None\<rparr>), w))))"

definition PGLock_Close :: "'w PostgresLockProvider \<Rightarrow> ('w, error option \<times> 'w PostgresLockProvider) io" where
  "PGLock_Close p w =
     (case plp_db p of
        None \<Rightarrow> ((Some ''instance closed or not initialized'', p), w)
      | Some db \<Rightarrow>
          let ((err, p), w) =
            (case plp_lock p of
               None \<Rightarrow> ((None, p), w)
             | Some lock \<Rightarrow>
                 (case al_release db lock w of
                    ((Some err, lock), w) \<Rightarrow> ((Some (''failed to release lock: '' @ err), p\<lparr>plp_lock := Some lock\<rparr>), w)
                  | ((None, _), w) \<Rightarrow> ((None, p\<lparr>plp_lock := None\<rparr>), w)))
          in (case err of
                Some err \<Rightarrow> ((Some err, p), w)
              | None \<Rightarrow>
                  (case ldb_Close db w of
                     (Some err, w) \<Rightarrow> ((Some (''Close failed: '' @ err), p), w)
                   | (None, w) \<Rightarrow> ((None, p\<lparr>plp_db := None, plp_lock := None\<rparr>), w))))"

definition PGLock_GetDuration :: "'w PostgresLockProvider \<Rightarrow> duration" where
  "PGLock_GetDuration p = (case plp_lock p of None \<Rightarrow> 0 | Some lock \<Rightarrow> al_timeout lock)"

end
