(* ===== verification/Lock_Exclusion.thy ===== *)
theory Lock_Exclusion
  imports Dist_Locks
begin

section \<open>What the PostgreSQL lock guarantees\<close>

text \<open>
  Several instances of the service, each with a provider of its own over a connection pool of its own, take and release the
  lock in any order. At most one of them is between a successful \<^verbatim>\<open>DistributedTimedLock\<close> and its next
  \<^verbatim>\<open>Unlock\<close> or \<^verbatim>\<open>Close\<close>; and an instance whose release failed never gets the lock again, and never gets closed.
\<close>

subsection \<open>The database\<close>

text \<open>
  \<open>holder w k\<close> is the transaction that holds the advisory lock \<open>k\<close>, \<open>opened w i\<close> the transactions pool \<open>i\<close> has ever begun and
  \<open>finished w\<close> those on which \<^verbatim>\<open>Rollback\<close> was called. The server grants an advisory lock to one transaction at a
  time; a call on one transaction leaves the locks of the others alone, whether or not it fails; closing a pool ends no
  transaction of another. \<^verbatim>\<open>database/sql\<close> marks a transaction as done at the first \<^verbatim>\<open>Rollback\<close>, also
  when the driver then fails, and answers every later one with \<^verbatim>\<open>ErrTxDone\<close>.
\<close>

locale advisory_db =
  fixes db :: "nat \<Rightarrow> 'w LockDB"
    and holder :: "'w \<Rightarrow> int \<times> int \<Rightarrow> nat option"
    and opened :: "'w \<Rightarrow> nat \<Rightarrow> nat set"
    and finished :: "'w \<Rightarrow> nat set"
  assumes Begin_Inl: "ldb_Begin (db i) w = (Inl err, w') \<Longrightarrow> holder w' = holder w \<and> opened w' = opened w \<and> finished w \<subseteq> finished w'"
    and Begin_Inr: "ldb_Begin (db i) w = (Inr tx, w') \<Longrightarrow>
      (\<forall>j. tx \<notin> opened w j) \<and> holder w' = holder w \<and> opened w' = (opened w)(i := insert tx (opened w i)) \<and>
      finished w \<subseteq> finished w'"
    and Acquire: "ldb_Acquire (db i) ns lid tx t w = (e, w') \<Longrightarrow>
      (\<forall>k u. u \<noteq> tx \<longrightarrow> holder w' k = Some u \<longleftrightarrow> holder w k = Some u) \<and> opened w' = opened w \<and> finished w \<subseteq> finished w'"
    and Acquire_granted: "ldb_Acquire (db i) ns lid tx t w = (None, w') \<Longrightarrow> holder w' (ns, lid) = Some tx"
    and Rollback: "ldb_Rollback (db i) tx w = (e, w') \<Longrightarrow>
      (\<forall>k u. u \<noteq> tx \<longrightarrow> holder w' k = Some u \<longleftrightarrow> holder w k = Some u) \<and> opened w' = opened w \<and>
      insert tx (finished w) \<subseteq> finished w'"
    and Rollback_done: "tx \<in> finished w \<Longrightarrow> fst (ldb_Rollback (db i) tx w) \<noteq> None"
    and Close: "ldb_Close (db i) w = (e, w') \<Longrightarrow>
      (\<forall>k u. u \<notin> opened w i \<longrightarrow> holder w' k = Some u \<longleftrightarrow> holder w k = Some u) \<and> opened w' = opened w \<and>
      finished w \<subseteq> finished w'"

subsection \<open>The instances\<close>

text \<open>
  \<open>ls_in i\<close>: instance \<open>i\<close> was told that it has the lock and has not called \<^verbatim>\<open>Unlock\<close> or \<^verbatim>\<open>Close\<close> since.
\<close>

record 'w lock_sys =
  ls_world :: 'w
  ls_prov :: "nat \<Rightarrow> 'w PostgresLockProvider"
  ls_in :: "nat \<Rightarrow> bool"

definition lock_start :: "(nat \<Rightarrow> 'w LockDB) \<Rightarrow> 'w lock_sys \<Rightarrow> bool" where
  "lock_start db s \<longleftrightarrow> (\<forall>i. ls_prov s i = \<lparr>plp_db = Some (db i), plp_lock = None\<rparr> \<and> \<not> ls_in s i)"

inductive lock_step ::
  "(nat \<Rightarrow> 'w LockDB) \<Rightarrow> ('w \<Rightarrow> int \<times> int \<Rightarrow> nat option) \<Rightarrow> ('w \<Rightarrow> nat \<Rightarrow> nat set) \<Rightarrow> ('w \<Rightarrow> nat set) \<Rightarrow>
   (duration \<Rightarrow> string) \<Rightarrow> 'w lock_sys \<Rightarrow> 'w lock_sys \<Rightarrow> bool"
  for db holder opened finished durs where
  lock: "PGLock_DistributedTimedLock durs t (ls_prov s i) (ls_world s) = ((err, p), w) \<Longrightarrow>
    lock_step db holder opened finished durs s
      \<lparr>ls_world = w, ls_prov = (ls_prov s)(i := p), ls_in = (ls_in s)(i := ls_in s i \<or> err = None)\<rparr>"
| unlock: "PGLock_Unlock (ls_prov s i) (ls_world s) = ((err, p), w) \<Longrightarrow>
    lock_step db holder opened finished durs s
      \<lparr>ls_world = w, ls_prov = (ls_prov s)(i := p), ls_in = (ls_in s)(i := False)\<rparr>"
| close: "PGLock_Close (ls_prov s i) (ls_world s) = ((err, p), w) \<Longrightarrow>
    lock_step db holder opened finished durs s
      \<lparr>ls_world = w, ls_prov = (ls_prov s)(i := p), ls_in = (ls_in s)(i := False)\<rparr>"
| outside: "\<forall>i. \<forall>u\<in>opened (ls_world s) i. \<forall>k. holder w k = Some u \<longleftrightarrow> holder (ls_world s) k = Some u \<Longrightarrow>
    opened w = opened (ls_world s) \<Longrightarrow> finished (ls_world s) \<subseteq> finished w \<Longrightarrow>
    lock_step db holder opened finished durs s (s\<lparr>ls_world := w\<rparr>)"

definition dist_key :: "int \<times> int" where
  "dist_key = (generateID ''pcs'', generateID ''distlock'')"

definition prov_tx :: "'w PostgresLockProvider \<Rightarrow> nat option" where
  "prov_tx p = Option.bind (plp_lock p) al_tx"

text \<open>
  The invariant: a provider is closed or has its own pool, the transaction of its lock is one of its pool, and an instance
  that believes to have the lock has the transaction the server has granted it to.
\<close>

definition lock_ok :: "(nat \<Rightarrow> 'w LockDB) \<Rightarrow> ('w \<Rightarrow> int \<times> int \<Rightarrow> nat option) \<Rightarrow> ('w \<Rightarrow> nat \<Rightarrow> nat set) \<Rightarrow> 'w lock_sys \<Rightarrow> bool" where
  "lock_ok db holder opened s \<longleftrightarrow>
     (\<forall>i j. i \<noteq> j \<longrightarrow> opened (ls_world s) i \<inter> opened (ls_world s) j = {}) \<and>
     (\<forall>i. plp_db (ls_prov s i) \<in> {None, Some (db i)} \<and>
        (\<forall>tx. prov_tx (ls_prov s i) = Some tx \<longrightarrow> tx \<in> opened (ls_world s) i) \<and>
        (ls_in s i \<longrightarrow> (\<exists>tx. prov_tx (ls_prov s i) = Some tx \<and> holder (ls_world s) dist_key = Some tx)))"

lemma prov_tx_Some: "prov_tx p = Some tx \<Longrightarrow> plp_lock p \<noteq> None"
  by (cases "plp_lock p") (simp_all add: prov_tx_def)

lemma lock_okD:
  assumes "lock_ok db holder opened s"
  shows lock_ok_db: "plp_db (ls_prov s i) \<in> {None, Some (db i)}"
    and lock_ok_own: "prov_tx (ls_prov s i) = Some tx \<Longrightarrow> tx \<in> opened (ls_world s) i"
    and lock_ok_in: "ls_in s i \<Longrightarrow> \<exists>tx. prov_tx (ls_prov s i) = Some tx \<and> holder (ls_world s) dist_key = Some tx"
    and lock_ok_apart: "i \<noteq> j \<Longrightarrow> opened (ls_world s) i \<inter> opened (ls_world s) j = {}"
  using assms unfolding lock_ok_def by simp_all

context advisory_db
begin

text \<open>What a call of instance \<open>i\<close> may do to the database.\<close>

definition touches :: "nat \<Rightarrow> 'w \<Rightarrow> 'w \<Rightarrow> bool" where
  "touches i w w' \<longleftrightarrow>
     (\<forall>j. j \<noteq> i \<longrightarrow> opened w' j = opened w j) \<and> opened w i \<subseteq> opened w' i \<and>
     (\<forall>j. opened w' i \<inter> opened w j \<subseteq> opened w i) \<and>
     (\<forall>k u. u \<notin> opened w' i \<longrightarrow> holder w' k = Some u \<longleftrightarrow> holder w k = Some u) \<and> finished w \<subseteq> finished w'"

lemma touches_refl [simp]: "touches i w w"
  by (auto simp: touches_def)

lemma touches_trans: "touches i w1 w2 \<Longrightarrow> touches i w2 w3 \<Longrightarrow> touches i w1 w3"
  unfolding touches_def by (smt (verit) Int_iff subset_iff)

lemma touches_Begin:
  assumes "ldb_Begin (db i) w = (r, w')"
  shows "touches i w w'"
  using assms Begin_Inl [of i w _ w'] Begin_Inr [of i w _ w'] by (cases r) (auto simp: touches_def)

lemma touches_own:
  assumes "opened w' = opened w" "tx \<in> opened w i" "finished w \<subseteq> finished w'"
    and "\<forall>k u. u \<noteq> tx \<longrightarrow> holder w' k = Some u \<longleftrightarrow> holder w k = Some u"
  shows "touches i w w'"
proof -
  have "holder w' k = Some u \<longleftrightarrow> holder w k = Some u" if "u \<notin> opened w' i" for k u using that assms by metis
  then show ?thesis using assms(1,3) unfolding touches_def by auto
qed

lemma touches_Acquire: "ldb_Acquire (db i) ns lid tx t w = (e, w') \<Longrightarrow> tx \<in> opened w i \<Longrightarrow> touches i w w'"
  by (drule Acquire) (rule touches_own, auto)

lemma touches_Rollback: "ldb_Rollback (db i) tx w = (e, w') \<Longrightarrow> tx \<in> opened w i \<Longrightarrow> touches i w w'"
  by (drule Rollback) (rule touches_own, auto)

lemma touches_Close: "ldb_Close (db i) w = (e, w') \<Longrightarrow> touches i w w'"
  by (drule Close) (auto simp: touches_def)

lemma acquire_result:
  assumes "al_acquire (db i) l w = ((err, l'), w')"
  shows "touches i w w' \<and>
    (err = None \<longrightarrow> (\<exists>tx. al_tx l' = Some tx \<and> tx \<in> opened w' i \<and> holder w' (al_namespaceID l, al_lockID l) = Some tx))"
proof (cases "al_tx l = None \<and> (\<exists>tx w1. ldb_Begin (db i) w = (Inr tx, w1))")
  case True
  then obtain tx w1 where tx: "al_tx l = None" "ldb_Begin (db i) w = (Inr tx, w1)" by blast
  obtain e w2 where acq: "ldb_Acquire (db i) (al_namespaceID l) (al_lockID l) tx (al_timeout l) w1 = (e, w2)" by fastforce
  have own: "tx \<in> opened w1 i" "opened w2 = opened w1" using Begin_Inr [OF tx(2)] Acquire [OF acq] by auto
  note t2 = touches_trans [OF touches_Begin [OF tx(2)] touches_Acquire [OF acq own(1)]]
  show ?thesis
  proof (cases e)
    case None
    then show ?thesis using assms tx acq own t2 Acquire_granted [of i _ _ tx _ w1 w2] by (auto simp: al_acquire_def)
  next
    case (Some e')
    obtain r w3 where rb: "ldb_Rollback (db i) tx w2 = (r, w3)" by fastforce
    have "touches i w w3" using touches_trans [OF t2 touches_Rollback [OF rb]] own by simp
    then show ?thesis using assms tx acq Some rb by (auto simp: al_acquire_def)
  qed
next
  case False
  then show ?thesis using assms touches_Begin by (auto simp: al_acquire_def split: if_splits prod.splits sum.splits)
qed

lemma release_result:
  assumes "al_release (db i) l w = ((err, l'), w')" and "\<And>tx. al_tx l = Some tx \<Longrightarrow> tx \<in> opened w i"
  shows "touches i w w' \<and> (err = None \<longrightarrow> al_tx l' = None) \<and> (err \<noteq> None \<longrightarrow> l' = l) \<and>
    (\<forall>tx. al_tx l = Some tx \<longrightarrow> tx \<in> finished w' \<and> (tx \<in> finished w \<longrightarrow> err \<noteq> None))"
proof (cases "al_tx l")
  case (Some tx)
  obtain e w1 where rb: "ldb_Rollback (db i) tx w = (e, w1)" by fastforce
  have "touches i w w1" "tx \<in> finished w1" "tx \<in> finished w \<Longrightarrow> e \<noteq> None"
    using touches_Rollback [OF rb] assms(2) [OF Some] Rollback [OF rb] Rollback_done [of tx w i] rb by auto
  then show ?thesis using assms(1) Some rb by (cases e) (auto simp: al_release_def)
qed (use assms in \<open>auto simp: al_release_def\<close>)

lemma Lock_result:
  assumes "PGLock_DistributedTimedLock durs t p w = ((err, p'), w')" "plp_db p \<in> {None, Some (db i)}"
  shows "touches i w w' \<and> plp_db p' = plp_db p \<and> (err \<noteq> None \<longrightarrow> p' = p) \<and> (plp_lock p \<noteq> None \<longrightarrow> w' = w) \<and>
    (err = None \<longrightarrow> plp_lock p = None \<and> (\<exists>tx. prov_tx p' = Some tx \<and> tx \<in> opened w' i \<and> holder w' dist_key = Some tx))"
proof (cases "plp_db p = Some (db i) \<and> \<not> t < Second \<and> plp_lock p = None")
  case True
  let ?l = "\<lparr>al_tx = None, al_namespaceID = generateID ''pcs'', al_lockID = generateID ''distlock'', al_timeout = t\<rparr>"
  obtain e l1 w1 where acq: "al_acquire (db i) ?l w = ((e, l1), w1)" by (metis surj_pair)
  show ?thesis using assms True acq acquire_result [OF acq]
    by (cases e) (auto simp: PGLock_DistributedTimedLock_def newTimedAdvisoryLock_def prov_tx_def dist_key_def)
qed (use assms in \<open>auto simp: PGLock_DistributedTimedLock_def split: if_splits\<close>)

text \<open>Both ways to give the lock up: what they leave, and that they fail once the transaction is finished.\<close>

lemma Unlock_result:
  assumes "PGLock_Unlock p w = ((err, p'), w')" "plp_db p \<in> {None, Some (db i)}"
    and own: "\<And>tx. prov_tx p = Some tx \<Longrightarrow> tx \<in> opened w i"
  shows "touches i w w' \<and> plp_db p' = plp_db p \<and> prov_tx p' \<in> {None, prov_tx p} \<and>
    (err \<noteq> None \<longrightarrow> p' = p) \<and>
    (\<forall>tx. plp_db p \<noteq> None \<longrightarrow> prov_tx p = Some tx \<longrightarrow> tx \<in> finished w' \<and> (tx \<in> finished w \<longrightarrow> err \<noteq> None))"
proof (cases "plp_db p = Some (db i) \<and> plp_lock p \<noteq> None")
  case True
  then obtain l where l: "plp_lock p = Some l" by blast
  obtain e l1 w1 where rel: "al_release (db i) l w = ((e, l1), w1)" by (metis surj_pair)
  have "al_tx l = Some tx \<Longrightarrow> tx \<in> opened w i" for tx using own l by (simp add: prov_tx_def)
  then have r: "touches i w w1 \<and> (e = None \<longrightarrow> al_tx l1 = None) \<and> (e \<noteq> None \<longrightarrow> l1 = l) \<and>
    (\<forall>tx. al_tx l = Some tx \<longrightarrow> tx \<in> finished w1 \<and> (tx \<in> finished w \<longrightarrow> e \<noteq> None))" using release_result [OF rel] by blast
  show ?thesis using assms(1) True l rel r by (cases e) (auto simp: PGLock_Unlock_def prov_tx_def)
qed (use assms in \<open>auto simp: PGLock_Unlock_def prov_tx_def\<close>)

lemma Close_result:
  assumes "PGLock_Close p w = ((err, p'), w')" "plp_db p \<in> {None, Some (db i)}"
    and own: "\<And>tx. prov_tx p = Some tx \<Longrightarrow> tx \<in> opened w i"
  shows "touches i w w' \<and> plp_db p' \<in> {None, plp_db p} \<and> prov_tx p' \<in> {None, prov_tx p} \<and>
    (\<forall>tx. plp_db p \<noteq> None \<longrightarrow> prov_tx p = Some tx \<longrightarrow> tx \<in> finished w \<longrightarrow> err \<noteq> None \<and> p' = p)"
proof (cases "plp_db p = Some (db i) \<and> plp_lock p \<noteq> None")
  case True
  then obtain l where l: "plp_lock p = Some l" by blast
  obtain e l1 w1 where rel: "al_release (db i) l w = ((e, l1), w1)" by (metis surj_pair)
  have "al_tx l = Some tx \<Longrightarrow> tx \<in> opened w i" for tx using own l by (simp add: prov_tx_def)
  then have r: "touches i w w1 \<and> (e = None \<longrightarrow> al_tx l1 = None) \<and> (e \<noteq> None \<longrightarrow> l1 = l) \<and>
    (\<forall>tx. al_tx l = Some tx \<longrightarrow> tx \<in> finished w1 \<and> (tx \<in> finished w \<longrightarrow> e \<noteq> None))" using release_result [OF rel] by blast
  obtain c w2 where cl: "ldb_Close (db i) w1 = (c, w2)" by fastforce
  have "touches i w w2" using touches_trans [OF conjunct1 [OF r] touches_Close [OF cl]] .
  then show ?thesis using assms(1) True l rel r cl by (cases e; cases c) (auto simp: PGLock_Close_def prov_tx_def)
next
  case False
  show ?thesis
  proof (cases "plp_db p")
    case (Some d)
    obtain c w2 where cl: "ldb_Close (db i) w = (c, w2)" by fastforce
    then show ?thesis using assms False Some touches_Close [OF cl] by (cases c) (auto simp: PGLock_Close_def prov_tx_def)
  qed (use assms in \<open>auto simp: PGLock_Close_def\<close>)
qed

text \<open>A call of one instance keeps the invariant when what it returns suits the instance.\<close>

lemma ok_call:
  assumes ok: "lock_ok db holder opened s" and t: "touches i (ls_world s) w'" and d: "plp_db p' \<in> {None, Some (db i)}"
    and own: "\<And>tx. prov_tx p' = Some tx \<Longrightarrow> tx \<in> opened w' i"
    and now: "b \<Longrightarrow> \<exists>tx. prov_tx p' = Some tx \<and> holder w' dist_key = Some tx"
  shows "lock_ok db holder opened \<lparr>ls_world = w', ls_prov = (ls_prov s)(i := p'), ls_in = (ls_in s)(i := b)\<rparr>"
proof -
  let ?w = "ls_world s"
  have opened: "opened w' j = opened ?w j" if "j \<noteq> i" for j using t that by (simp add: touches_def)
  have apart: "opened w' i \<inter> opened ?w j = {}" if "j \<noteq> i" for j
    using t lock_ok_apart [OF ok, of i j] that unfolding touches_def by blast
  have others: "\<exists>tx. prov_tx (ls_prov s j) = Some tx \<and> holder w' dist_key = Some tx" if j: "j \<noteq> i" "ls_in s j" for j
  proof -
    obtain tx where tx: "prov_tx (ls_prov s j) = Some tx" "holder ?w dist_key = Some tx" "tx \<in> opened ?w j"
      using lock_ok_in [OF ok j(2)] lock_ok_own [OF ok] by blast
    then have "tx \<notin> opened w' i" using apart [OF j(1)] by blast
    then show ?thesis using t tx unfolding touches_def by blast
  qed
  have disj: "opened w' j \<inter> opened w' k = {}" if jk: "j \<noteq> k" for j k
  proof -
    consider "j = i" "k \<noteq> i" | "j \<noteq> i" "k = i" | "j \<noteq> i" "k \<noteq> i" using jk by blast
    then show ?thesis
    proof cases
      case 1 then show ?thesis using apart [of k] opened [of k] by simp
    next
      case 2 then show ?thesis using apart [of j] opened [of j] by (simp add: Int_commute)
    next
      case 3 then show ?thesis using jk opened [of j] opened [of k] ok by (simp add: lock_ok_def)
    qed
  qed
  have "prov_tx (ls_prov s j) = Some tx \<Longrightarrow> tx \<in> opened w' j" "plp_db (ls_prov s j) \<in> {None, Some (db j)}" if "j \<noteq> i" for j tx
    using ok opened [OF that] unfolding lock_ok_def by blast+
  then show ?thesis using d own now others disj unfolding lock_ok_def by simp
qed

lemma ok_step:
  assumes "lock_step db holder opened finished durs s s'" and ok: "lock_ok db holder opened s"
  shows "lock_ok db holder opened s'"
proof -
  have d: "plp_db (ls_prov s i) \<in> {None, Some (db i)}"
    and own: "\<And>tx. prov_tx (ls_prov s i) = Some tx \<Longrightarrow> tx \<in> opened (ls_world s) i" for i
    using lock_ok_db [OF ok] lock_ok_own [OF ok] by blast+
  show ?thesis
    using assms(1)
  proof (cases rule: lock_step.cases)
    case (lock t i err p w)
    note r = Lock_result [OF lock(2) d]
    have "tx \<in> opened w i" if "prov_tx p = Some tx" for tx using r own [of i tx] that unfolding touches_def by (cases err) auto
    moreover have "\<exists>tx. prov_tx p = Some tx \<and> holder w dist_key = Some tx" if has: "ls_in s i \<or> err = None"
    proof (cases "err = None")
      case False
      obtain tx where tx: "prov_tx (ls_prov s i) = Some tx" "holder (ls_world s) dist_key = Some tx"
        using lock_ok_in [OF ok] has False by blast
      then have "plp_lock (ls_prov s i) \<noteq> None" by (simp add: prov_tx_Some)
      then show ?thesis using r False tx by auto
    qed (use r in blast)
    ultimately show ?thesis unfolding lock(1) using r d [of i] ok_call [OF ok, of i w p "ls_in s i \<or> err = None"] by simp
  next
    case (unlock i err p w)
    note r = Unlock_result [OF unlock(2) d own]
    show ?thesis unfolding unlock(1) using r d [of i] own [of i] by (intro ok_call [OF ok]) (auto simp: touches_def)
  next
    case (close i err p w)
    note r = Close_result [OF close(2) d own]
    show ?thesis unfolding close(1) using r d [of i] own [of i] by (intro ok_call [OF ok]) (auto simp: touches_def)
  next
    case (outside w)
    have "\<exists>tx. prov_tx (ls_prov s i) = Some tx \<and> holder w dist_key = Some tx" if "ls_in s i" for i
      using lock_ok_in [OF ok that] own outside(2) by blast
    then show ?thesis unfolding outside(1) lock_ok_def using d own lock_ok_apart [OF ok] outside(3) by simp
  qed
qed

lemma ok_start: "lock_start db s \<Longrightarrow> (\<And>i j. i \<noteq> j \<Longrightarrow> opened (ls_world s) i \<inter> opened (ls_world s) j = {}) \<Longrightarrow>
    lock_ok db holder opened s"
  by (simp add: lock_start_def lock_ok_def prov_tx_def)

lemma ok_run: "(lock_step db holder opened finished durs)\<^sup>*\<^sup>* s s' \<Longrightarrow> lock_ok db holder opened s \<Longrightarrow> lock_ok db holder opened s'"
  by (induction rule: rtranclp_induct) (blast intro: ok_step)+

lemma ok_exclusive:
  assumes "lock_ok db holder opened s" "ls_in s i" "ls_in s j"
  shows "i = j"
proof (rule ccontr)
  assume "i \<noteq> j"
  moreover obtain tx where "prov_tx (ls_prov s i) = Some tx" "prov_tx (ls_prov s j) = Some tx"
    using lock_ok_in [OF assms(1,2)] lock_ok_in [OF assms(1,3)] by auto
  ultimately show False using lock_ok_own [OF assms(1)] lock_ok_apart [OF assms(1)] by blast
qed

text \<open>A provider whose transaction is finished is stuck: no call changes it, and each fails.\<close>

definition lock_stuck :: "nat \<Rightarrow> 'w lock_sys \<Rightarrow> bool" where
  "lock_stuck i s \<longleftrightarrow> plp_db (ls_prov s i) = Some (db i) \<and>
     (\<exists>tx. prov_tx (ls_prov s i) = Some tx \<and> tx \<in> finished (ls_world s))"

lemma stuck_calls:
  assumes "lock_stuck i s" and ok: "lock_ok db holder opened s"
  shows stuck_Lock: "PGLock_DistributedTimedLock durs t (ls_prov s i) (ls_world s) = ((err, p), w) \<Longrightarrow> err \<noteq> None \<and> p = ls_prov s i"
    and stuck_Unlock: "PGLock_Unlock (ls_prov s i) (ls_world s) = ((err, p), w) \<Longrightarrow> err \<noteq> None \<and> p = ls_prov s i"
    and stuck_Close: "PGLock_Close (ls_prov s i) (ls_world s) = ((err, p), w) \<Longrightarrow> err \<noteq> None \<and> p = ls_prov s i"
proof -
  obtain tx where tx: "plp_db (ls_prov s i) = Some (db i)" "prov_tx (ls_prov s i) = Some tx" "tx \<in> finished (ls_world s)"
    using assms(1) unfolding lock_stuck_def by blast
  note own = lock_ok_db [OF ok] lock_ok_own [OF ok]
  have "plp_lock (ls_prov s i) \<noteq> None" using tx(2) by (rule prov_tx_Some)
  then show "PGLock_DistributedTimedLock durs t (ls_prov s i) (ls_world s) = ((err, p), w) \<Longrightarrow> err \<noteq> None \<and> p = ls_prov s i"
    using Lock_result [OF _ own(1) [of i], of durs t "ls_world s" err p w] by (cases err) auto
  show "PGLock_Unlock (ls_prov s i) (ls_world s) = ((err, p), w) \<Longrightarrow> err \<noteq> None \<and> p = ls_prov s i"
    using Unlock_result [OF _ own [of i]] tx by blast
  show "PGLock_Close (ls_prov s i) (ls_world s) = ((err, p), w) \<Longrightarrow> err \<noteq> None \<and> p = ls_prov s i"
    using Close_result [OF _ own [of i]] tx by blast
qed

lemma stuck_call:
  assumes "lock_stuck i s" "finished (ls_world s) \<subseteq> finished w" "j = i \<Longrightarrow> p = ls_prov s i"
  shows "lock_stuck i \<lparr>ls_world = w, ls_prov = (ls_prov s)(j := p), ls_in = b\<rparr>"
  using assms unfolding lock_stuck_def by auto

lemma stuck_step:
  assumes "lock_step db holder opened finished durs s s'" and stuck: "lock_stuck i s" and ok: "lock_ok db holder opened s"
  shows "lock_stuck i s'"
proof -
  have more: "finished (ls_world s) \<subseteq> finished w'" if "touches j (ls_world s) w'" for j w' using that by (simp add: touches_def)
  note d = lock_ok_db [OF ok] and own = lock_ok_own [OF ok]
  show ?thesis
    using assms(1)
  proof (cases rule: lock_step.cases)
    case (lock t j err p w)
    have "finished (ls_world s) \<subseteq> finished w" by (rule more [OF conjunct1 [OF Lock_result [OF lock(2) d]]])
    moreover have "p = ls_prov s i" if "j = i" using stuck_Lock [OF stuck ok] lock(2) that by blast
    ultimately show ?thesis unfolding lock(1) by (rule stuck_call [OF stuck])
  next
    case (unlock j err p w)
    have "finished (ls_world s) \<subseteq> finished w" by (rule more [OF conjunct1 [OF Unlock_result [OF unlock(2) d own]]])
    moreover have "p = ls_prov s i" if "j = i" using stuck_Unlock [OF stuck ok] unlock(2) that by blast
    ultimately show ?thesis unfolding unlock(1) by (rule stuck_call [OF stuck])
  next
    case (close j err p w)
    have "finished (ls_world s) \<subseteq> finished w" by (rule more [OF conjunct1 [OF Close_result [OF close(2) d own]]])
    moreover have "p = ls_prov s i" if "j = i" using stuck_Close [OF stuck ok] close(2) that by blast
    ultimately show ?thesis unfolding close(1) by (rule stuck_call [OF stuck])
  next
    case (outside w)
    then show ?thesis using stuck unfolding lock_stuck_def by auto
  qed
qed

lemma stuck_run:
  assumes "(lock_step db holder opened finished durs)\<^sup>*\<^sup>* s s'" "lock_stuck i s" "lock_ok db holder opened s"
  shows "lock_stuck i s'"
  using assms(1)
proof (induction rule: rtranclp_induct)
  case (step s1 s2)
  then show ?case using ok_run [OF step(1) assms(3)] stuck_step by blast
qed (rule assms(2))

lemma failed_Unlock_stuck:
  assumes "PGLock_Unlock (ls_prov s i) (ls_world s) = ((Some e, p), w)" "ls_in s i" "plp_db (ls_prov s i) \<noteq> None"
    and ok: "lock_ok db holder opened s"
  shows "lock_stuck i \<lparr>ls_world = w, ls_prov = (ls_prov s)(i := p), ls_in = (ls_in s)(i := False)\<rparr>"
proof -
  note r = Unlock_result [OF assms(1) lock_ok_db [OF ok] lock_ok_own [OF ok]]
  obtain tx where "prov_tx (ls_prov s i) = Some tx" using lock_ok_in [OF ok assms(2)] by blast
  then show ?thesis using r assms(3) lock_ok_db [OF ok, of i] unfolding lock_stuck_def by auto
qed

end

subsection \<open>A database in memory\<close>

text \<open>Transactions are numbered; a lock that is taken is refused, and a second \<^verbatim>\<open>Rollback\<close> too. \<open>ms_lost\<close> are
  transactions whose connection is broken: their \<^verbatim>\<open>Rollback\<close> fails.\<close>

record mem_server =
  ms_opened :: "(nat \<times> nat) list"
  ms_held :: "int \<times> int \<Rightarrow> nat option"
  ms_finished :: "nat list"
  ms_lost :: "nat list"

definition memLockDB :: "nat \<Rightarrow> mem_server LockDB" where
  "memLockDB i =
     \<lparr>ldb_Begin = (\<lambda>w. let tx = length (ms_opened w) in (Inr tx, w\<lparr>ms_opened := (tx, i) # ms_opened w\<rparr>)),
      ldb_Acquire = (\<lambda>ns lid tx t w.
        if ms_held w (ns, lid) = None \<or> ms_held w (ns, lid) = Some tx
        then (None, w\<lparr>ms_held := (ms_held w)((ns, lid) \<mapsto> tx)\<rparr>) else (Some ''context deadline exceeded'', w)),
      ldb_Rollback = (\<lambda>tx w.
        if tx \<in> set (ms_finished w) then (Some ''sql: transaction has already been committed or rolled back'', w)
        else (if tx \<in> set (ms_lost w) then Some ''broken pipe'' else None,
              w\<lparr>ms_finished := tx # ms_finished w, ms_held := (\<lambda>k. if ms_held w k = Some tx then None else ms_held w k)\<rparr>)),
      ldb_Ping = (\<lambda>w. (None, w)), ldb_Close = (\<lambda>w. (None, w))\<rparr>"

definition mem_opened :: "mem_server \<Rightarrow> nat \<Rightarrow> nat set" where
  "mem_opened w i = {tx. tx < length (ms_opened w) \<and> snd (rev (ms_opened w) ! tx) = i}"

lemma mem_opened_Begin: "mem_opened (w\<lparr>ms_opened := (n, i) # ms_opened w\<rparr>) = (mem_opened w)(i := insert (length (ms_opened w)) (mem_opened w i))"
  by (rule ext) (auto simp: mem_opened_def nth_append less_Suc_eq)

lemma mem_opened_other [simp]:
  "mem_opened (w\<lparr>ms_held := h\<rparr>) = mem_opened w" "mem_opened (w\<lparr>ms_finished := f\<rparr>) = mem_opened w"
  "mem_opened (w\<lparr>ms_finished := f, ms_held := h\<rparr>) = mem_opened w"
  by (auto simp: mem_opened_def)

interpretation memlk: advisory_db memLockDB ms_held mem_opened "\<lambda>w. set (ms_finished w)"
proof (unfold_locales, goal_cases)
  case (2 i w tx w')
  then show ?case by (auto simp: memLockDB_def Let_def mem_opened_Begin) (simp add: mem_opened_def)
qed (auto simp: memLockDB_def Let_def split: if_splits)

subsection \<open>The guarantees\<close>

text \<open>
  C10: At most one instance has the lock. However the instances call \<^verbatim>\<open>DistributedTimedLock\<close>, \<^verbatim>\<open>Unlock\<close> and
  \<^verbatim>\<open>Close\<close>, whatever errors the database answers with, and whatever others do to the database as long as it keeps the
  sessions of the instances, two instances never both believe to hold the lock.
\<close>

theorem lock_exclusion:
  assumes dbw: "advisory_db db holder opened finished"
    and start: "lock_start db s" "\<And>i j. i \<noteq> j \<Longrightarrow> opened (ls_world s) i \<inter> opened (ls_world s) j = {}"
    and run: "(lock_step db holder opened finished durs)\<^sup>*\<^sup>* s s'"
    and both: "ls_in s' i" "ls_in s' j"
  shows "i = j"
  using advisory_db.ok_exclusive [OF dbw advisory_db.ok_run [OF dbw run advisory_db.ok_start [OF dbw start]] both] .

text \<open>
  C39: A failed release is final. Once \<^verbatim>\<open>Unlock\<close> of an instance that has the lock returns an error, every later
  \<^verbatim>\<open>DistributedTimedLock\<close>, \<^verbatim>\<open>Unlock\<close> and \<^verbatim>\<open>Close\<close> of that instance returns an error, whatever happens in between: the provider keeps the
  finished transaction and has no way to drop it.
\<close>

theorem failed_unlock_is_final:
  assumes dbw: "advisory_db db holder opened finished"
    and start: "lock_start db s" "\<And>i j. i \<noteq> j \<Longrightarrow> opened (ls_world s) i \<inter> opened (ls_world s) j = {}"
    and run: "(lock_step db holder opened finished durs)\<^sup>*\<^sup>* s s1" "ls_in s1 i" "plp_db (ls_prov s1 i) \<noteq> None"
    and fails: "PGLock_Unlock (ls_prov s1 i) (ls_world s1) = ((Some e, p), w)"
    and later: "(lock_step db holder opened finished durs)\<^sup>*\<^sup>*
      \<lparr>ls_world = w, ls_prov = (ls_prov s1)(i := p), ls_in = (ls_in s1)(i := False)\<rparr> s2"
  shows "fst (fst (PGLock_DistributedTimedLock durs' t (ls_prov s2 i) (ls_world s2))) \<noteq> None \<and>
    fst (fst (PGLock_Unlock (ls_prov s2 i) (ls_world s2))) \<noteq> None \<and>
    fst (fst (PGLock_Close (ls_prov s2 i) (ls_world s2))) \<noteq> None"
proof -
  note ok1 = advisory_db.ok_run [OF dbw run(1) advisory_db.ok_start [OF dbw start]]
  have step: "lock_step db holder opened finished durs s1
      \<lparr>ls_world = w, ls_prov = (ls_prov s1)(i := p), ls_in = (ls_in s1)(i := False)\<rparr>"
    using fails by (rule lock_step.unlock)
  note ok2 = advisory_db.ok_step [OF dbw step ok1]
  note stuck = advisory_db.stuck_run [OF dbw later advisory_db.failed_Unlock_stuck [OF dbw fails run(2,3) ok1] ok2]
  note ok3 = advisory_db.ok_run [OF dbw later ok2]
  show ?thesis using advisory_db.stuck_calls [OF dbw stuck ok3] by (metis prod.collapse)
qed

subsection \<open>Two instances on the database in memory\<close>

definition mem_start :: "nat list \<Rightarrow> mem_server lock_sys" where
  "mem_start lost = \<lparr>ls_world = \<lparr>ms_opened = [], ms_held = Map.empty, ms_finished = [], ms_lost = lost\<rparr>,
     ls_prov = (\<lambda>i. \<lparr>plp_db = Some (memLockDB i), plp_lock = None\<rparr>), ls_in = (\<lambda>_. False)\<rparr>"

definition call_lock :: "nat \<Rightarrow> 'w lock_sys \<Rightarrow> 'w lock_sys" where
  "call_lock i s = (let ((err, p), w) = PGLock_DistributedTimedLock (\<lambda>_. []) Second (ls_prov s i) (ls_world s)
     in \<lparr>ls_world = w, ls_prov = (ls_prov s)(i := p), ls_in = (ls_in s)(i := ls_in s i \<or> err = None)\<rparr>)"

definition call_unlock :: "nat \<Rightarrow> 'w lock_sys \<Rightarrow> 'w lock_sys" where
  "call_unlock i s = (let ((err, p), w) = PGLock_Unlock (ls_prov s i) (ls_world s)
     in \<lparr>ls_world = w, ls_prov = (ls_prov s)(i := p), ls_in = (ls_in s)(i := False)\<rparr>)"

lemma call_lock_step: "lock_step db holder opened finished (\<lambda>_. []) s (call_lock i s)"
  unfolding call_lock_def by (auto simp: Let_def split: prod.split intro: lock_step.lock)

lemma call_unlock_step: "lock_step db holder opened finished durs s (call_unlock i s)"
  unfolding call_unlock_def by (auto simp: Let_def split: prod.split intro: lock_step.unlock)

lemma call_lock_run: "(lock_step db holder opened finished (\<lambda>_. []))\<^sup>*\<^sup>* s s' \<Longrightarrow>
    (lock_step db holder opened finished (\<lambda>_. []))\<^sup>*\<^sup>* s (call_lock i s')"
  by (erule rtranclp.rtrancl_into_rtrancl) (rule call_lock_step)

lemma call_unlock_run: "(lock_step db holder opened finished durs)\<^sup>*\<^sup>* s s' \<Longrightarrow>
    (lock_step db holder opened finished durs)\<^sup>*\<^sup>* s (call_unlock i s')"
  by (erule rtranclp.rtrancl_into_rtrancl) (rule call_unlock_step)

lemma mem_start_ok: "lock_start memLockDB (mem_start lost)" "mem_opened (ls_world (mem_start lost)) i = {}"
  by (simp_all add: lock_start_def mem_start_def mem_opened_def)

lemmas lock_eval = mem_start_def call_lock_def call_unlock_def PGLock_DistributedTimedLock_def PGLock_Unlock_def
  newTimedAdvisoryLock_def al_acquire_def al_release_def memLockDB_def Let_def

text \<open>Instance 0 takes the lock, 1 is refused; 0 releases it and 1 takes it.\<close>

theorem lock_exclusion_witness:
  "let s1 = call_lock 1 (call_lock 0 (mem_start [])); s2 = call_lock 1 (call_unlock 0 s1)
   in ls_in s1 0 \<and> \<not> ls_in s1 1 \<and> ls_in s2 1 \<and> (\<forall>i. ls_in s2 i \<longrightarrow> i = 1)"
proof -
  let ?s2 = "call_lock 1 (call_unlock 0 (call_lock 1 (call_lock 0 (mem_start []))))"
  have run: "(lock_step memLockDB ms_held mem_opened (\<lambda>w. set (ms_finished w)) (\<lambda>_. []))\<^sup>*\<^sup>* (mem_start []) ?s2"
    by (intro call_lock_run call_unlock_run rtranclp.rtrancl_refl)
  have one: "ls_in ?s2 1" by (simp add: lock_eval)
  have "i = 1" if "ls_in ?s2 i" for i
    by (rule lock_exclusion [OF memlk.advisory_db_axioms mem_start_ok(1) _ run that one]) (simp add: mem_start_ok)
  then show ?thesis by (simp add: Let_def one) (simp add: lock_eval)
qed

text \<open>The connection of the first transaction breaks while instance 0 has the lock.\<close>

theorem failed_unlock_is_final_witness:
  "fst (fst (PGLock_DistributedTimedLock (\<lambda>_. []) Second (ls_prov (call_unlock 0 (call_lock 0 (mem_start [0]))) 0)
     (ls_world (call_unlock 0 (call_lock 0 (mem_start [0])))))) \<noteq> None"
proof -
  let ?s1 = "call_lock 0 (mem_start [0])"
  have run: "(lock_step memLockDB ms_held mem_opened (\<lambda>w. set (ms_finished w)) (\<lambda>_. []))\<^sup>*\<^sup>* (mem_start [0]) ?s1"
    by (intro call_lock_run rtranclp.rtrancl_refl)
  obtain e p w where u: "PGLock_Unlock (ls_prov ?s1 0) (ls_world ?s1) = ((Some e, p), w)"
    by (simp add: lock_eval)
  have after: "call_unlock 0 ?s1 = \<lparr>ls_world = w, ls_prov = (ls_prov ?s1)(0 := p), ls_in = (ls_in ?s1)(0 := False)\<rparr>"
    by (simp add: call_unlock_def u)
  have has: "ls_in ?s1 0" "plp_db (ls_prov ?s1 0) \<noteq> None" by (simp_all add: lock_eval)
  have none: "mem_opened (ls_world (mem_start [0])) i \<inter> mem_opened (ls_world (mem_start [0])) j = {}" if "i \<noteq> j" for i j
    by (simp add: mem_start_ok)
  show ?thesis
    using failed_unlock_is_final [OF memlk.advisory_db_axioms mem_start_ok(1) none run has u rtranclp.rtrancl_refl, of "\<lambda>_. []" Second]
    unfolding after by blast
qed

end
