(* ===== verification/Credential_Store.thy ===== *)
theory Credential_Store
  imports Sim_Domain
begin

section \<open>Credentials of the controllers\<close>

text \<open>
  \<^verbatim>\<open>internal/credstore\<close>: the credential store over Vault, with its cache, and the store with one fixed user. The Vault
  client (\<^verbatim>\<open>hms-securestorage\<close>, \<^verbatim>\<open>hms-compcredentials\<close>) is the parameter \<open>connect\<close> for the connection and \<open>vault\<close>
  for \<^verbatim>\<open>GetCompCred\<close>; \<open>running\<close> reads the flag the service shares with its parts. The service keeps one store, which the
  methods take and return.
\<close>

subsection \<open>The stores\<close>

record MockStore =
  ms_Username :: string
  ms_Password :: string

definition Mock_IsReady :: "MockStore \<Rightarrow> bool" where
  "Mock_IsReady s = True"

definition Mock_GetCredentials :: "MockStore \<Rightarrow> xname \<Rightarrow> string \<times> string \<times> error option" where
  "Mock_GetCredentials s x = (ms_Username s, ms_Password s, None)"

definition Mock_GetControllerCredentials :: "MockStore \<Rightarrow> xname \<Rightarrow> string \<times> string \<times> error option" where
  "Mock_GetControllerCredentials s x = Mock_GetCredentials s []"

record CompCredCached =
  ccc_User :: string
  ccc_Pw :: string
  ccc_Expire :: time

record VAULTv0 =
  cg_CredCacheDuration :: int
  cg_VaultKeypath :: string
  cg_credStoreReady :: bool
  cg_credsCacheMap :: "(xname, CompCredCached) gomap"

definition CredStore_NewGlobals :: "int \<Rightarrow> string \<Rightarrow> VAULTv0" where
  "CredStore_NewGlobals credCacheDuration keypath =
     \<lparr>cg_CredCacheDuration = credCacheDuration, cg_VaultKeypath = keypath, cg_credStoreReady = False, cg_credsCacheMap = []\<rparr>"

partial_function (option) vault_loop ::
  "'w runtime \<Rightarrow> ('w \<Rightarrow> bool) \<Rightarrow> ('w, error option) io \<Rightarrow> 'w \<Rightarrow> (bool \<times> 'w) option" where
  [code]: "vault_loop R running connect w =
     (if \<not> running w then Some (False, w)
      else case connect w of
             (Some err, w) \<Rightarrow> vault_loop R running connect (time_Sleep R Second w)
           | (None, w) \<Rightarrow> Some (True, w))"

definition Vault_Init ::
  "'w runtime \<Rightarrow> ('w \<Rightarrow> bool) \<Rightarrow> ('w, error option) io \<Rightarrow> VAULTv0 \<Rightarrow> ('w, VAULTv0) go" where
  "Vault_Init R running connect globals w =
     map_option (\<lambda>(ready, w). (globals\<lparr>cg_credsCacheMap := [], cg_credStoreReady := ready\<rparr>, w)) (vault_loop R running connect w)"

definition Vault_IsReady :: "VAULTv0 \<Rightarrow> bool" where
  "Vault_IsReady b = cg_credStoreReady b"

text \<open>The clock is read only for a name that is cached.\<close>

definition GetCredentials ::
  "xnametypes \<Rightarrow> 'w runtime \<Rightarrow> (xname \<Rightarrow> ('w, error + string \<times> string) io) \<Rightarrow> xname \<Rightarrow> VAULTv0 \<Rightarrow>
   ('w, (string \<times> string \<times> error option) \<times> VAULTv0) io" where
  "GetCredentials X R vault x b w =
     (if GetHMSType X x = HMSTypeInvalid
      then ((([], [], Some (''Invalid xname for GetCredentials(), '' @ x)), b), w)
      else
        let (hit, w) =
          (case map_of (cg_credsCacheMap b) x of
             None \<Rightarrow> (None, w)
           | Some creds \<Rightarrow> (case time_Now R w of (now, w) \<Rightarrow> (if ccc_Expire creds > now then Some creds else None, w)))
        in (case hit of
              Some creds \<Rightarrow> (((ccc_User creds, ccc_Pw creds, None), b), w)
            | None \<Rightarrow>
                if cg_credStoreReady b
                then (case vault x w of
                        (Inl credErr, w) \<Rightarrow> ((([], [], Some credErr), b), w)
                      | (Inr (user, pw), w) \<Rightarrow>
                          (case time_Now R w of (now, w) \<Rightarrow>
                             (((user, pw, None),
                               b\<lparr>cg_credsCacheMap := AList.update x
                                   \<lparr>ccc_User = user, ccc_Pw = pw, ccc_Expire = now + wrap64 (cg_CredCacheDuration b * Second)\<rparr>
                                   (cg_credsCacheMap b)\<rparr>), w)))
                else ((([], [], Some ''Credentials store not ready''), b), w)))"

partial_function (option) controller_loop :: "xnametypes \<Rightarrow> xname \<Rightarrow> xname \<Rightarrow> xname option" where
  [code]: "controller_loop X x i =
     (if GetHMSType X i = HMSTypeInvalid then Some x
      else if IsHMSTypeController X (GetHMSType X i) then Some i
      else controller_loop X x (GetHMSCompParent X i))"

definition GetControllerCredentials ::
  "xnametypes \<Rightarrow> 'w runtime \<Rightarrow> (xname \<Rightarrow> ('w, error + string \<times> string) io) \<Rightarrow> xname \<Rightarrow> VAULTv0 \<Rightarrow>
   ('w, (string \<times> string \<times> error option) \<times> VAULTv0) go" where
  "GetControllerCredentials X R vault x b w =
     (if GetHMSType X x = HMSTypeInvalid
      then Some ((([], [], Some (''Invalid xname for GetControllerCredentials(), '' @ x)), b), w)
      else case controller_loop X x x of
             None \<Rightarrow> None
           | Some i \<Rightarrow> Some (GetCredentials X R vault i b w))"

subsection \<open>The controller of a component\<close>

text \<open>
  The first controller among the component and its ancestors, up to the first name that is no xname, or else the component
  itself.
\<close>

definition lineage :: "xnametypes \<Rightarrow> xname \<Rightarrow> nat \<Rightarrow> xname list" where
  "lineage X x n = takeWhile (\<lambda>i. GetHMSType X i \<noteq> HMSTypeInvalid) (map (\<lambda>k. ancestor X k x) [0..<n])"

definition controller_of :: "xnametypes \<Rightarrow> xname \<Rightarrow> nat \<Rightarrow> xname" where
  "controller_of X x n = (case find (\<lambda>i. IsHMSTypeController X (GetHMSType X i)) (lineage X x n) of Some i \<Rightarrow> i | None \<Rightarrow> x)"

lemma lineage_Suc: "lineage X i (Suc n) =
    (if GetHMSType X i = HMSTypeInvalid then [] else i # lineage X (GetHMSCompParent X i) n)"
proof -
  have "map (\<lambda>k. ancestor X k i) [0..<Suc n] = i # map (\<lambda>k. ancestor X k (GetHMSCompParent X i)) [0..<n]"
    by (simp only: map_upt_Suc) (simp add: ancestor_Suc)
  then show ?thesis by (simp add: lineage_def)
qed

lemma controller_loop_lineage:
  assumes "GetHMSType X (ancestor X n i) = HMSTypeInvalid"
  shows "controller_loop X x i =
    Some (case find (\<lambda>i. IsHMSTypeController X (GetHMSType X i)) (lineage X i (Suc n)) of Some i \<Rightarrow> i | None \<Rightarrow> x)"
  using assms
proof (induction n arbitrary: i)
  case 0
  then show ?case by (simp add: ancestor_def lineage_Suc controller_loop.simps)
next
  case (Suc n)
  then have "GetHMSType X (ancestor X n (GetHMSCompParent X i)) = HMSTypeInvalid" by (simp add: ancestor_Suc)
  note ih = Suc.IH [OF this]
  show ?case by (subst controller_loop.simps, subst lineage_Suc) (auto simp: ih)
qed

subsection \<open>What the cache may answer\<close>

text \<open>
  \<open>clock\<close> is the time, and \<open>said w\<close> the answers Vault has given: for which name, which credentials, and when. Time only
  passes; a call of Vault that succeeds adds its answer.
\<close>

locale vault_world =
  fixes R :: "'w runtime" and vault :: "xname \<Rightarrow> ('w, error + string \<times> string) io"
    and clock :: "'w \<Rightarrow> time" and said :: "'w \<Rightarrow> (xname \<times> string \<times> string \<times> time) set"
  assumes now: "time_Now R w = (t, w') \<Longrightarrow> t = clock w \<and> clock w \<le> clock w' \<and> said w' = said w"
    and answer: "vault x w = (Inr (u, p), w') \<Longrightarrow> clock w \<le> clock w' \<and> said w' = insert (x, u, p, clock w') (said w)"
    and refusal: "vault x w = (Inl e, w') \<Longrightarrow> clock w \<le> clock w' \<and> said w' = said w"

text \<open>The states of a store after any calls, with anything that goes on outside in between.\<close>

inductive creds_reach ::
  "xnametypes \<Rightarrow> 'w runtime \<Rightarrow> (xname \<Rightarrow> ('w, error + string \<times> string) io) \<Rightarrow> ('w \<Rightarrow> time) \<Rightarrow>
   ('w \<Rightarrow> (xname \<times> string \<times> string \<times> time) set) \<Rightarrow> VAULTv0 \<Rightarrow> 'w \<Rightarrow> bool"
  for X R vault clock said where
  start: "cg_credsCacheMap b = [] \<Longrightarrow> creds_reach X R vault clock said b w"
| call: "creds_reach X R vault clock said b w \<Longrightarrow> GetControllerCredentials X R vault x b w = Some ((r, b'), w') \<Longrightarrow>
    creds_reach X R vault clock said b' w'"
| outside: "creds_reach X R vault clock said b w \<Longrightarrow> clock w \<le> clock w' \<Longrightarrow> said w \<subseteq> said w' \<Longrightarrow>
    creds_reach X R vault clock said b w'"

definition cache_ok :: "('w \<Rightarrow> (xname \<times> string \<times> string \<times> time) set) \<Rightarrow> VAULTv0 \<Rightarrow> 'w \<Rightarrow> bool" where
  "cache_ok said b w \<longleftrightarrow> (\<forall>x c. map_of (cg_credsCacheMap b) x = Some c \<longrightarrow>
     (\<exists>t. (x, ccc_User c, ccc_Pw c, t) \<in> said w \<and> ccc_Expire c = t + wrap64 (cg_CredCacheDuration b * Second)))"

text \<open>An answer is recent when Vault gave it since \<open>w\<close>, or before and its time is not over at \<open>w\<close>.\<close>

definition recent :: "('w \<Rightarrow> time) \<Rightarrow> VAULTv0 \<Rightarrow> 'w \<Rightarrow> time \<Rightarrow> bool" where
  "recent clock b w t \<longleftrightarrow> clock w \<le> t \<or> clock w < t + wrap64 (cg_CredCacheDuration b * Second)"

context vault_world
begin

lemma GetCredentials_ask:
  assumes "vault x w = (a, w1)" "cg_credStoreReady b" and ok: "cache_ok said b w0" "said w0 = said w" "clock w0 \<le> clock w"
  shows "\<exists>user pw err b' w'.
    (case a of Inl credErr \<Rightarrow> ((([], [], Some credErr), b), w1)
     | Inr (user, pw) \<Rightarrow> (case time_Now R w1 of (now, w) \<Rightarrow>
         (((user, pw, None), b\<lparr>cg_credsCacheMap := AList.update x
             \<lparr>ccc_User = user, ccc_Pw = pw, ccc_Expire = now + wrap64 (cg_CredCacheDuration b * Second)\<rparr>
             (cg_credsCacheMap b)\<rparr>), w))) = (((user, pw, err), b'), w') \<and>
    cache_ok said b' w' \<and> cg_CredCacheDuration b' = cg_CredCacheDuration b \<and> said w0 \<subseteq> said w' \<and>
    (err = None \<longrightarrow> (\<exists>t. (x, user, pw, t) \<in> said w' \<and> recent clock b w0 t))"
proof (cases a)
  case (Inl e)
  then show ?thesis using refusal [of x w e w1] assms by (auto simp: cache_ok_def)
next
  case (Inr up)
  obtain u p where up: "up = (u, p)" by fastforce
  obtain t w2 where n: "time_Now R w1 = (t, w2)" by fastforce
  have s: "said w2 = insert (x, u, p, t) (said w0)" "clock w0 \<le> t"
    using answer [of x w u p w1] now [OF n] assms(1,4,5) Inr up by auto
  then show ?thesis using ok(1) Inr up n by (auto simp: cache_ok_def map_of_AList_update recent_def)
qed

lemma GetCredentials_recent:
  assumes ok: "cache_ok said b w"
  shows "\<exists>user pw err b' w'. GetCredentials X R vault x b w = (((user, pw, err), b'), w') \<and>
    cache_ok said b' w' \<and> cg_CredCacheDuration b' = cg_CredCacheDuration b \<and> said w \<subseteq> said w' \<and>
    (err = None \<longrightarrow> (\<exists>t. (x, user, pw, t) \<in> said w' \<and> recent clock b w t))"
proof (cases "map_of (cg_credsCacheMap b) x")
  case None
  obtain a w1 where a: "vault x w = (a, w1)" by fastforce
  show ?thesis
    using None ok GetCredentials_ask [OF a _ ok] a by (auto simp: GetCredentials_def)
next
  case (Some c)
  obtain t w1 where n: "time_Now R w = (t, w1)" by fastforce
  note n' = now [OF n]
  have ok1: "cache_ok said b w1" using ok n' by (simp add: cache_ok_def)
  obtain a w2 where a: "vault x w1 = (a, w2)" by fastforce
  show ?thesis
  proof (cases "ccc_Expire c > t")
    case True
    obtain s where "(x, ccc_User c, ccc_Pw c, s) \<in> said w" "ccc_Expire c = s + wrap64 (cg_CredCacheDuration b * Second)"
      using ok Some unfolding cache_ok_def by blast
    then show ?thesis using True Some n n' ok ok1 by (auto simp: GetCredentials_def recent_def)
  next
    case False
    then show ?thesis
      using Some n n' ok ok1 GetCredentials_ask [OF a _ ok] a by (auto simp: GetCredentials_def)
  qed
qed

lemma GetControllerCredentials_recent:
  assumes "cache_ok said b w" "GetHMSType X (ancestor X n x) = HMSTypeInvalid"
  shows "\<exists>user pw err b' w'. GetControllerCredentials X R vault x b w = Some (((user, pw, err), b'), w') \<and>
    (err = None \<longrightarrow> (\<exists>t. (controller_of X x (Suc n), user, pw, t) \<in> said w' \<and> recent clock b w t))"
  using controller_loop_lineage [OF assms(2), of x] GetCredentials_recent [OF assms(1), of X "controller_of X x (Suc n)"]
  by (auto simp: GetControllerCredentials_def controller_of_def)

lemma reach_cache_ok: "creds_reach X R vault clock said b w \<Longrightarrow> cache_ok said b w"
proof (induction rule: creds_reach.induct)
  case (call b w x r b' w')
  show ?case
  proof (cases "GetHMSType X x = HMSTypeInvalid")
    case False
    then obtain i where "GetCredentials X R vault i b w = ((r, b'), w')"
      using call(2) by (auto simp: GetControllerCredentials_def split: option.splits)
    then show ?thesis using GetCredentials_recent [OF call.IH, of X i] by auto
  qed (use call in \<open>auto simp: GetControllerCredentials_def\<close>)
qed (fastforce simp: cache_ok_def)+

end

text \<open>
  C34: However often the store was asked before, and whatever went on in between, asking for the credentials of a component returns,
  and an answer without an error is one Vault gave for the controller of the component (for the component itself if it has
  none), in this call or less than the cache duration ago.
\<close>

theorem controller_credentials_recent:
  assumes vw: "vault_world R vault clock said"
    and reach: "creds_reach X R vault clock said b w"
    and ends: "GetHMSType X (ancestor X n x) = HMSTypeInvalid"
  shows "\<exists>user pw err b' w'. GetControllerCredentials X R vault x b w = Some (((user, pw, err), b'), w') \<and>
    (err = None \<longrightarrow> (\<exists>t. (controller_of X x (Suc n), user, pw, t) \<in> said w' \<and>
       (clock w \<le> t \<or> clock w < t + wrap64 (cg_CredCacheDuration b * Second))))"
  using vault_world.GetControllerCredentials_recent [OF vw vault_world.reach_cache_ok [OF vw reach] ends]
  unfolding recent_def .

subsection \<open>A Vault in memory\<close>

text \<open>Every reading of the clock and every answer takes a second; the password is the number of the answer.\<close>

record sim_vault =
  sv_clock :: time
  sv_said :: "(xname \<times> string \<times> string \<times> time) list"

definition sv_tick :: "sim_vault \<Rightarrow> sim_vault" where
  "sv_tick w = w\<lparr>sv_clock := sv_clock w + Second\<rparr>"

definition sv_runtime :: "sim_vault runtime" where
  "sv_runtime = \<lparr>uuid_New = (\<lambda>w. ([], w)), time_Now = (\<lambda>w. (sv_clock w, sv_tick w)),
     time_Sleep = (\<lambda>d w. w\<lparr>sv_clock := sv_clock w + d\<rparr>)\<rparr>"

definition sv_answer :: "xname \<Rightarrow> (sim_vault, error + string \<times> string) io" where
  "sv_answer x w = (let w = sv_tick w; pw = replicate (length (sv_said w)) CHR ''p'' in
     (Inr (''root'', pw), w\<lparr>sv_said := (x, ''root'', pw, sv_clock w) # sv_said w\<rparr>))"

interpretation simvw: vault_world sv_runtime sv_answer sv_clock "\<lambda>w. set (sv_said w)"
  by unfold_locales (auto simp: sv_runtime_def sv_answer_def sv_tick_def Let_def Second_def)

text \<open>Two calls for nodes of the same controller: the second is answered from the cache.\<close>

theorem controller_credentials_recent_witness:
  "\<exists>b1 w1 b2 w2.
    GetControllerCredentials simXN sv_runtime sv_answer ''x0c0s0b0n0''
      ((CredStore_NewGlobals 600 ''secret/hms-creds'')\<lparr>cg_credStoreReady := True\<rparr>) \<lparr>sv_clock = 0, sv_said = []\<rparr> =
      Some (((''root'', [], None), b1), w1) \<and>
    GetControllerCredentials simXN sv_runtime sv_answer ''x0c0s0b0n1'' b1 w1 = Some (((''root'', [], None), b2), w2) \<and>
    (\<exists>t. (''x0c0s0b0'', ''root'', [], t) \<in> set (sv_said w2) \<and> (sv_clock w1 \<le> t \<or> sv_clock w1 < t + 600 * Second))"
proof -
  let ?b = "(CredStore_NewGlobals 600 ''secret/hms-creds'')\<lparr>cg_credStoreReady := True\<rparr>" and ?w = "\<lparr>sv_clock = 0, sv_said = []\<rparr>"
  let ?call = "GetControllerCredentials simXN sv_runtime sv_answer"
  obtain b1 w1 where c1: "?call ''x0c0s0b0n0'' ?b ?w = Some (((''root'', [], None), b1), w1)" and b1: "cg_CredCacheDuration b1 = 600"
    and hit: "\<exists>b2 w2. ?call ''x0c0s0b0n1'' b1 w1 = Some (((''root'', [], None), b2), w2)"
    by (simp add: GetControllerCredentials_def controller_loop.simps simXN_def GetCredentials_def CredStore_NewGlobals_def
        sv_runtime_def sv_answer_def sv_tick_def Let_def wrap64_def Second_def)
  have "creds_reach simXN sv_runtime sv_answer sv_clock (\<lambda>w. set (sv_said w)) b1 w1"
    by (rule creds_reach.call [OF creds_reach.start c1]) (simp add: CredStore_NewGlobals_def)
  moreover have "GetHMSType simXN (ancestor simXN 4 ''x0c0s0b0n1'') = HMSTypeInvalid"
    by (simp add: ancestor_def simXN_def eval_nat_numeral)
  ultimately have "\<exists>user pw err b' w'. ?call ''x0c0s0b0n1'' b1 w1 = Some (((user, pw, err), b'), w') \<and>
    (err = None \<longrightarrow> (\<exists>t. (controller_of simXN ''x0c0s0b0n1'' (Suc 4), user, pw, t) \<in> set (sv_said w') \<and>
       (sv_clock w1 \<le> t \<or> sv_clock w1 < t + wrap64 (cg_CredCacheDuration b1 * Second))))"
    by (rule controller_credentials_recent [OF simvw.vault_world_axioms])
  moreover have "controller_of simXN ''x0c0s0b0n1'' (Suc 4) = ''x0c0s0b0''"
    by code_simp
  moreover have "wrap64 (600 * Second) = 600 * Second" by (simp add: wrap64_def Second_def)
  ultimately show ?thesis using c1 b1 hit by auto
qed

end
