(* ===== verification/Authentication.thy ===== *)
theory Authentication
  imports Api_Handlers
begin

section \<open>Authentication\<close>

text \<open>
  \<^verbatim>\<open>internal/auth\<close>, and the part of \<^verbatim>\<open>runPCS\<close> (\<^verbatim>\<open>service.go\<close>) that selects the providers: who may call the protected
  routes, and the tokens the service itself uses towards the hardware state manager.

  The packages that fetch keys, verify tokens, decide on permissions and exchange tokens are records of functions. A middleware turns a
  handler into a handler; \<^verbatim>\<open>%q\<close> of a name without control characters is its JSON text. \<open>pause d\<close> waits for \<open>d\<close> and returns early with the error of the context when that is done.
\<close>

type_synonym 'w handler = "api_request \<Rightarrow> ('w, api_response) go"
type_synonym 'w middleware = "'w handler \<Rightarrow> 'w handler"

subsection \<open>Inbound, by a set of keys (jwks.go)\<close>

text \<open>
  An error of \<^verbatim>\<open>jwk.Fetch\<close> comes with whether it contains \<^verbatim>\<open>io.EOF\<close>; \<open>jl_Middleware\<close> is \<^verbatim>\<open>jwtauth.Verifier\<close> around
  \<^verbatim>\<open>AuthenticatorWithRequiredClaims\<close>.
\<close>

record ('w, 's, 'k) jwk_lib =
  jl_Fetch :: "string \<Rightarrow> ('w, (error \<times> bool) + 's) io"
  jl_Marshal :: "'s \<Rightarrow> error + string"
  jl_NewKeySet :: "string \<Rightarrow> error + 'k"
  jl_Middleware :: "'k \<Rightarrow> string list \<Rightarrow> 'w middleware"

definition RoundTrip :: "error + http_response \<Rightarrow> error + http_response" where
  "RoundTrip out =
     (case out of Inr resp \<Rightarrow> if hr_StatusCode resp \<noteq> 200 then Inl (''status code: '' @ Itoa (hr_StatusCode resp)) else Inr resp
      | Inl err \<Rightarrow> Inl err)"

definition fetchPublicKeyFromURL :: "('w, 's, 'k) jwk_lib \<Rightarrow> string \<Rightarrow> ('w, error + 'k) io" where
  "fetchPublicKeyFromURL L url w =
     (case jl_Fetch L url w of
        (Inl (err, eof), w) \<Rightarrow> (Inl ((if eof then ''received empty response for key: '' else []) @ err), w)
      | (Inr keys, w) \<Rightarrow>
          (case jl_Marshal L keys of
             Inl err \<Rightarrow> (Inl (''failed to marshal JWKS: '' @ err), w)
           | Inr jwks \<Rightarrow>
               (case jl_NewKeySet L jwks of
                  Inl err \<Rightarrow> (Inl (''failed to initialize JWKS: '' @ err), w)
                | Inr tokenAuth \<Rightarrow> (Inr tokenAuth, w))))"

text \<open>Attempt \<open>i\<close> of the loop: after a failed one it waits, except after the last.\<close>

function jwks_loop ::
  "('w, 's, 'k) jwk_lib \<Rightarrow> (duration \<Rightarrow> ('w, error option) io) \<Rightarrow> string \<Rightarrow> nat \<Rightarrow> ('w, error + 'k) io" where
  "jwks_loop L pause url i w =
     (case fetchPublicKeyFromURL L url w of
        (Inr tokenAuth, w) \<Rightarrow> (Inr tokenAuth, w)
      | (Inl err, w) \<Rightarrow>
          if i \<ge> 5 then (Inl (''initialize JWKS: '' @ err), w)
          else (case pause (5 * Second) w of
                  (Some ctxErr, w) \<Rightarrow> (Inl ctxErr, w)
                | (None, w) \<Rightarrow> jwks_loop L pause url (Suc i) w))"
  by auto
termination
  by (relation "measure (\<lambda>(L, pause, url, i, w). 6 - i)") auto

declare jwks_loop.simps [simp del]

definition NewJWKSAuth ::
  "('w, 's, 'k) jwk_lib \<Rightarrow> (duration \<Rightarrow> ('w, error option) io) \<Rightarrow> string \<Rightarrow> ('w, error + 'k option) io" where
  "NewJWKSAuth L pause url w =
     (if url \<noteq> [] then (let (r, w) = jwks_loop L pause url 0 w in (map_sum id Some r, w)) else (Inr None, w))"

definition jwks_Wrap :: "('w, 's, 'k) jwk_lib \<Rightarrow> 'k option \<Rightarrow> 'w middleware" where
  "jwks_Wrap L tokenAuth nxt =
     (case tokenAuth of None \<Rightarrow> nxt | Some ta \<Rightarrow> jl_Middleware L ta [''sub'', ''iss'', ''aud''] nxt)"

subsection \<open>Inbound, by TokenSmith (tokensmith.go)\<close>

record TokensmithConfig =
  tsc_JWKSURL :: string
  tsc_Issuer :: string
  tsc_Audience :: string
  tsc_Mode :: string
  tsc_ModelPath :: string
  tsc_PolicyPath :: string
  tsc_GroupingPath :: string

text \<open>The claims of a token, as far as they are looked at; a principal is its name and its roles.\<close>

datatype claim = ClaimString string | ClaimArray "claim list" | ClaimOther

definition tokenSmithPrincipal :: "(string, claim) gomap \<Rightarrow> error + string \<times> string list" where
  "tokenSmithPrincipal claims =
     (case map_of claims ''sub'' of
        Some (ClaimString subject) \<Rightarrow>
          if subject = [] then Inl ''missing subject''
          else Inr (subject,
            case map_of claims ''scope'' of
              Some (ClaimArray scopes) \<Rightarrow> List.map_filter (\<lambda>c. case c of ClaimString role \<Rightarrow> Some role | _ \<Rightarrow> None) scopes
            | _ \<Rightarrow> [])
      | _ \<Rightarrow> Inl ''missing subject'')"

record jwk_key =
  jk_KeyID :: string
  jk_Algorithm :: "string option"
  jk_Public :: "error + string"

record ('w, 'z) tokensmith_lib =
  tl_Fetch :: "string \<Rightarrow> ('w, error + jwk_key list) io"
  tl_IsThumbprint :: "string \<Rightarrow> bool"
  tl_ValidAlgorithm :: "string \<Rightarrow> bool"
  tl_Authn :: "string \<Rightarrow> string \<Rightarrow> string \<Rightarrow> ((string, claim) gomap \<Rightarrow> error + string \<times> string list) \<Rightarrow> error + 'w middleware"
  tl_Build :: "string \<Rightarrow> string \<Rightarrow> string option \<Rightarrow> ('w, error + 'z) io"
  tl_Authz :: "'z option \<Rightarrow> string \<Rightarrow> 'w middleware"

text \<open>A key of the set can be used when all tests on it pass; \<open>jk_Public\<close> is the type of its public key.\<close>

definition usable_key :: "('w, 'z) tokensmith_lib \<Rightarrow> jwk_key \<Rightarrow> bool" where
  "usable_key L key \<longleftrightarrow> tl_IsThumbprint L (jk_KeyID key) \<and>
     (case jk_Algorithm key of Some a \<Rightarrow> tl_ValidAlgorithm L a | None \<Rightarrow> True) \<and>
     (case jk_Public key of Inl err \<Rightarrow> False | Inr t \<Rightarrow> t = ''*rsa.PublicKey'' \<or> t = ''*ecdsa.PublicKey'')"

definition checkTokenSmithJWKS :: "('w, 'z) tokensmith_lib \<Rightarrow> string \<Rightarrow> ('w, error option) io" where
  "checkTokenSmithJWKS L url w =
     (case tl_Fetch L url w of
        (Inl err, w) \<Rightarrow> (Some err, w)
      | (Inr keys, w) \<Rightarrow>
          (if list_ex (usable_key L) keys then None else Some ''JWKS contains no usable TokenSmith verification keys'', w))"

definition NewTokenSmithAuth :: "('w, 'z) tokensmith_lib \<Rightarrow> TokensmithConfig \<Rightarrow> ('w, error + 'w middleware \<times> 'w middleware) io" where
  "NewTokenSmithAuth L c w =
     (if tsc_Mode c \<notin> {''off'', ''shadow'', ''enforce''}
      then (Inl (''invalid tokensmith-authz-mode '' @ json_string (tsc_Mode c) @ '': use off, shadow, or enforce''), w)
      else if tsc_Issuer c = [] \<or> tsc_Audience c = [] \<or> tsc_JWKSURL c = []
      then (Inl ''TokenSmith requires tokensmith-issuer, tokensmith-audience, and tokensmith-jwks-url'', w)
      else if tsc_Mode c \<noteq> ''off'' \<and> tsc_PolicyPath c = []
      then (Inl (''TokenSmith requires tokensmith-authz-policy-path in '' @ tsc_Mode c @ '' mode''), w)
      else case tl_Authn L (tsc_Issuer c) (tsc_Audience c) (tsc_JWKSURL c) tokenSmithPrincipal of
        Inl err \<Rightarrow> (Inl (''configure TokenSmith authentication: '' @ err), w)
      | Inr authenticate \<Rightarrow>
          (case (if tsc_Mode c \<noteq> ''off''
                 then (case tl_Build L (tsc_PolicyPath c) (tsc_GroupingPath c)
                              (if tsc_ModelPath c \<noteq> [] then Some (tsc_ModelPath c) else None) w of
                         (Inl err, w) \<Rightarrow> (Inl (''configure TokenSmith authorization: '' @ err), w)
                       | (Inr z, w) \<Rightarrow> (Inr (Some z), w))
                 else (Inr None, w)) of
             (Inl err, w) \<Rightarrow> (Inl err, w)
           | (Inr authorizer, w) \<Rightarrow>
               (case checkTokenSmithJWKS L (tsc_JWKSURL c) w of
                  (Some err, w) \<Rightarrow> (Inl (''initialize TokenSmith JWKS: '' @ err), w)
                | (None, w) \<Rightarrow> (Inr (authenticate, tl_Authz L authorizer (tsc_Mode c)), w))))"

definition tokenSmith_Wrap :: "'w middleware \<times> 'w middleware \<Rightarrow> 'w middleware" where
  "tokenSmith_Wrap a nxt = fst a (snd a nxt)"

subsection \<open>The inbound provider the service starts with (service.go)\<close>

text \<open>The flags, with the variable \<^verbatim>\<open>PCS_JWKS_URL\<close> over the URL for a set of keys.\<close>

record auth_flags =
  af_authProvider :: string
  af_jwksURL :: string
  af_tokensmith :: TokensmithConfig

definition jwks_url :: "(string \<Rightarrow> string) \<Rightarrow> auth_flags \<Rightarrow> string" where
  "jwks_url Getenv pcs = (if Getenv ''PCS_JWKS_URL'' \<noteq> [] then Getenv ''PCS_JWKS_URL'' else af_jwksURL pcs)"

definition select_auth ::
  "('w, 's, 'k) jwk_lib \<Rightarrow> ('w, 'z) tokensmith_lib \<Rightarrow> (duration \<Rightarrow> ('w, error option) io) \<Rightarrow> (string \<Rightarrow> string) \<Rightarrow> auth_flags \<Rightarrow>
   ('w, error + 'w middleware) io" where
  "select_auth L TL pause Getenv pcs w =
     (if af_authProvider pcs = ''jwks''
      then (let (r, w) = NewJWKSAuth L pause (jwks_url Getenv pcs) w in (map_sum id (jwks_Wrap L) r, w))
      else if af_authProvider pcs = ''tokensmith''
      then (let (r, w) = NewTokenSmithAuth TL (af_tokensmith pcs) w in (map_sum id tokenSmith_Wrap r, w))
      else (Inl (''invalid auth-provider '' @ json_string (af_authProvider pcs) @ '': use jwks or tokensmith''), w))"

subsection \<open>Outbound tokens (tokensmith\_client.go)\<close>

text \<open>
  \<open>to_Initialize\<close> makes a client for a URL with the certificate and key of the service, or with the bootstrap token
  (\<open>None\<close>, one attempt), and initialises it; an error of \<open>to_Refresh\<close> comes with whether it is
  \<^verbatim>\<open>ErrRefreshTokenExpired\<close>. A URL parses to scheme and host.
\<close>

record ('w, 'c) token_lib =
  to_ParseURL :: "string \<Rightarrow> error + string \<times> string"
  to_Getenv :: "string \<Rightarrow> string"
  to_LoadCA :: "string \<Rightarrow> ('w, error option) io"
  to_LoadX509KeyPair :: "string \<Rightarrow> string \<Rightarrow> ('w, error option) io"
  to_Initialize :: "string \<Rightarrow> (string \<times> string) option \<Rightarrow> ('w, error + 'c) io"
  to_Refresh :: "'c \<Rightarrow> ('w, (error \<times> bool) option) io"
  to_ServiceToken :: "'c \<Rightarrow> ('w, (string \<times> time) option) io"

record 'c token_source =
  src_url :: string
  src_certPath :: string
  src_keyPath :: string
  src_client :: "'c option"

definition TrimSpace :: "string \<Rightarrow> string" where
  "TrimSpace s = (let sp = (\<lambda>c. c \<in> set [CHR '' '', char_of (9 :: nat), char_of (10 :: nat), char_of (11 :: nat), char_of (12 :: nat), char_of (13 :: nat)])
     in rev (dropWhile sp (rev (dropWhile sp s))))"

definition src_initialize :: "('w, 'c) token_lib \<Rightarrow> 'c token_source \<Rightarrow> ('w, error option \<times> 'c token_source) io" where
  "src_initialize L s w =
     (case (if src_certPath s \<noteq> []
            then (case to_LoadX509KeyPair L (src_certPath s) (src_keyPath s) w of
                    (Some err, w) \<Rightarrow> (Inl (''load TokenSmith service identity: '' @ err), w)
                  | (None, w) \<Rightarrow> (Inr (Some (src_certPath s, src_keyPath s)), w))
            else (Inr None, w)) of
        (Inl err, w) \<Rightarrow> ((Some err, s), w)
      | (Inr identity, w) \<Rightarrow>
          (case to_Initialize L (src_url s) identity w of
             (Inl err, w) \<Rightarrow> ((Some err, s), w)
           | (Inr client, w) \<Rightarrow> ((None, s\<lparr>src_client := Some client\<rparr>), w)))"

definition NewTokenSmithTokenSource :: "('w, 'c) token_lib \<Rightarrow> string \<Rightarrow> string \<Rightarrow> ('w, error + 'c token_source) io" where
  "NewTokenSmithTokenSource L url caFile w =
     (let certPath = TrimSpace (to_Getenv L ''TOKENSMITH_SERVICE_IDENTITY_CERT'');
          keyPath = TrimSpace (to_Getenv L ''TOKENSMITH_SERVICE_IDENTITY_KEY'');
          bootstrapToken = TrimSpace (to_Getenv L ''TOKENSMITH_BOOTSTRAP_TOKEN'') in
      case to_ParseURL L url of
        Inl err \<Rightarrow> (Inl ''outbound TokenSmith requires a valid smd-tokensmith-url'', w)
      | Inr (scheme, host) \<Rightarrow>
          if host = [] \<or> (scheme \<noteq> ''http'' \<and> scheme \<noteq> ''https'')
          then (Inl ''outbound TokenSmith requires a valid smd-tokensmith-url'', w)
          else if (certPath = []) \<noteq> (keyPath = [])
          then (Inl ''TOKENSMITH_SERVICE_IDENTITY_CERT and TOKENSMITH_SERVICE_IDENTITY_KEY must be set together'', w)
          else if certPath = [] \<and> bootstrapToken = []
          then (Inl ''outbound TokenSmith requires TOKENSMITH_BOOTSTRAP_TOKEN or service identity certificates'', w)
          else (case (if caFile \<noteq> [] then to_LoadCA L caFile w else (None, w)) of
             (Some err, w) \<Rightarrow> (Inl err, w)
           | (None, w) \<Rightarrow>
               if certPath \<noteq> [] \<and> scheme \<noteq> ''https'' then (Inl ''TokenSmith service identity requires an HTTPS URL'', w)
               else (case src_initialize L \<lparr>src_url = url, src_certPath = certPath, src_keyPath = keyPath, src_client = None\<rparr> w of
                       ((Some err, _), w) \<Rightarrow> (Inl (''initialize outbound TokenSmith: '' @ err), w)
                     | ((None, s), w) \<Rightarrow> (Inr s, w))))"

text \<open>A source comes from \<open>NewTokenSmithTokenSource\<close> and has a client: without one the call panics.\<close>

definition src_Token :: "('w, 'c) token_lib \<Rightarrow> 'w runtime \<Rightarrow> 'c token_source \<Rightarrow> ('w, (error + string \<times> time) \<times> 'c token_source) go" where
  "src_Token L R s w =
     (case src_client s of None \<Rightarrow> None | Some c \<Rightarrow>
        (case (case to_Refresh L c w of
                 (None, w) \<Rightarrow> ((None, s), w)
               | (Some (err, expired), w) \<Rightarrow>
                   if \<not> expired \<or> src_certPath s = [] then ((Some (''refresh outbound TokenSmith token: '' @ err), s), w)
                   else (case src_initialize L s w of
                           ((Some err, s), w) \<Rightarrow> ((Some (''renew outbound TokenSmith session: '' @ err), s), w)
                         | ((None, s), w) \<Rightarrow> ((None, s), w))) of
           ((Some err, s), w) \<Rightarrow> Some ((Inl err, s), w)
         | ((None, s), w) \<Rightarrow>
             (case src_client s of None \<Rightarrow> None | Some c \<Rightarrow>
               (case to_ServiceToken L c w of
                  (None, w) \<Rightarrow> Some ((Inl ''TokenSmith returned no usable service token'', s), w)
                | (Some (token, expires), w) \<Rightarrow>
                    if token = [] then Some ((Inl ''TokenSmith returned no usable service token'', s), w)
                    else (case time_Now R w of (now, w) \<Rightarrow>
                      Some ((if expires > now then Inr (token, expires) else Inl ''TokenSmith returned no usable service token'', s), w))))))"

end
