(* ===== verification/Access_Control.thy ===== *)
theory Access_Control
  imports Authentication Api_Roundtrip
begin

section \<open>Who may call the API\<close>

text \<open>
  The routes as the service registers them, with the authentication it started with: starting fails rather than leave a
  configured check out, and an unverified request gets no further than the check.
\<close>

text \<open>
  \<open>verified\<close> are the requests with a token that the packages accept. Their middlewares answer any other request with 401
  without calling the handler they wrap; the verifier with a key set passes an accepted request on.
\<close>

locale token_check =
  fixes L :: "('w, 's, 'k) jwk_lib" and TL :: "('w, 'z) tokensmith_lib" and verified :: "api_request \<Rightarrow> bool"
  assumes keys_reject: "\<not> verified req \<Longrightarrow> \<exists>resp. jl_Middleware L k claims h req w = Some (resp, w) \<and> ar_Status resp = Some 401"
    and keys_pass: "verified req \<Longrightarrow> jl_Middleware L k claims h req w = h req w"
    and smith_reject: "tl_Authn TL issuer audience url mapper = Inr m \<Longrightarrow> \<not> verified req \<Longrightarrow>
      \<exists>resp. m h req w = Some (resp, w) \<and> ar_Status resp = Some 401"

lemma NewJWKSAuth_Some:
  assumes "NewJWKSAuth L pause url w = (Inr k, w')"
  shows "k = None \<longleftrightarrow> url = []"
  using assms by (auto simp: NewJWKSAuth_def map_sum_def split: if_splits prod.splits sum.splits)

lemma NewTokenSmithAuth_authn:
  assumes "NewTokenSmithAuth TL c w = (Inr (m, z), w')"
  shows "tl_Authn TL (tsc_Issuer c) (tsc_Audience c) (tsc_JWKSURL c) tokenSmithPrincipal = Inr m"
  using assms by (auto simp: NewTokenSmithAuth_def split: if_splits prod.splits sum.splits option.splits)

context token_check
begin

text \<open>What the selected middleware does.\<close>

lemma selected:
  assumes "select_auth L TL pause Getenv pcs w0 = (Inr wrap, w1)"
  shows select_rejects: "af_authProvider pcs = ''tokensmith'' \<or> jwks_url Getenv pcs \<noteq> [] \<Longrightarrow> \<not> verified req \<Longrightarrow>
      \<exists>resp. wrap h req w = Some (resp, w) \<and> ar_Status resp = Some 401"
    and select_passes: "af_authProvider pcs = ''jwks'' \<Longrightarrow> verified req \<or> jwks_url Getenv pcs = [] \<Longrightarrow> wrap h req w = h req w"
proof -
  consider k where "af_authProvider pcs = ''jwks''" "NewJWKSAuth L pause (jwks_url Getenv pcs) w0 = (Inr k, w1)" "wrap = jwks_Wrap L k"
    | m z where "af_authProvider pcs = ''tokensmith''" "NewTokenSmithAuth TL (af_tokensmith pcs) w0 = (Inr (m, z), w1)"
        "wrap = tokenSmith_Wrap (m, z)"
    using assms by (auto simp: select_auth_def map_sum_def split: if_splits prod.splits sum.splits)
  note cases = this
  show "\<exists>resp. wrap h req w = Some (resp, w) \<and> ar_Status resp = Some 401"
    if on: "af_authProvider pcs = ''tokensmith'' \<or> jwks_url Getenv pcs \<noteq> []" "\<not> verified req"
  proof (rule cases)
    fix k
    assume a: "af_authProvider pcs = ''jwks''" "NewJWKSAuth L pause (jwks_url Getenv pcs) w0 = (Inr k, w1)" "wrap = jwks_Wrap L k"
    then obtain ta where "k = Some ta" using NewJWKSAuth_Some [OF a(2)] on(1) by auto
    then show ?thesis using keys_reject [OF on(2)] a(3) by (simp add: jwks_Wrap_def)
  next
    fix m z
    assume a: "NewTokenSmithAuth TL (af_tokensmith pcs) w0 = (Inr (m, z), w1)" "wrap = tokenSmith_Wrap (m, z)"
    show ?thesis using smith_reject [OF NewTokenSmithAuth_authn [OF a(1)] on(2)] a(2) by (simp add: tokenSmith_Wrap_def)
  qed
  show "wrap h req w = h req w" if "af_authProvider pcs = ''jwks''" "verified req \<or> jwks_url Getenv pcs = []"
  proof (rule cases)
    fix k
    assume a: "NewJWKSAuth L pause (jwks_url Getenv pcs) w0 = (Inr k, w1)" "wrap = jwks_Wrap L k"
    then show ?thesis using NewJWKSAuth_Some [OF a(1)] that(2) keys_pass by (cases k) (auto simp: jwks_Wrap_def)
  qed (use that(1) in auto)
qed

end

text \<open>Every registered handler is that of a protected route behind the authentication or that of a health route.\<close>

lemma registered_cases:
  assumes "(m, p, h) \<in> set (registerRoutes A H wrap)"
  obtains (protected) r where "r \<in> set (protectedRoutes A)" "m = rt_Method r" "p \<in> {rt_Pattern r, ''/v1'' @ rt_Pattern r}" "h = wrap (rt_HandlerFunc r)"
    | (public) r where "r \<in> set (publicRoutes H)" "m = rt_Method r" "p \<in> {rt_Pattern r, ''/v1'' @ rt_Pattern r}" "h = rt_HandlerFunc r"
proof -
  have "(m, p, h) \<in>
      (\<Union>r\<in>set (protectedRoutes A). {(rt_Method r, rt_Pattern r, wrap (rt_HandlerFunc r)), (rt_Method r, ''/v1'' @ rt_Pattern r, wrap (rt_HandlerFunc r))}) \<union>
      (\<Union>r\<in>set (publicRoutes H). {(rt_Method r, rt_Pattern r, rt_HandlerFunc r), (rt_Method r, ''/v1'' @ rt_Pattern r, rt_HandlerFunc r)})"
    using assms unfolding registerRoutes_def set_append set_concat set_map image_image by simp
  then show thesis
  proof (elim UnE UN_E)
    fix r
    assume "r \<in> set (protectedRoutes A)"
      "(m, p, h) \<in> {(rt_Method r, rt_Pattern r, wrap (rt_HandlerFunc r)), (rt_Method r, ''/v1'' @ rt_Pattern r, wrap (rt_HandlerFunc r))}"
    then show thesis using protected [of r] by (simp only: insert_iff empty_iff prod.inject) blast
  next
    fix r
    assume "r \<in> set (publicRoutes H)"
      "(m, p, h) \<in> {(rt_Method r, rt_Pattern r, rt_HandlerFunc r), (rt_Method r, ''/v1'' @ rt_Pattern r, rt_HandlerFunc r)}"
    then show thesis using public [of r] by (simp only: insert_iff empty_iff prod.inject) blast
  qed
qed

definition health_patterns :: "string list" where
  "health_patterns = [''/liveness'', ''/readiness'', ''/health'', ''/v1/liveness'', ''/v1/readiness'', ''/v1/health'']"

lemma public_patterns:
  assumes "r \<in> set (publicRoutes H)" "p \<in> {rt_Pattern r, ''/v1'' @ rt_Pattern r}"
  shows "p \<in> set health_patterns \<and> rt_Method r = ''GET''"
proof -
  have "list_all (\<lambda>r. rt_Pattern r \<in> set health_patterns \<and> ''/v1'' @ rt_Pattern r \<in> set health_patterns \<and> rt_Method r = ''GET'') (publicRoutes H)"
    by (simp add: publicRoutes_def route_def health_patterns_def)
  then show ?thesis using assms unfolding list_all_iff by blast
qed


text \<open>A bearer token that says so is accepted; the key set is fetched at the second attempt.\<close>

definition sim_reply :: "int \<Rightarrow> api_response" where
  "sim_reply code = \<lparr>ar_Header = [], ar_Status = Some code, ar_Body = []\<rparr>"

definition sim_verified :: "api_request \<Rightarrow> bool" where
  "sim_verified req \<longleftrightarrow> aq_Header req ''Authorization'' = ''Bearer good''"

definition sim_check :: "'w middleware" where
  "sim_check h req w = (if sim_verified req then h req w else Some (sim_reply 401, w))"

definition sim_keys :: "(world, string, string) jwk_lib" where
  "sim_keys = \<lparr>jl_Fetch = (\<lambda>url w. (if sim_uuids w = 0 then Inl (''EOF'', True) else Inr ''keys'', w\<lparr>sim_uuids := sim_uuids w + 1\<rparr>)),
     jl_Marshal = Inr, jl_NewKeySet = Inr, jl_Middleware = (\<lambda>k claims. sim_check)\<rparr>"

definition sim_smith :: "(world, unit) tokensmith_lib" where
  "sim_smith = \<lparr>tl_Fetch = (\<lambda>url w. (Inl ''unreachable'', w)), tl_IsThumbprint = (\<lambda>k. True), tl_ValidAlgorithm = (\<lambda>a. True),
     tl_Authn = (\<lambda>i a u f. Inr sim_check), tl_Build = (\<lambda>p g m w. (Inr (), w)), tl_Authz = (\<lambda>z m h. h)\<rparr>"

interpretation simtc: token_check sim_keys sim_smith sim_verified
  by unfold_locales (auto simp: sim_keys_def sim_smith_def sim_check_def sim_reply_def)

definition sim_flags :: auth_flags where
  "sim_flags = \<lparr>af_authProvider = ''jwks'', af_jwksURL = ''https://keys'', af_tokensmith = \<lparr>tsc_JWKSURL = [], tsc_Issuer = [],
     tsc_Audience = [], tsc_Mode = [], tsc_ModelPath = [], tsc_PolicyPath = [], tsc_GroupingPath = []\<rparr>\<rparr>"

definition sim_health :: "world health_globals" where
  "sim_health = \<lparr>hg_DSP = None, hg_DistLock = None, hg_HSM = None, hg_VaultEnabled = False, hg_CS = None, hg_RFTloc = None, hg_TaskType = []\<rparr>"


subsection \<open>Outbound tokens\<close>

text \<open>
  A token the service presents to the hardware state manager is not empty and had not expired when it was handed out, and a
  source with a certificate never falls back to the bootstrap token.
\<close>

lemma src_initialize_identity:
  assumes "src_initialize L s w = ((err, s'), w')"
  shows "src_certPath s' = src_certPath s \<and> src_keyPath s' = src_keyPath s \<and> src_url s' = src_url s \<and>
    (err = None \<longrightarrow> (\<exists>c w1. src_client s' = Some c \<and>
       to_Initialize L (src_url s) (if src_certPath s \<noteq> [] then Some (src_certPath s, src_keyPath s) else None) w1 = (Inr c, w')))"
  using assms by (auto simp: src_initialize_def split: if_splits prod.splits sum.splits option.splits)

lemma src_Token_usable:
  assumes "src_Token L R s w = Some ((Inr (token, expires), s'), w')"
  shows "token \<noteq> [] \<and> (\<exists>w1 now. time_Now R w1 = (now, w') \<and> now < expires) \<and> src_certPath s' = src_certPath s"
proof -
  obtain s1 w1 where r: "(case to_Refresh L (the (src_client s)) w of
        (None, w) \<Rightarrow> ((None, s), w)
      | (Some (err, expired), w) \<Rightarrow>
          if \<not> expired \<or> src_certPath s = [] then ((Some (''refresh outbound TokenSmith token: '' @ err), s), w)
          else (case src_initialize L s w of
                  ((Some err, s), w) \<Rightarrow> ((Some (''renew outbound TokenSmith session: '' @ err), s), w)
                | ((None, s), w) \<Rightarrow> ((None, s), w))) = ((None, s1), w1)"
    using assms by (auto simp: src_Token_def split: option.splits prod.splits)
  then have "src_certPath s1 = src_certPath s"
    by (auto dest: src_initialize_identity split: option.splits prod.splits if_splits)
  then show ?thesis using assms r by (auto simp: src_Token_def split: option.splits prod.splits if_splits)
qed

end
