(* ===== verification/Command_Line.thy ===== *)
theory Command_Line
  imports PCS_Xnames Go_Json
begin

section \<open>Flags and environment variables\<close>

text \<open>
  \<^verbatim>\<open>cmd/power-control/commands.go\<close>: the flags of the commands, their environment variables, and the check of the OAuth2
  settings. The package \<^verbatim>\<open>pflag\<close> visits the flags in the order of their names; \<open>accepts t v\<close> is whether \<^verbatim>\<open>Value.Set\<close> of
  a flag of type \<open>t\<close> takes the text \<open>v\<close>. The value of a flag is the text it was last set to.
\<close>

subsection \<open>Numbers and truth values (strconv)\<close>

definition digit_val :: "char \<Rightarrow> nat" where
  "digit_val c = of_char c - 48"

definition is_digit :: "char \<Rightarrow> bool" where
  "is_digit c \<longleftrightarrow> 48 \<le> (of_char c :: nat) \<and> (of_char c :: nat) \<le> 57"

definition digits_val :: "string \<Rightarrow> nat" where
  "digits_val s = foldl (\<lambda>n c. n * 10 + digit_val c) 0 s"

definition ParseUint10 :: "string \<Rightarrow> nat option" where
  "ParseUint10 s = (if s \<noteq> [] \<and> list_all is_digit s \<and> digits_val s < 2 ^ 64 then Some (digits_val s) else None)"

definition strconv_Atoi :: "string \<Rightarrow> int option" where
  "strconv_Atoi s =
     (let neg = HasPrefix s ''-''; ds = (if neg \<or> HasPrefix s ''+'' then tl s else s);
          n = (if neg then - int (digits_val ds) else int (digits_val ds))
      in if ds \<noteq> [] \<and> list_all is_digit ds \<and> - (2 ^ 63) \<le> n \<and> n < 2 ^ 63 then Some n else None)"

definition ParseBool :: "string \<Rightarrow> bool option" where
  "ParseBool s =
     (if s \<in> set [''1'', ''t'', ''T'', ''TRUE'', ''true'', ''True''] then Some True
      else if s \<in> set [''0'', ''f'', ''F'', ''FALSE'', ''false'', ''False''] then Some False else None)"

subsection \<open>Flags\<close>

record flag =
  fl_Name :: string
  fl_Type :: string
  fl_Value :: string
  fl_Changed :: bool

definition new_flag :: "string \<Rightarrow> string \<Rightarrow> string \<Rightarrow> flag" where
  "new_flag n t v = \<lparr>fl_Name = n, fl_Type = t, fl_Value = v, fl_Changed = False\<rparr>"

definition flag_Set :: "(string \<Rightarrow> string \<Rightarrow> bool) \<Rightarrow> string \<Rightarrow> flag \<Rightarrow> flag" where
  "flag_Set accepts v f = (if accepts (fl_Type f) v then f\<lparr>fl_Value := v\<rparr> else f)"

definition upper_char :: "char \<Rightarrow> char" where
  "upper_char c = (if 97 \<le> (of_char c :: nat) \<and> (of_char c :: nat) \<le> 122 then char_of ((of_char c :: nat) - 32) else c)"

definition flagToEnvVarName :: "string \<Rightarrow> string" where
  "flagToEnvVarName n = map (\<lambda>c. upper_char (if c = CHR ''-'' then CHR ''_'' else c)) n"

definition envVarError :: "string \<Rightarrow> string \<Rightarrow> string \<Rightarrow> error" where
  "envVarError name val varType =
     ''Error: invalid value '' @ json_string val @ '' for environment variable '' @ json_string name @ ''. Expected a value of type '' @ varType"

text \<open>The tests of the code by type: a string is set at once, a slice is left to \<^verbatim>\<open>Set\<close>.\<close>

definition valid_value :: "(string \<Rightarrow> string \<Rightarrow> bool) \<Rightarrow> string \<Rightarrow> string \<Rightarrow> bool" where
  "valid_value accepts t v =
     (if t = ''string'' then True
      else if t = ''bool'' then ParseBool v \<noteq> None
      else if t = ''int'' then strconv_Atoi v \<noteq> None
      else if t = ''uint'' then ParseUint10 v \<noteq> None
      else if t = ''stringSlice'' then accepts t v
      else False)"

definition parseFlagEnvVar :: "(string \<Rightarrow> string \<Rightarrow> bool) \<Rightarrow> (string \<Rightarrow> string) \<Rightarrow> flag \<Rightarrow> error option \<times> flag" where
  "parseFlagEnvVar accepts Getenv f =
     (let envVarName = flagToEnvVarName (fl_Name f); envVarValue = Getenv envVarName in
      if envVarValue = [] then (None, f)
      else if \<not> valid_value accepts (fl_Type f) envVarValue
      then (Some (envVarError envVarName envVarValue (fl_Type f)), f)
      else (None, flag_Set accepts envVarValue f))"

definition help_flag :: "flag \<Rightarrow> bool" where
  "help_flag f \<longleftrightarrow> fl_Name f = ''help'' \<or> fl_Name f = ''h''"

fun parseFlagEnvVars :: "(string \<Rightarrow> string \<Rightarrow> bool) \<Rightarrow> (string \<Rightarrow> string) \<Rightarrow> flag list \<Rightarrow> error option \<times> flag list" where
  "parseFlagEnvVars accepts Getenv [] = (None, [])"
| "parseFlagEnvVars accepts Getenv (f # fs) =
     (case (if help_flag f \<or> fl_Changed f then (None, f) else parseFlagEnvVar accepts Getenv f) of
        (Some err, f) \<Rightarrow> (Some err, f # fs)
      | (None, f) \<Rightarrow> (let (err, fs) = parseFlagEnvVars accepts Getenv fs in (err, f # fs)))"

text \<open>The flags with the defaults they are declared with; the PostgreSQL ones take theirs from the configuration.\<close>

definition rootFlags :: "flag list" where
  "rootFlags =
     [new_flag ''auth-provider'' ''string'' ''jwks'', new_flag ''cred-cache-duration'' ''int'' ''600'',
      new_flag ''etcd-disable-size-checks'' ''bool'' ''false'', new_flag ''etcd-max-object-size'' ''int'' ''1570000'',
      new_flag ''etcd-max-transition-message-length'' ''int'' ''130'', new_flag ''etcd-page-size'' ''int'' ''5000'',
      new_flag ''expire-time-mins'' ''int'' ''1440'', new_flag ''fake-vault-enabled'' ''bool'' ''false'',
      new_flag ''hsmlock-enabled'' ''bool'' ''true'', new_flag ''jwks-url'' ''string'' [],
      new_flag ''max-num-completed'' ''int'' ''20000'', new_flag ''oauth2-client-id'' ''string'' [],
      new_flag ''oauth2-client-secret'' ''string'' [], new_flag ''oauth2-scopes'' ''stringSlice'' ''[]'',
      new_flag ''oauth2-token-url'' ''string'' [], new_flag ''postgres-dbname'' ''string'' ''pcsdb'',
      new_flag ''postgres-host'' ''string'' ''localhost'', new_flag ''postgres-insecure'' ''bool'' ''false'',
      new_flag ''postgres-opts'' ''string'' [], new_flag ''postgres-password'' ''string'' [],
      new_flag ''postgres-port'' ''uint'' ''5432'', new_flag ''postgres-retry_count'' ''uint64'' ''5'',
      new_flag ''postgres-retry_wait'' ''uint64'' ''10'', new_flag ''postgres-user'' ''string'' ''pcsuser'',
      new_flag ''run-control'' ''bool'' ''false'', new_flag ''smd-auth-provider'' ''string'' ''oauth2'',
      new_flag ''smd-tokensmith-ca-file'' ''string'' [], new_flag ''smd-tokensmith-url'' ''string'' [],
      new_flag ''sms-server'' ''string'' ''https://api-gw-service-nmn/apis/smd'',
      new_flag ''tokensmith-audience'' ''string'' ''power-control'', new_flag ''tokensmith-authz-grouping-path'' ''string'' [],
      new_flag ''tokensmith-authz-mode'' ''string'' ''enforce'', new_flag ''tokensmith-authz-model-path'' ''string'' [],
      new_flag ''tokensmith-authz-policy-path'' ''string'' [], new_flag ''tokensmith-issuer'' ''string'' [],
      new_flag ''tokensmith-jwks-url'' ''string'' [], new_flag ''vault-enabled'' ''bool'' ''true'',
      new_flag ''vault-keypath'' ''string'' ''secret/hms-creds'']"

definition postgresInitFlags :: "flag list" where
  "postgresInitFlags =
     [new_flag ''schema-force-step'' ''int'' ''-1'', new_flag ''schema-fresh'' ''bool'' ''false'',
      new_flag ''schema-migrations'' ''string'' ''./migrations/postgres'', new_flag ''schema-step'' ''uint'' ''3'']"

subsection \<open>OAuth2 settings\<close>

record OAuth2Config =
  oa_TokenURL :: string
  oa_ClientID :: string
  oa_ClientSecret :: string
  oa_Scopes :: "string list"

definition oauth2Provided :: "OAuth2Config \<Rightarrow> bool list" where
  "oauth2Provided c = [oa_ClientID c \<noteq> [], oa_ClientSecret c \<noteq> [], oa_TokenURL c \<noteq> [], length (oa_Scopes c) > 0]"

definition incomplete_oauth2 :: "string \<Rightarrow> OAuth2Config option \<Rightarrow> bool" where
  "incomplete_oauth2 smdAuthProvider oauth2 \<longleftrightarrow>
     (case oauth2 of None \<Rightarrow> False | Some c \<Rightarrow>
        smdAuthProvider = ''oauth2'' \<and> False \<in> set (oauth2Provided c) \<and> True \<in> set (oauth2Provided c))"

text \<open>The command: \<open>Inl\<close> is an exit with a message, before it starts the service with the settings that are left.\<close>

definition root_command ::
  "(string \<Rightarrow> string \<Rightarrow> bool) \<Rightarrow> (string \<Rightarrow> string) \<Rightarrow> (flag list \<Rightarrow> string \<times> OAuth2Config option) \<Rightarrow> flag list \<Rightarrow>
   error + flag list \<times> OAuth2Config option" where
  "root_command accepts Getenv settings flags =
     (case parseFlagEnvVars accepts Getenv flags of
        (Some err, _) \<Rightarrow> Inl err
      | (None, flags) \<Rightarrow>
          (case settings flags of (smdAuthProvider, oauth2) \<Rightarrow>
             if incomplete_oauth2 smdAuthProvider oauth2
             then Inl ''Error: Incomplete OAuth2 configuration, provide all OAuth2 flags (oauth2-client-id, oauth2-client-secret, oauth2-token-url and oauth2-scopes).''
             else Inr (flags,
               case oauth2 of None \<Rightarrow> None | Some c \<Rightarrow>
                 if oa_ClientID c = [] \<and> oa_ClientSecret c = [] \<and> oa_TokenURL c = [] \<and> oa_Scopes c = [] then None else Some c)))"

subsection \<open>What the environment decides\<close>

text \<open>A flag the environment has a say in: not given on the command line, and its variable is set.\<close>

definition from_env :: "(string \<Rightarrow> string) \<Rightarrow> flag \<Rightarrow> bool" where
  "from_env Getenv f \<longleftrightarrow> \<not> help_flag f \<and> \<not> fl_Changed f \<and> Getenv (flagToEnvVarName (fl_Name f)) \<noteq> []"

definition env_flag :: "(string \<Rightarrow> string \<Rightarrow> bool) \<Rightarrow> (string \<Rightarrow> string) \<Rightarrow> flag \<Rightarrow> flag" where
  "env_flag accepts Getenv f = (if from_env Getenv f then flag_Set accepts (Getenv (flagToEnvVarName (fl_Name f))) f else f)"

lemma parse_environment:
  "(list_all (\<lambda>f. from_env Getenv f \<longrightarrow> valid_value accepts (fl_Type f) (Getenv (flagToEnvVarName (fl_Name f)))) fs \<longrightarrow>
      parseFlagEnvVars accepts Getenv fs = (None, map (env_flag accepts Getenv) fs)) \<and>
   (\<not> list_all (\<lambda>f. from_env Getenv f \<longrightarrow> valid_value accepts (fl_Type f) (Getenv (flagToEnvVarName (fl_Name f)))) fs \<longrightarrow>
      fst (parseFlagEnvVars accepts Getenv fs) \<noteq> None)"
proof (induction fs)
  case (Cons f fs)
  let ?r = "if help_flag f \<or> fl_Changed f then (None, f) else parseFlagEnvVar accepts Getenv f"
  let ?ok = "from_env Getenv f \<longrightarrow> valid_value accepts (fl_Type f) (Getenv (flagToEnvVarName (fl_Name f)))"
  have "(?ok \<longrightarrow> ?r = (None, env_flag accepts Getenv f)) \<and> (\<not> ?ok \<longrightarrow> (\<exists>e. ?r = (Some e, f)))"
    by (simp add: parseFlagEnvVar_def from_env_def env_flag_def Let_def)
  then show ?case using Cons.IH
    by (cases ?ok) (auto simp: Let_def split: prod.splits)
qed simp



text \<open>The service starts with complete OAuth2 settings or with none.\<close>

lemma oauth2_all_or_nothing:
  assumes "root_command accepts Getenv settings flags = Inr (fs, Some c)" "fst (settings fs) = ''oauth2''"
  shows "False \<notin> set (oauth2Provided c)"
  using assms by (auto simp: root_command_def incomplete_oauth2_def oauth2Provided_def split: prod.splits option.splits if_splits)

end
