(* ===== verification/Service_Startup.thy ===== *)
theory Service_Startup
  imports Authentication Command_Line Domain_Globals
begin

section \<open>Starting the service\<close>

text \<open>
  \<^verbatim>\<open>cmd/power-control\<close>: what \<^verbatim>\<open>runPCS\<close> decides before it serves requests (\<^verbatim>\<open>service.go\<close>), the HTTP clients
  (\<^verbatim>\<open>http_clients.go\<close>), and the migration of the database schema (\<^verbatim>\<open>migrate.go\<close>). The packages behind them are parameters. A returned
  error and an exit of the process are the two ways not to start. Serving, signals and log output are left out.
\<close>

subsection \<open>Settings from the environment\<close>

definition env_int :: "(string \<Rightarrow> string) \<Rightarrow> string \<Rightarrow> int \<Rightarrow> int" where
  "env_int Getenv name dflt =
     (if Getenv name = [] then dflt else case strconv_Atoi (Getenv name) of None \<Rightarrow> dflt | Some tps \<Rightarrow> tps)"

definition seconds :: "int \<Rightarrow> duration" where
  "seconds n = wrap64 (n * Second)"

record monitor_settings =
  mo_dlockTimeout :: duration
  mo_pwrSampleInterval :: duration
  mo_statusTimeout :: int
  mo_statusHttpRetries :: int
  mo_maxIdleConns :: int
  mo_maxIdleConnsPerHost :: int

definition monitor_settings_of :: "(string \<Rightarrow> string) \<Rightarrow> monitor_settings" where
  "monitor_settings_of Getenv =
     \<lparr>mo_dlockTimeout = seconds (env_int Getenv ''PCS_DISTLOCK_TIMEOUT'' 60),
      mo_pwrSampleInterval = seconds (env_int Getenv ''PCS_POWER_SAMPLE_INTERVAL'' 30),
      mo_statusTimeout = env_int Getenv ''PCS_STATUS_TIMEOUT'' 30,
      mo_statusHttpRetries = env_int Getenv ''PCS_STATUS_HTTP_RETRIES'' 3,
      mo_maxIdleConns = env_int Getenv ''PCS_MAX_IDLE_CONNS'' 4000,
      mo_maxIdleConnsPerHost = env_int Getenv ''PCS_MAX_IDLE_CONNS_PER_HOST'' 4\<rparr>"

text \<open>
  The settings of the certificate package that the environment replaces, and whether it turns the log of insecure failovers off
  (a value that is no truth value counts as false).
\<close>

record certs_params =
  ca_CAChainPath :: "string option"
  ca_VaultPKIBase :: "string option"
  ca_PKIPath :: "string option"
  ca_QuietFailover :: bool

definition env_override :: "(string \<Rightarrow> string) \<Rightarrow> string \<Rightarrow> string option" where
  "env_override Getenv name = (if Getenv name = [] then None else Some (Getenv name))"

definition certs_params_of :: "(string \<Rightarrow> string) \<Rightarrow> certs_params" where
  "certs_params_of Getenv =
     \<lparr>ca_CAChainPath = env_override Getenv ''PCS_VAULT_CA_CHAIN_PATH'', ca_VaultPKIBase = env_override Getenv ''PCS_VAULT_PKI_BASE'',
      ca_PKIPath = env_override Getenv ''PCS_VAULT_PKI_PATH'',
      ca_QuietFailover = (Getenv ''PCS_LOG_INSECURE_FAILOVER'' \<noteq> [] \<and> ParseBool (Getenv ''PCS_LOG_INSECURE_FAILOVER'') \<noteq> Some True)\<rparr>"

datatype storage_kind = StorageMemory | StorageEtcd | StoragePostgres

definition storage_choice :: "string \<Rightarrow> storage_kind option" where
  "storage_choice s =
     (if s = [] \<or> s = ''MEMORY'' then Some StorageMemory else if s = ''ETCD'' then Some StorageEtcd
      else if s = ''POSTGRES'' then Some StoragePostgres else None)"

datatype cred_kind = CredMock string string | CredVault | CredDisabled

definition cred_choice :: "(string \<Rightarrow> string option) \<Rightarrow> bool \<Rightarrow> bool \<Rightarrow> error + cred_kind" where
  "cred_choice LookupEnv fakeVaultEnabled vaultEnabled =
     (if fakeVaultEnabled
      then (case LookupEnv ''PCS_FAKE_VAULT_REDFISH_USER'' of
              None \<Rightarrow> Inl ''PCS_FAKE_VAULT_REDFISH_USER must be set if fake Vault is enabled''
            | Some user \<Rightarrow>
                (case LookupEnv ''PCS_FAKE_VAULT_REDFISH_PASSWORD'' of
                   None \<Rightarrow> Inl ''PCS_FAKE_VAULT_REDFISH_PASSWORD must be set if fake Vault is enabled''
                 | Some pass \<Rightarrow> Inr (CredMock user pass)))
      else if vaultEnabled then Inr CredVault else Inr CredDisabled)"

subsection \<open>HTTP clients (http\_clients.go)\<close>

text \<open>
  A client is named by a number; \<open>cl_Create\<close> makes one that does not verify certificates, with its timeout, retries and
  backoff. A client given the certificates verifies; one with tokens adds them to its requests.
\<close>

record 'w certs_lib =
  cl_FetchCAChain :: "string \<Rightarrow> ('w, error + string) io"
  cl_TupleToNewline :: "string \<Rightarrow> string"
  cl_SystemCertPool :: "('w, error option) io"
  cl_AppendCerts :: "string \<Rightarrow> bool"
  cl_SetSecurity :: "string \<Rightarrow> ('w, error option) io"
  cl_Create :: "int \<Rightarrow> int \<Rightarrow> int \<Rightarrow> ('w, error + nat) io"

record http_client =
  hc_id :: nat
  hc_verifies :: bool
  hc_tokens :: bool

record HTTPClientPair =
  hp_Secure :: http_client
  hp_Insecure :: http_client

definition newHTTPClientPair :: "'w certs_lib \<Rightarrow> bool \<Rightarrow> bool \<Rightarrow> ('w, error + HTTPClientPair) io" where
  "newHTTPClientPair L roots allowInsecure w =
     (case cl_Create L 40 5 8 w of
        (Inl err, w) \<Rightarrow> (Inl err, w)
      | (Inr i, w) \<Rightarrow>
          let client = \<lparr>hc_id = i, hc_verifies = roots, hc_tokens = False\<rparr> in
          if roots \<and> allowInsecure
          then (case cl_Create L 40 5 8 w of
                  (Inl err, w) \<Rightarrow> (Inl err, w)
                | (Inr j, w) \<Rightarrow>
                    (Inr \<lparr>hp_Secure = client, hp_Insecure = \<lparr>hc_id = j, hc_verifies = False, hc_tokens = False\<rparr>\<rparr>, w))
          else (Inr \<lparr>hp_Secure = client, hp_Insecure = client\<rparr>, w))"

text \<open>Both entries of the second pair are one client, so wrapping it wraps both.\<close>

definition add_tokens :: "HTTPClientPair \<Rightarrow> HTTPClientPair" where
  "add_tokens p =
     (let client = (hp_Secure p)\<lparr>hc_tokens := True\<rparr>
      in \<lparr>hp_Secure = client, hp_Insecure = (if hc_id (hp_Insecure p) = hc_id client then client else hp_Insecure p)\<rparr>)"

definition load_roots :: "'w certs_lib \<Rightarrow> string \<Rightarrow> ('w, error option) io" where
  "load_roots L caURI w =
     (case cl_FetchCAChain L caURI w of
        (Inl err, w) \<Rightarrow> (Some (''load PCS_CA_URI '' @ json_string caURI @ '': '' @ err), w)
      | (Inr chain, w) \<Rightarrow>
          let chain = cl_TupleToNewline L chain in
          (case cl_SystemCertPool L w of
             (Some err, w) \<Rightarrow> (Some (''load system CA certificates: '' @ err), w)
           | (None, w) \<Rightarrow>
               if \<not> cl_AppendCerts L chain then (Some (''PCS_CA_URI '' @ json_string caURI @ '' contains no valid CA certificates''), w)
               else (case cl_SetSecurity L chain w of
                       (Some err, w) \<Rightarrow> (Some (''configure Redfish TRS security: '' @ err), w)
                     | (None, w) \<Rightarrow> (None, w))))"

definition initHTTPClients :: "'w certs_lib \<Rightarrow> string \<Rightarrow> bool \<Rightarrow> ('w, error + HTTPClientPair \<times> HTTPClientPair) io" where
  "initHTTPClients L caURI tokenSource w =
     (let roots = (caURI \<noteq> []) in
      case (if roots then load_roots L caURI w else (None, w)) of
        (Some err, w) \<Rightarrow> (Inl err, w)
      | (None, w) \<Rightarrow>
          (case newHTTPClientPair L roots True w of
             (Inl err, w) \<Rightarrow> (Inl (''create Redfish HTTP client: '' @ err), w)
           | (Inr rfClient, w) \<Rightarrow>
               (case newHTTPClientPair L roots False w of
                  (Inl err, w) \<Rightarrow> (Inl (''create SMD HTTP client: '' @ err), w)
                | (Inr smdClient, w) \<Rightarrow> (Inr (rfClient, if tokenSource then add_tokens smdClient else smdClient), w))))"

subsection \<open>The order of the start (service.go)\<close>

record pcsConfig =
  pcs_auth :: auth_flags
  pcs_smdAuthProvider :: string
  pcs_tokensmithURL :: string
  pcs_tokensmithCAFile :: string
  pcs_fakeVaultEnabled :: bool
  pcs_vaultEnabled :: bool
  pcs_maxNumCompleted :: int
  pcs_expireTimeMins :: int

datatype 'c smd_tokens = SmdNoTokens | SmdOAuth2 OAuth2Config | SmdTokenSmith "'c token_source"

definition smd_token_source :: "('w, 'c) token_lib \<Rightarrow> pcsConfig \<Rightarrow> OAuth2Config option \<Rightarrow> ('w, error + 'c smd_tokens) io" where
  "smd_token_source TO pcs oauth2 w =
     (if pcs_smdAuthProvider pcs = ''oauth2'' then (Inr (case oauth2 of None \<Rightarrow> SmdNoTokens | Some c \<Rightarrow> SmdOAuth2 c), w)
      else if pcs_smdAuthProvider pcs = ''tokensmith''
      then (let (r, w) = NewTokenSmithTokenSource TO (pcs_tokensmithURL pcs) (pcs_tokensmithCAFile pcs) w in (map_sum id SmdTokenSmith r, w))
      else (Inl (''invalid smd-auth-provider '' @ json_string (pcs_smdAuthProvider pcs) @ '': use oauth2 or tokensmith''), w))"

record ('w, 's, 'k, 'z, 'c) start_env =
  se_jwk :: "('w, 's, 'k) jwk_lib"
  se_smith :: "('w, 'z) tokensmith_lib"
  se_token :: "('w, 'c) token_lib"
  se_certs :: "'w certs_lib"
  se_pause :: "duration \<Rightarrow> ('w, error option) io"
  se_LookupEnv :: "string \<Rightarrow> string option"
  se_StorageInit :: "storage_kind \<Rightarrow> ('w, error option) io"
  se_LockInit :: "storage_kind \<Rightarrow> ('w, error option) io"
  se_HSMInit :: "HTTPClientPair \<Rightarrow> 'w \<Rightarrow> 'w"
  se_VaultInit :: "'w \<Rightarrow> 'w option"

text \<open>\<^verbatim>\<open>os.Getenv\<close> does not tell an unset variable from an empty one.\<close>

definition se_Getenv :: "('w, 's, 'k, 'z, 'c) start_env \<Rightarrow> string \<Rightarrow> string" where
  "se_Getenv E n = (case se_LookupEnv E n of None \<Rightarrow> [] | Some v \<Rightarrow> v)"

record ('w, 'c) service =
  sv_Wrap :: "'w middleware"
  sv_SMDTokens :: "'c smd_tokens"
  sv_TaskTimeout :: duration
  sv_Certs :: certs_params
  sv_rfClient :: HTTPClientPair
  sv_smdClient :: HTTPClientPair
  sv_Storage :: storage_kind
  sv_CS :: cred_kind
  sv_VaultEnabled :: bool
  sv_MaxNumCompleted :: int
  sv_ExpireTimeMins :: int
  sv_Monitor :: monitor_settings

datatype start_failure = ReturnError error | ExitOne error

text \<open>The storage provider, then its lock, then the HSM client, then the credentials; connecting to Vault may never end.\<close>

definition start_providers ::
  "('w, 's, 'k, 'z, 'c) start_env \<Rightarrow> pcsConfig \<Rightarrow> HTTPClientPair \<Rightarrow> ('w, start_failure + storage_kind \<times> cred_kind) go" where
  "start_providers E pcs smdClient w =
     (case storage_choice (se_Getenv E ''STORAGE'') of
        None \<Rightarrow> Some (Inl (ExitOne (''Unrecognized storage type: '' @ se_Getenv E ''STORAGE'')), w)
      | Some k \<Rightarrow>
          (case se_StorageInit E k w of
             (Some err, w) \<Rightarrow> Some (Inl (ExitOne (''Error initializing storage provider: '' @ err)), w)
           | (None, w) \<Rightarrow>
               (case se_LockInit E k w of
                  (Some err, w) \<Rightarrow> Some (Inl (ExitOne (''Error initializing distributed lock provider: '' @ err)), w)
                | (None, w) \<Rightarrow>
                    let w = se_HSMInit E smdClient w in
                    (case cred_choice (se_LookupEnv E) (pcs_fakeVaultEnabled pcs) (pcs_vaultEnabled pcs) of
                       Inl err \<Rightarrow> Some (Inl (ExitOne err), w)
                     | Inr CredVault \<Rightarrow> map_option (\<lambda>w. (Inr (k, CredVault), w)) (se_VaultInit E w)
                     | Inr c \<Rightarrow> Some (Inr (k, c), w)))))"

definition runPCS ::
  "('w, 's, 'k, 'z, 'c) start_env \<Rightarrow> pcsConfig \<Rightarrow> OAuth2Config option \<Rightarrow> ('w, start_failure + ('w, 'c) service) go" where
  "runPCS E pcs oauth2 w =
     (case select_auth (se_jwk E) (se_smith E) (se_pause E) (se_Getenv E) (pcs_auth pcs) w of
        (Inl err, w) \<Rightarrow> Some (Inl (ReturnError err), w)
      | (Inr authentication, w) \<Rightarrow>
          (case smd_token_source (se_token E) pcs oauth2 w of
             (Inl err, w) \<Rightarrow> Some (Inl (ReturnError err), w)
           | (Inr tokens, w) \<Rightarrow>
               (case initHTTPClients (se_certs E) (se_Getenv E ''PCS_CA_URI'') (case tokens of SmdNoTokens \<Rightarrow> False | _ \<Rightarrow> True) w of
                  (Inl err, w) \<Rightarrow> Some (Inl (ReturnError err), w)
                | (Inr (rfClient, smdClient), w) \<Rightarrow>
                    map_option (\<lambda>(r, w). (map_sum id (\<lambda>(k, c).
                      \<lparr>sv_Wrap = authentication, sv_SMDTokens = tokens,
                       sv_TaskTimeout = seconds (env_int (se_Getenv E) ''PCS_BASE_TRS_TASK_TIMEOUT'' 40),
                       sv_Certs = certs_params_of (se_Getenv E), sv_rfClient = rfClient, sv_smdClient = smdClient, sv_Storage = k, sv_CS = c,
                       sv_VaultEnabled = pcs_vaultEnabled pcs, sv_MaxNumCompleted = pcs_maxNumCompleted pcs,
                       sv_ExpireTimeMins = pcs_expireTimeMins pcs, sv_Monitor = monitor_settings_of (se_Getenv E)\<rparr>) r, w))
                    (start_providers E pcs smdClient w))))"

subsection \<open>The reaper of old records (domain/globals.go)\<close>

text \<open>The goroutine never ends: \<open>StartRecordsReaper E n\<close> are its first \<open>n\<close> ticks, a minute apart.\<close>

primrec StartRecordsReaper :: "'w PowerCapEnv \<Rightarrow> nat \<Rightarrow> 'w \<Rightarrow> 'w option" where
  "StartRecordsReaper E 0 w = Some w"
| "StartRecordsReaper E (Suc n) w =
     Option.bind (transitionsReaper (pe_G E) (time_Sleep (g_RT (pe_G E)) (60 * Second) w)) (\<lambda>w.
     Option.bind (powerCapReaper E w) (StartRecordsReaper E n))"

subsection \<open>What a service that has started is made of\<close>

lemma newHTTPClientPair_result:
  assumes "newHTTPClientPair L roots insecure w = (Inr p, w')"
  shows "hc_verifies (hp_Secure p) = roots \<and> \<not> hc_tokens (hp_Secure p) \<and> (\<not> (roots \<and> insecure) \<longrightarrow> hp_Insecure p = hp_Secure p)"
  using assms by (auto simp: newHTTPClientPair_def Let_def split: prod.splits sum.splits if_splits)

lemma initHTTPClients_result:
  assumes "initHTTPClients L caURI tokens w = (Inr (rf, smd), w')"
  shows "hp_Insecure smd = hp_Secure smd \<and> hc_verifies (hp_Secure smd) = (caURI \<noteq> []) \<and> hc_tokens (hp_Secure smd) = tokens \<and>
    hc_verifies (hp_Secure rf) = (caURI \<noteq> [])"
proof -
  obtain w1 w2 smd0 where "newHTTPClientPair L (caURI \<noteq> []) True w1 = (Inr rf, w2)"
      "newHTTPClientPair L (caURI \<noteq> []) False w2 = (Inr smd0, w')" "smd = (if tokens then add_tokens smd0 else smd0)"
    using assms by (auto simp: initHTTPClients_def Let_def split: prod.splits sum.splits option.splits if_splits)
  note p = this
  show ?thesis using newHTTPClientPair_result [OF p(1)] newHTTPClientPair_result [OF p(2)] p(3) by (simp add: add_tokens_def Let_def)
qed

lemma start_providers_result:
  assumes "start_providers E pcs smd w = Some (Inr (k, c), w')"
  shows "storage_choice (se_Getenv E ''STORAGE'') = Some k \<and> (\<exists>w1 w2. se_StorageInit E k w = (None, w1) \<and> se_LockInit E k w1 = (None, w2)) \<and>
    cred_choice (se_LookupEnv E) (pcs_fakeVaultEnabled pcs) (pcs_vaultEnabled pcs) = Inr c"
  using assms by (auto simp: start_providers_def Let_def split: prod.splits sum.splits option.splits cred_kind.splits)

text \<open>
  A service that has started has the authentication that was selected, and its storage and lock of the kind that \<^verbatim>\<open>STORAGE\<close> names and
  initialised. Its client for the hardware state manager has no insecure twin to fall back to, verifies
  certificates exactly when \<^verbatim>\<open>PCS_CA_URI\<close> is set, and sends tokens exactly when a source of them is configured.
\<close>

lemma service_starts_as_configured:
  assumes "runPCS E pcs oauth2 w = Some (Inr s, w')"
  shows "(\<exists>w1. select_auth (se_jwk E) (se_smith E) (se_pause E) (se_Getenv E) (pcs_auth pcs) w = (Inr (sv_Wrap s), w1)) \<and>
    storage_choice (se_Getenv E ''STORAGE'') = Some (sv_Storage s) \<and>
    (\<exists>w1 w2 w3. se_StorageInit E (sv_Storage s) w1 = (None, w2) \<and> se_LockInit E (sv_Storage s) w2 = (None, w3)) \<and>
    hp_Insecure (sv_smdClient s) = hp_Secure (sv_smdClient s) \<and>
    hc_verifies (hp_Secure (sv_smdClient s)) = (se_Getenv E ''PCS_CA_URI'' \<noteq> []) \<and>
    hc_tokens (hp_Secure (sv_smdClient s)) = (sv_SMDTokens s \<noteq> SmdNoTokens)"
proof -
  obtain wrap w1 where a: "select_auth (se_jwk E) (se_smith E) (se_pause E) (se_Getenv E) (pcs_auth pcs) w = (Inr wrap, w1)"
    using assms by (auto simp: runPCS_def split: prod.splits sum.splits)
  obtain tokens w2 where t: "smd_token_source (se_token E) pcs oauth2 w1 = (Inr tokens, w2)"
    using assms a by (auto simp: runPCS_def split: prod.splits sum.splits)
  let ?has = "case tokens of SmdNoTokens \<Rightarrow> False | _ \<Rightarrow> True"
  obtain rf smd w3 where h: "initHTTPClients (se_certs E) (se_Getenv E ''PCS_CA_URI'') ?has w2 = (Inr (rf, smd), w3)"
    using assms a t by (auto simp: runPCS_def split: prod.splits sum.splits)
  obtain k c where p: "start_providers E pcs smd w3 = Some (Inr (k, c), w')" and s: "sv_Wrap s = wrap" "sv_Storage s = k"
      "sv_smdClient s = smd" "sv_SMDTokens s = tokens"
  proof -
    obtain r where r: "start_providers E pcs smd w3 = Some (r, w')" using assms a t h by (auto simp: runPCS_def)
    then obtain k c where "r = Inr (k, c)" using assms a t h by (cases r) (auto simp: runPCS_def)
    then show thesis using assms a t h r by (intro that [of k c]) (auto simp: runPCS_def)
  qed
  have "?has = (tokens \<noteq> SmdNoTokens)" by (cases tokens) simp_all
  then show ?thesis using a s start_providers_result [OF p] initHTTPClients_result [OF h] by auto
qed

subsection \<open>Migrating the schema (migrate.go)\<close>

record schemaConfig =
  sc_step :: nat
  sc_forceStep :: int
  sc_fresh :: bool

datatype migrate_err = ErrNoChange | MigrateErr error
datatype version_err = ErrNilVersion | VersionErr error

text \<open>\<open>mg_Open\<close> connects, and makes the driver and the migration instance.\<close>

record 'w migration =
  mg_Open :: "('w, error option) io"
  mg_Down :: "('w, error option) io"
  mg_Force :: "int \<Rightarrow> ('w, error option) io"
  mg_Version :: "('w, version_err + nat \<times> bool) io"
  mg_Up :: "('w, migrate_err option) io"
  mg_Migrate :: "nat \<Rightarrow> ('w, migrate_err option) io"

definition SCHEMA_STEPS :: int where "SCHEMA_STEPS = 3"

text \<open>One step of the migration: a fatal error ends it. \<open>Force\<close> is skipped unless wanted.\<close>

definition fatal_if :: "string \<Rightarrow> error option \<times> 'w \<Rightarrow> (error option \<times> 'w)" where
  "fatal_if msg r = (case r of (None, w) \<Rightarrow> (None, w) | (Some err, w) \<Rightarrow> (Some (msg @ err), w))"

definition no_change_ok :: "migrate_err option \<times> 'w \<Rightarrow> error option \<times> 'w" where
  "no_change_ok r = (case r of (Some (MigrateErr err), w) \<Rightarrow> (Some err, w) | (_, w) \<Rightarrow> (None, w))"

definition and_then :: "error option \<times> 'w \<Rightarrow> ('w \<Rightarrow> error option \<times> 'w) \<Rightarrow> error option \<times> 'w" where
  "and_then r k = (case r of (None, w) \<Rightarrow> k w | (Some err, w) \<Rightarrow> (Some err, w))"

definition migrate_prepare :: "'w migration \<Rightarrow> schemaConfig \<Rightarrow> ('w, error option) io" where
  "migrate_prepare m schema w =
     and_then (mg_Open m w) (\<lambda>w.
     and_then (if sc_fresh schema then fatal_if ''ERROR: migration.Down() failed: '' (mg_Down m w) else (None, w)) (\<lambda>w.
     if sc_forceStep schema \<ge> 0
     then fatal_if (''ERROR: migration.Force('' @ Itoa (sc_forceStep schema) @ '') failed: '') (mg_Force m (sc_forceStep schema) w)
     else (None, w)))"

definition migrate_clean :: "'w migration \<Rightarrow> schemaConfig \<Rightarrow> nat \<Rightarrow> bool \<Rightarrow> ('w, error option) io" where
  "migrate_clean m schema version dirty w =
     (if dirty \<and> sc_forceStep schema < 0
      then fatal_if ''ERROR: Forcing current version to clear dirty flag failed: '' (mg_Force m (int version) w)
      else (None, w))"

definition migrate_apply :: "'w migration \<Rightarrow> schemaConfig \<Rightarrow> version_err + nat \<times> bool \<Rightarrow> ('w, error option) io" where
  "migrate_apply m schema v w =
     (case v of
        Inl (VersionErr err) \<Rightarrow> (Some (''ERROR: Migration failed unexpectedly: '' @ err), w)
      | Inl ErrNilVersion \<Rightarrow> fatal_if ''ERROR: Migration: Up() failed: '' (no_change_ok (mg_Up m w))
      | Inr (version, dirty) \<Rightarrow>
          and_then (migrate_clean m schema version dirty w) (\<lambda>w.
          if version \<noteq> sc_step schema
          then fatal_if ''ERROR: Migration failed: '' (no_change_ok (mg_Migrate m (sc_step schema) w))
          else (None, w)))"

definition migrate_check :: "'w migration \<Rightarrow> ('w, error option) io" where
  "migrate_check m w =
     (case mg_Version m w of
        (Inl (VersionErr err), w) \<Rightarrow> (Some (''ERROR: migration.Version() failed: '' @ err), w)
      | (_, w) \<Rightarrow> (None, w))"

definition migrateSchema :: "'w migration \<Rightarrow> schemaConfig \<Rightarrow> ('w, error option) io" where
  "migrateSchema m schema w =
     (if (sc_forceStep schema < 0 \<or> sc_forceStep schema > SCHEMA_STEPS) \<and> sc_forceStep schema \<noteq> -1
      then (Some (''db-force-step value '' @ Itoa (sc_forceStep schema) @ '' out of range, should be between (inclusive) 0 and '' @ Itoa SCHEMA_STEPS), w)
      else and_then (migrate_prepare m schema w) (\<lambda>w.
           and_then (case mg_Version m w of (v, w) \<Rightarrow> migrate_apply m schema v w) (migrate_check m)))"

lemma and_then_None: "and_then r k = (None, w') \<longleftrightarrow> (\<exists>w. r = (None, w) \<and> k w = (None, w'))"
  by (auto simp: and_then_def split: prod.splits option.splits)

lemma fatal_if_None: "fatal_if msg r = (None, w') \<longleftrightarrow> r = (None, w')"
  by (auto simp: fatal_if_def split: prod.splits option.splits)

lemma no_change_ok_None: "no_change_ok r = (None, w') \<longleftrightarrow> (\<exists>e. r = (e, w') \<and> (e = None \<or> e = Some ErrNoChange))"
  by (cases r; cases "fst r") (auto simp: no_change_ok_def split: migrate_err.splits)

text \<open>
  The versions a migration package keeps: it reports the version stored, a forced version is stored as it is, and
  \<^verbatim>\<open>Migrate\<close> and \<^verbatim>\<open>Up\<close> end at the version asked for and at the latest.
\<close>

locale versioned_schema =
  fixes m :: "'w migration" and version :: "'w \<Rightarrow> nat option" and latest :: nat
  assumes opens: "mg_Open m w = (None, w') \<Longrightarrow> version w' = version w"
    and downs: "mg_Down m w = (None, w') \<Longrightarrow> version w' = None"
    and forces: "mg_Force m i w = (None, w') \<Longrightarrow> version w' = Some (nat i)"
    and reports: "mg_Version m w = (v, w') \<Longrightarrow> version w' = version w \<and>
      (case v of Inr (n, d) \<Rightarrow> version w = Some n | Inl ErrNilVersion \<Rightarrow> version w = None | _ \<Rightarrow> True)"
    and ups: "mg_Up m w = (r, w') \<Longrightarrow> r = None \<or> r = Some ErrNoChange \<Longrightarrow> version w' = Some latest"
    and migrates: "mg_Migrate m n w = (r, w') \<Longrightarrow> r = None \<or> r = Some ErrNoChange \<Longrightarrow> version w' = Some n"
begin

text \<open>The version the migration starts from: what is stored, after dropping the tables and forcing a version if that is asked for.\<close>

definition version_before :: "schemaConfig \<Rightarrow> 'w \<Rightarrow> nat option" where
  "version_before schema w =
     (if sc_forceStep schema \<ge> 0 then Some (nat (sc_forceStep schema)) else if sc_fresh schema then None else version w)"

text \<open>An empty database goes to the latest version, whatever step is asked for; any other to the step.\<close>

lemma prepared:
  "migrate_prepare m schema w = (None, w') \<Longrightarrow> version w' = version_before schema w"
  by (auto simp: migrate_prepare_def version_before_def and_then_None fatal_if_None
      dest!: opens downs forces split: if_splits)

lemma cleaned:
  "migrate_clean m schema n d w = (None, w') \<Longrightarrow> version w = Some n \<Longrightarrow> version w' = Some n"
  by (auto simp: migrate_clean_def fatal_if_None dest!: forces split: if_splits)

lemma applied:
  assumes "mg_Version m w = (v, w1)" "migrate_apply m schema v w1 = (None, w')"
  shows "version w' = Some (case version w of None \<Rightarrow> latest | Some _ \<Rightarrow> sc_step schema)"
proof (cases v)
  case (Inl e)
  then show ?thesis using reports [OF assms(1)] assms(2)
    by (cases e) (auto simp: migrate_apply_def fatal_if_None no_change_ok_None dest: ups)
next
  case (Inr nd)
  obtain n d where nd: "nd = (n, d)" by fastforce
  have n: "version w = Some n" "version w1 = Some n" using reports [OF assms(1)] Inr nd by auto
  obtain w2 where w2: "migrate_clean m schema n d w1 = (None, w2)"
    "(if n \<noteq> sc_step schema then fatal_if ''ERROR: Migration failed: '' (no_change_ok (mg_Migrate m (sc_step schema) w2)) else (None, w2)) = (None, w')"
    using assms(2) Inr nd by (auto simp: migrate_apply_def and_then_None)
  then show ?thesis using cleaned [OF w2(1) n(2)] n
    by (auto simp: fatal_if_None no_change_ok_None dest: migrates split: if_splits)
qed

lemma migration_outcome:
  assumes run: "migrateSchema m schema w = (None, w')"
  shows "version w' = Some (case version_before schema w of None \<Rightarrow> latest | Some _ \<Rightarrow> sc_step schema)"
proof -
  obtain w1 where w1: "migrate_prepare m schema w = (None, w1)"
      "and_then (case mg_Version m w1 of (v, w) \<Rightarrow> migrate_apply m schema v w) (migrate_check m) = (None, w')"
    using run by (simp add: migrateSchema_def and_then_None split: if_splits) blast+
  obtain v w2 where v: "mg_Version m w1 = (v, w2)" by fastforce
  obtain w3 where w3: "migrate_apply m schema v w2 = (None, w3)" and c: "migrate_check m w3 = (None, w')"
    using w1(2) v by (auto simp: and_then_None)
  have "version w' = version w3"
    using c reports [of w3] by (auto simp: migrate_check_def split: prod.splits sum.splits version_err.splits)
  then show ?thesis using applied [OF v w3] prepared [OF w1(1)] by simp
qed

end

text \<open>A schema with three versions in memory.\<close>

definition sim_migration :: "nat option migration" where
  "sim_migration = \<lparr>mg_Open = (\<lambda>w. (None, w)), mg_Down = (\<lambda>w. (None, None)), mg_Force = (\<lambda>n w. (None, Some (nat n))),
     mg_Version = (\<lambda>w. (case w of None \<Rightarrow> Inl ErrNilVersion | Some n \<Rightarrow> Inr (n, False), w)),
     mg_Up = (\<lambda>w. (if w = Some 3 then Some ErrNoChange else None, Some 3)),
     mg_Migrate = (\<lambda>n w. (if w = Some n then Some ErrNoChange else None, Some n))\<rparr>"

interpretation simmg: versioned_schema sim_migration id 3
  by unfold_locales (auto simp: sim_migration_def split: option.splits if_splits)

text \<open>A first installation that asks for step 2 ends at step 3.\<close>

lemma first_install_ignores_step:
  "migrateSchema sim_migration \<lparr>sc_step = 2, sc_forceStep = -1, sc_fresh = False\<rparr> None = (None, Some 3)"
  by (simp add: migrateSchema_def migrate_prepare_def migrate_apply_def migrate_check_def and_then_def no_change_ok_def fatal_if_def sim_migration_def)

end
