(* ===== verification/Model_Encodings.thy ===== *)
theory Model_Encodings
  imports Power_Capping
begin

section \<open>Comparing and encoding the data model\<close>

text \<open>
  Of \<^verbatim>\<open>internal/model\<close>: the comparison of power capping responses, the encoding of a power status with its time stamp,
  the integers and names of the enumerations, and the columns that hold JSON. \<^verbatim>\<open>encoding/json\<close> on the plain structs is a parameter.
\<close>

subsection \<open>Comparing responses (power-cap.go)\<close>

text \<open>
  Two pointers agree when both are nil or their values are equal, which is equality of options. A component is compared
  with the first one of the same name, error and limits; its controls must all be among those, in any order.
\<close>

definition same_header :: "PowerCapComponent \<Rightarrow> PowerCapComponent \<Rightarrow> bool" where
  "same_header a b \<longleftrightarrow> pcc_Xname a = pcc_Xname b \<and> pcc_Error a = pcc_Error b \<and> pcc_Limits a = pcc_Limits b \<and>
     length (pcc_PowerCapLimits a) = length (pcc_PowerCapLimits b)"

fun comp_found :: "PowerCapComponent \<Rightarrow> PowerCapComponent list \<Rightarrow> bool" where
  "comp_found a [] = False"
| "comp_found a (b # bs) =
     (if \<not> same_header a b then comp_found a bs
      else list_all (\<lambda>ctlA. list_ex (\<lambda>ctlB. ctlA = ctlB) (pcc_PowerCapLimits b)) (pcc_PowerCapLimits a))"

definition PowerCapTaskResp_Equals :: "PowerCapTaskResp \<Rightarrow> PowerCapTaskResp \<Rightarrow> bool" where
  "PowerCapTaskResp_Equals a b \<longleftrightarrow>
     pr_Type a = pr_Type b \<and> pr_TaskStatus a = pr_TaskStatus b \<and> pr_TaskCounts a = pr_TaskCounts b \<and>
     length (pr_Components a) = length (pr_Components b) \<and>
     list_all (\<lambda>compA. comp_found compA (pr_Components b)) (pr_Components a)"

text \<open>For responses that name each component and each control once, the comparison is equality up to order.\<close>

lemma comp_found_iff:
  assumes "distinct (map pcc_Xname bs)"
  shows "comp_found a bs \<longleftrightarrow> (\<exists>b\<in>set bs. same_header a b \<and> set (pcc_PowerCapLimits a) \<subseteq> set (pcc_PowerCapLimits b))"
  using assms
proof (induction bs)
  case (Cons b bs)
  have "\<not> same_header a b'" if "same_header a b" "b' \<in> set bs" for b' using Cons.prems that by (auto simp: same_header_def)
  then show ?case using Cons by (cases "same_header a b") (auto simp: list_all_iff list_ex_iff)
qed simp

definition once :: "PowerCapTaskResp \<Rightarrow> bool" where
  "once r \<longleftrightarrow> distinct (map pcc_Xname (pr_Components r)) \<and> list_all (\<lambda>c. distinct (pcc_PowerCapLimits c)) (pr_Components r)"

definition same_component :: "PowerCapComponent \<Rightarrow> PowerCapComponent \<Rightarrow> bool" where
  "same_component a b \<longleftrightarrow> same_header a b \<and> set (pcc_PowerCapLimits a) = set (pcc_PowerCapLimits b)"

lemma found_same_component:
  assumes "once b" "distinct (pcc_PowerCapLimits x)"
  shows "comp_found x (pr_Components b) \<longleftrightarrow> (\<exists>y\<in>set (pr_Components b). same_component x y)"
proof -
  have "set (pcc_PowerCapLimits x) = set (pcc_PowerCapLimits y)"
    if "y \<in> set (pr_Components b)" "same_header x y" "set (pcc_PowerCapLimits x) \<subseteq> set (pcc_PowerCapLimits y)" for y
  proof (rule card_subset_eq [OF _ that(3)])
    show "card (set (pcc_PowerCapLimits x)) = card (set (pcc_PowerCapLimits y))"
      using assms that by (auto simp: distinct_card once_def list_all_iff same_header_def)
  qed simp
  then show ?thesis using assms(1) by (auto simp: comp_found_iff once_def same_component_def)
qed

text \<open>So it is symmetric there. In general it is not: a control listed twice hides one that is missing.\<close>

lemma Equals_symmetric:
  assumes "once a" "once b" "PowerCapTaskResp_Equals a b"
  shows "PowerCapTaskResp_Equals b a"
proof -
  let ?A = "set (pr_Components a)" and ?B = "set (pr_Components b)"
  have len: "length (pr_Components a) = length (pr_Components b)" using assms(3) by (simp add: PowerCapTaskResp_Equals_def)
  have f: "\<exists>y\<in>?B. same_component x y" if "x \<in> ?A" for x
    using assms that found_same_component [OF assms(2), of x] by (auto simp: PowerCapTaskResp_Equals_def list_all_iff once_def)
  have "pcc_Xname ` ?A \<subseteq> pcc_Xname ` ?B" using f by (fastforce simp: same_component_def same_header_def)
  moreover have "card (pcc_Xname ` set (pr_Components r)) = length (pr_Components r)" if "once r" for r
    using distinct_card [of "map pcc_Xname (pr_Components r)"] that by (simp add: once_def)
  ultimately have names: "pcc_Xname ` ?A = pcc_Xname ` ?B" using len assms(1,2) by (intro card_subset_eq) simp_all
  have "\<exists>x\<in>?A. same_component y x" if y: "y \<in> ?B" for y
  proof -
    obtain x where x: "x \<in> ?A" "pcc_Xname x = pcc_Xname y" using imageI [OF y, of pcc_Xname] unfolding names [symmetric] by auto
    obtain y' where y': "y' \<in> ?B" "same_component x y'" using f [OF x(1)] by blast
    then have "y' = y" using y x(2) assms(2) by (auto simp: once_def same_component_def same_header_def distinct_map inj_on_def)
    then show ?thesis using y'(2) by (intro bexI [OF _ x(1)]) (simp add: same_component_def same_header_def)
  qed
  then have "comp_found y (pr_Components a)" if "y \<in> ?B" for y
    using that found_same_component [OF assms(1), of y] assms(2) by (auto simp: once_def list_all_iff)
  then show ?thesis using assms(3) by (simp add: PowerCapTaskResp_Equals_def list_all_iff)
qed

lemma Equals_not_symmetric:
  "\<exists>a b. PowerCapTaskResp_Equals a b \<and> \<not> PowerCapTaskResp_Equals b a"
proof -
  let ?ctl = "\<lambda>n. \<lparr>ctl_Name = n, ctl_CurrentValue = None, ctl_MaximumValue = None, ctl_MinimumValue = None\<rparr>"
  let ?resp = "\<lambda>cs. \<lparr>pr_TaskID = [], pr_Type = [], pr_TaskCreateTime = 0, pr_AutomaticExpirationTime = 0, pr_TaskStatus = [],
    pr_TaskCounts = zero_pc_counts, pr_Components = [\<lparr>pcc_Xname = [], pcc_Error = [], pcc_Limits = None, pcc_PowerCapLimits = cs\<rparr>]\<rparr>"
  have "PowerCapTaskResp_Equals (?resp [?ctl ''a'', ?ctl ''a'']) (?resp [?ctl ''a'', ?ctl ''b''])"
    "\<not> PowerCapTaskResp_Equals (?resp [?ctl ''a'', ?ctl ''b'']) (?resp [?ctl ''a'', ?ctl ''a''])"
    by (simp_all add: PowerCapTaskResp_Equals_def same_header_def)
  then show ?thesis by blast
qed

subsection \<open>A power status as JSON (power-status.go)\<close>

text \<open>
  \<open>enc p s\<close> is the encoding of the struct with the text \<open>s\<close> in place of its time stamp; \<open>dec data q\<close> decodes the
  fields that are present into \<open>q\<close>, and the text of the time stamp apart. \<open>zero\<close> is \<^verbatim>\<open>time.Time{}\<close>.
\<close>

definition PSC_MarshalJSON :: "time \<Rightarrow> (time \<Rightarrow> string) \<Rightarrow> (PowerStatusComponent \<Rightarrow> string \<Rightarrow> string) \<Rightarrow> PowerStatusComponent \<Rightarrow> string" where
  "PSC_MarshalJSON zero Format enc p = enc p (if ps_LastUpdated p = zero then [] else Format (ps_LastUpdated p))"

definition PSC_UnmarshalJSON ::
  "time \<Rightarrow> (string \<Rightarrow> error + time) \<Rightarrow> (string \<Rightarrow> PowerStatusComponent \<Rightarrow> error + PowerStatusComponent \<times> string option) \<Rightarrow>
   string \<Rightarrow> PowerStatusComponent \<Rightarrow> error + PowerStatusComponent" where
  "PSC_UnmarshalJSON zero Parse dec data p =
     (case dec data p of
        Inl err \<Rightarrow> Inl err
      | Inr (p, None) \<Rightarrow> Inr p
      | Inr (p, Some lastUpdated) \<Rightarrow>
          if lastUpdated = [] then Inr (p\<lparr>ps_LastUpdated := zero\<rparr>)
          else (case Parse lastUpdated of Inl err \<Rightarrow> Inl err | Inr t \<Rightarrow> Inr (p\<lparr>ps_LastUpdated := t\<rparr>)))"

text \<open>Decoding what was encoded gives the status back, also one that was never updated, whatever it is decoded into.\<close>

lemma PSC_json_roundtrip:
  assumes "\<And>p s q. dec (enc p s) q = Inr (p\<lparr>ps_LastUpdated := ps_LastUpdated q\<rparr>, Some s)"
    and "\<And>t. t \<noteq> zero \<Longrightarrow> Format t \<noteq> [] \<and> Parse (Format t) = Inr t"
  shows "PSC_UnmarshalJSON zero Parse dec (PSC_MarshalJSON zero Format enc p) q = Inr p"
  using assms(2) [of "ps_LastUpdated p"] by (cases "ps_LastUpdated p = zero") (simp_all add: PSC_MarshalJSON_def PSC_UnmarshalJSON_def assms(1))

subsection \<open>The enumerations as integers (transitions.go, power-status.go)\<close>

text \<open>
  Each enumeration of the model counts from \<open>-1\<close>, its nil value, and names a value by indexing an array with it. Operations are
  ordered as the integers they are.
\<close>

fun Operation_EnumIndex :: "Operation \<Rightarrow> int" where
  "Operation_EnumIndex Operation_Nil = -1"
| "Operation_EnumIndex Operation_On = 0"
| "Operation_EnumIndex Operation_Off = 1"
| "Operation_EnumIndex Operation_SoftRestart = 2"
| "Operation_EnumIndex Operation_HardRestart = 3"
| "Operation_EnumIndex Operation_Init = 4"
| "Operation_EnumIndex Operation_ForceOff = 5"
| "Operation_EnumIndex Operation_SoftOff = 6"

fun TaskState_EnumIndex :: "TaskState \<Rightarrow> int" where
  "TaskState_EnumIndex TaskState_Nil = -1"
| "TaskState_EnumIndex TaskState_GatherData = 0"
| "TaskState_EnumIndex TaskState_Sending = 1"
| "TaskState_EnumIndex TaskState_Waiting = 2"
| "TaskState_EnumIndex TaskState_Confirmed = 3"

fun PowerStateFilter_EnumIndex :: "PowerStateFilter \<Rightarrow> int" where
  "PowerStateFilter_EnumIndex PowerStateFilter_Nil = -1"
| "PowerStateFilter_EnumIndex PowerStateFilter_On = 0"
| "PowerStateFilter_EnumIndex PowerStateFilter_Off = 1"
| "PowerStateFilter_EnumIndex PowerStateFilter_Undefined = 2"

fun ManagementStateFilter_EnumIndex :: "ManagementStateFilter \<Rightarrow> int" where
  "ManagementStateFilter_EnumIndex ManagementStateFilter_Nil = -1"
| "ManagementStateFilter_EnumIndex ManagementStateFilter_available = 0"
| "ManagementStateFilter_EnumIndex ManagementStateFilter_unavailable = 1"
| "ManagementStateFilter_EnumIndex ManagementStateFilter_undefined = 2"

text \<open>Indexing an array: outside its bounds the program panics, here \<open>None\<close>.\<close>

definition array_at :: "'a list \<Rightarrow> int \<Rightarrow> 'a option" where
  "array_at xs i = (if 0 \<le> i \<and> i < int (length xs) then Some (xs ! nat i) else None)"

definition TaskState_String :: "TaskState \<Rightarrow> string option" where
  "TaskState_String ts =
     array_at [''Gathering Data'', ''Sending Command'', ''Waiting to Confirm'', ''Confirmed Transition'', ''Failed'', ''Complete'']
       (TaskState_EnumIndex ts)"

text \<open>
  The name tables of the operations and of the two filters, written case by case in the data model, are the arrays of the source
  at the value's index; a filter's nil value is checked before, an operation's is not.
\<close>

lemma Operation_String_indexes:
  "Operation_String op =
     array_at [''On'', ''Off'', ''Soft-Restart'', ''Hard-Restart'', ''Init'', ''Force-Off'', ''Soft-Off''] (Operation_EnumIndex op)"
  by (cases op) (simp_all add: array_at_def)

lemma PowerStateFilter_String_indexes:
  "Some (PowerStateFilter_String psf) =
     (if PowerStateFilter_EnumIndex psf < 0 then Some ''invalid''
      else array_at [''on'', ''off'', ''undefined''] (PowerStateFilter_EnumIndex psf))"
  by (cases psf) (simp_all add: array_at_def)

lemma ManagementStateFilter_String_indexes:
  "Some (ManagementStateFilter_String msf) =
     (if ManagementStateFilter_EnumIndex msf < 0 then Some ''invalid''
      else array_at [''available'', ''unavailable'', ''undefined''] (ManagementStateFilter_EnumIndex msf))"
  by (cases msf) (simp_all add: array_at_def)

lemma Operation_EnumIndex_inject [simp]: "Operation_EnumIndex a = Operation_EnumIndex b \<longleftrightarrow> a = b"
  by (cases a; cases b) simp_all

instantiation Operation :: linorder
begin

definition less_eq_Operation :: "Operation \<Rightarrow> Operation \<Rightarrow> bool" where
  "less_eq_Operation a b \<longleftrightarrow> Operation_EnumIndex a \<le> Operation_EnumIndex b"

definition less_Operation :: "Operation \<Rightarrow> Operation \<Rightarrow> bool" where
  "less_Operation a b \<longleftrightarrow> Operation_EnumIndex a < Operation_EnumIndex b"

instance
  by intro_classes (auto simp: less_eq_Operation_def less_Operation_def)

end

text \<open>The nil operation is the least, and the only one whose name the program cannot print.\<close>

lemma Operation_Nil_least: "Operation_Nil \<le> op"
  by (cases op) (simp_all add: less_eq_Operation_def)

lemma Operation_String_panics_iff: "Operation_String op = None \<longleftrightarrow> op < Operation_On"
  by (cases op) (simp_all add: less_Operation_def)

subsection \<open>Columns that hold JSON\<close>

text \<open>A column value is bytes or something else; the same code serves every type that is stored as JSON.\<close>

datatype sql_value = SqlBytes string | SqlOther

definition json_Scan :: "(string \<Rightarrow> error + 'a) \<Rightarrow> sql_value \<Rightarrow> error + 'a" where
  "json_Scan Unmarshal v = (case v of SqlBytes b \<Rightarrow> Unmarshal b | SqlOther \<Rightarrow> Inl ''type assertion to []byte failed'')"

end
