(* ===== verification/Spec2Isabelle.thy ===== *)
theory Spec2Isabelle
  imports Etcd_Paging Transition_Progress HSM_Reservations HSM_Components Power_Master Power_Cap_Tasks Task_Runner_Limits Api_Rejections Postgres_Properties Lock_Exclusion Credential_Store Access_Control Service_Startup Model_Encodings
begin

text \<open>
  The power control service (PCS): a verification library.

  \<^bold>\<open>The program.\<close> PCS powers hardware components on and off, limits their power, and reports their power state. An HTTP
  API (\<^verbatim>\<open>internal/api\<close>) calls the domain layer (\<^verbatim>\<open>internal/domain\<close>), which keeps its records through a storage provider
  (\<^verbatim>\<open>internal/storage\<close>), asks the hardware state manager about components and reserves them (\<^verbatim>\<open>internal/hsm\<close>), fetches
  credentials (\<^verbatim>\<open>internal/credstore\<close>) and sends Redfish requests to the controllers through a task runner
  (\<^verbatim>\<open>internal/taskrun\<close>). The layers exchange the structs of \<^verbatim>\<open>internal/model\<close>. Several instances of the service share
  one database; each request for a transition or for power capping runs in a goroutine of the instance that got it, and
  one instance, the master, samples the hardware for all.

  \<^bold>\<open>How it is modelled.\<close> A struct is a record, an enumeration a datatype or its name, a Go map an association list, a 64-bit
  integer an \<open>int\<close> with \<open>wrap64\<close> where it may overflow (a \<open>64 word\<close> for the counter of the task runner). A function that
  acts on the world outside the process is of type \<open>('w, 'a) io\<close>: it maps a state to a result and a state. One that may
  panic or wait for ever is of type \<open>('w, 'a) go\<close>, where \<open>None\<close> is not returning. An interface of the program is a record of such
  functions; code outside the repository (the key-value client, the reservation library, the HTTP client, the xname
  library, clock and UUIDs) is a parameter, and what is relied on is the \<open>assumes\<close> of a locale. Every locale is
  interpreted, on the providers of the program where it is their contract, and on an executable world (\<open>Sim_World\<close>,
  \<open>Sim_Domain\<close>), on which the witnesses run the model. Log output is left out.

  \<^bold>\<open>The theories.\<close>
  \<^item> \<open>PCS_Prelude\<close>, \<open>PCS_Xnames\<close>, \<open>Go_Json\<close>: basic types, Go strings, maps, 64-bit arithmetic, loops (\<open>fold\<close>, \<open>foldM\<close>), the
    parameters for xnames and the runtime, JSON text and paths, and the lemmas on them.
  \<^item> \<open>PCS_Model\<close>, \<open>Power_Cap_Model\<close>: \<^verbatim>\<open>internal/model\<close> and \<^verbatim>\<open>internal/hsm/models.go\<close>. Parsing and printing of operations, and
    that a response counts and lists every task once.
  \<^item> \<open>Storage_Provider\<close>: \<^verbatim>\<open>storage_interface.go\<close>, with the contract of transitions and tasks as the locales
    \<open>transition_store\<close> and \<open>strict_transition_store\<close>.
  \<^item> \<open>Etcd_Storage\<close>, \<open>Etcd_Refinement\<close>, \<open>Etcd_Paging\<close>: \<^verbatim>\<open>storage_etcd_impl.go\<close> and \<^verbatim>\<open>storage_mem_impl.go\<close> over a key-value
    store (locale \<open>kvi\<close>). Both providers implement the contract (the sublocales of \<open>etcd_kv\<close>); a transition that is too large for one
    object is truncated and paged, and reading joins the pages again.
  \<^item> \<open>Domain_Globals\<close>: \<^verbatim>\<open>domain/globals.go\<close> and the interfaces of HSM, task runner, credential store and lock.
  \<^item> \<open>Transition_Lifecycle\<close>: the records of transitions (\<^verbatim>\<open>domain/transitions.go\<close>): queries, abort, the guarded store, the
    keep-alive thread, completion, deletion and the reaper, over any store that keeps the contract (\<open>domain_store\<close>), also while
    others write (\<open>abort_rely\<close>).
  \<^item> \<open>Transition_Sequencing\<close>: the planning of a transition: its tasks, the actions each component needs for the target
    state, and the order of the tiers.
  \<^item> \<open>Transition_Execution\<close>, \<open>Transition_Tiers\<close>, \<open>Transition_Progress\<close>: \<^verbatim>\<open>doTransition\<close>: reservation, the requests and replies of
    each tier, confirmation and deadline. The invariant of a tier, and that at the end no task is unfinished.
  \<^item> \<open>HSM_Client\<close>, \<open>HSM_Reservations\<close>, \<open>HSM_Components\<close>: \<^verbatim>\<open>hsm/state_manager.go\<close>: reservations against the library's contract
    (\<open>reservation_service\<close>), deputy keys, component data, batches, power maps and power caps.
  \<^item> \<open>Power_Status\<close>, \<open>Power_Monitoring\<close>, \<open>Power_Master\<close>: \<^verbatim>\<open>domain/power-status.go\<close>: answering requests, sampling the hardware
    (\<open>sampled_hardware\<close>), and the election of the master as a step relation over all instances (\<open>master_stamp\<close>).
  \<^item> \<open>Power_Capping\<close>, \<open>Power_Cap_Store\<close>, \<open>Power_Cap_Requests\<close>, \<open>Power_Cap_Tasks\<close>: \<^verbatim>\<open>domain/power-cap.go\<close>: a task from its request
    to its compressed record, over a store of tasks and operations (\<open>cap_store\<close>) and providers that answer (\<open>cap_world\<close>).
  \<^item> \<open>Task_Runner\<close>, \<open>Task_Runner_Delivery\<close>, \<open>Task_Runner_Limits\<close>: \<^verbatim>\<open>internal/taskrun\<close>: launching lists of requests, the
    goroutines and channels as a step relation, retries, idle connections and closing. Delivery is what the domain theories assume of
    the task runner: every request launched comes back once, with a response or an error.
  \<^item> \<open>Api_Handlers\<close>, \<open>Api_Answers\<close>, \<open>Api_Roundtrip\<close>, \<open>Api_Rejections\<close>: \<^verbatim>\<open>internal/api\<close>: every handler from the decoding of its
    request to its answer, and the tables of routes. Every request gets one well-formed answer; a created transition is found
    again; a rejected request changes nothing (\<open>request_store\<close>).
  \<^item> \<open>Authentication\<close>, \<open>Access_Control\<close>: \<^verbatim>\<open>internal/auth\<close> and its selection at the start: unverified requests get no further than the
    check (\<open>token_check\<close>), and outbound tokens are usable when they are handed out.
  \<^item> \<open>Postgres_Storage\<close>, \<open>Postgres_Contract\<close>, \<open>Postgres_Properties\<close>: \<^verbatim>\<open>storage_postgres_impl.go\<close>: each method with the statement it
    sends, the meaning of the statements on tables (\<open>postgres_db\<close>), what is read back after a store, and two test-and-sets that
    interleave.
  \<^item> \<open>Dist_Locks\<close>, \<open>Lock_Exclusion\<close>: \<^verbatim>\<open>distlock_*_impl.go\<close>: the three locks; for PostgreSQL all instances as a step relation over one
    database (\<open>advisory_db\<close>), where at most one has the lock.
  \<^item> \<open>Credential_Store\<close>: \<^verbatim>\<open>internal/credstore\<close>: the cache over Vault, whose answers are recent (\<open>vault_world\<close>), and the search for the
    controller of a component.
  \<^item> \<open>Command_Line\<close>, \<open>Service_Startup\<close>: \<^verbatim>\<open>cmd/power-control\<close>: flags and their variables, the order of the start, the HTTP clients, the
    reaper's goroutine, and the migration of the schema (\<open>versioned_schema\<close>).
  \<^item> \<open>Model_Encodings\<close>: comparison, JSON encodings and the integer values of the enumerations of \<^verbatim>\<open>internal/model\<close>.

  \<^bold>\<open>Bounds and fuel.\<close> Loops that are bounded in the code carry its bound (three tries to abort). Loops that need not end
  take fuel or are \<open>partial_function (option)\<close>, and that they end is a theorem with the fuel it takes: the confirmation loop
  ends by its deadline, planning ends when no ancestor of a component to restart is requested (and never ends for a
  Soft-Restart otherwise), the keep-alive tick ends after a round that nobody disturbs.

  The loops that fetch a key set and connect to PostgreSQL carry their numbers of attempts; the search for a controller ends
  for a name whose ancestors end, and the connection to Vault is retried until it succeeds or the service stops.

  \<^bold>\<open>Not modelled.\<close> Log output and its level (\<^verbatim>\<open>internal/logger\<close>), the profiling handlers, declaring commands and usage texts with
  cobra, serving and signal handling: these are calls of packages with no decision of their own. Data races between
  goroutines (the cache of credentials is a map without a mutex) are outside a model whose calls are atomic; where the code interleaves on
  shared records (abort and store, elections, locks, test-and-sets, the task runner) the steps are modelled as a relation.
\<close>

end
